(* ===== verification/Prelude.thy ===== *)
theory Prelude
  imports Complex_Main "HOL-Library.Word"
begin

text \<open>
  Shared notions of the development: machine words at the widths of the C++ sources, faults
  (failed assertions, thrown errors, undefined behaviour) as values of a sum type, the bind of
  that type with its partial and total correctness rules, and the C library's \<open>rand()\<close> as an
  arbitrary stream of non-negative numbers.
\<close>

section \<open>Machine integers\<close>

type_synonym u8 = "8 word"
type_synonym u16 = "16 word"
type_synonym u32 = "32 word"
type_synonym u64 = "64 word"

named_theorems rule_okR \<open>partial correctness of operations that may fault\<close>
named_theorems rule_okO \<open>partial correctness of operations that may fault or not return\<close>
named_theorems rule_wp \<open>weakest preconditions of operations that may fault or not return\<close>
named_theorems rule_succR \<open>total correctness of operations that may fault\<close>

text \<open>The largest \<open>int\<close>, and the conversion of a floating point number to an integer.\<close>

definition INT_MAX :: int where
  "INT_MAX = 2 ^ 31 - 1"

definition trunc :: "rat \<Rightarrow> int" where
  "trunc x = (if 0 \<le> x then \<lfloor>x\<rfloor> else \<lceil>x\<rceil>)"

lemma trunc_bounds: "0 \<le> x \<Longrightarrow> of_int (trunc x) \<le> x \<and> x < of_int (trunc x) + 1"
  using floor_correct [of x] by (simp add: trunc_def)

lemma trunc_nonneg: "0 \<le> x \<Longrightarrow> 0 \<le> trunc x"
  by (simp add: trunc_def)

section \<open>Faults\<close>

text \<open>
  What can stop a handler: a failed \<open>ASSERT\<close> or \<open>assert\<close>, a thrown \<open>cRuntimeError\<close>
  (\<open>error(...)\<close>), an error raised by the simulation kernel for a misuse of its services, a null dereference, a use of an object that was deleted, an integer division by zero, a signed overflow, or any
  other behaviour the C++ standard leaves undefined.
\<close>

datatype fault =
    AssertFailed
  | RuntimeError string
  | KernelError string
  | NullDeref
  | DanglingPointer
  | DivisionByZero
  | SignedOverflow
  | UndefinedBehaviour

type_synonym 'a res = "fault + 'a"

definition bindR :: "'a res \<Rightarrow> ('a \<Rightarrow> 'b res) \<Rightarrow> 'b res" where
  "bindR m f = (case m of Inl e \<Rightarrow> Inl e | Inr x \<Rightarrow> f x)"

definition assertR :: "bool \<Rightarrow> 'a res \<Rightarrow> 'a res" where
  "assertR b r = (if b then r else Inl AssertFailed)"

lemma bindR_simps [simp]:
  "bindR (Inl e) f = Inl e"
  "bindR (Inr x) f = f x"
  by (simp_all add: bindR_def)

lemma assertR_simps [simp]:
  "assertR True r = r"
  "assertR False r = Inl AssertFailed"
  by (simp_all add: assertR_def)

lemma bindR_Inr_iff: "bindR m f = Inr y \<longleftrightarrow> (\<exists>x. m = Inr x \<and> f x = Inr y)"
  by (cases m) auto

lemma bindR_Inl_iff:
  "bindR m f = Inl e \<longleftrightarrow> m = Inl e \<or> (\<exists>x. m = Inr x \<and> f x = Inl e)"
  by (cases m) auto

lemma assertR_Inr_iff: "assertR b r = Inr y \<longleftrightarrow> b \<and> r = Inr y"
  by (simp add: assertR_def)

lemma bindR_assoc: "bindR (bindR m f) g = bindR m (\<lambda>x. bindR (f x) g)"
  by (cases m) auto

text \<open>
  \<open>okR P r\<close>: if \<open>r\<close> is a result then it satisfies \<open>P\<close>; \<open>succR P r\<close>: \<open>r\<close> is a
  result (no fault) and satisfies \<open>P\<close>.
\<close>

definition okR :: "('a \<Rightarrow> bool) \<Rightarrow> 'a res \<Rightarrow> bool" where
  "okR P r = (case r of Inl _ \<Rightarrow> True | Inr x \<Rightarrow> P x)"

definition succR :: "('a \<Rightarrow> bool) \<Rightarrow> 'a res \<Rightarrow> bool" where
  "succR P r = (case r of Inl _ \<Rightarrow> False | Inr x \<Rightarrow> P x)"

lemma okR_simps [simp]: "okR P (Inl e)" "okR P (Inr x) = P x"
  by (simp_all add: okR_def)

lemma succR_simps [simp]: "\<not> succR P (Inl e)" "succR P (Inr x) = P x"
  by (simp_all add: succR_def)

lemma okR_bindR [rule_okR]:
  assumes "okR P m" and "\<And>x. P x \<Longrightarrow> okR Q (f x)"
  shows "okR Q (bindR m f)"
  using assms by (cases m) auto

lemma okR_assertR [rule_okR]: "(b \<Longrightarrow> okR Q r) \<Longrightarrow> okR Q (assertR b r)"
  by (cases b) auto

lemma okR_if [rule_okR]:
  "(b \<Longrightarrow> okR Q r) \<Longrightarrow> (\<not> b \<Longrightarrow> okR Q r') \<Longrightarrow> okR Q (if b then r else r')"
  by simp

lemma okR_mono: "okR P r \<Longrightarrow> (\<And>x. P x \<Longrightarrow> Q x) \<Longrightarrow> okR Q r"
  by (cases r) auto

lemma okR_D: "okR P r \<Longrightarrow> r = Inr x \<Longrightarrow> P x"
  by simp

lemma succR_bindR [rule_succR]:
  assumes "succR P m" and "\<And>x. P x \<Longrightarrow> succR Q (f x)"
  shows "succR Q (bindR m f)"
  using assms by (cases m) auto

lemma succR_assertR [rule_succR]: "b \<Longrightarrow> succR Q r \<Longrightarrow> succR Q (assertR b r)"
  by simp

lemma succR_mono: "succR P r \<Longrightarrow> (\<And>x. P x \<Longrightarrow> Q x) \<Longrightarrow> succR Q r"
  by (cases r) auto

lemma succR_iff: "succR P r \<longleftrightarrow> (\<exists>x. r = Inr x \<and> P x)"
  by (cases r) auto

lemma succR_okR: "succR P r \<Longrightarrow> okR P r"
  by (cases r) auto

text \<open>A loop over a list whose body may fault.\<close>

primrec foldR :: "('a \<Rightarrow> 's \<Rightarrow> 's res) \<Rightarrow> 'a list \<Rightarrow> 's \<Rightarrow> 's res" where
  "foldR f [] s = Inr s"
| "foldR f (x # xs) s = bindR (f x s) (foldR f xs)"

lemma foldR_append: "foldR f (xs @ ys) s = bindR (foldR f xs s) (foldR f ys)"
proof (induction xs arbitrary: s)
  case (Cons x xs)
  then show ?case by (cases "f x s") simp_all
qed simp

lemma foldR_okR:
  assumes "P s" and "\<And>x s. x \<in> set xs \<Longrightarrow> P s \<Longrightarrow> okR P (f x s)"
  shows "okR P (foldR f xs s)"
  using assms
proof (induction xs arbitrary: s)
  case (Cons x xs)
  then show ?case by (cases "f x s") (auto dest: okR_D)
qed simp

lemma foldR_succR:
  assumes "P s" and "\<And>x s. x \<in> set xs \<Longrightarrow> P s \<Longrightarrow> succR P (f x s)"
  shows "succR P (foldR f xs s)"
  using assms
proof (induction xs arbitrary: s)
  case (Cons x xs)
  have "succR P (f x s)" using Cons.prems by simp
  then obtain s' where "f x s = Inr s'" "P s'"
    by (auto simp: succR_iff)
  with Cons show ?case by simp
qed simp

section \<open>Operations that may not return\<close>

text \<open>
  An operation that contains a loop which may never end has a result of type \<open>'a res option\<close>:
  \<open>None\<close> when it does not return.
\<close>

definition bindO :: "'a res option \<Rightarrow> ('a \<Rightarrow> 'b res option) \<Rightarrow> 'b res option" where
  "bindO m f = (case m of None \<Rightarrow> None | Some r \<Rightarrow> (case r of Inl e \<Rightarrow> Some (Inl e) | Inr x \<Rightarrow> f x))"

definition okO :: "('a \<Rightarrow> bool) \<Rightarrow> 'a res option \<Rightarrow> bool" where
  "okO P m = (case m of None \<Rightarrow> True | Some r \<Rightarrow> okR P r)"

lemma bindO_simps [simp]:
  "bindO None f = None"
  "bindO (Some (Inl e)) f = Some (Inl e)"
  "bindO (Some (Inr x)) f = f x"
  by (simp_all add: bindO_def)

lemma okO_simps [simp]: "okO P None" "okO P (Some r) = okR P r"
  by (simp_all add: okO_def)

lemma bindO_Inr_iff: "bindO m f = Some (Inr y) \<longleftrightarrow> (\<exists>x. m = Some (Inr x) \<and> f x = Some (Inr y))"
  by (auto simp: bindO_def split: option.splits sum.splits)

lemma okO_bindO [rule_okO]:
  assumes "okO P m" and "\<And>x. m = Some (Inr x) \<Longrightarrow> P x \<Longrightarrow> okO Q (f x)"
  shows "okO Q (bindO m f)"
  using assms by (auto simp: bindO_def okO_def split: option.splits sum.splits)

lemma okO_if [rule_okO]:
  "(b \<Longrightarrow> okO Q r) \<Longrightarrow> (\<not> b \<Longrightarrow> okO Q r') \<Longrightarrow> okO Q (if b then r else r')"
  by simp

lemma okO_trivial: "okO (\<lambda>_. True) m"
  by (cases m) (auto simp: okR_def split: sum.splits)

lemma okO_D: "okO P m \<Longrightarrow> m = Some (Inr x) \<Longrightarrow> P x"
  by simp

lemma okO_mono: "okO P m \<Longrightarrow> (\<And>x. P x \<Longrightarrow> Q x) \<Longrightarrow> okO Q m"
  by (auto simp: okO_def intro: okR_mono split: option.splits)

lemma okO_I: "(\<And>x. m = Some (Inr x) \<Longrightarrow> P x) \<Longrightarrow> okO P m"
  by (auto simp: okO_def okR_def split: option.splits sum.splits)

text \<open>
  \<open>wpO Q E m\<close>: a result satisfies \<open>Q\<close> and a fault satisfies \<open>E\<close>.
\<close>

definition wpR :: "('a \<Rightarrow> bool) \<Rightarrow> (fault \<Rightarrow> bool) \<Rightarrow> 'a res \<Rightarrow> bool" where
  "wpR Q E r = (case r of Inl e \<Rightarrow> E e | Inr x \<Rightarrow> Q x)"

definition wpO :: "('a \<Rightarrow> bool) \<Rightarrow> (fault \<Rightarrow> bool) \<Rightarrow> 'a res option \<Rightarrow> bool" where
  "wpO Q E m = (case m of None \<Rightarrow> True | Some r \<Rightarrow> wpR Q E r)"

lemma wpR_simps [simp]: "wpR Q E (Inl e) = E e" "wpR Q E (Inr x) = Q x"
  by (simp_all add: wpR_def)

lemma wpO_simps [simp]: "wpO Q E None" "wpO Q E (Some r) = wpR Q E r"
  by (simp_all add: wpO_def)

lemma wpR_bindR [rule_wp]: "wpR (\<lambda>x. wpR Q E (f x)) E m \<Longrightarrow> wpR Q E (bindR m f)"
  by (cases m) auto

lemma wpO_bindO [rule_wp]: "wpO (\<lambda>x. wpO Q E (f x)) E m \<Longrightarrow> wpO Q E (bindO m f)"
  by (auto simp: bindO_def wpO_def wpR_def split: option.splits sum.splits)

lemma wpR_assertR [rule_wp]: "(b \<Longrightarrow> wpR Q E r) \<Longrightarrow> (\<not> b \<Longrightarrow> E AssertFailed) \<Longrightarrow> wpR Q E (assertR b r)"
  by (cases b) auto

lemma wpR_if [rule_wp]:
  "(b \<Longrightarrow> wpR Q E r) \<Longrightarrow> (\<not> b \<Longrightarrow> wpR Q E r') \<Longrightarrow> wpR Q E (if b then r else r')"
  by simp

lemma wpO_if [rule_wp]:
  "(b \<Longrightarrow> wpO Q E r) \<Longrightarrow> (\<not> b \<Longrightarrow> wpO Q E r') \<Longrightarrow> wpO Q E (if b then r else r')"
  by simp

lemma wpO_Some [rule_wp]: "wpR Q E r \<Longrightarrow> wpO Q E (Some r)"
  by simp

lemma wpR_Inr [rule_wp]: "Q x \<Longrightarrow> wpR Q E (Inr x)"
  by simp

lemma wpR_mono: "wpR P E m \<Longrightarrow> (\<And>x. P x \<Longrightarrow> Q x) \<Longrightarrow> wpR Q E m"
  by (cases m) auto

lemma wpO_mono: "wpO P E m \<Longrightarrow> (\<And>x. P x \<Longrightarrow> Q x) \<Longrightarrow> wpO Q E m"
  by (auto simp: wpO_def intro: wpR_mono split: option.splits)

lemma wpO_D: "wpO Q E m \<Longrightarrow> m = Some (Inr x) \<Longrightarrow> Q x" "wpO Q E m \<Longrightarrow> m = Some (Inl e) \<Longrightarrow> E e"
  by simp_all

section \<open>Invariants of step systems\<close>

text \<open>
  The shape of every safety argument of the development: what holds initially and is kept by each
  step holds in every reachable state.
\<close>

locale invariant_system =
  fixes init :: "'s \<Rightarrow> bool"
    and step :: "'s \<Rightarrow> 's \<Rightarrow> bool"
    and inv :: "'s \<Rightarrow> bool"
  assumes init_inv: "init s \<Longrightarrow> inv s"
    and step_inv: "inv s \<Longrightarrow> step s s' \<Longrightarrow> inv s'"
begin

lemma steps_inv: "step\<^sup>*\<^sup>* s s' \<Longrightarrow> inv s \<Longrightarrow> inv s'"
  by (induction rule: rtranclp_induct) (auto intro: step_inv)

lemma reachable_inv: "init s \<Longrightarrow> step\<^sup>*\<^sup>* s s' \<Longrightarrow> inv s'"
  using steps_inv init_inv by blast

end

section \<open>Random numbers\<close>

text \<open>
  The C library's generator is shared by all modules. Its future output is an arbitrary
  sequence of non-negative numbers; a call returns the head and leaves the rest.
\<close>

type_synonym rng = "nat \<Rightarrow> nat"

definition rand_value :: "rng \<Rightarrow> nat" where
  "rand_value r = r 0"

definition rand_next :: "rng \<Rightarrow> rng" where
  "rand_next r = (\<lambda>i. r (Suc i))"

lemma rand_value_next [simp]: "rand_value ((rand_next ^^ n) r) = r n"
proof -
  have "(rand_next ^^ n) r = (\<lambda>i. r (n + i))"
    by (induction n) (simp_all add: rand_next_def)
  then show ?thesis by (simp add: rand_value_def)
qed

section \<open>Statements\<close>

text \<open>A function that changes a module's state and may fault is a statement; a block is a list of statements.\<close>

primrec doR :: "('s \<Rightarrow> 's res) list \<Rightarrow> 's \<Rightarrow> 's res" where
  "doR [] s = Inr s"
| "doR (c # cs) s = bindR (c s) (doR cs)"

definition updR :: "('s \<Rightarrow> 's) \<Rightarrow> 's \<Rightarrow> 's res" where
  "updR f s = Inr (f s)"

definition ifR :: "('s \<Rightarrow> bool) \<Rightarrow> ('s \<Rightarrow> 's res) \<Rightarrow> ('s \<Rightarrow> 's res) \<Rightarrow> 's \<Rightarrow> 's res" where
  "ifR b c d s = (if b s then c s else d s)"

definition whenR :: "('s \<Rightarrow> bool) \<Rightarrow> ('s \<Rightarrow> 's res) \<Rightarrow> 's \<Rightarrow> 's res" where
  "whenR b c s = (if b s then c s else Inr s)"

definition checkR :: "('s \<Rightarrow> bool) \<Rightarrow> fault \<Rightarrow> 's \<Rightarrow> 's res" where
  "checkR b e s = (if b s then Inr s else Inl e)"

definition letR :: "('s \<Rightarrow> 'a res) \<Rightarrow> ('a \<Rightarrow> 's \<Rightarrow> 's res) \<Rightarrow> 's \<Rightarrow> 's res" where
  "letR e k s = bindR (e s) (\<lambda>x. k x s)"

lemmas stmt_defs = updR_def ifR_def whenR_def checkR_def letR_def

lemma bindR_doR_Nil [simp]: "bindR m (doR []) = m"
  by (cases m) simp_all

lemma doR_append: "doR (cs @ ds) s = bindR (doR cs s) (doR ds)"
  by (induction cs arbitrary: s) (auto simp: bindR_assoc intro!: arg_cong [where f = "bindR _"])

lemma wp_doR_Nil [rule_wp]: "Q s \<Longrightarrow> wpR Q E (doR [] s)"
  by simp

lemma wp_doR_Cons [rule_wp]: "wpR (\<lambda>s. wpR Q E (doR cs s)) E (c s) \<Longrightarrow> wpR Q E (doR (c # cs) s)"
  by (simp add: wpR_bindR)

lemma wp_updR [rule_wp]: "Q (f s) \<Longrightarrow> wpR Q E (updR f s)"
  by (simp add: updR_def)

lemma wp_ifR [rule_wp]:
  "(b s \<Longrightarrow> wpR Q E (c s)) \<Longrightarrow> (\<not> b s \<Longrightarrow> wpR Q E (d s)) \<Longrightarrow> wpR Q E (ifR b c d s)"
  by (simp add: ifR_def)

lemma wp_whenR [rule_wp]: "(b s \<Longrightarrow> wpR Q E (c s)) \<Longrightarrow> (\<not> b s \<Longrightarrow> Q s) \<Longrightarrow> wpR Q E (whenR b c s)"
  by (simp add: whenR_def)

lemma wp_checkR [rule_wp]: "(b s \<Longrightarrow> Q s) \<Longrightarrow> (\<not> b s \<Longrightarrow> E e) \<Longrightarrow> wpR Q E (checkR b e s)"
  by (simp add: checkR_def)

lemma wp_letR [rule_wp]: "wpR (\<lambda>x. wpR Q E (k x s)) E (e s) \<Longrightarrow> wpR Q E (letR e k s)"
  by (simp add: letR_def wpR_bindR)

end
