(* ===== verification/Std_Map.thy ===== *)
theory Std_Map
  imports Prelude "HOL-Library.Char_ord" "HOL-Library.List_Lexorder"
begin

text \<open>
  The containers of the C++ standard library the sources use. A \<open>std::map\<close> is the list of its
  pairs in iteration order, strictly increasing in the key; \<open>operator[]\<close> inserts the value
  type's default for a missing key, which the sources rely on (and sometimes do by accident).
\<close>

type_synonym ('k, 'v) omap = "('k \<times> 'v) list"

definition om_wf :: "('k::linorder, 'v) omap \<Rightarrow> bool" where
  "om_wf m \<longleftrightarrow> sorted_wrt (<) (map fst m)"

definition om_find :: "('k, 'v) omap \<Rightarrow> 'k \<Rightarrow> 'v option" where
  "om_find m k = map_of m k"

fun om_set :: "'k::linorder \<Rightarrow> 'v \<Rightarrow> ('k, 'v) omap \<Rightarrow> ('k, 'v) omap" where
  "om_set k v [] = [(k, v)]"
| "om_set k v ((k', v') # m) =
     (if k < k' then (k, v) # (k', v') # m
      else if k = k' then (k, v) # m
      else (k', v') # om_set k v m)"

text \<open>\<open>m[k]\<close> read: the value, and the map with the default inserted when the key was missing.\<close>

definition om_index :: "'v \<Rightarrow> 'k::linorder \<Rightarrow> ('k, 'v) omap \<Rightarrow> 'v \<times> ('k, 'v) omap" where
  "om_index d k m = (case om_find m k of Some v \<Rightarrow> (v, m) | None \<Rightarrow> (d, om_set k d m))"

lemma om_wf_Nil [simp]: "om_wf []"
  by (simp add: om_wf_def)

lemma om_find_Nil [simp]: "om_find [] k = None"
  by (simp add: om_find_def)

lemma om_keys_set: "fst ` set (om_set k v m) = insert k (fst ` set m)"
  by (induction k v m rule: om_set.induct) auto

lemma om_find_set: "om_find (om_set k v m) k' = (if k' = k then Some v else om_find m k')"
  by (induction k v m rule: om_set.induct) (auto simp: om_find_def)

lemma om_wf_set: "om_wf m \<Longrightarrow> om_wf (om_set k v m)"
proof (induction k v m rule: om_set.induct)
  case (2 k v k' v' m)
  have keys: "set (map fst (om_set k v m)) = insert k (set (map fst m))"
    using om_keys_set [of k v m] by simp
  from 2 show ?case
    using keys by (auto simp: om_wf_def)
qed (simp add: om_wf_def)

lemma om_wf_distinct: "om_wf m \<Longrightarrow> distinct (map fst m)"
  by (induction m) (auto simp: om_wf_def)

lemma om_find_mem: "om_wf m \<Longrightarrow> om_find m k = Some v \<longleftrightarrow> (k, v) \<in> set m"
  unfolding om_find_def by (rule map_of_eq_Some_iff) (rule om_wf_distinct)

lemma om_find_None: "om_find m k = None \<longleftrightarrow> k \<notin> fst ` set m"
  by (simp add: om_find_def map_of_eq_None_iff)

lemma om_set_mem:
  "om_wf m \<Longrightarrow> set (om_set k v m) = insert (k, v) {p \<in> set m. fst p \<noteq> k}"
proof (induction k v m rule: om_set.induct)
  case (2 k v k' v' m)
  then have "\<forall>p \<in> set m. k' < fst p" and "om_wf m"
    by (auto simp: om_wf_def)
  with 2 show ?case by auto
qed simp

section \<open>The interface of an ordered map\<close>

text \<open>
  What the client code relies on: a lookup after an update, the invariant every update keeps,
  and that iteration visits exactly the entries, in increasing key order.
\<close>

locale ordered_map =
  fixes update :: "'k::linorder \<Rightarrow> 'v \<Rightarrow> 'm \<Rightarrow> 'm"
    and lookup :: "'m \<Rightarrow> 'k \<Rightarrow> 'v option"
    and entries :: "'m \<Rightarrow> ('k \<times> 'v) list"
    and invar :: "'m \<Rightarrow> bool"
  assumes lookup_update: "invar m \<Longrightarrow> lookup (update k v m) k' = (if k' = k then Some v else lookup m k')"
    and invar_update: "invar m \<Longrightarrow> invar (update k v m)"
    and lookup_entries: "invar m \<Longrightarrow> lookup m k = Some v \<longleftrightarrow> (k, v) \<in> set (entries m)"
    and entries_sorted: "invar m \<Longrightarrow> sorted_wrt (<) (map fst (entries m))"
begin

text \<open>The first entry an iteration finds is the one with the least key.\<close>

lemma find_least:
  assumes inv: "invar m"
    and found: "find P (entries m) = Some (k, v)"
    and other: "lookup m k' = Some v'" "P (k', v')"
  shows "lookup m k = Some v \<and> P (k, v) \<and> k \<le> k'"
proof -
  obtain i where i: "i < length (entries m)" "P (entries m ! i)" "(k, v) = entries m ! i"
    and before: "\<forall>j < i. \<not> P (entries m ! j)"
    using found by (auto simp: find_Some_iff)
  obtain j where j: "j < length (entries m)" "entries m ! j = (k', v')"
    using other inv lookup_entries by (metis in_set_conv_nth)
  have "i \<le> j" using before j other by (metis not_le)
  then have "k \<le> k'"
  proof (cases "i = j")
    case True then show ?thesis using i j by simp
  next
    case False
    with \<open>i \<le> j\<close> have "i < j" by simp
    then have "map fst (entries m) ! i < map fst (entries m) ! j"
      using entries_sorted [OF inv] j(1) by (simp add: sorted_wrt_iff_nth_less)
    then show ?thesis using i j \<open>i < j\<close> by (metis fst_conv less_imp_le nth_map)
  qed
  moreover have "lookup m k = Some v"
    using i inv lookup_entries by (metis nth_mem)
  ultimately show ?thesis using i by simp
qed

lemma find_complete:
  assumes "invar m" and "lookup m k = Some v" and "P (k, v)"
  shows "\<exists>k' v'. find P (entries m) = Some (k', v') \<and> lookup m k' = Some v' \<and> P (k', v')"
proof -
  have "(k, v) \<in> set (entries m)" using assms lookup_entries by blast
  then obtain k' v' where f: "find P (entries m) = Some (k', v')"
    using assms(3) by (metis find_None_iff not_None_eq surj_pair)
  then show ?thesis using find_least [OF assms(1) f assms(2,3)]
    by (auto simp: find_Some_iff)
qed

lemma lookup_update_twice:
  "invar m \<Longrightarrow> lookup (update k v (update k w m)) = lookup (update k v m)"
  by (simp add: fun_eq_iff lookup_update invar_update)

end

interpretation om: ordered_map om_set om_find "\<lambda>m. m" om_wf
  by unfold_locales (simp_all add: om_find_set om_wf_set om_find_mem, simp add: om_wf_def)

end
