(* ===== verification/Mac_Address.thy ===== *)
theory Mac_Address
  imports Std_Map
begin

text \<open>
  \<open>linklayer/contract/MACAddress.{h,cc}\<close>: six-byte IEEE 802 addresses, their textual form and the
  parser of that form. The textual form is the key of the Bloom and RARE tables, so the round trip
  and the order of the textual forms are what the routing code relies on.
\<close>

unbundle bit_operations_syntax

section \<open>Characters and C strings\<close>

definition char_code :: "char \<Rightarrow> nat" where
  "char_code c = of_char c"

definition c_str :: "string \<Rightarrow> string" where
  "c_str s = takeWhile (\<lambda>c. char_code c \<noteq> 0) s"

definition isdigit :: "char \<Rightarrow> bool" where
  "isdigit c \<longleftrightarrow> 48 \<le> char_code c \<and> char_code c \<le> 57"

definition islower :: "char \<Rightarrow> bool" where
  "islower c \<longleftrightarrow> 97 \<le> char_code c \<and> char_code c \<le> 122"

definition isxdigit :: "char \<Rightarrow> bool" where
  "isxdigit c \<longleftrightarrow> isdigit c \<or> (65 \<le> char_code c \<and> char_code c \<le> 70) \<or>
     (97 \<le> char_code c \<and> char_code c \<le> 102)"

definition hexval :: "char \<Rightarrow> u8" where
  "hexval c = (if isdigit c then of_nat (char_code c) - 48
     else if islower c then of_nat (char_code c) - 97 + 10
     else of_nat (char_code c) - 65 + 10)"

section \<open>hextobin\<close>

text \<open>
  Reads \<open>size\<close> bytes from the hex digits of the string, discarding every other character; a byte
  whose digits are missing is zero. The second component is the number of bytes read.
\<close>

fun hextobin :: "string \<Rightarrow> nat \<Rightarrow> u8 list \<times> nat" where
  "hextobin s 0 = ([], 0)"
| "hextobin s (Suc n) =
     (if s = [] then (let (bs, k) = hextobin s n in (0 # bs, k))
      else (case dropWhile (\<lambda>c. \<not> isxdigit c) s of
          [] \<Rightarrow> (let (bs, k) = hextobin [] n in (0 # bs, k))
        | c # s1 \<Rightarrow>
            (case dropWhile (\<lambda>c. \<not> isxdigit c) s1 of
               [] \<Rightarrow> (let (bs, k) = hextobin [] n in (0 # bs, k))
             | c' # s2 \<Rightarrow>
                 (let (bs, k) = hextobin s2 n
                  in ((push_bit 4 (hexval c) + hexval c') # bs, Suc k)))))"

section \<open>Addresses\<close>

datatype mac = MACAddress u8 u8 u8 u8 u8 u8

fun address :: "mac \<Rightarrow> u8 list" where
  "address (MACAddress a b c d e f) = [a, b, c, d, e, f]"

fun mac_of_bytes :: "u8 list \<Rightarrow> mac" where
  "mac_of_bytes [a, b, c, d, e, f] = MACAddress a b c d e f"
| "mac_of_bytes _ = MACAddress 0 0 0 0 0 0"

definition UNSPECIFIED_ADDRESS :: mac where
  "UNSPECIFIED_ADDRESS = MACAddress 0 0 0 0 0 0"

definition BROADCAST_ADDRESS :: mac where
  "BROADCAST_ADDRESS = MACAddress 255 255 255 255 255 255"

definition getAddressByte :: "mac \<Rightarrow> nat \<Rightarrow> u8 res" where
  "getAddressByte m k =
     (if 6 \<le> k then Inl (RuntimeError ''Array of size 6'') else Inr (address m ! k))"

definition setAddressByte :: "mac \<Rightarrow> nat \<Rightarrow> u8 \<Rightarrow> mac res" where
  "setAddressByte m k b =
     (if 6 \<le> k then Inl (RuntimeError ''Array of size 6'')
      else Inr (mac_of_bytes ((address m)[k := b])))"

text \<open>The syntax check: hex digits are counted, spaces, colons and hyphens skipped.\<close>

fun count_hex_digits :: "string \<Rightarrow> nat option" where
  "count_hex_digits [] = Some 0"
| "count_hex_digits (c # s) =
     (if isxdigit c then map_option Suc (count_hex_digits s)
      else if c \<noteq> CHR '' '' \<and> c \<noteq> CHR '':'' \<and> c \<noteq> CHR ''-'' then None
      else count_hex_digits s)"

definition tryParse :: "mac \<Rightarrow> string \<Rightarrow> bool \<times> mac" where
  "tryParse m hexstr =
     (if count_hex_digits (c_str hexstr) \<noteq> Some 12 then (False, m)
      else (True, mac_of_bytes (fst (hextobin (c_str hexstr) 6))))"

definition setAddress :: "mac \<Rightarrow> string \<Rightarrow> mac res" where
  "setAddress m hexstr =
     (case tryParse m hexstr of
        (ok, m') \<Rightarrow> if \<not> ok then Inl (RuntimeError ''MACAddress: wrong address syntax'') else Inr m')"

definition mac_from_string :: "string \<Rightarrow> mac res" where
  "mac_from_string hexstr = setAddress UNSPECIFIED_ADDRESS hexstr"

definition setBroadcast :: "mac \<Rightarrow> mac" where
  "setBroadcast m = MACAddress 255 255 255 255 255 255"

fun isBroadcast :: "mac \<Rightarrow> bool" where
  "isBroadcast (MACAddress a b c d e f) \<longleftrightarrow> (a AND b AND c AND d AND e AND f) = 255"

fun isMulticast :: "mac \<Rightarrow> bool" where
  "isMulticast (MACAddress a b c d e f) \<longleftrightarrow> a AND 128 \<noteq> 0"

fun isUnspecified :: "mac \<Rightarrow> bool" where
  "isUnspecified (MACAddress a b c d e f) \<longleftrightarrow>
     \<not> (a \<noteq> 0 \<or> b \<noteq> 0 \<or> c \<noteq> 0 \<or> d \<noteq> 0 \<or> e \<noteq> 0 \<or> f \<noteq> 0)"

definition hexdigit :: "nat \<Rightarrow> char" where
  "hexdigit n = char_of (if n < 10 then 48 + n else 55 + n)"

definition sprintf_2X :: "u8 \<Rightarrow> string" where
  "sprintf_2X b = [hexdigit (unat b div 16), hexdigit (unat b mod 16)]"

definition mac_str :: "mac \<Rightarrow> string" where
  "mac_str m = butlast (concat (map (\<lambda>b. sprintf_2X b @ ''-'') (address m)))"

fun memcmp :: "u8 list \<Rightarrow> u8 list \<Rightarrow> int" where
  "memcmp (x # xs) (y # ys) = (if x < y then -1 else if y < x then 1 else memcmp xs ys)"
| "memcmp _ _ = 0"

definition mac_equals :: "mac \<Rightarrow> mac \<Rightarrow> bool" where
  "mac_equals m m' \<longleftrightarrow> memcmp (address m) (address m') = 0"

definition compareTo :: "mac \<Rightarrow> mac \<Rightarrow> int" where
  "compareTo m m' = memcmp (address m) (address m')"

text \<open>The interface identifier, as the pair of arguments \<open>(low, high)\<close> of \<open>InterfaceToken\<close>.\<close>

fun formInterfaceIdentifier :: "mac \<Rightarrow> u32 \<times> u32" where
  "formInterfaceIdentifier (MACAddress a b c d e f) =
     (push_bit 24 254 OR push_bit 16 (ucast d) OR push_bit 8 (ucast e) OR ucast f,
      push_bit 24 (ucast a) OR push_bit 16 (ucast b) OR push_bit 8 (ucast c) OR 255)"

definition generateAutoAddress :: "u32 \<Rightarrow> mac \<times> u32" where
  "generateAutoAddress autoAddressCtr =
     (let ctr = autoAddressCtr + 1
      in (MACAddress 0x0A 0xAA (ucast (drop_bit 24 ctr AND 0xff)) (ucast (drop_bit 16 ctr AND 0xff))
            (ucast (drop_bit 8 ctr AND 0xff)) (ucast (ctr AND 0xff)), ctr))"

section \<open>Basic facts\<close>

lemma length_address [simp]: "length (address m) = 6"
  by (cases m) simp

lemma mac_of_bytes_address [simp]: "mac_of_bytes (address m) = m"
  by (cases m) simp

lemma address_inject [simp]: "address m = address m' \<longleftrightarrow> m = m'"
  by (metis mac_of_bytes_address)

lemma memcmp_0_iff: "length xs = length ys \<Longrightarrow> memcmp xs ys = 0 \<longleftrightarrow> xs = ys"
  by (induction xs ys rule: memcmp.induct) auto

lemma memcmp_less_iff: "length xs = length ys \<Longrightarrow> memcmp xs ys < 0 \<longleftrightarrow> xs < ys"
  by (induction xs ys rule: memcmp.induct) auto

lemma mac_equals_eq [simp]: "mac_equals m m' \<longleftrightarrow> m = m'"
  by (simp add: mac_equals_def memcmp_0_iff)

lemma compareTo_0_iff [simp]: "compareTo m m' = 0 \<longleftrightarrow> m = m'"
  by (simp add: compareTo_def memcmp_0_iff)

lemma isUnspecified_iff [simp]: "isUnspecified m \<longleftrightarrow> m = UNSPECIFIED_ADDRESS"
  by (cases m) (auto simp: UNSPECIFIED_ADDRESS_def)

section \<open>Hex digits\<close>

lemma nat_less_16_cases:
  "n < 16 \<Longrightarrow> n \<in> {0, 1, 2, 3, 4, 5, 6, 7, 8, 9, 10, 11, 12, 13, 14, 15 :: nat}"
  by simp arith

lemma hexdigit_code: "n < 16 \<Longrightarrow> char_code (hexdigit n) = (if n < 10 then 48 + n else 55 + n)"
  by (simp add: char_code_def hexdigit_def)

lemma hexdigit_isxdigit [simp]: "n < 16 \<Longrightarrow> isxdigit (hexdigit n)"
  by (auto simp: isxdigit_def isdigit_def hexdigit_code)

lemma hexval_hexdigit [simp]: "n < 16 \<Longrightarrow> hexval (hexdigit n) = of_nat n"
  by (drule nat_less_16_cases) (auto simp: hexval_def isdigit_def islower_def hexdigit_code)

lemma hexdigit_not_nul [simp]: "n < 16 \<Longrightarrow> char_code (hexdigit n) \<noteq> 0"
  by (auto simp: hexdigit_code)

lemma hexdigit_not_hyphen [simp]: "n < 16 \<Longrightarrow> hexdigit n \<noteq> CHR ''-''"
  using hexdigit_code [of n] by (auto simp: char_code_def split: if_splits)

lemma hexdigit_less_iff: "m < 16 \<Longrightarrow> n < 16 \<Longrightarrow> hexdigit m < hexdigit n \<longleftrightarrow> m < n"
  by (auto simp: less_char_def hexdigit_def)

lemma hexdigit_eq_iff: "m < 16 \<Longrightarrow> n < 16 \<Longrightarrow> hexdigit m = hexdigit n \<longleftrightarrow> m = n"
  using hexdigit_less_iff [of m n] hexdigit_less_iff [of n m] by force

lemma unat_u8_div_less [simp]: "unat (b :: u8) div 16 < 16"
  using unsigned_less [of b, where ?'a = nat] by simp

lemma join_nibbles: "push_bit 4 (of_nat (unat b div 16)) + of_nat (unat b mod 16) = (b :: u8)"
proof -
  have "push_bit 4 (of_nat (unat b div 16)) = (of_nat (16 * (unat b div 16)) :: u8)"
    by (simp add: push_bit_eq_mult)
  then show ?thesis
    by (metis mult_div_mod_eq of_nat_add of_nat_unat ucast_id)
qed

lemma hyphen_facts [simp]: "\<not> isxdigit CHR ''-''" "char_code CHR ''-'' = 45"
  by (simp_all add: isxdigit_def isdigit_def char_code_def)

section \<open>The textual form\<close>

lemma mac_str_simp:
  "mac_str (MACAddress a b c d e f) =
     sprintf_2X a @ ''-'' @ sprintf_2X b @ ''-'' @ sprintf_2X c @ ''-'' @
     sprintf_2X d @ ''-'' @ sprintf_2X e @ ''-'' @ sprintf_2X f"
  by (simp add: mac_str_def sprintf_2X_def)

lemma length_mac_str [simp]: "length (mac_str m) = 17"
  by (cases m) (simp add: mac_str_simp sprintf_2X_def)

lemma mac_str_nonempty [simp]: "mac_str m \<noteq> []"
  using length_mac_str [of m] by (metis list.size(3) zero_neq_numeral)

lemma c_str_mac_str [simp]: "c_str (mac_str m) = mac_str m"
  by (cases m) (simp add: c_str_def mac_str_simp sprintf_2X_def)

lemma hextobin_byte:
  "hextobin (sprintf_2X b @ s) (Suc n) = (b # fst (hextobin s n), Suc (snd (hextobin s n)))"
  "hextobin (CHR ''-'' # sprintf_2X b @ s) (Suc n) =
     (b # fst (hextobin s n), Suc (snd (hextobin s n)))"
  by (simp_all add: sprintf_2X_def join_nibbles case_prod_beta)

lemma count_hex_digits_byte:
  "count_hex_digits (sprintf_2X b @ s) = map_option (\<lambda>k. Suc (Suc k)) (count_hex_digits s)"
  by (simp add: sprintf_2X_def option.map_comp o_def)

lemma hextobin_mac_str: "hextobin (mac_str m) 6 = (address m, 6)"
proof (cases m)
  case (MACAddress a b c d e f)
  have six: "(6 :: nat) = Suc (Suc (Suc (Suc (Suc (Suc 0)))))" by simp
  have "hextobin (mac_str m) (Suc (Suc (Suc (Suc (Suc (Suc 0)))))) = (address m, 6)"
    using hextobin_byte(2) [of f "[]" 0]
    by (simp add: MACAddress mac_str_simp hextobin_byte del: hextobin.simps(2))
  then show ?thesis by (simp only: six)
qed

lemma count_hex_digits_mac_str: "count_hex_digits (mac_str m) = Some 12"
proof (cases m)
  case (MACAddress a b c d e f)
  then show ?thesis
    using count_hex_digits_byte [of f "[]"] by (simp add: mac_str_simp count_hex_digits_byte)
qed

lemma tryParse_mac_str: "tryParse m0 (mac_str m) = (True, m)"
  by (simp add: tryParse_def count_hex_digits_mac_str hextobin_mac_str)

lemma mac_from_string_mac_str [simp]: "mac_from_string (mac_str m) = Inr m"
  by (simp add: mac_from_string_def setAddress_def tryParse_mac_str)

lemma mac_str_inject [simp]: "mac_str m = mac_str m' \<longleftrightarrow> m = m'"
  by (metis mac_from_string_mac_str sum.inject(2))

lemma sprintf_2X_inject: "sprintf_2X a = sprintf_2X b \<longleftrightarrow> a = b"
  by (simp add: sprintf_2X_def hexdigit_eq_iff) (metis div_mult_mod_eq word_unat_eq_iff)

lemma nibble_less_iff:
  fixes q r q' r' :: nat
  assumes "r < 16" "r' < 16"
  shows "16 * q + r < 16 * q' + r' \<longleftrightarrow> q < q' \<or> q = q' \<and> r < r'"
  using assms by (cases q q' rule: linorder_cases) auto

lemma nat_less_nibbles:
  "(m :: nat) < n \<longleftrightarrow> m div 16 < n div 16 \<or> m div 16 = n div 16 \<and> m mod 16 < n mod 16"
  using nibble_less_iff [of "m mod 16" "n mod 16" "m div 16" "n div 16"] by simp

lemma sprintf_2X_less:
  "sprintf_2X a @ u < sprintf_2X b @ v \<longleftrightarrow> a < b \<or> a = b \<and> u < v"
proof -
  have "a = b \<longleftrightarrow> unat a div 16 = unat b div 16 \<and> unat a mod 16 = unat b mod 16"
    using sprintf_2X_inject [of a b] by (simp add: sprintf_2X_def hexdigit_eq_iff)
  moreover have "sprintf_2X a @ u < sprintf_2X b @ v \<longleftrightarrow>
      unat a div 16 < unat b div 16 \<or> unat a div 16 = unat b div 16 \<and>
      (unat a mod 16 < unat b mod 16 \<or> unat a mod 16 = unat b mod 16 \<and> u < v)"
    by (simp add: sprintf_2X_def hexdigit_less_iff hexdigit_eq_iff)
  moreover have "a < b \<longleftrightarrow> unat a div 16 < unat b div 16 \<or>
      unat a div 16 = unat b div 16 \<and> unat a mod 16 < unat b mod 16"
    using nat_less_nibbles [of "unat a" "unat b"] by (simp only: word_less_nat_alt)
  ultimately show ?thesis by blast
qed

lemma mac_str_less: "mac_str m < mac_str m' \<longleftrightarrow> address m < address m'"
proof (cases m)
  case m: (MACAddress a b c d e f)
  show ?thesis
  proof (cases m')
    case m': (MACAddress a' b' c' d' e' f')
    show ?thesis
      using sprintf_2X_less [of f "[]" f' "[]"]
      by (auto simp: m m' mac_str_simp sprintf_2X_less)
  qed
qed

lemma hyphen_in_mac_str: "\<exists>u. mac_str m = u @ ''-'' @ sprintf_2X (address m ! 5)"
  by (cases m) (auto simp: mac_str_simp)




text \<open>
  C37: printing and parsing MAC addresses are inverse: an address printed with \<open>str()\<close> is parsed
  back to itself, and the order of the printed forms (the iteration order of the tables keyed by
  them) is the byte order of the addresses.
\<close>

theorem mac_text_roundtrip:
  "mac_from_string (mac_str m) = Inr m \<and> (mac_str m < mac_str m' \<longleftrightarrow> address m < address m')"
  by (simp add: mac_str_less)



end
