(* ===== verification/Id_Builder.thy ===== *)
theory Id_Builder
  imports Mac_Address
begin

text \<open>
  \<open>srwsn/networklayer/IDBuilder.{h,cc}\<close>: the sixteen-bit node identifier, packed as ten bits of
  MAC extension, four bits of sink distance and two bits of area. The object's only state is
  \<open>my_id\<close>; an operation takes it and returns it. The class also extracts the last byte of a
  printed MAC address, with a loop whose termination depends on the width of \<open>size_t\<close>.
\<close>

section \<open>Accessors\<close>

definition setID :: "u16 \<Rightarrow> u16 \<Rightarrow> u16" where
  "setID i my_id = i"

definition getID :: "u16 \<Rightarrow> u16" where
  "getID my_id = my_id"

definition getMACExt :: "u16 \<Rightarrow> u16" where
  "getMACExt my_id = drop_bit 6 (my_id AND 65472)"

definition getSinkDistance :: "u16 \<Rightarrow> u16" where
  "getSinkDistance my_id = drop_bit 2 (my_id AND 60)"

definition getArea :: "u16 \<Rightarrow> u16" where
  "getArea my_id = my_id AND 3"

definition newIDBuilder :: "u16 \<Rightarrow> u16 res" where
  "newIDBuilder i = assertR (i < 65535) (Inr i)"

definition setSinkDistance :: "u16 \<Rightarrow> u16 \<Rightarrow> u16 res" where
  "setSinkDistance sinkDistance my_id =
     assertR (sinkDistance < 16) (Inr ((my_id AND 65475) + push_bit 2 sinkDistance))"

definition setArea :: "u16 \<Rightarrow> u16 \<Rightarrow> u16 res" where
  "setArea area my_id = assertR (area < 4) (Inr ((my_id AND 65532) + area))"

text \<open>The part of \<open>setMACExt\<close> after the conversion of the address string.\<close>

definition setMACExtNumber :: "u16 \<Rightarrow> u16 \<Rightarrow> u16 res" where
  "setMACExtNumber dec_n my_id = assertR (dec_n < 1024) (Inr ((my_id AND 63) + push_bit 6 dec_n))"

section \<open>The last number of a MAC address string\<close>

fun find_first_of :: "char \<Rightarrow> string \<Rightarrow> nat option" where
  "find_first_of c [] = None"
| "find_first_of c (x # xs) = (if x = c then Some 0 else map_option Suc (find_first_of c xs))"

text \<open>
  The search loop. \<open>bits\<close> is the width of \<open>std::string::size_type\<close>, so \<open>npos\<close> is
  \<open>2 ^ bits - 1\<close>; the variable \<open>cutAt\<close> is an \<open>unsigned int\<close> of 32 bits, to which a position
  or \<open>npos\<close> is truncated, and \<open>cutAt+1\<close> is computed at that width. \<open>None\<close>: the loop never
  ends.
\<close>

partial_function (option) cut_loop :: "nat \<Rightarrow> string \<Rightarrow> string option" where
  "cut_loop bits mac =
     (let npos = 2 ^ bits - 1;
          cutAt = (case find_first_of CHR ''-'' mac of Some i \<Rightarrow> i | None \<Rightarrow> npos) mod 2 ^ 32
      in if cutAt = npos then Some mac else cut_loop bits (drop ((cutAt + 1) mod 2 ^ 32) mac))"

definition isspace :: "char \<Rightarrow> bool" where
  "isspace c \<longleftrightarrow> char_code c = 32 \<or> 9 \<le> char_code c \<and> char_code c \<le> 13"

definition hex_number :: "string \<Rightarrow> nat" where
  "hex_number ds = foldl (\<lambda>n c. 16 * n + unat (hexval c)) 0 ds"

text \<open>
  Formatted extraction \<open>>> std::hex >> dec_n\<close>: leading white space and an optional \<open>0x\<close> are
  skipped, then the longest run of hex digits is read. \<open>None\<close> when the extraction fails (no
  digit, or a value above the range of \<open>uint16_t\<close>); the variable is then left as it was.
\<close>

definition extract_hex_u16 :: "string \<Rightarrow> u16 option" where
  "extract_hex_u16 s =
     (let t = dropWhile isspace s;
          u = (case t of c # d # r \<Rightarrow> if c = CHR ''0'' \<and> (d = CHR ''x'' \<or> d = CHR ''X'') then r else t
               | _ \<Rightarrow> t);
          ds = takeWhile isxdigit u
      in if ds = [] \<or> 65535 < hex_number ds then None else Some (of_nat (hex_number ds)))"

text \<open>\<open>junk\<close> is what the uninitialised \<open>dec_n\<close> holds.\<close>

definition getLastMACNumberToInt :: "nat \<Rightarrow> u16 \<Rightarrow> string \<Rightarrow> u16 option" where
  "getLastMACNumberToInt bits junk mac =
     map_option (\<lambda>m. case extract_hex_u16 m of Some n \<Rightarrow> n | None \<Rightarrow> junk) (cut_loop bits mac)"

definition setMACExt :: "nat \<Rightarrow> u16 \<Rightarrow> string \<Rightarrow> u16 \<Rightarrow> u16 res option" where
  "setMACExt bits junk mac my_id =
     map_option (\<lambda>dec_n. setMACExtNumber dec_n my_id) (getLastMACNumberToInt bits junk mac)"

definition isMACequal :: "nat \<Rightarrow> u16 \<Rightarrow> string \<Rightarrow> u16 \<Rightarrow> bool option" where
  "isMACequal bits junk mac my_id =
     map_option (\<lambda>n. n = getMACExt my_id) (getLastMACNumberToInt bits junk mac)"

section \<open>Bits of sixteen-bit words\<close>

lemma all_less_16:
  "(\<forall>n<16. P n) \<longleftrightarrow> P 0 \<and> P 1 \<and> P 2 \<and> P 3 \<and> P 4 \<and> P 5 \<and> P 6 \<and> P 7 \<and> P 8 \<and> P 9 \<and> P 10 \<and>
     P 11 \<and> P 12 \<and> P 13 \<and> P 14 \<and> P (15::nat)"
  by (simp add: eval_nat_numeral All_less_Suc2)

lemma u16_eq_bits: "(a::u16) = b \<longleftrightarrow> (\<forall>n<16. bit a n = bit b n)"
  by (auto intro: bit_word_eqI)

lemma u16_high_bit: "16 \<le> n \<Longrightarrow> \<not> bit (w::u16) n"
  by (auto dest: bit_imp_le_length)

lemma u16_below_bit: "w < 2 ^ k \<Longrightarrow> k \<le> n \<Longrightarrow> \<not> bit (w::u16) n"
  using less_mask_eq [of w k] by (metis bit_and_iff bit_mask_iff not_le)

lemmas u16_bits = u16_eq_bits all_less_16 bit_simps u16_high_bit

lemma put_field_or:
  "(w AND 63) + push_bit 6 d = (w AND 63) OR push_bit 6 (d :: u16)"
  "d < 16 \<Longrightarrow> (w AND 65475) + push_bit 2 d = (w AND 65475) OR push_bit 2 (d :: u16)"
  "d < 4 \<Longrightarrow> (w AND 65532) + d = (w AND 65532) OR (d :: u16)"
proof -
  show "(w AND 63) + push_bit 6 d = (w AND 63) OR push_bit 6 (d :: u16)"
    by (rule disjunctive_add_eq_or) (simp add: u16_bits)
  show "d < 16 \<Longrightarrow> (w AND 65475) + push_bit 2 d = (w AND 65475) OR push_bit 2 (d :: u16)"
    using u16_below_bit [of d 4] by (intro disjunctive_add_eq_or) (simp add: u16_bits)
  show "d < 4 \<Longrightarrow> (w AND 65532) + d = (w AND 65532) OR (d :: u16)"
    using u16_below_bit [of d 2] by (intro disjunctive_add_eq_or) (simp add: u16_bits)
qed

lemma field_bound: "getMACExt w < 1024" "getSinkDistance w < 16" "getArea w < 4"
proof -
  have "getMACExt w = drop_bit 6 w AND mask 10" "getSinkDistance w = drop_bit 2 w AND mask 4"
    "getArea w = w AND mask 2"
    by (simp_all add: getMACExt_def getSinkDistance_def getArea_def u16_bits)
  then show "getMACExt w < 1024" "getSinkDistance w < 16" "getArea w < 4"
    using and_mask_less_size [of 10 "drop_bit 6 w"] and_mask_less_size [of 4 "drop_bit 2 w"]
      and_mask_less_size [of 2 w] by (simp_all add: word_size)
qed

lemma get_put_ext:
  assumes "d < 1024"
  shows "getMACExt ((w AND 63) + push_bit 6 d) = d"
    "getSinkDistance ((w AND 63) + push_bit 6 d) = getSinkDistance w"
    "getArea ((w AND 63) + push_bit 6 d) = getArea w"
  using u16_below_bit [of d 10] assms
  by (simp_all add: put_field_or getMACExt_def getSinkDistance_def getArea_def u16_bits)

lemma get_put_dist:
  assumes "d < 16"
  shows "getSinkDistance ((w AND 65475) + push_bit 2 d) = d"
    "getMACExt ((w AND 65475) + push_bit 2 d) = getMACExt w"
    "getArea ((w AND 65475) + push_bit 2 d) = getArea w"
  using u16_below_bit [of d 4] assms
  by (simp_all add: put_field_or getMACExt_def getSinkDistance_def getArea_def u16_bits)

lemma get_put_area:
  assumes "d < 4"
  shows "getArea ((w AND 65532) + d) = d"
    "getMACExt ((w AND 65532) + d) = getMACExt w"
    "getSinkDistance ((w AND 65532) + d) = getSinkDistance w"
  using u16_below_bit [of d 2] assms
  by (simp_all add: put_field_or getMACExt_def getSinkDistance_def getArea_def u16_bits)

lemma id_eqI:
  assumes "getMACExt v = getMACExt w" "getSinkDistance v = getSinkDistance w" "getArea v = getArea w"
  shows "v = w"
  using assms
  by (simp add: getMACExt_def getSinkDistance_def getArea_def u16_bits) (simp add: eval_nat_numeral)

lemma id_value: "w = push_bit 6 (getMACExt w) + push_bit 2 (getSinkDistance w) + getArea w"
proof -
  have "push_bit 6 (getMACExt w) AND push_bit 2 (getSinkDistance w) = 0"
    "(push_bit 6 (getMACExt w) OR push_bit 2 (getSinkDistance w)) AND getArea w = 0"
    "w = push_bit 6 (getMACExt w) OR push_bit 2 (getSinkDistance w) OR getArea w"
    by (simp_all add: getMACExt_def getSinkDistance_def getArea_def u16_bits) (simp add: eval_nat_numeral)
  then show ?thesis by (simp add: disjunctive_add_eq_or or.assoc)
qed

lemmas id_put_defs = setMACExtNumber_def setSinkDistance_def setArea_def
lemmas id_get_put = get_put_ext get_put_dist get_put_area

lemma put_fields_same:
  "(w AND 63) + push_bit 6 (getMACExt w) = w"
  "(w AND 65475) + push_bit 2 (getSinkDistance w) = w"
  "(w AND 65532) + getArea w = w"
  by (rule id_eqI; simp add: id_get_put field_bound)+

lemma put_fields_mask:
  fixes c w :: u16
  shows "((w AND 63) + push_bit 6 c) AND 63 = w AND 63"
    and "c < 16 \<Longrightarrow> ((w AND 65475) + push_bit 2 c) AND 65475 = w AND 65475"
    and "c < 4 \<Longrightarrow> ((w AND 65532) + c) AND 65532 = w AND 65532"
  using u16_below_bit [of c 4] u16_below_bit [of c 2] by (simp_all add: put_field_or u16_bits)

section \<open>Packed fields\<close>

text \<open>
  The contract the three fields share: a value in range is stored and read back, a value out of
  range fails the assertion and stores nothing, and what is stored is all an earlier store left.
\<close>

locale packed_field =
  fixes get :: "'i \<Rightarrow> 'v::linorder"
    and put :: "'v \<Rightarrow> 'i \<Rightarrow> 'i res"
    and bound :: 'v
  assumes get_put: "v < bound \<Longrightarrow> succR (\<lambda>i'. get i' = v) (put v i)"
    and put_out: "\<not> v < bound \<Longrightarrow> put v i = Inl AssertFailed"
    and get_bound: "get i < bound"
    and put_same: "put (get i) i = Inr i"
    and put_put: "put w i = Inr i' \<Longrightarrow> put v i' = put v i"
begin

lemma put_Inr_iff: "(\<exists>i'. put v i = Inr i') \<longleftrightarrow> v < bound"
  using get_put [of v i] put_out [of v i] by (cases "v < bound") (auto simp: succR_iff)

lemma put_InrD: "put v i = Inr i' \<Longrightarrow> v < bound \<and> get i' = v"
  using get_put [of v i] put_out [of v i] by (cases "v < bound") (auto simp: succR_iff)

text \<open>A store can be undone by storing what the field held before.\<close>

lemma put_undo: "put v i = Inr i' \<Longrightarrow> put (get i) i' = Inr i"
  using put_put [of v i i' "get i"] by (simp add: put_same)

end

text \<open>Two fields that do not overlap.\<close>

locale packed_field_pair =
  f: packed_field get1 put1 bound1 + g: packed_field get2 put2 bound2
  for get1 :: "'i \<Rightarrow> 'v::linorder" and put1 :: "'v \<Rightarrow> 'i \<Rightarrow> 'i res" and bound1 :: 'v
    and get2 :: "'i \<Rightarrow> 'v" and put2 :: "'v \<Rightarrow> 'i \<Rightarrow> 'i res" and bound2 :: 'v +
  assumes keep2: "put1 v i = Inr i' \<Longrightarrow> get2 i' = get2 i"
    and keep1: "put2 v i = Inr i' \<Longrightarrow> get1 i' = get1 i"
begin

lemma put_both:
  assumes "put1 v i = Inr i1" and "put2 w i1 = Inr i2"
  shows "get1 i2 = v \<and> get2 i2 = w"
  using f.put_InrD [OF assms(1)] g.put_InrD [OF assms(2)] keep1 [OF assms(2)] by simp

end

interpretation ext_field: packed_field getMACExt setMACExtNumber 1024
  by unfold_locales
    (simp_all add: id_put_defs id_get_put field_bound assertR_def put_fields_same split: if_splits,
      auto simp: put_fields_mask)

interpretation dist_field: packed_field getSinkDistance setSinkDistance 16
  by unfold_locales
    (simp_all add: id_put_defs id_get_put field_bound assertR_def put_fields_same split: if_splits,
      auto simp: put_fields_mask)

interpretation area_field: packed_field getArea setArea 4
  by unfold_locales
    (simp_all add: id_put_defs id_get_put field_bound assertR_def put_fields_same split: if_splits,
      auto simp: put_fields_mask)

interpretation ext_dist: packed_field_pair getMACExt setMACExtNumber 1024 getSinkDistance setSinkDistance 16
  by unfold_locales (auto simp: id_put_defs assertR_def id_get_put split: if_splits)

interpretation dist_area: packed_field_pair getSinkDistance setSinkDistance 16 getArea setArea 4
  by unfold_locales (auto simp: id_put_defs assertR_def id_get_put split: if_splits)

interpretation ext_area: packed_field_pair getMACExt setMACExtNumber 1024 getArea setArea 4
  by unfold_locales (auto simp: id_put_defs assertR_def id_get_put split: if_splits)

section \<open>The search loop\<close>

lemma find_first_of_None: "find_first_of c s = None \<longleftrightarrow> c \<notin> set s"
  by (induction s) auto

lemma find_first_of_append: "c \<notin> set u \<Longrightarrow> find_first_of c (u @ c # v) = Some (length u)"
  by (induction u) auto

lemma cut_loop_none: "CHR ''-'' \<notin> set s \<Longrightarrow> cut_loop 32 s = Some s"
  by (subst cut_loop.simps) (simp add: find_first_of_None [THEN iffD2])

lemma cut_loop_step:
  assumes "CHR ''-'' \<notin> set u" and "length u < 2 ^ 32 - 1"
  shows "cut_loop 32 (u @ CHR ''-'' # v) = cut_loop 32 v"
  using assms by (subst cut_loop.simps) (simp add: find_first_of_append Let_def)

lemma cut_loop_last:
  assumes "CHR ''-'' \<notin> set v" and "length u < 2 ^ 32 - 1"
  shows "cut_loop 32 (u @ CHR ''-'' # v) = Some v"
  using assms(2)
proof (induction u rule: length_induct)
  case (1 u)
  show ?case
  proof (cases "CHR ''-'' \<in> set u")
    case True
    then obtain u1 u2 where u: "u = u1 @ CHR ''-'' # u2" and "CHR ''-'' \<notin> set u1"
      by (meson split_list_first)
    with "1.prems" have "cut_loop 32 (u @ CHR ''-'' # v) = cut_loop 32 (u2 @ CHR ''-'' # v)"
      using cut_loop_step [of u1 "u2 @ CHR ''-'' # v"] by simp
    moreover have "length u2 < length u" "length u2 < 2 ^ 32 - 1"
      using u "1.prems" by simp_all
    ultimately show ?thesis using "1.IH" by simp
  next
    case False
    with "1.prems" show ?thesis by (simp add: cut_loop_step cut_loop_none assms(1))
  qed
qed

text \<open>With a 64-bit \<open>size_type\<close> the comparison with \<open>npos\<close> never succeeds.\<close>

lemma cut_loop_diverges: "cut_loop 64 s = None"
proof (cases "cut_loop 64 s")
  case (Some r)
  have "(64::nat) \<noteq> 64"
  proof (rule cut_loop.raw_induct [where P = "\<lambda>bits s r. bits \<noteq> 64", OF _ Some])
    fix f :: "nat \<Rightarrow> string \<Rightarrow> string option" and bits and s :: string and r :: string
    assume IH: "\<And>bits s r. f bits s = Some r \<Longrightarrow> bits \<noteq> (64::nat)"
    assume eq: "(let npos = 2 ^ bits - 1;
            cutAt = (case find_first_of CHR ''-'' s of None \<Rightarrow> npos | Some i \<Rightarrow> i) mod 2 ^ 32
        in if cutAt = npos then Some s else f bits (drop ((cutAt + 1) mod 2 ^ 32) s)) = Some r"
    show "bits \<noteq> 64"
    proof
      assume b: "bits = 64"
      have "x mod 2 ^ 32 \<noteq> (2 ^ 64 - 1 :: nat)" for x :: nat
        using mod_less_divisor [of "2 ^ 32" x] by simp
      with eq b have "\<exists>s'. f 64 s' = Some r" by (auto simp: Let_def)
      then show False using IH by blast
    qed
  qed
  then show ?thesis by simp
qed simp

lemma hex_number_sprintf: "hex_number (sprintf_2X b) = unat b"
proof -
  have "unat (of_nat n :: u8) = n" if "n < 16" for n
    using that by (simp add: unat_of_nat)
  then show ?thesis
    by (simp add: hex_number_def sprintf_2X_def)
qed

lemma hexdigit_not_space [simp]: "n < 16 \<Longrightarrow> \<not> isspace (hexdigit n)"
  by (auto simp: isspace_def hexdigit_code)

lemma hexdigit_not_x [simp]: "n < 16 \<Longrightarrow> hexdigit n \<noteq> CHR ''x''" "n < 16 \<Longrightarrow> hexdigit n \<noteq> CHR ''X''"
  using hexdigit_code [of n] by (auto simp: char_code_def split: if_splits)

lemma extract_hex_sprintf: "extract_hex_u16 (sprintf_2X b) = Some (ucast b)"
proof -
  have "takeWhile isxdigit (sprintf_2X b) = sprintf_2X b"
    and "dropWhile isspace (sprintf_2X b) = sprintf_2X b"
    by (simp_all add: sprintf_2X_def)
  moreover have "unat b < 256" using unsigned_less [of b, where ?'a = nat] by simp
  ultimately show ?thesis
    by (simp add: extract_hex_u16_def hex_number_sprintf Let_def sprintf_2X_def del: of_nat_unat)
      (simp add: hex_number_sprintf [unfolded sprintf_2X_def] unsigned_ucast_eq)
qed

lemma getLastMACNumber_mac_str:
  "getLastMACNumberToInt 32 junk (mac_str m) = Some (ucast (address m ! 5))"
proof -
  obtain u where u: "mac_str m = u @ ''-'' @ sprintf_2X (address m ! 5)"
    using hyphen_in_mac_str by blast
  have "CHR ''-'' \<notin> set (sprintf_2X (address m ! 5))"
    by (auto simp: sprintf_2X_def dest: sym)
  moreover have "length u < 2 ^ 32 - 1"
    using u length_mac_str [of m] by simp
  ultimately show ?thesis
    by (simp add: getLastMACNumberToInt_def u cut_loop_last extract_hex_sprintf)
qed

text \<open>
  C39: an identifier built field by field is determined by the three field values alone (nothing
  is left of what the uninitialised builder held), the fields occupy disjoint bits, and the builder
  fails its assertion exactly when a value does not fit its field; rebuilding an identifier from
  its own fields gives it back.
\<close>

theorem id_built_from_fields:
  "bindR (setMACExtNumber e i) (\<lambda>i. bindR (setSinkDistance d i) (setArea a)) =
     (if e < 1024 \<and> d < 16 \<and> a < 4 then Inr (push_bit 6 e + push_bit 2 d + a) else Inl AssertFailed)
   \<and> bindR (setMACExtNumber (getMACExt j) i)
       (\<lambda>i. bindR (setSinkDistance (getSinkDistance j) i) (setArea (getArea j))) = Inr j"
proof -
  let ?build = "\<lambda>e d a. bindR (setMACExtNumber e i) (\<lambda>i. bindR (setSinkDistance d i) (setArea a))"
  have built: "?build e d a = Inr (push_bit 6 e + push_bit 2 d + a)"
    if fits: "e < 1024" "d < 16" "a < 4" for e d a
  proof -
    obtain k where k: "?build e d a = Inr k"
      using fits by (simp add: id_put_defs)
    then have "getMACExt k = e \<and> getSinkDistance k = d \<and> getArea k = a"
      using fits by (auto simp: id_put_defs id_get_put)
    with id_value [of k] k show ?thesis by simp
  qed
  moreover have "?build e d a = Inl AssertFailed" if "\<not> (e < 1024 \<and> d < 16 \<and> a < 4)"
    using that by (auto simp: id_put_defs assertR_def bindR_def)
  ultimately show ?thesis
    using field_bound [of j] id_value [of j] by simp
qed

text \<open>
  the MAC extension read from a printed address is its last byte where \<open>size_t\<close> has 32 bits;
  where it has 64 bits the search loop of \<open>getLastMACNumberToInt\<close> never ends, whatever the string.
\<close>

theorem last_mac_number:
  "getLastMACNumberToInt 32 junk (mac_str m) = Some (ucast (address m ! 5)) \<and>
   getLastMACNumberToInt 64 junk s = None"
  by (simp add: getLastMACNumber_mac_str) (simp add: getLastMACNumberToInt_def cut_loop_diverges)

end
