(* ===== verification/Bloom_Filter.thy ===== *)
theory Bloom_Filter
  imports Id_Builder
begin

unbundle bit_operations_syntax

text \<open>
  The Bloom filter of \<open>BloomFilter.cc\<close>/\<open>BloomFilter.h\<close> and the two hash functions of
  \<open>BloomTable.cc\<close>. The bit array is a heap block reached through the pointer \<open>a\<close>: the class has no
  copy constructor, so every copy of a filter (into a packet, into a neighbour table) shares the
  array of the original, and nothing is ever freed. The heap is the list of the blocks allocated
  so far and a pointer is an index into it.
\<close>

section \<open>Sensor types\<close>

datatype SensoType =
    SENSOR_HUMIDITY | SENSOR_LIGTH | SENSOR_PRESSURE | SENSOR_SONG | SENSOR_TEMPERATURE | SENSOR_SINK

fun SensoType_value :: "SensoType \<Rightarrow> int" where
  "SensoType_value SENSOR_HUMIDITY = 0"
| "SensoType_value SENSOR_LIGTH = 1"
| "SensoType_value SENSOR_PRESSURE = 2"
| "SensoType_value SENSOR_SONG = 3"
| "SensoType_value SENSOR_TEMPERATURE = 4"
| "SensoType_value SENSOR_SINK = 5"

section \<open>The hash functions\<close>

fun sax_loop :: "u32 \<Rightarrow> string \<Rightarrow> u32" where
  "sax_loop h [] = h"
| "sax_loop h (c # key) =
     sax_loop (h XOR (push_bit 5 h + drop_bit 2 h + of_nat (char_code c))) key"

definition sax_hash :: "string \<Rightarrow> u32" where
  "sax_hash key = sax_loop 0 (c_str key)"

fun sdbm_loop :: "u32 \<Rightarrow> string \<Rightarrow> u32" where
  "sdbm_loop h [] = h"
| "sdbm_loop h (c # key) =
     sdbm_loop (of_nat (char_code c) + push_bit 6 h + push_bit 16 h - h) key"

definition sdbm_hash :: "string \<Rightarrow> u32" where
  "sdbm_hash key = sdbm_loop 0 (c_str key)"

section \<open>The class\<close>

type_synonym hashfunc_t = "string \<Rightarrow> u32"

type_synonym heap = "u8 list list"

record BloomFilter =
  asize :: nat
  a :: nat
  funcs :: "hashfunc_t list"

definition CHAR_BIT :: nat where
  "CHAR_BIT = 8"

text \<open>
  The constructor. \<open>block\<close> is what \<open>new char[]\<close> returns: the contents the new memory happens to
  have (they are not cleared), or \<open>None\<close> when it throws; \<open>fblock\<close> tells whether the second
  allocation succeeds (when it does not, the handler deletes the object and goes on using it).
  The array length is computed at the width of \<open>size_t\<close>.
\<close>

definition newBloomFilter ::
  "nat \<Rightarrow> (nat \<Rightarrow> u8) option \<Rightarrow> bool \<Rightarrow> nat \<Rightarrow> hashfunc_t list \<Rightarrow> heap \<Rightarrow> (BloomFilter \<times> heap) res" where
  "newBloomFilter bits block fblock sz fs h =
     (case block of
        None \<Rightarrow> Inl (RuntimeError ''std::bad_alloc'')
      | Some c \<Rightarrow>
          if \<not> fblock then Inl UndefinedBehaviour
          else Inr (\<lparr>asize = sz, a = length h, funcs = fs\<rparr>,
                    h @ [map c [0..<(sz + CHAR_BIT - 1) mod 2 ^ bits div CHAR_BIT]]))"

text \<open>The macros \<open>SETBIT\<close> and \<open>GETBIT\<close>, on an index already reduced modulo \<open>asize\<close>.\<close>

definition SETBIT :: "nat \<Rightarrow> nat \<Rightarrow> heap \<Rightarrow> heap res" where
  "SETBIT p n h =
     (if p < length h \<and> n div CHAR_BIT < length (h ! p)
      then Inr (h[p := (h ! p)[n div CHAR_BIT := (h ! p ! (n div CHAR_BIT)) OR push_bit (n mod CHAR_BIT) 1]])
      else Inl UndefinedBehaviour)"

definition GETBIT :: "nat \<Rightarrow> nat \<Rightarrow> heap \<Rightarrow> bool res" where
  "GETBIT p n h =
     (if p < length h \<and> n div CHAR_BIT < length (h ! p)
      then Inr ((h ! p ! (n div CHAR_BIT)) AND push_bit (n mod CHAR_BIT) 1 \<noteq> 0)
      else Inl UndefinedBehaviour)"

definition bit_index :: "BloomFilter \<Rightarrow> hashfunc_t \<Rightarrow> string \<Rightarrow> nat res" where
  "bit_index f g s = (if asize f = 0 then Inl DivisionByZero else Inr (unat (g s) mod asize f))"

fun Add_loop :: "BloomFilter \<Rightarrow> hashfunc_t list \<Rightarrow> string \<Rightarrow> heap \<Rightarrow> heap res" where
  "Add_loop f [] s h = Inr h"
| "Add_loop f (g # gs) s h =
     bindR (bit_index f g s) (\<lambda>n. bindR (SETBIT (a f) n h) (Add_loop f gs s))"

definition Add :: "BloomFilter \<Rightarrow> string \<Rightarrow> heap \<Rightarrow> heap res" where
  "Add f s h = Add_loop f (funcs f) s h"

fun Check_loop :: "BloomFilter \<Rightarrow> hashfunc_t list \<Rightarrow> string \<Rightarrow> heap \<Rightarrow> int res" where
  "Check_loop f [] s h = Inr 1"
| "Check_loop f (g # gs) s h =
     bindR (bit_index f g s) (\<lambda>n. bindR (GETBIT (a f) n h) (\<lambda>b.
       if \<not> b then Inr 0 else Check_loop f gs s h))"

definition Check :: "BloomFilter \<Rightarrow> string \<Rightarrow> heap \<Rightarrow> int res" where
  "Check f s h = Check_loop f (funcs f) s h"

text \<open>The \<open>std::string\<close> overloads copy the characters up to the first null and call the others.\<close>

definition Add_string :: "BloomFilter \<Rightarrow> string \<Rightarrow> heap \<Rightarrow> heap res" where
  "Add_string f word h = Add f (c_str word) h"

definition Check_string :: "BloomFilter \<Rightarrow> string \<Rightarrow> heap \<Rightarrow> int res" where
  "Check_string f word h = Check f (c_str word) h"

text \<open>
  A filter made by the default constructor has no members initialised; reading it is undefined.
\<close>

definition Check_copy :: "BloomFilter option \<Rightarrow> string \<Rightarrow> heap \<Rightarrow> int res" where
  "Check_copy b word h = (case b of None \<Rightarrow> Inl UndefinedBehaviour | Some f \<Rightarrow> Check_string f word h)"

section \<open>The bits of a filter\<close>

definition bf_wf :: "BloomFilter \<Rightarrow> heap \<Rightarrow> bool" where
  "bf_wf f h \<longleftrightarrow> 0 < asize f \<and> a f < length h \<and> (asize f + 7) div 8 \<le> length (h ! a f)"

definition bits_at :: "nat \<Rightarrow> heap \<Rightarrow> nat set" where
  "bits_at p h = {n. n div 8 < length (h ! p) \<and> bit (h ! p ! (n div 8)) (n mod 8)}"

definition positions :: "BloomFilter \<Rightarrow> string \<Rightarrow> nat set" where
  "positions f s = (\<lambda>g. unat (g s) mod asize f) ` set (funcs f)"

lemma position_in_block: "bf_wf f h \<Longrightarrow> x mod asize f div 8 < length (h ! a f)"
proof -
  assume wf: "bf_wf f h"
  have "x mod asize f div 8 < (asize f + 7) div 8"
  proof -
    have "x mod asize f < asize f" using wf by (simp add: bf_wf_def)
    then have "(x mod asize f + 8) div 8 \<le> (asize f + 7) div 8" by (intro div_le_mono) simp
    then show ?thesis by simp
  qed
  with wf show ?thesis by (simp add: bf_wf_def)
qed

lemma SETBIT_ok:
  assumes "p < length h" and "n div 8 < length (h ! p)"
  shows "\<exists>h'. SETBIT p n h = Inr h' \<and> length h' = length h \<and>
    (\<forall>q. length (h' ! q) = length (h ! q)) \<and> (\<forall>q. q \<noteq> p \<longrightarrow> h' ! q = h ! q) \<and>
    bits_at p h' = insert n (bits_at p h)"
proof -
  let ?h = "h[p := (h ! p)[n div 8 := (h ! p ! (n div 8)) OR push_bit (n mod 8) 1]]"
  have "bit (?h ! p ! (k div 8)) (k mod 8) \<longleftrightarrow> k = n \<or> bit (h ! p ! (k div 8)) (k mod 8)"
    if "k div 8 < length (h ! p)" for k
  proof (cases "k div 8 = n div 8")
    case True
    then have "k = n \<longleftrightarrow> k mod 8 = n mod 8"
      by (metis div_mult_mod_eq)
    with True assms show ?thesis
      by (auto simp: bit_simps)
  next
    case False then show ?thesis using assms that by auto
  qed
  then have "bits_at p ?h = insert n (bits_at p h)"
    using assms by (auto simp: bits_at_def)
  moreover have "length (?h ! q) = length (h ! q)" for q
    using assms by (cases "q = p") auto
  ultimately show ?thesis
    using assms by (simp add: SETBIT_def CHAR_BIT_def)
qed

lemma GETBIT_ok:
  assumes "p < length h" and "n div 8 < length (h ! p)"
  shows "GETBIT p n h = Inr (n \<in> bits_at p h)"
proof -
  have "(w AND push_bit k 1 \<noteq> 0) = bit w k" if "k < 8" for w :: u8 and k
  proof -
    have "w AND push_bit k 1 = (if bit w k then push_bit k 1 else 0)"
      by (rule bit_eqI) (auto simp: bit_simps)
    moreover have "push_bit k 1 \<noteq> (0::u8)"
      using that by (auto simp: bit_eq_iff bit_simps)
    ultimately show ?thesis by auto
  qed
  with assms show ?thesis
    by (simp add: GETBIT_def CHAR_BIT_def bits_at_def)
qed

lemma Check_loop_iff:
  assumes "bf_wf f h"
  shows "Check_loop f gs s h =
    Inr (if \<forall>g \<in> set gs. unat (g s) mod asize f \<in> bits_at (a f) h then 1 else 0)"
  using assms
proof (induction gs)
  case (Cons g gs)
  then show ?case
    using position_in_block [OF assms, of "unat (g s)"]
    by (simp add: bit_index_def GETBIT_ok bf_wf_def)
qed simp

lemma Check_iff: "bf_wf f h \<Longrightarrow> Check f s h = Inr (if positions f s \<subseteq> bits_at (a f) h then 1 else 0)"
  by (auto simp: Check_def Check_loop_iff positions_def)

lemma Add_loop_ok:
  assumes "bf_wf f h"
  shows "\<exists>h'. Add_loop f gs s h = Inr h' \<and> length h' = length h \<and>
    (\<forall>q. length (h' ! q) = length (h ! q)) \<and> (\<forall>q. q \<noteq> a f \<longrightarrow> h' ! q = h ! q) \<and>
    bits_at (a f) h' = bits_at (a f) h \<union> (\<lambda>g. unat (g s) mod asize f) ` set gs"
  using assms
proof (induction gs arbitrary: h)
  case (Cons g gs)
  let ?n = "unat (g s) mod asize f"
  obtain h1 where h1: "SETBIT (a f) ?n h = Inr h1" "length h1 = length h"
      "\<forall>q. length (h1 ! q) = length (h ! q)" "\<forall>q. q \<noteq> a f \<longrightarrow> h1 ! q = h ! q"
      "bits_at (a f) h1 = insert ?n (bits_at (a f) h)"
    using SETBIT_ok [of "a f" h ?n] position_in_block [OF Cons.prems] Cons.prems
    by (auto simp: bf_wf_def)
  have "bf_wf f h1" using h1 Cons.prems by (simp add: bf_wf_def)
  from Cons.IH [OF this] h1 Cons.prems show ?case
    by (auto simp: bit_index_def bf_wf_def)
qed simp

lemma Add_ok:
  assumes "bf_wf f h"
  shows "\<exists>h'. Add f s h = Inr h' \<and> length h' = length h \<and>
    (\<forall>q. length (h' ! q) = length (h ! q)) \<and> (\<forall>q. q \<noteq> a f \<longrightarrow> h' ! q = h ! q) \<and>
    bits_at (a f) h' = bits_at (a f) h \<union> positions f s"
  using Add_loop_ok [OF assms, of "funcs f" s] by (simp add: Add_def positions_def)

lemma Add_InrD:
  assumes "bf_wf f h" and "Add f s h = Inr h'"
  shows "length h' = length h" and "length (h' ! q) = length (h ! q)"
    and "bits_at q h' = bits_at q h \<union> (if q = a f then positions f s else {})"
proof -
  have h': "length h' = length h \<and> (\<forall>q. length (h' ! q) = length (h ! q)) \<and>
      (\<forall>q. q \<noteq> a f \<longrightarrow> h' ! q = h ! q) \<and> bits_at (a f) h' = bits_at (a f) h \<union> positions f s"
    using Add_ok [OF assms(1), of s] assms(2) by fastforce
  then show "length h' = length h" and "length (h' ! q) = length (h ! q)" by simp_all
  from h' show "bits_at q h' = bits_at q h \<union> (if q = a f then positions f s else {})"
    by (cases "q = a f") (simp, simp add: bits_at_def)
qed

lemma bf_wf_Add: "bf_wf f h \<Longrightarrow> Add f s h = Inr h' \<Longrightarrow> bf_wf f' h' \<longleftrightarrow> bf_wf f' h"
  unfolding bf_wf_def [of f'] by (simp only: Add_InrD(1,2))

lemma newBloomFilter_InrD:
  assumes "newBloomFilter bits (Some c) True sz fs h = Inr (f, h')"
    and "0 < sz" and "sz + 7 < 2 ^ bits"
  shows "bf_wf f h'" and "funcs f = fs" and "asize f = sz"
    and "bits_at (a f) h' = {n. n div 8 < (sz + 7) div 8 \<and> bit (c (n div 8)) (n mod 8)}"
  using assms by (auto simp: newBloomFilter_def bf_wf_def bits_at_def CHAR_BIT_def)

section \<open>The contract of a membership filter\<close>

text \<open>
  What the routing table relies on: additions and tests never fault on a valid filter, what was
  added is found, and an addition never makes an earlier word disappear.
\<close>

locale membership_filter =
  fixes invar :: "'s \<Rightarrow> bool"
    and add :: "'w \<Rightarrow> 's \<Rightarrow> 's res"
    and check :: "'w \<Rightarrow> 's \<Rightarrow> int res"
  assumes add_succ: "invar s \<Longrightarrow> succR invar (add w s)"
    and check_bool: "invar s \<Longrightarrow> check w s = Inr 0 \<or> check w s = Inr 1"
    and check_added: "invar s \<Longrightarrow> add w s = Inr s' \<Longrightarrow> check w s' = Inr 1"
    and check_kept: "invar s \<Longrightarrow> add v s = Inr s' \<Longrightarrow> check w s = Inr 1 \<Longrightarrow> check w s' = Inr 1"
begin

lemma adds_keep:
  assumes "invar s" and "check w s = Inr 1"
  shows "succR (\<lambda>s'. invar s' \<and> check w s' = Inr 1) (foldR add ws s)"
proof (rule foldR_succR)
  fix v s assume "invar s \<and> check w s = Inr 1"
  then show "succR (\<lambda>s'. invar s' \<and> check w s' = Inr 1) (add v s)"
    using add_succ [of s v] check_kept by (auto simp: succR_iff)
qed (use assms in simp)

lemma no_false_negatives:
  assumes "invar s" and "w \<in> set ws"
  shows "succR (\<lambda>s'. invar s' \<and> check w s' = Inr 1) (foldR add ws s)"
  using assms
proof (induction ws arbitrary: s)
  case (Cons v ws)
  obtain s' where s': "add v s = Inr s'" "invar s'"
    using add_succ [OF Cons.prems(1), of v] by (auto simp: succR_iff)
  show ?case
  proof (cases "v = w")
    case True
    then show ?thesis using s' adds_keep check_added [OF Cons.prems(1)] by simp
  next
    case False
    with Cons.IH [OF s'(2)] Cons.prems(2) s'(1) show ?thesis by simp
  qed
qed simp

end

interpretation bf: membership_filter "bf_wf f" "Add f" "Check f" for f
proof unfold_locales
  fix h w v h'
  assume wf: "bf_wf f h"
  obtain h1 where "Add f w h = Inr h1" using Add_ok [OF wf] by blast
  moreover from this have "bf_wf f h1" using wf bf_wf_Add [OF wf] by blast
  ultimately show "succR (bf_wf f) (Add f w h)" by simp
  show "Check f w h = Inr 0 \<or> Check f w h = Inr 1" using wf by (simp add: Check_iff)
  show "Check f w h' = Inr 1" if add: "Add f w h = Inr h'"
    using bf_wf_Add [OF wf add, of f] wf Add_InrD(3) [OF wf add, of "a f"] by (simp add: Check_iff)
  show "Check f w h' = Inr 1" if add: "Add f v h = Inr h'" and yes: "Check f w h = Inr 1"
  proof -
    have "positions f w \<subseteq> bits_at (a f) h"
      using yes wf by (simp add: Check_iff split: if_splits)
    then show ?thesis
      using bf_wf_Add [OF wf add, of f] wf Add_InrD(3) [OF wf add, of "a f"]
      by (simp add: Check_iff le_supI1)
  qed
qed

lemma Adds_bits:
  assumes "bf_wf f h"
  shows "succR (\<lambda>h'. bf_wf f h' \<and> bits_at (a f) h' = bits_at (a f) h \<union> (\<Union>v \<in> set ws. positions f v))
    (foldR (Add f) ws h)"
  using assms
proof (induction ws arbitrary: h)
  case (Cons v ws)
  obtain h1 where h1: "Add f v h = Inr h1" "bf_wf f h1"
    using bf.add_succ [OF Cons.prems, of v] by (auto simp: succR_iff)
  with Cons.IH [OF h1(2)] Add_InrD(3) [OF Cons.prems h1(1), of "a f"] show ?case
    by (auto simp: succR_iff)
qed simp

text \<open>
  C35: after any sequence of additions to a new filter the check never faults; it answers yes for
  every word that was added (no false negatives), and in general exactly when all the bit positions
  of the word are covered by the positions of the added words or by the bits the uninitialised
  array happened to hold.
\<close>

theorem bloom_answers:
  assumes "newBloomFilter bits (Some c) True sz fs h0 = Inr (f, h)"
    and "0 < sz" and "sz + 7 < 2 ^ bits"
  shows "\<exists>h'. foldR (Add f) ws h = Inr h' \<and>
    (\<forall>w \<in> set ws. Check f w h' = Inr 1) \<and>
    (\<forall>w. Check f w h' =
       Inr (if positions f w \<subseteq>
              {n. n div 8 < (sz + 7) div 8 \<and> bit (c (n div 8)) (n mod 8)} \<union> (\<Union>v \<in> set ws. positions f v)
            then 1 else 0))"
proof -
  have wf: "bf_wf f h" and init: "bits_at (a f) h = {n. n div 8 < (sz + 7) div 8 \<and> bit (c (n div 8)) (n mod 8)}"
    using newBloomFilter_InrD [OF assms] by simp_all
  obtain h' where h': "foldR (Add f) ws h = Inr h'" "bf_wf f h'"
      "bits_at (a f) h' = bits_at (a f) h \<union> (\<Union>v \<in> set ws. positions f v)"
    using Adds_bits [OF wf, of ws] by (auto simp: succR_iff)
  moreover have "Check f w h' = Inr 1" if "w \<in> set ws" for w
    using bf.no_false_negatives [OF wf that] h'(1) by simp
  ultimately show ?thesis
    using init by (simp add: Check_iff)
qed

theorem bloom_answers_witness:
  "\<exists>f h h'. newBloomFilter 32 (Some (\<lambda>_. 0)) True 20 [sax_hash, sdbm_hash] [] = Inr (f, h) \<and>
     foldR (Add f) [''SONG''] h = Inr h' \<and> Check f ''SONG'' h' = Inr 1"
proof -
  define f h where "f = \<lparr>asize = 20, a = 0, funcs = [sax_hash, sdbm_hash]\<rparr>" and "h = [[0, 0, 0::u8]]"
  have new: "newBloomFilter 32 (Some (\<lambda>_. 0)) True 20 [sax_hash, sdbm_hash] [] = Inr (f, h)"
    by (simp add: newBloomFilter_def CHAR_BIT_def f_def h_def upt_rec)
  with bloom_answers [OF new, of "[''SONG'']"] show ?thesis by auto
qed

text \<open>
  the constructor does not clear the array: when the allocated memory is full of ones, the new
  and still empty filter claims to contain every word.
\<close>

theorem fresh_filter_may_claim_all:
  assumes "0 < sz" and "sz + 7 < 2 ^ bits"
  shows "\<exists>f h. newBloomFilter bits (Some (\<lambda>_. 255)) True sz fs h0 = Inr (f, h) \<and>
    (\<forall>w. Check f w h = Inr 1)"
proof -
  obtain f h where fh: "newBloomFilter bits (Some (\<lambda>_. 255)) True sz fs h0 = Inr (f, h)"
    by (simp add: newBloomFilter_def)
  note new = newBloomFilter_InrD [OF fh assms]
  have "positions f w \<subseteq> bits_at (a f) h" for w
  proof
    fix n assume "n \<in> positions f w"
    then obtain g :: hashfunc_t where "n = unat (g w) mod asize f" unfolding positions_def by blast
    then have "n div 8 < length (h ! a f)" using position_in_block [OF new(1)] by simp
    moreover have "bit (255 :: u8) (n mod 8)"
      using bit_mask_iff [of 8 "n mod 8", where ?'a = u8] by (simp add: mask_eq_exp_minus_1)
    ultimately show "n \<in> bits_at (a f) h"
      using fh by (auto simp: bits_at_def newBloomFilter_def)
  qed
  with fh new(1) show ?thesis by (auto simp: Check_iff)
qed

theorem fresh_filter_may_claim_all_witness:
  "\<exists>f h. newBloomFilter 32 (Some (\<lambda>_. 255)) True 10 [sax_hash, sdbm_hash] [] = Inr (f, h) \<and>
     Check f ''TEMPERATURE'' h = Inr 1"
proof -
  have "(0::nat) < 10" and "(10::nat) + 7 < 2 ^ 32" by simp_all
  from fresh_filter_may_claim_all [OF this, of "[sax_hash, sdbm_hash]" "[]"] show ?thesis by blast
qed

fun poly_hash :: "nat \<Rightarrow> string \<Rightarrow> nat" where
  "poly_hash h [] = h"
| "poly_hash h (c # key) = poly_hash (65599 * h + char_code c) key"

lemma sdbm_loop_poly: "sdbm_loop (of_nat h) key = of_nat (poly_hash h key)"
proof (induction key arbitrary: h)
  case (Cons c key)
  have "y + push_bit 6 x + push_bit 16 x - x = 65599 * x + y" for x y :: u32
  proof -
    have "push_bit 6 x = 64 * x" and "push_bit 16 x = 65536 * x"
      by (simp_all add: push_bit_eq_mult)
    then show ?thesis by (simp only: algebra_simps) simp
  qed
  from this [of "of_nat (char_code c)" "of_nat h"]
  have "sdbm_loop (of_nat h) (c # key) = sdbm_loop (of_nat (65599 * h + char_code c)) key"
    by (simp only: sdbm_loop.simps of_nat_add of_nat_mult of_nat_numeral)
  with Cons.IH [of "65599 * h + char_code c"] show ?case by (simp only: poly_hash.simps)
qed simp

text \<open>
  \<open>sdbm_hash\<close>, written with shifts and a subtraction that wrap at 32 bits, is the polynomial
  hash with base 65599 modulo $2^{32}$.
\<close>

theorem sdbm_is_polynomial: "unat (sdbm_hash key) = poly_hash 0 (c_str key) mod 2 ^ 32"
proof -
  have "sdbm_hash key = of_nat (poly_hash 0 (c_str key))"
    using sdbm_loop_poly [of 0 "c_str key"] by (simp only: sdbm_hash_def semiring_1_class.of_nat_0)
  moreover have "unat (of_nat n :: u32) = n mod 2 ^ 32" for n
    by (simp add: unsigned_of_nat take_bit_eq_mod)
  ultimately show ?thesis by (simp only:)
qed

end
