(* ===== verification/Bloom_Table.thy ===== *)
theory Bloom_Table
  imports Bloom_Filter
begin

unbundle bit_operations_syntax

text \<open>
  The module of \<open>BloomTable.cc\<close>: the node's own filter, the filters announced by its neighbours
  (a \<open>std::map\<close> from printed MAC addresses), and the search for a next hop that may answer a query.
  A filter received in a packet that never set one is the default-constructed object, \<open>None\<close>.
\<close>

record BloomTable =
  BloomPerso :: "BloomFilter option"
  NeighborsTable :: "(string, BloomFilter option) omap"
  QueryTranslation :: "string list"
  QueryTranslation2 :: "(int, string) omap"
  tailleFiltre :: int
  icon :: "string option"

definition newBloomTable :: BloomTable where
  "newBloomTable = \<lparr>BloomPerso = None, NeighborsTable = [], QueryTranslation = [],
     QueryTranslation2 = [], tailleFiltre = 0, icon = None\<rparr>"

definition query_names :: "(int, string) omap \<Rightarrow> (int, string) omap" where
  "query_names m =
     om_set (SensoType_value SENSOR_TEMPERATURE) ''TEMPERATURE''
      (om_set (SensoType_value SENSOR_SONG) ''SONG''
        (om_set (SensoType_value SENSOR_PRESSURE) ''PRESSURE''
          (om_set (SensoType_value SENSOR_LIGTH) ''LIGTH''
            (om_set (SensoType_value SENSOR_HUMIDITY) ''HUMIDITY'' m))))"

text \<open>
  \<open>initialize\<close>: \<open>par_tailleFiltre\<close> is the module parameter (an \<open>int\<close>), converted to \<open>size_t\<close> for
  the filter's size.
\<close>

definition BloomTable_initialize ::
  "nat \<Rightarrow> (nat \<Rightarrow> u8) option \<Rightarrow> bool \<Rightarrow> int \<Rightarrow> BloomTable \<Rightarrow> heap \<Rightarrow> (BloomTable \<times> heap) res" where
  "BloomTable_initialize bits block fblock par_tailleFiltre t h =
     bindR (newBloomFilter bits block fblock (nat (par_tailleFiltre mod 2 ^ bits)) [sax_hash, sdbm_hash] h)
       (\<lambda>(f, h'). Inr (t\<lparr>tailleFiltre := par_tailleFiltre, BloomPerso := Some f,
          QueryTranslation := QueryTranslation t @
            [''TEMPERATURE'', ''PRESSION'', ''SON'', ''LUMIERE'', ''HUMIDITE'', ''PUIT''],
          QueryTranslation2 := query_names (QueryTranslation2 t)\<rparr>, h'))"

definition GetBloomPerso :: "BloomTable \<Rightarrow> BloomFilter res" where
  "GetBloomPerso t = (case BloomPerso t of None \<Rightarrow> Inl NullDeref | Some f \<Rightarrow> Inr f)"

text \<open>\<open>(*QueryTranslation2.find(QueryId)).second\<close>: dereferencing \<open>end()\<close> is undefined.\<close>

definition query_string :: "BloomTable \<Rightarrow> int \<Rightarrow> string res" where
  "query_string t QueryId =
     (case om_find (QueryTranslation2 t) QueryId of None \<Rightarrow> Inl UndefinedBehaviour | Some q \<Rightarrow> Inr q)"

fun neighbors_loop :: "string \<Rightarrow> heap \<Rightarrow> (string, BloomFilter option) omap \<Rightarrow> mac res" where
  "neighbors_loop q h [] = Inr UNSPECIFIED_ADDRESS"
| "neighbors_loop q h ((m_str, bloom) # it) =
     bindR (Check_copy bloom q h) (\<lambda>yes. if yes \<noteq> 0 then mac_from_string m_str else neighbors_loop q h it)"

definition GetNextHop :: "BloomTable \<Rightarrow> heap \<Rightarrow> int \<Rightarrow> bool \<Rightarrow> mac \<Rightarrow> mac res" where
  "GetNextHop t h QueryId Source myMAC =
     bindR (query_string t QueryId) (\<lambda>query_str.
     bindR (if \<not> Source
            then bindR (GetBloomPerso t) (\<lambda>f. bindR (Check_string f query_str h) (\<lambda>yes. Inr (yes \<noteq> 0)))
            else Inr False) (\<lambda>mine.
     if mine then Inr myMAC else neighbors_loop query_str h (NeighborsTable t)))"

definition AddFilter :: "BloomFilter option \<Rightarrow> mac \<Rightarrow> BloomTable \<Rightarrow> BloomTable" where
  "AddFilter neighborBloom neighborMAC t =
     t\<lparr>NeighborsTable := om_set (mac_str neighborMAC) neighborBloom (NeighborsTable t)\<rparr>"

definition AddToBloomPerso :: "string \<Rightarrow> BloomTable \<Rightarrow> heap \<Rightarrow> heap res" where
  "AddToBloomPerso info t h = bindR (GetBloomPerso t) (\<lambda>f. Add f info h)"

definition updateDisplay :: "string \<Rightarrow> BloomTable \<Rightarrow> BloomTable" where
  "updateDisplay myIcon t = t\<lparr>icon := Some (c_str myIcon)\<rparr>"

definition display_sensorType :: "string \<Rightarrow> BloomTable \<Rightarrow> BloomTable" where
  "display_sensorType sensorType t =
     (let t = (if sensorType = ''HUMIDITY'' then updateDisplay ''srwsn/sensor_humidity'' t else t);
          t = (if sensorType = ''LIGTH'' then updateDisplay ''srwsn/sensor_ligth'' t else t);
          t = (if sensorType = ''PRESSURE'' then updateDisplay ''srwsn/sensor_pressure'' t else t);
          t = (if sensorType = ''SONG'' then updateDisplay ''srwsn/sensor_song'' t else t)
      in (if sensorType = ''TEMPERATURE'' then updateDisplay ''srwsn/sensor_temperature'' t else t))"

text \<open>\<open>selectRandomType\<close>, with the value \<open>intuniform(0,4)\<close> returned as an argument.\<close>

definition selectRandomType :: "int \<Rightarrow> BloomTable \<Rightarrow> heap \<Rightarrow> (BloomTable \<times> heap) res" where
  "selectRandomType param t h =
     (case om_find (QueryTranslation2 t) param of
        None \<Rightarrow> Inl AssertFailed
      | Some sensorType \<Rightarrow>
          bindR (GetBloomPerso t) (\<lambda>f. bindR (Add_string f sensorType h) (\<lambda>h'.
          Inr (display_sensorType sensorType t, h'))))"

lemma display_sensorType_icon: "\<exists>i. display_sensorType q t = t\<lparr>icon := i\<rparr>"
proof -
  have icon: "t = t\<lparr>icon := icon t\<rparr>" by simp
  show ?thesis
    by (simp add: display_sensorType_def updateDisplay_def Let_def) (metis icon)
qed

section \<open>Invariant\<close>

text \<open>
  The neighbour table is a proper map whose keys are printed addresses; the own filter and every
  initialised filter point into the heap; the query names are those of \<open>initialize\<close>.
\<close>

definition bt_wf :: "BloomTable \<Rightarrow> heap \<Rightarrow> bool" where
  "bt_wf t h \<longleftrightarrow>
     om_wf (NeighborsTable t) \<and> (\<forall>k \<in> fst ` set (NeighborsTable t). \<exists>m. k = mac_str m) \<and>
     (\<forall>b \<in> snd ` set (NeighborsTable t). \<exists>f. b = Some f \<and> bf_wf f h) \<and>
     (\<exists>f. BloomPerso t = Some f \<and> bf_wf f h) \<and>
     QueryTranslation2 t = query_names []"

lemma query_names_find:
  "om_find (query_names []) i =
     (if i = 0 then Some ''HUMIDITY'' else if i = 1 then Some ''LIGTH'' else if i = 2 then Some ''PRESSURE''
      else if i = 3 then Some ''SONG'' else if i = 4 then Some ''TEMPERATURE'' else None)"
  by (auto simp: query_names_def om_find_def)

lemma bt_wf_initialize:
  assumes "BloomTable_initialize bits (Some c) True (int n) newBloomTable h = Inr (t, h')"
    and "0 < n" and "n + 7 < 2 ^ bits"
  shows "bt_wf t h'"
proof -
  have n: "nat (int n mod 2 ^ bits) = n"
  proof -
    have "int n < int (2 ^ bits)" using assms(3) by linarith
    then show ?thesis by (simp add: mod_pos_pos_trivial)
  qed
  then obtain f where f: "newBloomFilter bits (Some c) True n [sax_hash, sdbm_hash] h = Inr (f, h')"
    and t: "t = newBloomTable\<lparr>tailleFiltre := int n, BloomPerso := Some f,
          QueryTranslation := [''TEMPERATURE'', ''PRESSION'', ''SON'', ''LUMIERE'', ''HUMIDITE'', ''PUIT''],
          QueryTranslation2 := query_names []\<rparr>"
    using assms(1) by (auto simp: BloomTable_initialize_def bindR_Inr_iff newBloomTable_def)
  then show ?thesis
    using newBloomFilter_InrD(1) [OF f assms(2,3)] by (simp add: bt_wf_def newBloomTable_def)
qed

lemma bt_wf_AddFilter: "bt_wf t h \<Longrightarrow> bf_wf f h \<Longrightarrow> bt_wf (AddFilter (Some f) m t) h"
  by (auto simp: bt_wf_def AddFilter_def om_wf_set om_set_mem)

lemma bt_wf_heap: "bt_wf t h \<Longrightarrow> (\<And>f. bf_wf f h \<Longrightarrow> bf_wf f h') \<Longrightarrow> bt_wf t h'"
  unfolding bt_wf_def by metis

lemma bt_wf_selectRandomType:
  assumes "bt_wf t h" and "0 \<le> param" and "param \<le> 4"
  shows "succR (\<lambda>(t', h'). bt_wf t' h' \<and> BloomPerso t' = BloomPerso t \<and> NeighborsTable t' = NeighborsTable t)
    (selectRandomType param t h)"
proof -
  obtain f where f: "BloomPerso t = Some f" "bf_wf f h" using assms(1) by (auto simp: bt_wf_def)
  have "param \<in> {0, 1, 2, 3, 4}" using assms(2,3) by auto
  then obtain q where q: "om_find (QueryTranslation2 t) param = Some q"
    using assms(1) by (auto simp: bt_wf_def query_names_find)
  obtain h' where h': "Add_string f q h = Inr h'"
    using Add_ok [OF f(2), of "c_str q"] unfolding Add_string_def by blast
  have "bt_wf t h'"
    using bt_wf_heap [OF assms(1)] bf_wf_Add [OF f(2)] h' by (auto simp: Add_string_def)
  then have "bt_wf (t\<lparr>icon := i\<rparr>) h'" for i by (simp add: bt_wf_def)
  moreover obtain i where "display_sensorType q t = t\<lparr>icon := i\<rparr>" using display_sensorType_icon by blast
  then have "selectRandomType param t h = Inr (t\<lparr>icon := i\<rparr>, h')"
    by (simp add: selectRandomType_def q GetBloomPerso_def f h')
  ultimately show ?thesis by simp
qed

section \<open>The search for a next hop\<close>

definition filter_answers :: "BloomFilter option \<Rightarrow> string \<Rightarrow> heap \<Rightarrow> bool" where
  "filter_answers b q h \<longleftrightarrow> Check_copy b q h = Inr 1"

definition neighbor_answers :: "BloomTable \<Rightarrow> heap \<Rightarrow> string \<Rightarrow> mac \<Rightarrow> bool" where
  "neighbor_answers t h q m \<longleftrightarrow>
     (\<exists>b. om_find (NeighborsTable t) (mac_str m) = Some b \<and> filter_answers b q h)"

lemma Check_copy_wf:
  "bf_wf f h \<Longrightarrow> Check_copy (Some f) q h = Inr (if filter_answers (Some f) q h then 1 else 0)"
  using bf.check_bool [of f h "c_str q"] by (auto simp: filter_answers_def Check_copy_def Check_string_def)

lemma neighbors_loop_find:
  assumes "\<forall>b \<in> snd ` set tbl. \<exists>f. b = Some f \<and> bf_wf f h"
  shows "neighbors_loop q h tbl =
    (case find (\<lambda>(k, b). filter_answers b q h) tbl of
       None \<Rightarrow> Inr UNSPECIFIED_ADDRESS | Some (k, b) \<Rightarrow> mac_from_string k)"
  using assms
proof (induction tbl)
  case (Cons p tbl)
  obtain k f where "p = (k, Some f)" "bf_wf f h" using Cons.prems by (cases p) auto
  with Cons show ?case by (simp add: Check_copy_wf)
qed simp

lemma neighbors_loop_spec:
  assumes "bt_wf t h"
  shows "\<exists>m. neighbors_loop q h (NeighborsTable t) = Inr m \<and>
    (if \<exists>n. neighbor_answers t h q n
     then neighbor_answers t h q m \<and> (\<forall>n. neighbor_answers t h q n \<longrightarrow> address m \<le> address n)
     else m = UNSPECIFIED_ADDRESS)"
proof -
  let ?T = "NeighborsTable t" and ?P = "\<lambda>(k, b). filter_answers b q h"
  have wf: "om_wf ?T" and keys: "\<And>k b. (k, b) \<in> set ?T \<Longrightarrow> \<exists>m. k = mac_str m"
    and filters: "\<forall>b \<in> snd ` set ?T. \<exists>f. b = Some f \<and> bf_wf f h"
    using assms by (auto simp: bt_wf_def)
  note loop = neighbors_loop_find [OF filters, of q]
  show ?thesis
  proof (cases "find ?P ?T")
    case None
    then have "\<not> neighbor_answers t h q n" for n
      using wf by (auto simp: neighbor_answers_def om_find_mem find_None_iff)
    with None loop show ?thesis by simp
  next
    case (Some p)
    obtain k b where p: "p = (k, b)" by (cases p)
    with Some have "(k, b) \<in> set ?T" "filter_answers b q h"
      by (auto simp: find_Some_iff) (metis nth_mem)
    then obtain m where m: "k = mac_str m" "neighbor_answers t h q m"
      using keys wf unfolding neighbor_answers_def by (metis om_find_mem)
    have "address m \<le> address n" if ans: "neighbor_answers t h q n" for n
    proof -
      obtain b' where "om_find ?T (mac_str n) = Some b'" "?P (mac_str n, b')"
        using ans by (auto simp: neighbor_answers_def)
      from om.find_least [of ?T ?P k b, OF wf _ this] Some p have "k \<le> mac_str n" by simp
      then show ?thesis using m(1) mac_str_less [of n m] by (simp add: not_less [symmetric])
    qed
    with m Some p loop show ?thesis by auto
  qed
qed

text \<open>
  C36: on a well-formed table the search for a next hop never faults on the five query types: a
  node that is not the source and whose own filter matches answers with its own address, otherwise
  the result is the matching neighbour with the smallest address, and the unspecified address
  exactly when no neighbour matches (or the smallest matching one is unspecified). For any other
  query number, the sink's \<open>SENSOR_SINK\<close> included, it dereferences the end of the map.
\<close>

theorem GetNextHop_spec:
  assumes "bt_wf t h"
  shows "case om_find (query_names []) QueryId of
      None \<Rightarrow> GetNextHop t h QueryId Source myMAC = Inl UndefinedBehaviour
    | Some q \<Rightarrow> \<exists>m. GetNextHop t h QueryId Source myMAC = Inr m \<and>
        (if \<not> Source \<and> filter_answers (BloomPerso t) q h then m = myMAC
         else if \<exists>n. neighbor_answers t h q n
         then neighbor_answers t h q m \<and> (\<forall>n. neighbor_answers t h q n \<longrightarrow> address m \<le> address n)
         else m = UNSPECIFIED_ADDRESS)"
proof -
  obtain f where f: "BloomPerso t = Some f" "bf_wf f h" and names: "QueryTranslation2 t = query_names []"
    using assms by (auto simp: bt_wf_def)
  have own: "Check_string f q h = Inr (if filter_answers (BloomPerso t) q h then 1 else 0)" for q
    using Check_copy_wf [OF f(2), of q] f(1) by (simp add: Check_copy_def)
  show ?thesis
  proof (cases "om_find (query_names []) QueryId")
    case (Some q)
    have "GetNextHop t h QueryId Source myMAC =
        (if \<not> Source \<and> filter_answers (BloomPerso t) q h then Inr myMAC
         else neighbors_loop q h (NeighborsTable t))"
      by (simp add: Some GetNextHop_def query_string_def names GetBloomPerso_def f(1) own)
    with neighbors_loop_spec [OF assms, of q] Some show ?thesis by simp
  qed (simp add: GetNextHop_def query_string_def names)
qed

theorem GetNextHop_spec_witness:
  "\<exists>t h. bt_wf t h \<and> om_find (query_names []) (SensoType_value SENSOR_SINK) = None \<and>
     GetNextHop t h (SensoType_value SENSOR_SINK) True BROADCAST_ADDRESS = Inl UndefinedBehaviour"
proof -
  obtain t h where "BloomTable_initialize 32 (Some (\<lambda>_. 0)) True (int 10) newBloomTable [] = Inr (t, h)"
    by (auto simp: BloomTable_initialize_def newBloomFilter_def)
  then have wf: "bt_wf t h" by (rule bt_wf_initialize) simp_all
  moreover have "om_find (query_names []) 5 = None" by (simp add: query_names_find)
  ultimately show ?thesis
    using GetNextHop_spec [OF wf, of 5 True BROADCAST_ADDRESS] by auto
qed

text \<open>
  a node that picks its sensor type at random ends with a well-formed table whose own filter
  contains that type, so it answers requests for it unless it is their source.
\<close>

theorem selected_type_is_answered:
  assumes "bt_wf t h" and "0 \<le> param" and "param \<le> 4"
  shows "\<exists>t' h'. selectRandomType param t h = Inr (t', h') \<and> bt_wf t' h' \<and>
    GetNextHop t' h' param False myMAC = Inr myMAC"
proof -
  obtain t' h' where sel: "selectRandomType param t h = Inr (t', h')" and wf: "bt_wf t' h'"
      and same: "BloomPerso t' = BloomPerso t"
    using bt_wf_selectRandomType [OF assms] by (auto simp: succR_iff)
  obtain f where f: "BloomPerso t = Some f" "bf_wf f h" and names: "QueryTranslation2 t = query_names []"
    and names': "QueryTranslation2 t' = query_names []"
    using assms(1) wf by (auto simp: bt_wf_def)
  have "param \<in> {0, 1, 2, 3, 4}" using assms(2,3) by auto
  then obtain q where q: "om_find (query_names []) param = Some q"
    by (auto simp: query_names_find)
  have "Add f (c_str q) h = Inr h'"
    using sel by (auto simp: selectRandomType_def names q GetBloomPerso_def f Add_string_def
      bindR_Inr_iff)
  then have "Check_string f q h' = Inr 1"
    unfolding Check_string_def by (rule bf.check_added [OF f(2)])
  then show ?thesis
    using sel wf by (simp add: GetNextHop_def query_string_def names' q GetBloomPerso_def same f)
qed

theorem selected_type_is_answered_witness:
  "\<exists>t h t' h'. selectRandomType 3 t h = Inr (t', h') \<and> GetNextHop t' h' 3 False BROADCAST_ADDRESS = Inr BROADCAST_ADDRESS"
proof -
  obtain t h where "BloomTable_initialize 32 (Some (\<lambda>_. 0)) True (int 10) newBloomTable [] = Inr (t, h)"
    by (auto simp: BloomTable_initialize_def newBloomFilter_def)
  then have wf: "bt_wf t h" by (rule bt_wf_initialize) simp_all
  from selected_type_is_answered [OF this, of 3 BROADCAST_ADDRESS] show ?thesis by auto
qed

end
