(* ===== verification/Table_RARE.thy ===== *)
theory Table_RARE
  imports Bloom_Table
begin

unbundle bit_operations_syntax

text \<open>
  The learning table of \<open>TableRARE.cc\<close>: per query number, how often each neighbour's direction led
  to an answer; the choice of the neighbour with the best record; the relaxation of a query to the
  one with most similarity bits in common; and the growth of the similarity masks. A search that
  does not return is the value \<open>None\<close> of the \<open>option\<close> type.
\<close>

record TableRARE =
  QueryRelaxationMaxRetry :: int
  QueryRelaxationRetryTime :: int
  learningTable :: "(string, int) omap list"
  queriesSimilarity :: "(int, u64) omap"
  ready :: bool
  maxQueries :: int
  maxTypes :: int

definition newTableRARE :: TableRARE where
  "newTableRARE = \<lparr>QueryRelaxationMaxRetry = 0, QueryRelaxationRetryTime = 0, learningTable = [],
     queriesSimilarity = [], ready = False, maxQueries = 0, maxTypes = 0\<rparr>"

definition TableRARE_initialize :: "int \<Rightarrow> bool \<Rightarrow> int \<Rightarrow> int \<Rightarrow> TableRARE \<Rightarrow> TableRARE" where
  "TableRARE_initialize par_maxRetry par_ready par_maxQueries par_maxTypes t =
     t\<lparr>QueryRelaxationMaxRetry := par_maxRetry, ready := par_ready, maxQueries := par_maxQueries,
       maxTypes := par_maxTypes, QueryRelaxationRetryTime := 0,
       queriesSimilarity :=
         om_set (SensoType_value SENSOR_TEMPERATURE) 13
          (om_set (SensoType_value SENSOR_SONG) 3
            (om_set (SensoType_value SENSOR_SINK) 0
              (om_set (SensoType_value SENSOR_PRESSURE) 8
                (om_set (SensoType_value SENSOR_LIGTH) 6
                  (om_set (SensoType_value SENSOR_HUMIDITY) 1 (queriesSimilarity t))))))\<rparr>"

text \<open>
  \<open>(unsigned int)QueryId\<close>, as it is compared with the table's size, and \<open>learningTable[QueryId]\<close>,
  whose index is converted to \<open>size_t\<close>.
\<close>

definition uint_of :: "int \<Rightarrow> nat" where
  "uint_of i = nat (i mod 2 ^ 32)"

definition table_row :: "(string, int) omap list \<Rightarrow> int \<Rightarrow> (string, int) omap res" where
  "table_row lt i = (if 0 \<le> i \<and> nat i < length lt then Inr (lt ! nat i) else Inl UndefinedBehaviour)"

text \<open>
  The row is created when the table is too short. A negative query number reaches that branch as a
  huge unsigned one: \<open>-1\<close> empties the table and indexes it, the others ask for an impossible size.
\<close>

definition UpdateTable :: "int \<Rightarrow> mac \<Rightarrow> TableRARE \<Rightarrow> TableRARE res" where
  "UpdateTable QueryId MAC t =
     (let lt = learningTable t; key = mac_str MAC in
      if length lt \<le> uint_of QueryId then
        if INT_MAX \<le> QueryId then Inl SignedOverflow
        else if QueryId = -1 then Inl UndefinedBehaviour
        else if QueryId < 0 then Inl (RuntimeError ''std::length_error'')
        else Inr (t\<lparr>learningTable :=
               (lt @ replicate (nat QueryId + 1 - length lt) [])[nat QueryId := om_set key 1 []]\<rparr>)
      else bindR (table_row lt QueryId) (\<lambda>mapMACInt.
        case om_find mapMACInt key of
          Some n \<Rightarrow> if n = INT_MAX then Inl SignedOverflow
                   else Inr (t\<lparr>learningTable := lt[nat QueryId := om_set key (n + 1) mapMACInt]\<rparr>)
        | None \<Rightarrow> Inr (t\<lparr>learningTable := lt[nat QueryId := om_set key 1 mapMACInt]\<rparr>)))"

function bitSum :: "u64 \<Rightarrow> int" where
  "bitSum number = (if number = 0 then 0 else uint (number mod 2) + bitSum (drop_bit 1 number))"
  by auto

termination bitSum
proof (relation "measure unat")
  fix number :: u64
  assume "number \<noteq> 0"
  then show "(drop_bit 1 number, number) \<in> measure unat"
    by (simp add: drop_bit_eq_div unat_div unat_gt_0)
qed simp

declare bitSum.simps [simp del]

text \<open>The loop of \<open>QueryRelaxation\<close>; \<open>anotherQueryNumber\<close> is a \<open>uint16_t\<close>.\<close>

fun relaxation_loop :: "int \<Rightarrow> u64 \<Rightarrow> (int, u64) omap \<Rightarrow> u64 \<Rightarrow> int \<Rightarrow> int" where
  "relaxation_loop queryId my [] lastNumber lastId = lastId"
| "relaxation_loop queryId my ((anotherId, v) # it) lastNumber lastId =
     (let another = (ucast v :: u16) in
      if anotherId = queryId then relaxation_loop queryId my it lastNumber lastId
      else if bitSum (my AND ucast another) > bitSum (my AND lastNumber)
      then relaxation_loop queryId my it (ucast another) anotherId
      else relaxation_loop queryId my it lastNumber lastId)"

definition QueryRelaxation :: "TableRARE \<Rightarrow> int \<Rightarrow> int" where
  "QueryRelaxation t queryId =
     (case om_find (queriesSimilarity t) queryId of
        None \<Rightarrow> queryId
      | Some my \<Rightarrow> relaxation_loop queryId my (queriesSimilarity t) 0 queryId)"

text \<open>The scan of one row: the first key with the greatest positive value.\<close>

fun best_peer :: "int \<Rightarrow> string \<Rightarrow> (string, int) omap \<Rightarrow> string" where
  "best_peer mx m_str [] = m_str"
| "best_peer mx m_str ((k, v) # it) = (if v > mx then best_peer v k it else best_peer mx m_str it)"

text \<open>The random choice of a row; it is only entered with at least two rows.\<close>

partial_function (option) pick_row :: "(string, int) omap list \<Rightarrow> rng \<Rightarrow> (nat \<times> rng) option" where
  "pick_row lt r =
     (let randomQuery = rand_value r mod (length lt - 1) in
      if lt ! randomQuery = [] then pick_row lt (rand_next r) else Some (randomQuery, rand_next r))"

partial_function (option) LearningPeerSelection ::
  "int \<Rightarrow> TableRARE \<Rightarrow> rng \<Rightarrow> (mac \<times> TableRARE \<times> rng) res option" where
  "LearningPeerSelection QueryId t r =
     (let lt = learningTable t in
      case (if length lt > uint_of QueryId
            then bindR (table_row lt QueryId) (\<lambda>mapMACInt. Inr (best_peer 0 '''' mapMACInt))
            else Inr '''') of
        Inl e \<Rightarrow> Some (Inl e)
      | Inr m_str \<Rightarrow>
          if m_str \<noteq> '''' then Some (bindR (mac_from_string m_str) (\<lambda>m. Inr (m, t, r)))
          else
            (let newQueryId = QueryRelaxation t QueryId in
             if newQueryId \<noteq> QueryId \<and> QueryRelaxationRetryTime t < QueryRelaxationMaxRetry t
             then LearningPeerSelection newQueryId
                    (t\<lparr>QueryRelaxationRetryTime := QueryRelaxationRetryTime t + 1\<rparr>) r
             else
               (let t' = t\<lparr>QueryRelaxationRetryTime := 0\<rparr> in
                if lt = [] then Some (Inr (UNSPECIFIED_ADDRESS, t', r))
                else if length lt = 1 then Some (Inl DivisionByZero)
                else Option.bind (pick_row lt r) (\<lambda>p. LearningPeerSelection (int (fst p)) t' (snd p)))))"

definition increaseSimilarity :: "int \<Rightarrow> int \<Rightarrow> TableRARE \<Rightarrow> TableRARE res" where
  "increaseSimilarity queryId1 queryId2 t =
     (case (om_find (queriesSimilarity t) queryId1, om_find (queriesSimilarity t) queryId2) of
        (Some Q1, Some Q2) \<Rightarrow>
          (let pos = fold (\<lambda>(_, q) pos. pos OR q) (queriesSimilarity t) 0 in
           if pos = 0 then Inr t
           else assertR (pos < pos + 1)
             (let pos = pos + 1 in
              Inr (t\<lparr>queriesSimilarity :=
                om_set queryId2 (Q2 OR pos) (om_set queryId1 (Q1 OR pos) (queriesSimilarity t))\<rparr>)))
      | _ \<Rightarrow> Inr t)"

section \<open>What the table has learned\<close>

definition row_at :: "(string, int) omap list \<Rightarrow> nat \<Rightarrow> (string, int) omap" where
  "row_at lt q = (if q < length lt then lt ! q else [])"

definition row_count :: "(string, int) omap \<Rightarrow> string \<Rightarrow> int" where
  "row_count row k = (case om_find row k of Some n \<Rightarrow> n | None \<Rightarrow> 0)"

definition learned :: "TableRARE \<Rightarrow> nat \<Rightarrow> mac \<Rightarrow> int" where
  "learned t q m = row_count (row_at (learningTable t) q) (mac_str m)"

definition row_wf :: "(string, int) omap \<Rightarrow> bool" where
  "row_wf row \<longleftrightarrow> om_wf row \<and> (\<forall>(k, v) \<in> set row. (\<exists>m. k = mac_str m) \<and> 1 \<le> v \<and> v \<le> INT_MAX)"

definition rare_wf :: "TableRARE \<Rightarrow> bool" where
  "rare_wf t \<longleftrightarrow> (\<forall>row \<in> set (learningTable t). row_wf row) \<and> int (length (learningTable t)) \<le> INT_MAX"

lemma uint_of_int: "0 \<le> i \<Longrightarrow> i < 2 ^ 32 \<Longrightarrow> uint_of i = nat i"
  by (simp add: uint_of_def)

lemma row_wf_Nil [simp]: "row_wf []"
  by (simp add: row_wf_def)

lemma row_wf_set: "row_wf row \<Longrightarrow> 1 \<le> v \<Longrightarrow> v \<le> INT_MAX \<Longrightarrow> row_wf (om_set (mac_str m) v row)"
  by (auto simp: row_wf_def om_wf_set om_set_mem)

lemma INT_MAX_le: "i < INT_MAX \<Longrightarrow> i < 2 ^ 32"
  by (simp add: INT_MAX_def)

lemma row_count_set: "row_count (om_set k v row) k' = (if k' = k then v else row_count row k')"
  by (simp add: row_count_def om_find_set)

lemma row_count_bounds: "row_wf row \<Longrightarrow> 0 \<le> row_count row k"
  by (auto simp: row_wf_def row_count_def om_find_mem split: option.splits)

lemma row_wf_row_at: "rare_wf t \<Longrightarrow> row_wf (row_at (learningTable t) q)"
  by (simp add: rare_wf_def row_at_def)

text \<open>The table after an update, in either branch.\<close>

definition bump :: "(string, int) omap list \<Rightarrow> nat \<Rightarrow> string \<Rightarrow> (string, int) omap list" where
  "bump lt q k = (lt @ replicate (q + 1 - length lt) [])
     [q := om_set k (row_count (row_at lt q) k + 1) (row_at lt q)]"

lemma row_at_bump:
  "row_at (bump lt q k) q' =
     (if q' = q then om_set k (row_count (row_at lt q) k + 1) (row_at lt q) else row_at lt q')"
  by (auto simp: row_at_def bump_def nth_append nth_list_update)

lemma length_bump: "length (bump lt q k) = max (length lt) (Suc q)"
  by (auto simp: bump_def)

lemma UpdateTable_bump:
  assumes "0 \<le> q" and "q < INT_MAX" and "learned t (nat q) m < INT_MAX"
  shows "UpdateTable q m t = Inr (t\<lparr>learningTable := bump (learningTable t) (nat q) (mac_str m)\<rparr>)"
proof -
  have u: "uint_of q = nat q" using assms uint_of_int INT_MAX_le by blast
  show ?thesis
  proof (cases "length (learningTable t) \<le> nat q")
    case True
    then show ?thesis
      using assms(1,2) u by (simp add: UpdateTable_def Let_def bump_def row_at_def row_count_def)
  next
    case False
    then show ?thesis
      using assms u
      by (auto simp: UpdateTable_def Let_def bump_def row_at_def row_count_def table_row_def learned_def
        split: option.splits)
  qed
qed

lemma rare_wf_bump:
  assumes "rare_wf t" and "int q < INT_MAX" and "learned t q m < INT_MAX"
  shows "rare_wf (t\<lparr>learningTable := bump (learningTable t) q (mac_str m)\<rparr>)"
proof -
  let ?lt = "learningTable t" and ?k = "mac_str m"
  have row: "row_wf (om_set ?k (row_count (row_at ?lt q) ?k + 1) (row_at ?lt q))"
    using assms row_wf_row_at [OF assms(1), of q] row_count_bounds
    by (intro row_wf_set) (auto simp: learned_def)
  have "row_wf r" if "r \<in> set (bump ?lt q ?k)" for r
    using that row assms(1) set_update_subset_insert unfolding bump_def rare_wf_def by fastforce
  then show ?thesis using assms by (auto simp: rare_wf_def length_bump)
qed

lemma learned_bump:
  "learned (t\<lparr>learningTable := bump (learningTable t) q (mac_str m)\<rparr>) q' m' =
     learned t q' m' + (if q' = q \<and> m' = m then 1 else 0)"
  by (simp add: learned_def row_at_bump row_count_set)

lemma UpdateTable_ok:
  assumes "rare_wf t" and "0 \<le> q" and "q < INT_MAX" and "learned t (nat q) m < INT_MAX"
  shows "\<exists>t'. UpdateTable q m t = Inr t' \<and> rare_wf t' \<and>
    (\<forall>q' m'. learned t' q' m' = learned t q' m' + (if q' = nat q \<and> m' = m then 1 else 0))"
  using UpdateTable_bump [OF assms(2-4)] rare_wf_bump [of t "nat q" m] learned_bump assms by simp

lemma learned_new [simp]: "learned (TableRARE_initialize a1 a2 a3 a4 newTableRARE) q m = 0"
  by (simp add: learned_def row_at_def row_count_def TableRARE_initialize_def newTableRARE_def)

lemma rare_wf_new [simp]: "rare_wf (TableRARE_initialize a1 a2 a3 a4 newTableRARE)"
  by (simp add: rare_wf_def TableRARE_initialize_def newTableRARE_def INT_MAX_def)

lemma UpdateTables_count:
  assumes "rare_wf t" and "\<forall>(q, m) \<in> set us. 0 \<le> q \<and> q < INT_MAX"
    and "\<forall>q m. learned t q m + int (length us) \<le> INT_MAX"
  shows "succR (\<lambda>t'. rare_wf t' \<and>
      (\<forall>q m. learned t' q m = learned t q m + int (count_list us (int q, m))))
    (foldR (\<lambda>(q, m). UpdateTable q m) us t)"
  using assms
proof (induction us arbitrary: t)
  case (Cons u us)
  obtain q m where u: "u = (q, m)" by (cases u)
  with Cons.prems have q: "0 \<le> q" "q < INT_MAX" by auto
  have room: "learned t (nat q) m < INT_MAX" using Cons.prems(3) [rule_format, of "nat q" m] by simp
  from UpdateTable_ok [OF Cons.prems(1) q room] obtain t' where t': "UpdateTable q m t = Inr t'" "rare_wf t'"
      "\<And>q' m'. learned t' q' m' = learned t q' m' + (if q' = nat q \<and> m' = m then 1 else 0)"
    by blast
  have "learned t' q' m' + int (length us) \<le> INT_MAX" for q' m'
    using Cons.prems(3) [rule_format, of q' m'] t'(3) [of q' m'] by auto
  with Cons.IH [OF t'(2)] Cons.prems(2) have
    "succR (\<lambda>t''. rare_wf t'' \<and> (\<forall>q m. learned t'' q m = learned t' q m + int (count_list us (int q, m))))
      (foldR (\<lambda>(q, m). UpdateTable q m) us t')" by auto
  then show ?case
    using t' u q by (auto simp: succR_iff)
qed simp

section \<open>The choice of a peer\<close>

text \<open>
  Both scans of the module, over a row and over the similarity masks, keep the first key with the
  greatest value above a bound.
\<close>

fun first_max :: "('v \<Rightarrow> int) \<Rightarrow> int \<Rightarrow> 'k \<Rightarrow> ('k \<times> 'v) list \<Rightarrow> 'k" where
  "first_max g mx d [] = d"
| "first_max g mx d ((k, v) # it) = (if g v > mx then first_max g (g v) k it else first_max g mx d it)"

lemma first_max_spec:
  assumes "om_wf it"
  shows "(first_max g mx d it = d \<and> (\<forall>(k, v) \<in> set it. g v \<le> mx)) \<or>
    (\<exists>v. (first_max g mx d it, v) \<in> set it \<and> mx < g v \<and>
       (\<forall>(k', v') \<in> set it. g v' \<le> g v \<and> (g v' = g v \<longrightarrow> first_max g mx d it \<le> k')))"
  using assms
proof (induction g mx d it rule: first_max.induct)
  case (2 g mx d k v it)
  have wf: "om_wf it" and less: "\<forall>p \<in> set it. k < fst p"
    using "2.prems" by (auto simp: om_wf_def)
  show ?case
  proof (cases "mx < g v")
    case True
    from "2.IH"(1) [OF this wf] show ?thesis
    proof
      assume "first_max g (g v) k it = k \<and> (\<forall>(k', v') \<in> set it. g v' \<le> g v)"
      with less True show ?thesis by (intro disjI2 exI [of _ v]) (auto intro: less_imp_le)
    next
      assume "\<exists>w. (first_max g (g v) k it, w) \<in> set it \<and> g v < g w \<and>
        (\<forall>(k', v') \<in> set it. g v' \<le> g w \<and> (g v' = g w \<longrightarrow> first_max g (g v) k it \<le> k'))"
      with True show ?thesis by (intro disjI2) auto
    qed
  next
    case False
    from "2.IH"(2) [OF this wf] False show ?thesis by (auto split: prod.splits)
  qed
qed simp

lemma best_peer_first_max: "best_peer mx s row = first_max (\<lambda>v. v) mx s row"
  by (induction mx s row rule: best_peer.induct) auto

text \<open>
  The neighbours with the best record for a query: what \<open>LearningPeerSelection\<close> is meant to return.
\<close>

definition best_neighbor :: "TableRARE \<Rightarrow> nat \<Rightarrow> mac \<Rightarrow> bool" where
  "best_neighbor t q m \<longleftrightarrow> 0 < learned t q m \<and>
     (\<forall>m'. learned t q m' \<le> learned t q m \<and> (learned t q m' = learned t q m \<longrightarrow> address m \<le> address m'))"

lemma learned_mem:
  "rare_wf t \<Longrightarrow> 0 < v \<Longrightarrow> (mac_str m, v) \<in> set (row_at (learningTable t) q) \<longleftrightarrow> learned t q m = v"
  using row_wf_row_at [of t q]
  by (auto simp: learned_def row_count_def row_wf_def om_find_mem [symmetric] split: option.splits)

lemma best_peer_row:
  assumes wf: "rare_wf t" and row: "row_at (learningTable t) q \<noteq> []"
  shows "\<exists>m. best_peer 0 [] (row_at (learningTable t) q) = mac_str m \<and> best_neighbor t q m"
proof -
  let ?row = "row_at (learningTable t) q" and ?b = "best_peer 0 [] (row_at (learningTable t) q)"
  have rw: "row_wf ?row" by (rule row_wf_row_at [OF wf])
  then have pos: "\<And>k v. (k, v) \<in> set ?row \<Longrightarrow> 0 < v \<and> (\<exists>m. k = mac_str m)" and ow: "om_wf ?row"
    by (auto simp: row_wf_def)
  have "\<not> (\<forall>(k, v) \<in> set ?row. v \<le> 0)"
    using row pos by (cases ?row) fastforce+
  with first_max_spec [OF ow, of "\<lambda>v. v" 0 "[]"] obtain v where v: "(?b, v) \<in> set ?row" "0 < v"
      and best: "\<And>k' v'. (k', v') \<in> set ?row \<Longrightarrow> v' \<le> v \<and> (v' = v \<longrightarrow> ?b \<le> k')"
    unfolding best_peer_first_max by blast
  obtain m where m: "?b = mac_str m" using pos v(1) by blast
  have lv: "learned t q m = v" using learned_mem [OF wf v(2)] v(1) m by simp
  have "learned t q m' \<le> v \<and> (learned t q m' = v \<longrightarrow> address m \<le> address m')" for m'
  proof (cases "0 < learned t q m'")
    case True
    then have "(mac_str m', learned t q m') \<in> set ?row" using learned_mem [OF wf True] by simp
    from best [OF this] m show ?thesis using mac_str_less [of m' m] by (auto simp: not_less [symmetric])
  qed (use v(2) in auto)
  with m lv v(2) show ?thesis by (auto simp: best_neighbor_def)
qed

lemma LearningPeerSelection_known:
  assumes wf: "rare_wf t" and row: "row_at (learningTable t) q \<noteq> []"
  shows "\<exists>m. LearningPeerSelection (int q) t r = Some (Inr (m, t, r)) \<and> best_neighbor t q m"
proof -
  obtain m where m: "best_peer 0 [] (row_at (learningTable t) q) = mac_str m" "best_neighbor t q m"
    using best_peer_row [OF assms] by blast
  have q: "q < length (learningTable t)" using row by (auto simp: row_at_def split: if_splits)
  then have "int q < INT_MAX" using wf by (auto simp: rare_wf_def)
  then have "uint_of (int q) = q" using INT_MAX_le [of "int q"] by (simp add: uint_of_int)
  then have "LearningPeerSelection (int q) t r = Some (Inr (m, t, r))"
    using q m(1) by (subst LearningPeerSelection.simps) (simp add: table_row_def row_at_def)
  with m(2) show ?thesis by blast
qed

text \<open>A query without a row: what is left of the search.\<close>

definition int_range :: "int \<Rightarrow> bool" where
  "int_range i \<longleftrightarrow> - (2 ^ 31) \<le> i \<and> i \<le> INT_MAX"

lemma uint_of_less:
  assumes "int_range i" and "uint_of i < n" and "int n \<le> INT_MAX"
  shows "0 \<le> i \<and> uint_of i = nat i"
proof (cases "0 \<le> i")
  case True then show ?thesis using assms by (simp add: int_range_def uint_of_int INT_MAX_def)
next
  case False
  have "i mod 2 ^ 32 = (i + 2 ^ 32) mod 2 ^ 32" by simp
  also have "\<dots> = i + 2 ^ 32" using False assms(1) by (intro mod_pos_pos_trivial) (auto simp: int_range_def)
  finally show ?thesis using False assms by (simp add: uint_of_def int_range_def INT_MAX_def)
qed

lemma LearningPeerSelection_unknown:
  assumes wf: "rare_wf t" and range: "int_range q" and row: "q < 0 \<or> row_at (learningTable t) (nat q) = []"
  shows "LearningPeerSelection q t r =
    (if QueryRelaxation t q \<noteq> q \<and> QueryRelaxationRetryTime t < QueryRelaxationMaxRetry t
     then LearningPeerSelection (QueryRelaxation t q)
            (t\<lparr>QueryRelaxationRetryTime := QueryRelaxationRetryTime t + 1\<rparr>) r
     else if learningTable t = []
     then Some (Inr (UNSPECIFIED_ADDRESS, t\<lparr>QueryRelaxationRetryTime := 0\<rparr>, r))
     else if length (learningTable t) = 1 then Some (Inl DivisionByZero)
     else Option.bind (pick_row (learningTable t) r)
            (\<lambda>p. LearningPeerSelection (int (fst p)) (t\<lparr>QueryRelaxationRetryTime := 0\<rparr>) (snd p)))"
proof -
  have "0 \<le> q \<and> nat q < length (learningTable t) \<and> learningTable t ! nat q = []"
    if "uint_of q < length (learningTable t)"
    using uint_of_less [OF range that] that wf row by (simp add: rare_wf_def row_at_def)
  then have "(if length (learningTable t) > uint_of q
      then bindR (table_row (learningTable t) q) (\<lambda>mapMACInt. Inr (best_peer 0 [] mapMACInt))
      else Inr []) = (Inr [] :: string res)"
    by (simp add: table_row_def)
  then show ?thesis
    by (subst LearningPeerSelection.simps) (simp only: Let_def sum.case if_False simp_thms)
qed

lemma pick_row_some:
  assumes "2 \<le> length lt" and "lt ! (r n mod (length lt - 1)) \<noteq> []"
  shows "\<exists>p. pick_row lt r = Some p \<and> fst p < length lt - 1 \<and> lt ! fst p \<noteq> []"
  using assms(2)
proof (induction n arbitrary: r)
  case 0
  then show ?case using assms(1) by (subst pick_row.simps) (simp add: rand_value_def Let_def)
next
  case (Suc n)
  from Suc.IH [of "rand_next r"] Suc.prems assms(1) show ?case
    by (subst pick_row.simps) (simp add: rand_next_def Let_def)
qed

lemma pick_row_diverges:
  assumes "2 \<le> length lt" and "\<forall>i < length lt - 1. lt ! i = []"
  shows "pick_row lt r = None"
proof (cases "pick_row lt r")
  case (Some p)
  have "\<exists>i < length lt - 1. lt ! i \<noteq> []"
  proof (rule pick_row.raw_induct [where P = "\<lambda>lt' r p. lt' = lt \<longrightarrow> (\<exists>i < length lt - 1. lt ! i \<noteq> [])",
        OF _ Some, THEN mp, OF _ refl])
    fix f :: "(string, int) omap list \<Rightarrow> rng \<Rightarrow> (nat \<times> rng) option" and lt' r p
    assume IH: "\<And>lt' r p. f lt' r = Some p \<Longrightarrow> lt' = lt \<longrightarrow> (\<exists>i < length lt - 1. lt ! i \<noteq> [])"
      and eq: "(let randomQuery = rand_value r mod (length lt' - 1) in
        if lt' ! randomQuery = [] then f lt' (rand_next r) else Some (randomQuery, rand_next r)) = Some p"
    show "lt' = lt \<longrightarrow> (\<exists>i < length lt - 1. lt ! i \<noteq> [])"
    proof
      assume l: "lt' = lt"
      have "rand_value r mod (length lt - 1) < length lt - 1" using assms(1) by simp
      with eq l IH [of lt "rand_next r" p] show "\<exists>i < length lt - 1. lt ! i \<noteq> []"
        by (auto simp: Let_def split: if_splits)
    qed
  qed
  with assms(2) show ?thesis by auto
qed simp

section \<open>Relaxation of a query\<close>

definition overlap :: "u64 \<Rightarrow> u64 \<Rightarrow> int" where
  "overlap my v = bitSum (my AND ucast (ucast v :: u16))"

lemma relaxation_loop_first_max:
  "relaxation_loop q my it l li =
     first_max (overlap my) (bitSum (my AND l)) li (filter (\<lambda>p. fst p \<noteq> q) it)"
  by (induction q my it l li rule: relaxation_loop.induct) (auto simp: Let_def overlap_def)

lemma om_wf_filter: "om_wf m \<Longrightarrow> om_wf (filter P m)"
  by (induction m) (auto simp: om_wf_def)

lemma bitSum_0 [simp]: "bitSum 0 = 0"
  by (simp add: bitSum.simps)

lemma QueryRelaxation_spec:
  assumes wf: "om_wf (queriesSimilarity t)" and my: "om_find (queriesSimilarity t) q = Some my"
  shows "(QueryRelaxation t q = q \<and>
      (\<forall>q' v. om_find (queriesSimilarity t) q' = Some v \<longrightarrow> q' \<noteq> q \<longrightarrow> overlap my v \<le> 0)) \<or>
    (\<exists>v. om_find (queriesSimilarity t) (QueryRelaxation t q) = Some v \<and> QueryRelaxation t q \<noteq> q \<and> 0 < overlap my v \<and>
      (\<forall>q' v'. om_find (queriesSimilarity t) q' = Some v' \<longrightarrow> q' \<noteq> q \<longrightarrow>
         overlap my v' \<le> overlap my v \<and> (overlap my v' = overlap my v \<longrightarrow> QueryRelaxation t q \<le> q')))"
proof -
  have "QueryRelaxation t q = first_max (overlap my) 0 q (filter (\<lambda>p. fst p \<noteq> q) (queriesSimilarity t))"
    by (simp add: QueryRelaxation_def my relaxation_loop_first_max)
  with first_max_spec [OF om_wf_filter [OF wf], of "overlap my" 0 q "\<lambda>p. fst p \<noteq> q"] show ?thesis
    by (auto simp: om_find_mem [OF wf])
qed

lemma QueryRelaxation_id:
  "om_wf (queriesSimilarity t) \<Longrightarrow>
   QueryRelaxation t q = q \<or> QueryRelaxation t q \<in> fst ` set (queriesSimilarity t)"
  by (cases "om_find (queriesSimilarity t) q")
    (use QueryRelaxation_spec [of t q] in \<open>auto simp: QueryRelaxation_def om_find_mem image_iff\<close>, force)

lemma QueryRelaxation_retry [simp]:
  "QueryRelaxation (t\<lparr>QueryRelaxationRetryTime := n\<rparr>) = QueryRelaxation t"
  by (simp add: QueryRelaxation_def fun_eq_iff split: option.split)

text \<open>
  C28: the learning table counts exactly: after any sequence of updates of a fresh table with valid
  query numbers, the entry of a neighbour for a query is the number of updates for that pair, no
  update faults, and the table stays well formed.
\<close>

theorem learning_table_counts:
  assumes "\<forall>(q, m) \<in> set us. 0 \<le> q \<and> q < INT_MAX" and "int (length us) \<le> INT_MAX"
  shows "\<exists>t. foldR (\<lambda>(q, m). UpdateTable q m) us (TableRARE_initialize a1 a2 a3 a4 newTableRARE) = Inr t \<and>
    rare_wf t \<and> (\<forall>q m. learned t q m = int (count_list us (int q, m)))"
  using UpdateTables_count [OF rare_wf_new assms(1), of a1 a2 a3 a4] assms(2)
  by (simp add: succR_iff)

theorem learning_table_counts_witness:
  "\<exists>t. foldR (\<lambda>(q, m). UpdateTable q m) [(3, BROADCAST_ADDRESS), (3, BROADCAST_ADDRESS)]
      (TableRARE_initialize 3 True 6 4 newTableRARE) = Inr t \<and> learned t 3 BROADCAST_ADDRESS = 2"
  using learning_table_counts [of "[(3, BROADCAST_ADDRESS), (3, BROADCAST_ADDRESS)]" 3 True 6 4]
  by (auto simp: INT_MAX_def)

text \<open>
  C30: when at least one neighbour is recorded for the query, the selection returns the neighbour
  with the greatest count, the smallest address among equals, and leaves the table (its counter of
  relaxation attempts included) and the random sequence as they were.
\<close>

theorem selection_returns_best:
  assumes "rare_wf t" and "0 < learned t q m0"
  shows "\<exists>m. LearningPeerSelection (int q) t r = Some (Inr (m, t, r)) \<and> 0 < learned t q m \<and>
    (\<forall>m'. learned t q m' \<le> learned t q m \<and> (learned t q m' = learned t q m \<longrightarrow> address m \<le> address m'))"
proof -
  have "row_at (learningTable t) q \<noteq> []" using assms(2) by (auto simp: learned_def row_count_def)
  from LearningPeerSelection_known [OF assms(1) this, of r] show ?thesis
    by (simp add: best_neighbor_def)
qed

lemma UpdateTable_new:
  "0 \<le> q \<Longrightarrow> q < INT_MAX \<Longrightarrow>
   UpdateTable q m (TableRARE_initialize a1 a2 a3 a4 newTableRARE) =
     Inr ((TableRARE_initialize a1 a2 a3 a4 newTableRARE)\<lparr>learningTable := replicate (nat q) [] @ [[(mac_str m, 1)]]\<rparr>)"
  by (simp add: UpdateTable_def uint_of_int INT_MAX_le TableRARE_initialize_def newTableRARE_def
      replicate_append_same [symmetric] list_update_append)

theorem selection_returns_best_witness:
  "\<exists>t m. UpdateTable 2 BROADCAST_ADDRESS (TableRARE_initialize 3 True 6 4 newTableRARE) = Inr t \<and>
     LearningPeerSelection 2 t (\<lambda>_. 0) = Some (Inr (m, t, \<lambda>_. 0)) \<and> 0 < learned t 2 m"
proof -
  obtain t where t: "UpdateTable 2 BROADCAST_ADDRESS (TableRARE_initialize 3 True 6 4 newTableRARE) = Inr t"
      "rare_wf t" "learned t 2 BROADCAST_ADDRESS = 1"
    using UpdateTable_ok [OF rare_wf_new, of 2 3 True 6 4 BROADCAST_ADDRESS] by (auto simp: INT_MAX_def)
  with selection_returns_best [of t 2 BROADCAST_ADDRESS "\<lambda>_. 0"] show ?thesis by auto
qed

text \<open>
  C29: the selection terminates, for any query, as soon as the table has two rows and the random
  sequence eventually hits a non-empty row other than the last; whatever the number of relaxations
  it returns a neighbour with the best record for some query and keeps what was learned.
\<close>

theorem selection_terminates:
  assumes "rare_wf t" and "om_wf (queriesSimilarity t)"
    and "\<forall>k \<in> fst ` set (queriesSimilarity t). int_range k" and "int_range q"
    and "2 \<le> length (learningTable t)"
    and "learningTable t ! (r n mod (length (learningTable t) - 1)) \<noteq> []"
  shows "\<exists>m t' r'. LearningPeerSelection q t r = Some (Inr (m, t', r')) \<and>
    learningTable t' = learningTable t \<and> (\<exists>q'. best_neighbor t q' m)"
  using assms
proof (induction "nat (QueryRelaxationMaxRetry t - QueryRelaxationRetryTime t)" arbitrary: q t rule: less_induct)
  case (less t q)
  let ?inc = "t\<lparr>QueryRelaxationRetryTime := QueryRelaxationRetryTime t + 1\<rparr>"
    and ?zero = "t\<lparr>QueryRelaxationRetryTime := 0\<rparr>"
  have same: "rare_wf (t\<lparr>QueryRelaxationRetryTime := k\<rparr>) = rare_wf t"
    "best_neighbor (t\<lparr>QueryRelaxationRetryTime := k\<rparr>) = best_neighbor t" for k
    by (simp_all add: rare_wf_def best_neighbor_def learned_def fun_eq_iff)
  show ?case
  proof (cases "q < 0 \<or> row_at (learningTable t) (nat q) = []")
    case False
    with LearningPeerSelection_known [OF less.prems(1), of "nat q" r] show ?thesis by auto
  next
    case True
    note unknown = LearningPeerSelection_unknown [OF less.prems(1,4) True, of r]
    show ?thesis
    proof (cases "QueryRelaxation t q \<noteq> q \<and> QueryRelaxationRetryTime t < QueryRelaxationMaxRetry t")
      case True
      have "int_range (QueryRelaxation t q)"
        using QueryRelaxation_id [OF less.prems(2), of q] less.prems(3,4) by auto
      with less.hyps [of ?inc "QueryRelaxation t q"] less.prems True same unknown show ?thesis by simp
    next
      case False
      from pick_row_some [where r = r and n = n, OF less.prems(5,6)] obtain p where p: "pick_row (learningTable t) r = Some p"
          "fst p < length (learningTable t) - 1" "learningTable t ! fst p \<noteq> []" by blast
      then have "row_at (learningTable ?zero) (fst p) \<noteq> []" by (simp add: row_at_def)
      moreover have "rare_wf ?zero" using less.prems(1) same by simp
      ultimately obtain m where "LearningPeerSelection (int (fst p)) ?zero (snd p) = Some (Inr (m, ?zero, snd p))"
          "best_neighbor t (fst p) m"
        using LearningPeerSelection_known [of ?zero "fst p" "snd p"] same by auto
      moreover have "LearningPeerSelection q t r = LearningPeerSelection (int (fst p)) ?zero (snd p)"
        using unknown False p(1) less.prems(5) by auto
      ultimately show ?thesis by auto
    qed
  qed
qed

theorem selection_terminates_witness:
  "\<exists>t m t' r'. foldR (\<lambda>(q, m). UpdateTable q m) [(0, BROADCAST_ADDRESS), (1, BROADCAST_ADDRESS)]
      (TableRARE_initialize 3 True 6 4 newTableRARE) = Inr t \<and>
     LearningPeerSelection 5 t (\<lambda>_. 0) = Some (Inr (m, t', r'))"
proof -
  let ?t0 = "TableRARE_initialize 3 True 6 4 newTableRARE"
  let ?k = "mac_str BROADCAST_ADDRESS"
  define t where "t = ?t0\<lparr>learningTable := [[(?k, 1)], [(?k, 1)]]\<rparr>"
  have t: "foldR (\<lambda>(q, m). UpdateTable q m) [(0, BROADCAST_ADDRESS), (1, BROADCAST_ADDRESS)] ?t0 = Inr t"
    by (simp add: t_def UpdateTable_def uint_of_def TableRARE_initialize_def newTableRARE_def INT_MAX_def)
  have "rare_wf t"
    by (auto simp: t_def rare_wf_def row_wf_def om_wf_def INT_MAX_def)
  moreover have "om_wf (queriesSimilarity t)" "\<forall>k \<in> fst ` set (queriesSimilarity t). int_range k"
    by (auto simp: t_def TableRARE_initialize_def newTableRARE_def om_wf_def int_range_def INT_MAX_def)
  ultimately show ?thesis
    using selection_terminates [of t 5 "\<lambda>_. 0" 0] t by (auto simp: int_range_def INT_MAX_def t_def)
qed

text \<open>
  C31: the random choice never considers the last row, so a table that has learned exactly one
  answer cannot serve a query without relatives: when the only answer was for query 0 the
  selection divides by zero, and for every other query it loops for ever.
\<close>

theorem selection_stuck_after_one_answer:
  assumes "0 \<le> q" and "q \<le> 4"
    and "UpdateTable q m (TableRARE_initialize a1 a2 a3 a4 newTableRARE) = Inr t"
  shows "LearningPeerSelection (SensoType_value SENSOR_SINK) t r = (if q = 0 then Some (Inl DivisionByZero) else None)"
proof -
  let ?t0 = "TableRARE_initialize a1 a2 a3 a4 newTableRARE"
  have t: "t = ?t0\<lparr>learningTable := replicate (nat q) [] @ [[(mac_str m, 1)]]\<rparr>"
    using UpdateTable_new [of q m a1 a2 a3 a4] assms by (simp add: INT_MAX_def)
  have wf: "rare_wf t"
    using UpdateTable_ok [OF rare_wf_new, of q a1 a2 a3 a4 m] assms by (auto simp: INT_MAX_def)
  have "row_at (learningTable t) (nat 5) = []"
    using assms(2) by (auto simp: t row_at_def)
  then have row: "5 < (0::int) \<or> row_at (learningTable t) (nat 5) = []" ..
  have "queriesSimilarity t = queriesSimilarity ?t0" by (simp add: t)
  then have relax: "QueryRelaxation t 5 = 5"
    by (simp add: QueryRelaxation_def TableRARE_initialize_def newTableRARE_def om_find_def)
  have "pick_row (learningTable t) r = None" if "q \<noteq> 0"
    using that assms(1) by (intro pick_row_diverges) (auto simp: t nth_append)
  with LearningPeerSelection_unknown [OF wf _ row, of r] relax show ?thesis
    using assms(1) by (simp add: int_range_def INT_MAX_def t)
qed

theorem selection_stuck_after_one_answer_witness:
  "\<exists>t. UpdateTable 4 BROADCAST_ADDRESS (TableRARE_initialize 3 True 6 4 newTableRARE) = Inr t \<and>
     LearningPeerSelection (SensoType_value SENSOR_SINK) t (\<lambda>n. n) = None"
  using selection_stuck_after_one_answer [of 4 BROADCAST_ADDRESS 3 True 6 4 _ "\<lambda>n. n"]
    UpdateTable_new [of 4 BROADCAST_ADDRESS 3 True 6 4] by (simp add: INT_MAX_def)

section \<open>Similarity masks\<close>

lemma bitSum_card: "bitSum n = int (card {i. bit n i})"
proof (induction n rule: bitSum.induct)
  case (1 n)
  show ?case
  proof (cases "n = 0")
    case False
    have "{i. bit n i} = (if odd n then {0} else {}) \<union> Suc ` {i. bit (drop_bit 1 n) i}" (is "?L = ?R")
    proof (rule set_eqI)
      fix i show "i \<in> ?L \<longleftrightarrow> i \<in> ?R"
        by (cases i) (auto simp: bit_0 bit_drop_bit_eq)
    qed
    moreover have "finite {i. bit (drop_bit 1 n) i}" by (rule finite_subset [of _ "{..<64}"])
      (auto dest: bit_imp_le_length)
    ultimately have "card {i. bit n i} = of_bool (odd n) + card {i. bit (drop_bit 1 n) i}"
      by (auto simp: card_image card_Un_disjoint)
    moreover have "uint (n mod 2) = of_bool (odd n)" by (simp add: mod_2_eq_odd)
    ultimately show ?thesis using "1.IH" [OF False] False by (subst bitSum.simps) simp
  qed simp
qed

lemma bit_or_all: "bit (fold (\<lambda>(_, q) pos. pos OR q) m p) i \<longleftrightarrow> bit p i \<or> (\<exists>(k, v) \<in> set m. bit (v :: u64) i)"
  by (induction m arbitrary: p) (auto simp: bit_simps)

text \<open>
  The invariant of the masks: together they use exactly the \<open>n\<close> low bits. It holds initially with
  \<open>n = 4\<close>, and each increase takes the next bit.
\<close>

definition sim_wf :: "nat \<Rightarrow> TableRARE \<Rightarrow> bool" where
  "sim_wf n t \<longleftrightarrow> om_wf (queriesSimilarity t) \<and> 0 < n \<and> n \<le> 64 \<and>
     (\<forall>i. (\<exists>(k, v) \<in> set (queriesSimilarity t). bit v i) \<longleftrightarrow> i < n)"

lemma or_all_mask:
  assumes "sim_wf n t"
  shows "fold (\<lambda>(_, q) pos. pos OR q) (queriesSimilarity t) 0 = mask n"
proof (rule bit_eqI)
  fix i
  have "bit (mask n :: u64) i \<longleftrightarrow> i < n"
    using assms by (auto simp: bit_mask_iff sim_wf_def)
  then show "bit (fold (\<lambda>(_, q) pos. pos OR q) (queriesSimilarity t) 0) i = bit (mask n :: u64) i"
    using assms by (simp add: bit_or_all sim_wf_def)
qed

lemma sim_wf_bits:
  "sim_wf n t \<Longrightarrow> om_find (queriesSimilarity t) q = Some v \<Longrightarrow> bit v i \<Longrightarrow> i < n"
  by (fastforce simp: sim_wf_def om_find_mem)

lemma mask_plus_1: "mask n + 1 = ((2::u64) ^ n)"
  by (simp add: mask_eq_exp_minus_1)

lemma mask_less_succ: "n \<le> 64 \<Longrightarrow> (mask n :: u64) < 2 ^ n \<longleftrightarrow> n < 64"
proof (cases "n = 64")
  case True
  have "(2 :: u64) ^ n = 0" using word_exp_length_eq_0 [where ?'a = 64] True by simp
  then show ?thesis using True by (simp only: word_not_simps) simp
next
  case False
  assume "n \<le> 64"
  with False have n: "n < 64" by simp
  then have "(2 :: u64) ^ n \<noteq> 0" by (simp add: exp_eq_zero_iff possible_bit_word)
  then have "(2 :: u64) ^ n - 1 < 2 ^ n"
    by (simp add: word_less_nat_alt unat_minus_one unat_gt_0)
  with n show ?thesis by (simp add: mask_eq_exp_minus_1)
qed

lemma increaseSimilarity_eq:
  assumes "sim_wf n t" and "om_find (queriesSimilarity t) q1 = Some Q1"
    and "om_find (queriesSimilarity t) q2 = Some Q2"
  shows "increaseSimilarity q1 q2 t =
    (if n < 64 then Inr (t\<lparr>queriesSimilarity :=
        om_set q2 (Q2 OR 2 ^ n) (om_set q1 (Q1 OR 2 ^ n) (queriesSimilarity t))\<rparr>)
     else Inl AssertFailed)"
proof -
  have n: "0 < n" "n \<le> 64" using assms(1) by (simp_all add: sim_wf_def)
  then have "mask n \<noteq> (0 :: u64)"
    by (metis bit_0_eq bit_mask_iff bot_apply bot_bool_def possible_bit_word zero_less_numeral len_bit0 less_le_trans mask_eq_0_iff nat_less_le)
  then show ?thesis
    using assms n by (simp add: increaseSimilarity_def or_all_mask mask_less_succ mask_plus_1 Let_def split del: if_split)
      (simp add: mask_less_succ)
qed

lemma bitSum_fresh_bit:
  assumes "\<And>i. bit w i \<Longrightarrow> i < n" and "n < 64"
  shows "bitSum (w OR 2 ^ n) = bitSum w + 1"
proof -
  have "{i. bit (w OR 2 ^ n) i} = insert n {i. bit w i}"
    using assms by (auto simp: bit_simps)
  moreover have "n \<notin> {i. bit w i}" using assms(1) by blast
  moreover have "finite {i. bit w i}" by (rule finite_subset [of _ "{..<64}"]) (auto dest: bit_imp_le_length)
  ultimately show ?thesis by (simp add: bitSum_card)
qed

lemma and_fresh_bit:
  assumes "\<And>i. bit v i \<Longrightarrow> i < n"
  shows "(w OR 2 ^ n) AND v = w AND (v :: u64)"
  using assms by (intro bit_eqI) (auto simp: bit_simps)

lemma sim_wf_initialize: "sim_wf 4 (TableRARE_initialize a1 a2 a3 a4 newTableRARE)"
proof -
  have "bit (13::u64) i \<or> bit (6::u64) i \<longleftrightarrow> i < 4" for i
  proof -
    have "bit (13::u64) i \<or> bit (6::u64) i \<longleftrightarrow> bit ((13::u64) OR 6) i" by (simp only: bit_or_iff)
    also have "(13::u64) OR 6 = mask 4" by (simp add: mask_eq_exp_minus_1)
    finally show ?thesis by (auto simp: bit_mask_iff)
  qed
  moreover have low: "i < 4" if "v AND mask 4 = v" "bit (v::u64) i" for v i
    using that by (metis bit_and_iff bit_mask_iff)
  have "bit (1::u64) i \<Longrightarrow> i < 4" "bit (3::u64) i \<Longrightarrow> i < 4" "bit (8::u64) i \<Longrightarrow> i < 4" for i
    using low [of 1 i] low [of 3 i] low [of 8 i] by (simp_all add: mask_eq_exp_minus_1)
  ultimately show ?thesis
    by (auto simp: sim_wf_def TableRARE_initialize_def newTableRARE_def om_wf_def)
qed

lemma sim_wf_increase:
  assumes sim: "sim_wf n t" and n: "n < 64"
    and q: "om_find (queriesSimilarity t) q1 = Some Q1" "om_find (queriesSimilarity t) q2 = Some Q2"
  shows "sim_wf (Suc n) (t\<lparr>queriesSimilarity :=
        om_set q2 (Q2 OR 2 ^ n) (om_set q1 (Q1 OR 2 ^ n) (queriesSimilarity t))\<rparr>)"
proof -
  let ?m = "queriesSimilarity t" and ?m' = "om_set q2 (Q2 OR 2 ^ n) (om_set q1 (Q1 OR 2 ^ n) (queriesSimilarity t))"
  have wf: "om_wf ?m" "om_wf ?m'" using sim by (simp_all add: sim_wf_def om_wf_set)
  have ex: "(\<exists>(k, v) \<in> set m. bit v i) \<longleftrightarrow> (\<exists>k v. om_find m k = Some v \<and> bit v i)" if "om_wf m" for m :: "(int, u64) omap" and i
    using that by (auto simp: om_find_mem)
  have "(\<exists>k v. om_find ?m' k = Some v \<and> bit v i) \<longleftrightarrow> i = n \<or> (\<exists>k v. om_find ?m k = Some v \<and> bit v i)" for i
  proof
    assume "\<exists>k v. om_find ?m' k = Some v \<and> bit v i"
    then show "i = n \<or> (\<exists>k v. om_find ?m k = Some v \<and> bit v i)"
      using q by (auto simp: om_find_set bit_simps split: if_splits)
  next
    assume "i = n \<or> (\<exists>k v. om_find ?m k = Some v \<and> bit v i)"
    then consider "i = n" | k v where "om_find ?m k = Some v" "bit v i" by blast
    then show "\<exists>k v. om_find ?m' k = Some v \<and> bit v i"
    proof cases
      case 1 then show ?thesis using n by (intro exI [of _ q2]) (simp add: om_find_set bit_simps)
    next
      case 2 then show ?thesis using q by (intro exI [of _ k]) (auto simp: om_find_set bit_simps)
    qed
  qed
  with sim n wf ex show ?thesis by (simp add: sim_wf_def less_Suc_eq) blast
qed

text \<open>
  increasing the similarity of two queries adds one bit in common to exactly that pair: the
  bit was used by no query before, every other query keeps its mask and what it has in common
  with the two; once all 64 bits are used the assertion fails instead.
\<close>

theorem increase_adds_one_common_bit:
  assumes "sim_wf n t" and "om_find (queriesSimilarity t) q1 = Some Q1"
    and "om_find (queriesSimilarity t) q2 = Some Q2" and "q1 \<noteq> q2"
  shows "if n < 64
    then \<exists>t' Q1' Q2'. increaseSimilarity q1 q2 t = Inr t' \<and> sim_wf (Suc n) t' \<and>
      om_find (queriesSimilarity t') q1 = Some Q1' \<and> om_find (queriesSimilarity t') q2 = Some Q2' \<and>
      bitSum (Q1' AND Q2') = bitSum (Q1 AND Q2) + 1 \<and>
      (\<forall>q. q \<noteq> q1 \<longrightarrow> q \<noteq> q2 \<longrightarrow> om_find (queriesSimilarity t') q = om_find (queriesSimilarity t) q) \<and>
      (\<forall>q v. om_find (queriesSimilarity t) q = Some v \<longrightarrow> Q1' AND v = Q1 AND v \<and> Q2' AND v = Q2 AND v)
    else increaseSimilarity q1 q2 t = Inl AssertFailed"
proof (cases "n < 64")
  case True
  let ?t' = "t\<lparr>queriesSimilarity :=
        om_set q2 (Q2 OR 2 ^ n) (om_set q1 (Q1 OR 2 ^ n) (queriesSimilarity t))\<rparr>"
  note low = sim_wf_bits [OF assms(1)]
  have "increaseSimilarity q1 q2 t = Inr ?t'"
    using increaseSimilarity_eq [OF assms(1-3)] True by simp
  moreover have "sim_wf (Suc n) ?t'" by (rule sim_wf_increase [OF assms(1) True assms(2,3)])
  moreover have "(Q1 OR 2 ^ n) AND (Q2 OR 2 ^ n) = (Q1 AND Q2) OR 2 ^ n"
    by (rule bit_eqI) (auto simp: bit_simps)
  then have "bitSum ((Q1 OR 2 ^ n) AND (Q2 OR 2 ^ n)) = bitSum (Q1 AND Q2) + 1"
    using bitSum_fresh_bit [OF _ True, of "Q1 AND Q2"] low [OF assms(2)] by (simp add: bit_and_iff)
  ultimately show ?thesis
    using True assms(4) and_fresh_bit [OF low] by (simp add: om_find_set)
qed (simp add: increaseSimilarity_eq [OF assms(1-3)])

theorem increase_adds_one_common_bit_witness:
  "\<exists>t'. increaseSimilarity 0 1 (TableRARE_initialize 3 True 6 4 newTableRARE) = Inr t' \<and> sim_wf 5 t'"
  using increase_adds_one_common_bit [OF sim_wf_initialize [of 3 True 6 4], of 0 1 1 6]
  by (auto simp: TableRARE_initialize_def newTableRARE_def om_find_def)

lemma ucast16_bit: "bit (ucast (ucast v :: u16) :: u64) i \<longleftrightarrow> i < 16 \<and> bit (v :: u64) i"
  by (auto simp: bit_simps dest: bit_imp_le_length)

text \<open>
  C32: as long as the masks fit 16 bits, relaxing a query gives the other query with most
  bits in common, the smallest number among equals, and the query itself exactly when no other has
  a bit in common with it.
\<close>

theorem relaxation_most_similar:
  assumes "sim_wf n t" and "n \<le> 16" and "om_find (queriesSimilarity t) q = Some my"
  shows "let r = QueryRelaxation t q in
    if r = q then \<forall>q' v. om_find (queriesSimilarity t) q' = Some v \<and> q' \<noteq> q \<longrightarrow> my AND v = 0
    else \<exists>v. om_find (queriesSimilarity t) r = Some v \<and> my AND v \<noteq> 0 \<and>
      (\<forall>q' v'. om_find (queriesSimilarity t) q' = Some v' \<and> q' \<noteq> q \<longrightarrow>
        bitSum (my AND v') \<le> bitSum (my AND v) \<and> (bitSum (my AND v') = bitSum (my AND v) \<longrightarrow> r \<le> q'))"
proof -
  have wf: "om_wf (queriesSimilarity t)" using assms(1) by (simp add: sim_wf_def)
  have o: "overlap my v = bitSum (my AND v)" if "om_find (queriesSimilarity t) q' = Some v" for q' v
  proof -
    have "ucast (ucast v :: u16) = v"
      using sim_wf_bits [OF assms(1) that] assms(2) by (intro bit_eqI) (auto simp: ucast16_bit intro: less_le_trans)
    then show ?thesis by (simp add: overlap_def)
  qed
  have zero: "bitSum w \<le> 0 \<longleftrightarrow> w = 0" for w
  proof -
    have "finite {i. bit w i}" by (rule finite_subset [of _ "{..<64}"]) (auto dest: bit_imp_le_length)
    then have "bitSum w \<le> 0 \<longleftrightarrow> {i. bit w i} = {}" by (simp add: bitSum_card)
    also have "\<dots> \<longleftrightarrow> w = 0" by (auto intro: bit_eqI)
    finally show ?thesis .
  qed
  from QueryRelaxation_spec [OF wf assms(3)] show ?thesis
    by (auto simp: Let_def o zero not_le [symmetric])
qed

theorem relaxation_most_similar_witness:
  "let t = TableRARE_initialize 3 True 6 4 newTableRARE in
   QueryRelaxation t (SensoType_value SENSOR_HUMIDITY) = SensoType_value SENSOR_SONG \<and>
   (\<forall>q' v'. om_find (queriesSimilarity t) q' = Some v' \<and> q' \<noteq> 0 \<longrightarrow> bitSum (1 AND v') \<le> 1)"
proof -
  let ?t = "TableRARE_initialize 3 True 6 4 newTableRARE"
  have b: "bitSum 1 = 1" by (simp add: bitSum.simps)
  have r: "QueryRelaxation ?t 0 = 3" and f: "om_find (queriesSimilarity ?t) 0 = Some 1"
    and g: "om_find (queriesSimilarity ?t) 3 = Some 3"
    by (simp_all add: QueryRelaxation_def TableRARE_initialize_def newTableRARE_def om_find_def b)
  from relaxation_most_similar [OF sim_wf_initialize [of 3 True 6 4] _ f] r g b show ?thesis
    by (simp add: Let_def)
qed

text \<open>The masks as the relaxation sees them: truncated to 16 bits.\<close>

definition low16 :: "u64 \<Rightarrow> u64" where
  "low16 v = ucast (ucast v :: u16)"

lemma bit_low16: "bit (low16 v) i \<longleftrightarrow> i < 16 \<and> bit v i"
  by (simp add: low16_def ucast16_bit)

lemma overlap_low16 [simp]: "overlap (low16 my) v = overlap my v" "overlap my (low16 v) = overlap my v"
proof -
  have "low16 my AND low16 v = my AND low16 v" and "low16 (low16 v) = low16 v"
    by (rule bit_eqI, auto simp: bit_and_iff bit_low16)+
  then show "overlap (low16 my) v = overlap my v" "overlap my (low16 v) = overlap my v"
    by (simp_all add: overlap_def low16_def)
qed

lemma om_set_same: "om_wf m \<Longrightarrow> om_find m k = Some v \<Longrightarrow> om_set k v m = m"
proof (induction m)
  case (Cons p m)
  then show ?case by (cases p) (fastforce simp: om_find_def om_wf_def dest: map_of_SomeD split: if_splits)
qed simp

lemma om_set_map: "map (map_prod id f) (om_set k v m) = om_set k (f v) (map (map_prod id f) m)"
  by (induction k v m rule: om_set.induct) auto

lemma om_find_map: "om_find (map (map_prod id f) m) k = map_option f (om_find m k)"
  by (induction m) (auto simp: om_find_def)

lemma om_wf_map: "om_wf (map (map_prod id f) m) \<longleftrightarrow> om_wf m"
  by (simp add: om_wf_def)

lemma first_max_map: "first_max g mx d (map (map_prod id f) it) = first_max (g \<circ> f) mx d it"
  by (induction "g \<circ> f" mx d it rule: first_max.induct) auto

lemma QueryRelaxation_low16:
  "QueryRelaxation (t\<lparr>queriesSimilarity := map (map_prod id low16) (queriesSimilarity t)\<rparr>) q = QueryRelaxation t q"
proof (cases "om_find (queriesSimilarity t) q")
  case (Some my)
  have "overlap (low16 my) \<circ> low16 = overlap my" by (simp add: fun_eq_iff)
  then have "first_max (overlap (low16 my)) 0 q
      (filter (\<lambda>p. fst p \<noteq> q) (map (map_prod id low16) (queriesSimilarity t))) =
    first_max (overlap my) 0 q (filter (\<lambda>p. fst p \<noteq> q) (queriesSimilarity t))"
    by (simp add: filter_map comp_def first_max_map)
  then show ?thesis
    using Some by (simp add: QueryRelaxation_def om_find_map relaxation_loop_first_max)
qed (simp add: QueryRelaxation_def om_find_map)

lemma increase_many:
  assumes "sim_wf n t" and "n + length xs \<le> 64" and "S \<subseteq> fst ` set (queriesSimilarity t)" and "q1 \<in> S" and "q2 \<in> S"
  shows "succR (\<lambda>t'. sim_wf (n + length xs) t' \<and> S \<subseteq> fst ` set (queriesSimilarity t'))
    (foldR (\<lambda>_. increaseSimilarity q1 q2) xs t)"
  using assms
proof (induction xs arbitrary: n t)
  case (Cons x xs)
  obtain Q1 Q2 where Q: "om_find (queriesSimilarity t) q1 = Some Q1" "om_find (queriesSimilarity t) q2 = Some Q2"
    using Cons.prems(3-5) by (metis not_None_eq om_find_None subset_iff)
  have n: "n < 64" using Cons.prems(2) by simp
  from Cons.IH [OF sim_wf_increase [OF Cons.prems(1) n Q]] increaseSimilarity_eq [OF Cons.prems(1) Q] Cons.prems n
  show ?case by (simp add: om_keys_set subset_insertI2)
qed simp

text \<open>
  the relaxation truncates the other query's mask to 16 bits: once 16 bits are used,
  increasing a similarity changes no relaxation any more.
\<close>

theorem late_similarity_ignored:
  assumes "sim_wf n t" and "16 \<le> n" and "increaseSimilarity q1 q2 t = Inr t'"
  shows "QueryRelaxation t' q = QueryRelaxation t q"
proof (cases "om_find (queriesSimilarity t) q1 = None \<or> om_find (queriesSimilarity t) q2 = None")
  case True
  then have "t' = t" using assms(3) by (auto simp: increaseSimilarity_def split: option.splits)
  then show ?thesis by simp
next
  case False
  then obtain Q1 Q2 where Q: "om_find (queriesSimilarity t) q1 = Some Q1" "om_find (queriesSimilarity t) q2 = Some Q2"
    by auto
  then have t': "t' = t\<lparr>queriesSimilarity :=
      om_set q2 (Q2 OR 2 ^ n) (om_set q1 (Q1 OR 2 ^ n) (queriesSimilarity t))\<rparr>"
    using increaseSimilarity_eq [OF assms(1) Q] assms(3) by (simp split: if_splits)
  have "low16 (w OR 2 ^ n) = low16 w" for w
    using assms(2) by (intro bit_eqI) (auto simp: bit_low16 bit_simps)
  then have "map (map_prod id low16) (queriesSimilarity t') = map (map_prod id low16) (queriesSimilarity t)"
    using assms(1) Q by (simp add: t' om_set_map om_set_same om_wf_map om_find_map om_find_set sim_wf_def)
  then show ?thesis
    using QueryRelaxation_low16 [of t' q] QueryRelaxation_low16 [of t q] t'
    by (simp add: QueryRelaxation_def split: option.splits)
qed

theorem late_similarity_ignored_witness:
  "\<exists>t t'. foldR (\<lambda>_. increaseSimilarity 0 1) [0..<12] (TableRARE_initialize 3 True 6 4 newTableRARE) = Inr t \<and>
     increaseSimilarity 2 3 t = Inr t' \<and> QueryRelaxation t' 2 = QueryRelaxation t 2"
proof -
  let ?t0 = "TableRARE_initialize 3 True 6 4 newTableRARE"
  have ids: "fst ` set (queriesSimilarity ?t0) = {0, 1, 2, 3, 4, 5}"
    by (auto simp: TableRARE_initialize_def newTableRARE_def)
  obtain t where t: "foldR (\<lambda>_. increaseSimilarity 0 1) [0..<12] ?t0 = Inr t" "sim_wf (4 + 12) t"
      "{0, 1, 2, 3} \<subseteq> fst ` set (queriesSimilarity t)"
    using increase_many [OF sim_wf_initialize [of 3 True 6 4], of "[0..<12]" "{0, 1, 2, 3}" 0 1] ids
    by (auto simp: succR_iff)
  have "om_find (queriesSimilarity t) 2 \<noteq> None" "om_find (queriesSimilarity t) 3 \<noteq> None"
    using t(3) by (auto simp: om_find_None)
  then obtain t' where "increaseSimilarity 2 3 t = Inr t'"
    using increaseSimilarity_eq [OF t(2)] by auto
  with t late_similarity_ignored [OF t(2), of 2 3 t' 2] show ?thesis by auto
qed

end
