(* ===== verification/SR_State.thy ===== *)
theory SR_State
  imports Table_RARE
begin

unbundle bit_operations_syntax

text \<open>
  The data of the SR protocol: packets (\<open>SRPacket.msg\<close>), the members of the class \<open>SR\<close>
  (\<open>SR.h\<close>) as the record of a node, its static members as the record of what all nodes share,
  and the operations every node uses (the common part of \<open>SR.cc\<close>).
\<close>

section \<open>Packets and messages\<close>

definition Q_REQUEST :: int where
  "Q_REQUEST = 1"

definition Q_REPLY :: int where
  "Q_REPLY = 2"

definition MSG_DISCOVERY :: int where
  "MSG_DISCOVERY = 1"

definition MSG_NORMAL :: int where
  "MSG_NORMAL = 2"

definition MSG_ALERT :: int where
  "MSG_ALERT = 3"

lemmas packet_consts = Q_REQUEST_def Q_REPLY_def MSG_DISCOVERY_def MSG_NORMAL_def MSG_ALERT_def

record SRPacket =
  name :: string
  msgType :: int
  queryType :: int
  queryId :: int
  srcMACAddress :: mac
  destMACAddress :: mac
  Id :: u16
  amIAlertGenerator :: bool
  alertTimeStamp :: u16
  bloom :: "BloomFilter option"
  hopCount :: u16
  myTimestamp :: u32
  controlInfo :: "mac option"

text \<open>A new packet has its fields zero, and a Bloom filter made by the default constructor.\<close>

definition newSRPacket :: "string \<Rightarrow> SRPacket" where
  "newSRPacket nm = \<lparr>name = nm, msgType = 0, queryType = 0, queryId = 0,
     srcMACAddress = UNSPECIFIED_ADDRESS, destMACAddress = UNSPECIFIED_ADDRESS, Id = 0,
     amIAlertGenerator = False, alertTimeStamp = 0, bloom = None, hopCount = 0, myTimestamp = 0,
     controlInfo = None\<rparr>"

datatype timer =
    selfInitializationMsg | internalAlertMsg | falseAlertTimeoutMsg | selfGenerateRequestMsg | updateStatsMsg

text \<open>A message of the kernel: one of the node's own timers, a packet, or anything else.\<close>

datatype srmsg = Timer timer | Packet SRPacket | OtherMsg

datatype sroutput = ScheduleAt int srmsg | SendDirect SRPacket | CancelEvent timer

section \<open>State\<close>

datatype STATUS = STATUS_DISCO | STATUS_NORMAL | STATUS_ALERT

record SR =
  bt :: BloomTable
  tr :: TableRARE
  myMACAddress :: mac
  isSink :: bool
  myID :: u16
  iDBuilder :: u16
  areaNumber :: u16
  firstSinkMsg :: bool
  neighborList :: "(int, mac) omap"
  RecordTable :: "(u16, mac) omap"
  hasSentAdvertMsg :: bool
  sensorStatus :: STATUS
  MAX_ALERT_LIVETIME :: u16
  MAX_ENTRY_RARE :: u16
  FALSE_ALERT_TIMEOUT :: u16
  LAST_ALERT_TIMESTAMP :: u16
  TIME_BETWEEN_ALERTS :: u16
  LIVETIME :: u32
  NB_EVENT_IN_LIVETIME :: u32
  EVENT_MAX_LIVETIME :: u32
  currentRequestTimeStamp :: u32
  iAmTheLast :: bool
  numSent :: int
  numReceived :: int
  hopCountPerRequestStats :: "int list"
  hopCountPerRequestVector :: "int list"
  NBMsgSentPerRequestVector :: "int list"
  NBMsgRcvdPerRequestVector :: "int list"
  NBMsgRcvdPerRequestVector2 :: "(int \<times> int) list"
  displayText :: string
  displayColor :: string
  scheduled :: "srmsg list"

text \<open>
  What the nodes share: the static members of the class, the C library's random numbers, the heap
  blocks of the Bloom filters, and the log of what the kernel was asked to do.
\<close>

record SRStatic =
  numberSensorNotKnown :: u16
  numberSensorInNetwork :: u16
  NBTotalMessageSent :: int
  NBTotalMessageRcvd :: int
  s_hopCountPerRequest :: int
  iCanSendRequest :: bool
  stopSim :: bool
  lastPosition :: u32
  areaBitmap :: u16
  generatorBitmap :: u64
  NBMsgSentPerRequest :: int
  NBMsgRcvdPerRequest :: int
  rand :: rng
  blooms :: heap
  outputs :: "sroutput list"

definition initSRStatic :: "rng \<Rightarrow> heap \<Rightarrow> SRStatic" where
  "initSRStatic r h = \<lparr>numberSensorNotKnown = 0, numberSensorInNetwork = 0, NBTotalMessageSent = 0,
     NBTotalMessageRcvd = 0, s_hopCountPerRequest = 0, iCanSendRequest = True, stopSim = False,
     lastPosition = 0, areaBitmap = 0, generatorBitmap = 0, NBMsgSentPerRequest = 0,
     NBMsgRcvdPerRequest = 0, rand = r, blooms = h, outputs = []\<rparr>"

text \<open>
  What an event finds in its surroundings: the width of \<open>size_t\<close>, whether tracing is on (the
  arguments of \<open>EV\<close> are only evaluated then), the simulation time in ticks and the number of ticks
  per second, the interface table's entry 1 (address and loopback flag), the value \<open>intuniform(0,4)\<close>
  returns, and what an uninitialised \<open>uint16_t\<close> holds.
\<close>

record Sim =
  size_bits :: nat
  tracing :: bool
  simRaw :: int
  ticks :: int
  my_ie :: "(mac \<times> bool) option"
  intuniform04 :: int
  dec_junk :: u16

section \<open>Kernel services\<close>

text \<open>Scheduling a message object that is already scheduled is an error.\<close>

definition scheduleTimer :: "int \<Rightarrow> timer \<Rightarrow> SR \<Rightarrow> SRStatic \<Rightarrow> (SR \<times> SRStatic) res" where
  "scheduleTimer delay t n g =
     (if Timer t \<in> set (scheduled n) then Inl (KernelError ''scheduleAt: message already scheduled'')
      else Inr (n\<lparr>scheduled := scheduled n @ [Timer t]\<rparr>,
                g\<lparr>outputs := outputs g @ [ScheduleAt delay (Timer t)]\<rparr>))"

definition cancelEvent :: "timer \<Rightarrow> SR \<Rightarrow> SRStatic \<Rightarrow> SR \<times> SRStatic" where
  "cancelEvent t n g =
     (n\<lparr>scheduled := removeAll (Timer t) (scheduled n)\<rparr>, g\<lparr>outputs := outputs g @ [CancelEvent t]\<rparr>)"

text \<open>Decimal printing of a number.\<close>

fun decimal :: "nat \<Rightarrow> string" where
  "decimal n = (if n < 10 then [char_of (48 + n)] else decimal (n div 10) @ [char_of (48 + n mod 10)])"

declare decimal.simps [simp del]

text \<open>Conversion of a \<open>long\<close> to \<open>int\<close>.\<close>

definition int_cast :: "int \<Rightarrow> int" where
  "int_cast x = (x + 2 ^ 31) mod 2 ^ 32 - 2 ^ 31"

section \<open>The common part\<close>

text \<open>
  \<open>initialize\<close>: \<open>par_isSink\<close> is the module parameter; \<open>junk_id\<close>, \<open>junk_last\<close> and \<open>junk_ts\<close> are what
  the members that are not initialised hold.
\<close>

definition SR_initialize ::
  "bool \<Rightarrow> BloomTable \<Rightarrow> TableRARE \<Rightarrow> u16 \<Rightarrow> bool \<Rightarrow> u16 \<Rightarrow> SRStatic \<Rightarrow> SR \<times> SRStatic" where
  "SR_initialize par_isSink my_bt my_tr junk_id junk_last junk_ts g =
     (\<lparr>bt = my_bt, tr = my_tr, myMACAddress = UNSPECIFIED_ADDRESS, isSink = par_isSink, myID = 65535,
       iDBuilder = junk_id, areaNumber = 0, firstSinkMsg = True, neighborList = [], RecordTable = [],
       hasSentAdvertMsg = False, sensorStatus = STATUS_DISCO, MAX_ALERT_LIVETIME = 44640,
       MAX_ENTRY_RARE = 256, FALSE_ALERT_TIMEOUT = 2, LAST_ALERT_TIMESTAMP = junk_ts,
       TIME_BETWEEN_ALERTS = 44640 div 256, LIVETIME = 4096 * 64, NB_EVENT_IN_LIVETIME = 64,
       EVENT_MAX_LIVETIME = 4096, currentRequestTimeStamp = 0, iAmTheLast = junk_last,
       numSent = 0, numReceived = 0, hopCountPerRequestStats = [], hopCountPerRequestVector = [],
       NBMsgSentPerRequestVector = [], NBMsgRcvdPerRequestVector = [], NBMsgRcvdPerRequestVector2 = [],
       displayText = [], displayColor = [], scheduled = [Timer selfInitializationMsg]\<rparr>,
      g\<lparr>outputs := outputs g @ [ScheduleAt 1 (Timer selfInitializationMsg)]\<rparr>)"

definition scheduleMsgToSendNic :: "SRPacket \<Rightarrow> u16 \<Rightarrow> SR \<Rightarrow> SRStatic \<Rightarrow> (SR \<times> SRStatic) res" where
  "scheduleMsgToSendNic srPacket delayMin n g =
     (let p = srPacket\<lparr>srcMACAddress := myMACAddress n\<rparr> in
      if controlInfo p \<noteq> None then Inl (KernelError ''setControlInfo: already attached'')
      else
        (let p = p\<lparr>controlInfo := Some (destMACAddress p)\<rparr>;
             randomTime = int (rand_value (rand g) mod 10 + 1 + unat delayMin)
         in Inr (n\<lparr>scheduled := scheduled n @ [Packet p]\<rparr>,
                 g\<lparr>rand := rand_next (rand g), outputs := outputs g @ [ScheduleAt randomTime (Packet p)]\<rparr>)))"

definition addNeighbor :: "mac \<Rightarrow> u16 \<Rightarrow> SR \<Rightarrow> SR" where
  "addNeighbor neighborMACAddress neighborID n =
     n\<lparr>neighborList := om_set (uint neighborID) neighborMACAddress (neighborList n)\<rparr>"

definition addNeighbor_bloom :: "mac \<Rightarrow> u16 \<Rightarrow> BloomFilter option \<Rightarrow> SR \<Rightarrow> SR" where
  "addNeighbor_bloom neighborMACAddress neighborID neighborBloom n =
     addNeighbor neighborMACAddress neighborID (n\<lparr>bt := AddFilter neighborBloom neighborMACAddress (bt n)\<rparr>)"

definition isAlertAllowed :: "SR \<Rightarrow> bool" where
  "isAlertAllowed n = False"

text \<open>\<open>broadcastAlert\<close> only builds a packet: the call that would send it is commented out.\<close>

definition broadcastAlert :: "SR \<Rightarrow> SRPacket" where
  "broadcastAlert n = (newSRPacket ''ALERT'')\<lparr>Id := myID n, msgType := MSG_ALERT,
     alertTimeStamp := LAST_ALERT_TIMESTAMP n, amIAlertGenerator := True, hopCount := 0,
     queryType := Q_REQUEST, destMACAddress := BROADCAST_ADDRESS\<rparr>"

definition isNeighborAlertRelevant :: "u16 \<Rightarrow> SR \<Rightarrow> bool" where
  "isNeighborAlertRelevant neighborAlertTimeStamp n = True"

definition changeDisplay :: "SR \<Rightarrow> SR" where
  "changeDisplay n =
     (let n = n\<lparr>iDBuilder := setID (myID n) (iDBuilder n)\<rparr>;
          d = getSinkDistance (iDBuilder n)
      in n\<lparr>displayColor :=
           (if d = 0 then ''blue'' else if d = 1 then ''green'' else if d = 2 then ''black''
            else if d = 3 then ''red'' else if d = 4 then ''gold'' else if d = 5 then ''gray''
            else if d = 6 then ''#dd00ee'' else ''#ffffff'')\<rparr>)"

definition SR_updateDisplay :: "SR \<Rightarrow> SR" where
  "SR_updateDisplay n = n\<lparr>displayText :=
     (if numSent n > 0 then ''sent:'' @ decimal (nat (numSent n)) @ '' '' else []) @
     (if numReceived n > 0 then ''rcvd:'' @ decimal (nat (numReceived n)) @ '' '' else [])\<rparr>"

definition idToMACAddress :: "u16 \<Rightarrow> SR \<Rightarrow> (mac \<times> SR) res" where
  "idToMACAddress i n =
     (let n = n\<lparr>iDBuilder := setID i (iDBuilder n)\<rparr>;
          mac_ext = getMACExt (iDBuilder n)
      in bindR (setAddressByte (myMACAddress n) 5 (ucast mac_ext)) (\<lambda>m. Inr (m, n)))"

text \<open>
  The search for a free position in the bitmap of generators. \<open>k\<close> counts down as \<open>ii\<close> counts up
  to 64. The shift \<open>1<<p\<close> of an \<open>int\<close> is undefined from position 31 on.
\<close>

fun slot_search :: "nat \<Rightarrow> u64 \<Rightarrow> nat \<Rightarrow> rng \<Rightarrow> (nat option \<times> rng) res" where
  "slot_search k bitmap p r =
     (if 31 \<le> p then Inl UndefinedBehaviour
      else if bitmap AND push_bit p 1 = 1
      then (let p' = rand_value r mod 64; r' = rand_next r in
            case k of 0 \<Rightarrow> Inr (None, r') | Suc k' \<Rightarrow> slot_search k' bitmap p' r')
      else Inr (Some p, r))"

declare slot_search.simps [simp del]

definition scheduleTimeToGenerateRequest :: "Sim \<Rightarrow> SR \<Rightarrow> SRStatic \<Rightarrow> (SR \<times> SRStatic) res" where
  "scheduleTimeToGenerateRequest w n g =
     (let timeInSeconds = (word_of_int (simRaw w) :: u32) in
      if LIVETIME n = 0 \<or> EVENT_MAX_LIVETIME n = 0 then Inl DivisionByZero
      else
        (let timeInCurrentLivetime = timeInSeconds mod LIVETIME n in
         assertR (timeInCurrentLivetime < LIVETIME n)
         (let nextSlotTime = (timeInCurrentLivetime div EVENT_MAX_LIVETIME n + 1) * EVENT_MAX_LIVETIME n
                - timeInCurrentLivetime;
              p0 = rand_value (rand g) mod 64
          in bindR (slot_search 64 (generatorBitmap g) p0 (rand_next (rand g))) (\<lambda>(found, r).
             case found of
               None \<Rightarrow> Inr (n, g\<lparr>rand := r\<rparr>)
             | Some p \<Rightarrow>
                 (let g = g\<lparr>generatorBitmap := generatorBitmap g + push_bit p 1\<rparr>;
                      last = (of_nat p > lastPosition g);
                      n = (if last then n\<lparr>iAmTheLast := True\<rparr> else n);
                      g = (if last then g\<lparr>lastPosition := of_nat p\<rparr> else g);
                      randomTime = nextSlotTime + of_nat p * EVENT_MAX_LIVETIME n
                        + of_nat (rand_value r) mod EVENT_MAX_LIVETIME n
                  in scheduleTimer (uint randomTime) selfGenerateRequestMsg n (g\<lparr>rand := rand_next r\<rparr>))))))"

text \<open>\<open>finish\<close>: the totals; the rest is printing and recording of scalars.\<close>

definition SR_finish :: "Sim \<Rightarrow> SR \<Rightarrow> SRStatic \<Rightarrow> (SR \<times> SRStatic) res" where
  "SR_finish w n g =
     (let n = n\<lparr>iDBuilder := setID (myID n) (iDBuilder n)\<rparr> in
      bindR (if tracing w then bindR (idToMACAddress (myID n) n) (\<lambda>(_, n). Inr n) else Inr n) (\<lambda>n.
      Inr (n, g\<lparr>NBTotalMessageSent := NBTotalMessageSent g + numSent n,
                NBTotalMessageRcvd := NBTotalMessageRcvd g + numReceived n\<rparr>)))"

end
