(* ===== verification/SR_Handlers.thy ===== *)
theory SR_Handlers
  imports SR_State
begin

unbundle bit_operations_syntax

text \<open>
  The message handlers of \<open>SR.cc\<close>, in the order of the file: the simple sensor part, then the sink
  part. A handler takes the node and what the nodes share; it may fault, and it may not return
  (through the search loops of \<open>IDBuilder\<close> and \<open>TableRARE\<close>).
\<close>

type_synonym handled = "(SR \<times> SRStatic) res option"

section \<open>Simple sensor part\<close>

text \<open>\<open>iDBuilder->setMACExt(mac)\<close> on the node's builder.\<close>

definition builder_setMACExt :: "Sim \<Rightarrow> mac \<Rightarrow> SR \<Rightarrow> SR res option" where
  "builder_setMACExt w m n =
     bindO (setMACExt (size_bits w) (dec_junk w) (mac_str m) (iDBuilder n)) (\<lambda>i. Some (Inr (n\<lparr>iDBuilder := i\<rparr>)))"

text \<open>Take an identifier one hop further from the sink than the sender's.\<close>

definition get_an_ID :: "Sim \<Rightarrow> u16 \<Rightarrow> SR \<Rightarrow> SR res option" where
  "get_an_ID w srcSensorID n =
     (let n = n\<lparr>iDBuilder := setID srcSensorID (iDBuilder n)\<rparr> in
      bindO (builder_setMACExt w (myMACAddress n) n) (\<lambda>n.
      Some (bindR (setSinkDistance (getSinkDistance (iDBuilder n) + 1) (iDBuilder n)) (\<lambda>i.
        let n = n\<lparr>iDBuilder := i\<rparr> in Inr (n\<lparr>myID := getID (iDBuilder n)\<rparr>)))))"

text \<open>The first advertisement, and what follows it in either branch of the discovery handler.\<close>

definition send_advertisement :: "Sim \<Rightarrow> u16 \<Rightarrow> SR \<Rightarrow> SRStatic \<Rightarrow> (SR \<times> SRStatic) res" where
  "send_advertisement w delayMin n g =
     bindR (GetBloomPerso (bt n)) (\<lambda>f.
     bindR (scheduleMsgToSendNic
              ((newSRPacket ''DISCO'')\<lparr>Id := myID n, msgType := MSG_DISCOVERY, bloom := Some f,
                 destMACAddress := BROADCAST_ADDRESS\<rparr>) delayMin n g) (\<lambda>(n, g).
     scheduleTimeToGenerateRequest w (n\<lparr>hasSentAdvertMsg := True, sensorStatus := STATUS_NORMAL\<rparr>)
       (g\<lparr>numberSensorNotKnown := numberSensorNotKnown g - 1\<rparr>)))"

text \<open>The loop that picks one of four delays; \<open>k\<close> counts down as \<open>ii\<close> counts up to 16.\<close>

fun area_search :: "nat \<Rightarrow> u16 \<Rightarrow> nat \<Rightarrow> rng \<Rightarrow> (nat \<times> rng) res" where
  "area_search k bitmap p r =
     (if bitmap AND push_bit p 1 = 1
      then (let p' = rand_value r mod 4; r' = rand_next r in
            case k of 0 \<Rightarrow> Inl AssertFailed | Suc k' \<Rightarrow> area_search k' bitmap p' r')
      else Inr (p, r))"

declare area_search.simps [simp del]

text \<open>\<open>neighborList[srcSensorID]\<close> in a trace message inserts a default entry when it is missing.\<close>

definition trace_neighbor :: "Sim \<Rightarrow> u16 \<Rightarrow> SR \<Rightarrow> SR" where
  "trace_neighbor w i n =
     (if tracing w
      then n\<lparr>neighborList := snd (om_index UNSPECIFIED_ADDRESS (uint i) (neighborList n))\<rparr> else n)"

definition handleNicDiscoveryMsg :: "Sim \<Rightarrow> SRPacket \<Rightarrow> SR \<Rightarrow> SRStatic \<Rightarrow> handled" where
  "handleNicDiscoveryMsg w msg n g =
     (let srcMAC = srcMACAddress msg; srcSensorID = Id msg;
          n = n\<lparr>iDBuilder := setID srcSensorID (iDBuilder n)\<rparr>
      in if getSinkDistance (iDBuilder n) = 0 then
           (if \<not> firstSinkMsg n then
              (let n = trace_neighbor w srcSensorID n in
               if hasSentAdvertMsg n then Some (Inr (n, g))
               else bindO (get_an_ID w srcSensorID n) (\<lambda>n.
                      Some (bindR (send_advertisement w 10 n g) (\<lambda>(n, g). Inr (changeDisplay n, g)))))
            else
              (let n = addNeighbor_bloom srcMAC srcSensorID (bloom msg) n in
               Some (bindR (GetBloomPerso (bt n)) (\<lambda>f.
                 let sr = (newSRPacket ''DISCO-REQUEST'')\<lparr>Id := myID n, msgType := MSG_DISCOVERY,
                            queryType := Q_REQUEST, bloom := Some f, destMACAddress := srcMAC\<rparr>;
                     p0 = rand_value (rand g) mod 4
                 in bindR (area_search 16 (areaBitmap g) p0 (rand_next (rand g))) (\<lambda>(p, r).
                    bindR (scheduleMsgToSendNic sr (of_nat (p * 10)) n
                             (g\<lparr>areaBitmap := areaBitmap g + push_bit p 1, rand := r\<rparr>)) (\<lambda>(n, g).
                    Inr (n\<lparr>firstSinkMsg := False\<rparr>, g)))))))
         else
           (if om_find (neighborList n) (uint srcSensorID) \<noteq> None then
              Some (Inr (trace_neighbor w srcSensorID n, g))
            else
              (let n = addNeighbor_bloom srcMAC srcSensorID (bloom msg) n in
               if hasSentAdvertMsg n then Some (Inr (n, g))
               else bindO (get_an_ID w srcSensorID n) (\<lambda>n.
                      Some (send_advertisement w (10 * getSinkDistance (iDBuilder n)) n g)))))"

definition handleNicAlertMsg :: "SRPacket \<Rightarrow> SR \<Rightarrow> SRStatic \<Rightarrow> (SR \<times> SRStatic) res" where
  "handleNicAlertMsg alertMsg n g =
     (if \<not> amIAlertGenerator alertMsg then Inr (n, g)
      else if sensorStatus n \<noteq> STATUS_ALERT then Inr (n, g)
      else if \<not> isNeighborAlertRelevant (alertTimeStamp alertMsg) n then Inr (n, g)
      else
        (let (n, g) = cancelEvent falseAlertTimeoutMsg n g in
         scheduleMsgToSendNic
           (alertMsg\<lparr>amIAlertGenerator := False, msgType := MSG_ALERT, Id := myID n,
              destMACAddress := BROADCAST_ADDRESS\<rparr>) 0 n g))"

text \<open>
  A request, in the three cases of the handler: the node answers, a neighbour's filter matches, or
  the learning table (and after it the first suitable neighbour) gives the next hop.
\<close>

definition answer_request :: "SRPacket \<Rightarrow> SR \<Rightarrow> SRStatic \<Rightarrow> (SR \<times> SRStatic) res" where
  "answer_request message n g =
     (let (nextHop, records) =
            (if Id message = myID n then (myMACAddress n, RecordTable n)
             else om_index UNSPECIFIED_ADDRESS (Id message) (RecordTable n));
          reply = (newSRPacket (''RESPONSE-'' @ decimal (unat (currentRequestTimeStamp n))))
            \<lparr>msgType := MSG_NORMAL, queryType := Q_REPLY, Id := Id message, hopCount := hopCount message,
             srcMACAddress := myMACAddress n, myTimestamp := currentRequestTimeStamp n,
             destMACAddress := nextHop, queryId := queryId message\<rparr>
      in scheduleMsgToSendNic reply 10 (n\<lparr>RecordTable := records\<rparr>) g)"

definition forward_request :: "mac \<Rightarrow> SRPacket \<Rightarrow> SR \<Rightarrow> SRStatic \<Rightarrow> (SR \<times> SRStatic) res" where
  "forward_request peer message n g =
     scheduleMsgToSendNic (message\<lparr>srcMACAddress := myMACAddress n, destMACAddress := peer\<rparr>) 10 n g"

definition flood_request :: "SRPacket \<Rightarrow> SR \<Rightarrow> SRStatic \<Rightarrow> (SR \<times> SRStatic) res" where
  "flood_request message n g =
     (case find (\<lambda>(_, m). \<not> mac_equals (destMACAddress message) m) (neighborList n) of
        Some (_, m) \<Rightarrow> forward_request m message n g
      | None \<Rightarrow> Inr (n, g))"

definition ask_learning_table :: "SRPacket \<Rightarrow> SR \<Rightarrow> SRStatic \<Rightarrow> handled" where
  "ask_learning_table message n g =
     bindO (LearningPeerSelection (queryId message) (tr n) (rand g)) (\<lambda>(peer, t, r).
       let n = n\<lparr>tr := t\<rparr>; g = g\<lparr>rand := r\<rparr> in
       Some (if isUnspecified peer then flood_request message n g else forward_request peer message n g))"

definition handle_request :: "SRPacket \<Rightarrow> SR \<Rightarrow> SRStatic \<Rightarrow> handled" where
  "handle_request message n g =
     (if currentRequestTimeStamp n = myTimestamp message then Some (Inr (n, g))
      else
        (let n = n\<lparr>currentRequestTimeStamp := myTimestamp message,
                   RecordTable := om_set (Id message) (srcMACAddress message) (RecordTable n)\<rparr>
         in bindO (Some (GetNextHop (bt n) (blooms g) (queryId message) False (myMACAddress n))) (\<lambda>peer.
            bindO (if mac_equals peer (myMACAddress n) then Some (answer_request message n g)
                   else if \<not> isUnspecified peer \<and> \<not> mac_equals peer (srcMACAddress message)
                   then Some (forward_request peer message n g)
                   else ask_learning_table message n g) (\<lambda>(n, g).
            Some (Inr (n, g\<lparr>NBMsgSentPerRequest := NBMsgSentPerRequest g + 1\<rparr>))))))"

definition forward_reply :: "SRPacket \<Rightarrow> SR \<Rightarrow> SRStatic \<Rightarrow> (SR \<times> SRStatic) res" where
  "forward_reply message n g =
     bindR (UpdateTable (queryId message) (srcMACAddress message) (tr n)) (\<lambda>t.
       let (nextPeerMAC, records) = om_index UNSPECIFIED_ADDRESS (Id message) (RecordTable n) in
       bindR (scheduleMsgToSendNic (message\<lparr>srcMACAddress := myMACAddress n, destMACAddress := nextPeerMAC\<rparr>) 10
                (n\<lparr>tr := t, RecordTable := records\<rparr>) g) (\<lambda>(n, g).
       Inr (n, g\<lparr>NBMsgSentPerRequest := NBMsgSentPerRequest g + 1\<rparr>)))"

definition receive_answer :: "SRPacket \<Rightarrow> SR \<Rightarrow> SRStatic \<Rightarrow> (SR \<times> SRStatic) res" where
  "receive_answer message n g =
     bindR (UpdateTable (queryId message) (srcMACAddress message) (tr n)) (\<lambda>t.
       let g = g\<lparr>s_hopCountPerRequest := uint (hopCount message)\<rparr> in
       Inr (n\<lparr>tr := t\<rparr>, if iAmTheLast n then g\<lparr>stopSim := True\<rparr> else g))"

definition handleNicNormalMsg :: "SRPacket \<Rightarrow> SR \<Rightarrow> SRStatic \<Rightarrow> handled" where
  "handleNicNormalMsg message n g =
     (if queryType message = Q_REQUEST then handle_request message n g
      else if queryType message = Q_REPLY \<and> Id message \<noteq> myID n then Some (forward_reply message n g)
      else if queryType message = Q_REPLY \<and> Id message = myID n then Some (receive_answer message n g)
      else Some (Inr (n, g)))"

definition generaterRandomRequest :: "Sim \<Rightarrow> SR \<Rightarrow> SRStatic \<Rightarrow> handled" where
  "generaterRandomRequest w n g =
     (let g = g\<lparr>iCanSendRequest := False\<rparr>;
          timeInSeconds = (word_of_int (simRaw w) :: u32)
      in if LIVETIME n = 0 then Some (Inl DivisionByZero)
         else
           (let n = n\<lparr>currentRequestTimeStamp := timeInSeconds mod LIVETIME n\<rparr>;
                req = (newSRPacket (''REQUEST-'' @ decimal (unat (currentRequestTimeStamp n))))
                  \<lparr>Id := myID n, msgType := MSG_NORMAL, queryType := Q_REQUEST,
                   queryId := SensoType_value SENSOR_HUMIDITY, hopCount := 0,
                   myTimestamp := currentRequestTimeStamp n\<rparr>
            in bindO (Some (GetNextHop (bt n) (blooms g) (queryId req) True (myMACAddress n))) (\<lambda>peer.
               bindO (if isUnspecified peer
                      then bindO (LearningPeerSelection (queryId req) (tr n) (rand g)) (\<lambda>(peer, t, r).
                             Some (Inr (if isUnspecified peer then BROADCAST_ADDRESS else peer,
                                        n\<lparr>tr := t\<rparr>, g\<lparr>rand := r\<rparr>)))
                      else Some (Inr (peer, n, g))) (\<lambda>(peer, n, g).
               Some (assertR (\<not> isUnspecified peer)
                 (bindR (scheduleMsgToSendNic (req\<lparr>srcMACAddress := myMACAddress n, destMACAddress := peer\<rparr>) 5 n g)
                   (\<lambda>(n, g).
                    scheduleTimer (uint (LIVETIME n)) selfGenerateRequestMsg n
                      (g\<lparr>s_hopCountPerRequest := 0, NBMsgSentPerRequest := 0, NBMsgRcvdPerRequest := 0\<rparr>))))))))"

definition handleInternalAlertMsg :: "SR \<Rightarrow> SRStatic \<Rightarrow> (SR \<times> SRStatic) res" where
  "handleInternalAlertMsg n g =
     (if \<not> isAlertAllowed n then Inr (n, g)
      else
        (let alert = broadcastAlert n in
         scheduleTimer (uint (FALSE_ALERT_TIMEOUT n)) falseAlertTimeoutMsg (n\<lparr>sensorStatus := STATUS_ALERT\<rparr>) g))"

definition handleFalseAlertMsg :: "SR \<Rightarrow> SR" where
  "handleFalseAlertMsg n = (if sensorStatus n \<noteq> STATUS_ALERT then n else n\<lparr>sensorStatus := STATUS_NORMAL\<rparr>)"

definition sensor_selfInitialization :: "Sim \<Rightarrow> SR \<Rightarrow> SRStatic \<Rightarrow> (SR \<times> SRStatic) res" where
  "sensor_selfInitialization w n g =
     (case my_ie w of
        None \<Rightarrow> Inl AssertFailed
      | Some (m, loopback) \<Rightarrow>
          assertR (\<not> loopback)
            (bindR (selectRandomType (intuniform04 w) (bt n) (blooms g)) (\<lambda>(t, h).
              Inr (n\<lparr>myMACAddress := m, bt := t\<rparr>,
                   g\<lparr>numberSensorNotKnown := numberSensorNotKnown g + 1,
                     numberSensorInNetwork := numberSensorInNetwork g + 1, blooms := h\<rparr>))))"

text \<open>A packet the node scheduled for itself is sent out now.\<close>

definition sendOut :: "SRPacket \<Rightarrow> SR \<Rightarrow> SRStatic \<Rightarrow> (SR \<times> SRStatic) res" where
  "sendOut sr n g =
     assertR (compareTo (myMACAddress n) (srcMACAddress sr) = 0)
       (Inr (n\<lparr>numSent := numSent n + 1\<rparr>, g\<lparr>outputs := outputs g @ [SendDirect sr]\<rparr>))"

definition handleSelfMsg :: "Sim \<Rightarrow> srmsg \<Rightarrow> SR \<Rightarrow> SRStatic \<Rightarrow> handled" where
  "handleSelfMsg w msg n g =
     (case msg of
        Timer selfInitializationMsg \<Rightarrow> Some (sensor_selfInitialization w n g)
      | Timer internalAlertMsg \<Rightarrow> Some (handleInternalAlertMsg n g)
      | Timer falseAlertTimeoutMsg \<Rightarrow> Some (Inr (handleFalseAlertMsg n, g))
      | Timer selfGenerateRequestMsg \<Rightarrow> generaterRandomRequest w n g
      | Timer updateStatsMsg \<Rightarrow> Some (Inr (n, g))
      | Packet sr \<Rightarrow> Some (bindR (sendOut sr n g) (\<lambda>(n, g). Inr (SR_updateDisplay n, g)))
      | OtherMsg \<Rightarrow> Some (Inr (n, g)))"

definition handleSRMsg :: "Sim \<Rightarrow> SRPacket \<Rightarrow> SR \<Rightarrow> SRStatic \<Rightarrow> handled" where
  "handleSRMsg w msg n g =
     (let msg = msg\<lparr>controlInfo := None, hopCount := hopCount msg + 1\<rparr>;
          n1 = n\<lparr>numReceived := numReceived n + 1\<rparr>
      in bindO (if msgType msg = MSG_DISCOVERY then handleNicDiscoveryMsg w msg n1 g
                else if msgType msg = MSG_ALERT then Some (handleNicAlertMsg msg n1 g)
                else if msgType msg = MSG_NORMAL
                then handleNicNormalMsg msg n1 (g\<lparr>NBMsgRcvdPerRequest := NBMsgRcvdPerRequest g + 1\<rparr>)
                else Some (Inr (n, g))) (\<lambda>(n, g).
         Some (Inr (SR_updateDisplay n, g))))"

section \<open>Sink part\<close>

definition SINK_updateStats :: "Sim \<Rightarrow> SR \<Rightarrow> SRStatic \<Rightarrow> (SR \<times> SRStatic) res" where
  "SINK_updateStats w n g =
     (let hops = int_cast (s_hopCountPerRequest g);
          livetime = uint (LIVETIME n) * ticks w;
          n = n\<lparr>hopCountPerRequestVector := hopCountPerRequestVector n @ [hops],
                hopCountPerRequestStats := hopCountPerRequestStats n @ [hops],
                NBMsgSentPerRequestVector := NBMsgSentPerRequestVector n @ [int_cast (NBMsgSentPerRequest g)]\<rparr>;
          n = (if simRaw w < livetime
               then n\<lparr>NBMsgRcvdPerRequestVector := NBMsgRcvdPerRequestVector n @ [int_cast (NBMsgRcvdPerRequest g)]\<rparr>
               else n\<lparr>NBMsgRcvdPerRequestVector2 :=
                        NBMsgRcvdPerRequestVector2 n @ [(simRaw w - livetime, NBMsgRcvdPerRequest g)]\<rparr>);
          n = SR_updateDisplay n
      in bindR (scheduleTimer (uint (EVENT_MAX_LIVETIME n div 2)) updateStatsMsg n g) (\<lambda>(n, g).
         Inr (n, g\<lparr>iCanSendRequest := True\<rparr>)))"

definition SINK_selfInitialization :: "Sim \<Rightarrow> SR \<Rightarrow> SRStatic \<Rightarrow> handled" where
  "SINK_selfInitialization w n g =
     (case my_ie w of
        None \<Rightarrow> Some (Inl AssertFailed)
      | Some (m, loopback) \<Rightarrow>
          if loopback \<or> isUnspecified m then Some (Inl AssertFailed)
          else
            (let n = n\<lparr>myMACAddress := m\<rparr> in
             bindO (Some (AddToBloomPerso ''SINK'' (bt n) (blooms g))) (\<lambda>h.
             let g = g\<lparr>blooms := h\<rparr>; n = n\<lparr>bt := updateDisplay ''srwsn/sink'' (bt n)\<rparr> in
             bindO (builder_setMACExt w m n) (\<lambda>n.
             Some (bindR (setSinkDistance 0 (iDBuilder n)) (\<lambda>i.
               bindR (setArea 0 i) (\<lambda>i.
               let n = n\<lparr>iDBuilder := i, myID := getID i\<rparr> in
               bindR (GetBloomPerso (bt n)) (\<lambda>f.
               bindR (scheduleMsgToSendNic
                        ((newSRPacket ''DISCO-INIT'')\<lparr>Id := myID n, msgType := MSG_DISCOVERY,
                           queryType := Q_REQUEST, bloom := Some f, destMACAddress := BROADCAST_ADDRESS\<rparr>) 5 n g)
                 (\<lambda>(n, g). SINK_updateStats w (n\<lparr>sensorStatus := STATUS_NORMAL\<rparr>) g)))))))))"

definition SINK_handleSelfMsg :: "Sim \<Rightarrow> srmsg \<Rightarrow> SR \<Rightarrow> SRStatic \<Rightarrow> handled" where
  "SINK_handleSelfMsg w msg n g =
     (case msg of
        Timer selfInitializationMsg \<Rightarrow> SINK_selfInitialization w n g
      | Timer updateStatsMsg \<Rightarrow> Some (SINK_updateStats w n g)
      | Timer internalAlertMsg \<Rightarrow> Some (Inr (n, g))
      | Timer _ \<Rightarrow> Some (Inr (n, g))
      | Packet sr \<Rightarrow>
          Some (assertR (compareTo (myMACAddress n) (srcMACAddress sr) = 0)
            (let n = changeDisplay n in
             Inr (n\<lparr>numSent := numSent n + 1\<rparr>, g\<lparr>outputs := outputs g @ [SendDirect sr]\<rparr>)))
      | OtherMsg \<Rightarrow> Some (Inr (n, g)))"

definition SINK_handleNicDiscoveryMsg :: "SRPacket \<Rightarrow> SR \<Rightarrow> SRStatic \<Rightarrow> (SR \<times> SRStatic) res" where
  "SINK_handleNicDiscoveryMsg msg n g =
     (if queryType msg = Q_REQUEST then
        (let n = n\<lparr>numReceived := numReceived n + 1\<rparr>;
             n = addNeighbor_bloom (srcMACAddress msg) (Id msg) (bloom msg) n;
             n = n\<lparr>iDBuilder := setID (myID n) (iDBuilder n)\<rparr>
         in bindR (setArea (areaNumber n) (iDBuilder n)) (\<lambda>i.
            let n = n\<lparr>iDBuilder := i, myID := getID i, areaNumber := areaNumber n + 1\<rparr> in
            scheduleMsgToSendNic
              ((newSRPacket ''DISCO-REPLY'')\<lparr>Id := myID n, msgType := MSG_DISCOVERY, queryType := Q_REPLY,
                 destMACAddress := srcMACAddress msg\<rparr>) 40 n g))
      else Inr (n, g))"

definition SINK_handleNicAlertMsg :: "SRPacket \<Rightarrow> SR \<Rightarrow> SRStatic \<Rightarrow> (SR \<times> SRStatic) res" where
  "SINK_handleNicAlertMsg msg n g = Inr (n, g)"

definition SINK_handleNicNormalMsg :: "SRPacket \<Rightarrow> SR \<Rightarrow> SRStatic \<Rightarrow> handled" where
  "SINK_handleNicNormalMsg msg n g = handleNicNormalMsg msg n g"

definition SINK_handleSRMsg :: "SRPacket \<Rightarrow> SR \<Rightarrow> SRStatic \<Rightarrow> handled" where
  "SINK_handleSRMsg msg n g =
     (let msg = msg\<lparr>controlInfo := None\<rparr> in
      if msgType msg = MSG_DISCOVERY then Some (SINK_handleNicDiscoveryMsg msg n g)
      else if msgType msg = MSG_ALERT then Some (SINK_handleNicAlertMsg msg n g)
      else if msgType msg = MSG_NORMAL then SINK_handleNicNormalMsg msg n g
      else Some (Inr (n, g)))"

definition SINK_handleMessage :: "Sim \<Rightarrow> bool \<Rightarrow> srmsg \<Rightarrow> SR \<Rightarrow> SRStatic \<Rightarrow> handled" where
  "SINK_handleMessage w isSelf msg n g =
     (if isSelf then SINK_handleSelfMsg w msg n g
      else (case msg of Packet p \<Rightarrow> SINK_handleSRMsg p n g | _ \<Rightarrow> Some (Inr (n, g))))"

section \<open>Dispatch\<close>

definition handleMessage :: "Sim \<Rightarrow> bool \<Rightarrow> srmsg \<Rightarrow> SR \<Rightarrow> SRStatic \<Rightarrow> handled" where
  "handleMessage w isSelf msg n g =
     (if isSink n then SINK_handleMessage w isSelf msg n g
      else if isSelf then handleSelfMsg w msg n g
      else (case msg of Packet p \<Rightarrow> handleSRMsg w p n g | _ \<Rightarrow> Some (Inr (n, g))))"

text \<open>
  Delivery of an event by the kernel: a self message leaves the set of scheduled ones before
  the handler runs.
\<close>

datatype srevent = SelfMessage srmsg | Arrival srmsg

fun deliver :: "Sim \<Rightarrow> srevent \<Rightarrow> SR \<Rightarrow> SRStatic \<Rightarrow> handled" where
  "deliver w (SelfMessage m) n g = handleMessage w True m (n\<lparr>scheduled := remove1 m (scheduled n)\<rparr>) g"
| "deliver w (Arrival m) n g = handleMessage w False m n g"

end
