(* ===== verification/SR_Invariant.thy ===== *)
theory SR_Invariant
  imports SR_Handlers
begin

unbundle bit_operations_syntax

text \<open>
  The invariant of an SR node and that every event keeps it: containers stay well formed, a timer
  is never scheduled twice, every packet waiting to be sent carries the node's own address, a node
  has an identifier exactly after it advertised itself, and no node ever enters the alert state.
\<close>

section \<open>Faults of the lower modules\<close>

text \<open>None of the modules below raises an error of the simulation kernel.\<close>

definition kernel_ok :: "fault \<Rightarrow> bool" where
  "kernel_ok e \<longleftrightarrow> (\<forall>s. e \<noteq> KernelError s)"

lemma kernel_ok_simps [simp]:
  "kernel_ok AssertFailed" "kernel_ok (RuntimeError s)" "kernel_ok NullDeref" "kernel_ok DivisionByZero"
  "kernel_ok SignedOverflow" "kernel_ok UndefinedBehaviour" "\<not> kernel_ok (KernelError s)"
  by (simp_all add: kernel_ok_def)

lemma wp_mac_from_string [rule_wp]: "(\<And>m. Q m) \<Longrightarrow> wpR Q kernel_ok (mac_from_string s)"
  by (auto simp: mac_from_string_def setAddress_def split: prod.splits)

lemma wp_bit_index: "(\<And>i. Q i) \<Longrightarrow> wpR Q kernel_ok (bit_index f g s)"
  by (simp add: bit_index_def)

lemma wp_GETBIT: "(\<And>b. Q b) \<Longrightarrow> wpR Q kernel_ok (GETBIT p i h)"
  by (simp add: GETBIT_def)

lemma wp_SETBIT: "(\<And>b. Q b) \<Longrightarrow> wpR Q kernel_ok (SETBIT p i h)"
  by (simp add: SETBIT_def)

lemma wp_Check_loop: "(\<And>b. Q b) \<Longrightarrow> wpR Q kernel_ok (Check_loop f gs s h)"
  by (induction gs) (auto intro!: wpR_bindR wp_bit_index wp_GETBIT)

lemma wp_Add_loop: "(\<And>h. Q h) \<Longrightarrow> wpR Q kernel_ok (Add_loop f gs s h)"
proof (induction gs arbitrary: h)
  case (Cons g gs)
  then have "wpR Q kernel_ok (Add_loop f gs s h)" for h by blast
  then show ?case by (auto intro!: wpR_bindR wp_bit_index wp_SETBIT)
qed simp

lemma wp_Add: "(\<And>h. Q h) \<Longrightarrow> wpR Q kernel_ok (Add f s h)"
  unfolding Add_def by (rule wp_Add_loop)

lemma wp_Check_string: "(\<And>b. Q b) \<Longrightarrow> wpR Q kernel_ok (Check_string f s h)"
  unfolding Check_string_def Check_def by (rule wp_Check_loop)

lemma wp_GetBloomPerso [rule_wp]: "(\<And>f. BloomPerso t = Some f \<Longrightarrow> Q f) \<Longrightarrow> wpR Q kernel_ok (GetBloomPerso t)"
  by (auto simp: GetBloomPerso_def split: option.splits)

lemma wp_neighbors_loop: "(\<And>m. Q m) \<Longrightarrow> wpR Q kernel_ok (neighbors_loop q h tbl)"
proof (induction q h tbl rule: neighbors_loop.induct)
  case (2 q h k b it)
  have "wpR Q kernel_ok (neighbors_loop q h it)" using 2 by blast
  then have "wpR (\<lambda>yes. wpR Q kernel_ok (if yes \<noteq> 0 then mac_from_string k else neighbors_loop q h it)) kernel_ok
      (Check_copy b q h)"
    using 2(2) by (auto simp: Check_copy_def intro!: wp_Check_string wp_mac_from_string split: option.splits)
  then show ?case by (auto intro: wpR_bindR)
qed simp

lemma wp_GetNextHop [rule_wp]: "(\<And>m. Q m) \<Longrightarrow> wpR Q kernel_ok (GetNextHop t h q src m)"
  by (auto simp: GetNextHop_def query_string_def
      intro!: wpR_bindR wp_GetBloomPerso wp_Check_string wp_neighbors_loop split: option.splits)

lemma wp_selectRandomType [rule_wp]:
  assumes "\<And>t' h'. NeighborsTable t' = NeighborsTable t \<Longrightarrow> Q (t', h')"
  shows "wpR Q kernel_ok (selectRandomType i t h)"
proof -
  have "NeighborsTable (display_sensorType q t) = NeighborsTable t" for q
    using display_sensorType_icon [of q t] by auto
  with assms show ?thesis
    by (auto simp: selectRandomType_def Add_string_def
        intro!: wpR_bindR wp_GetBloomPerso wp_Add split: option.splits)
qed

lemma rare_wf_UpdateTable:
  assumes "rare_wf t"
  shows "wpR (\<lambda>t'. rare_wf t' \<and> queriesSimilarity t' = queriesSimilarity t) kernel_ok (UpdateTable q m t)"
proof (cases "UpdateTable q m t")
  case (Inl e)
  then show ?thesis
    by (auto simp: UpdateTable_def Let_def table_row_def split: if_splits option.splits)
next
  case (Inr t')
  have "0 \<le> q \<and> q < INT_MAX \<and> learned t (nat q) m < INT_MAX"
  proof (cases "length (learningTable t) \<le> uint_of q")
    case True
    with Inr have q: "0 \<le> q" "q < INT_MAX"
      by (auto simp: UpdateTable_def Let_def split: if_splits)
    then have "uint_of q = nat q" using uint_of_int INT_MAX_le by blast
    with True q show ?thesis by (simp add: learned_def row_at_def row_count_def INT_MAX_def)
  next
    case False
    with Inr have q: "0 \<le> q" "nat q < length (learningTable t)"
      and row: "om_find (learningTable t ! nat q) (mac_str m) \<noteq> Some INT_MAX"
      by (auto simp: UpdateTable_def Let_def table_row_def split: if_splits option.splits)
    then have "row_wf (learningTable t ! nat q)" using assms by (simp add: rare_wf_def)
    then have "learned t (nat q) m < INT_MAX"
      using q row by (auto simp: learned_def row_at_def row_count_def row_wf_def om_find_mem INT_MAX_def
          order_le_less split: option.splits)
    then show ?thesis using q assms by (auto simp: rare_wf_def)
  qed
  with UpdateTable_bump [of q t m] rare_wf_bump [OF assms, of "nat q" m] Inr show ?thesis
    by simp
qed

lemma wp_UpdateTable [rule_wp]:
  "rare_wf t \<Longrightarrow> (\<And>t'. rare_wf t' \<Longrightarrow> Q t') \<Longrightarrow> wpR Q kernel_ok (UpdateTable q m t)"
  by (rule wpR_mono [OF rare_wf_UpdateTable]) simp_all

definition keeps_learning :: "TableRARE \<Rightarrow> (mac \<times> TableRARE \<times> rng) res \<Rightarrow> bool" where
  "keeps_learning t x = wpR (\<lambda>(m, t', r'). learningTable t' = learningTable t) kernel_ok x"

lemma LearningPeerSelection_table:
  assumes "LearningPeerSelection q t r = Some x"
  shows "keeps_learning t x"
proof (rule LearningPeerSelection.raw_induct [where P = "\<lambda>q t r x. keeps_learning t x", OF _ assms])
  fix f :: "int \<Rightarrow> TableRARE \<Rightarrow> rng \<Rightarrow> (mac \<times> TableRARE \<times> rng) res option" and q t r x
  assume IH: "\<And>q t r x. f q t r = Some x \<Longrightarrow> keeps_learning t x"
  assume eq: "(let lt = learningTable t in
      case (if length lt > uint_of q
            then bindR (table_row lt q) (\<lambda>mapMACInt. Inr (best_peer 0 '''' mapMACInt))
            else Inr '''') of
        Inl e \<Rightarrow> Some (Inl e)
      | Inr m_str \<Rightarrow>
          if m_str \<noteq> '''' then Some (bindR (mac_from_string m_str) (\<lambda>m. Inr (m, t, r)))
          else
            (let newQueryId = QueryRelaxation t q in
             if newQueryId \<noteq> q \<and> QueryRelaxationRetryTime t < QueryRelaxationMaxRetry t
             then f newQueryId (t\<lparr>QueryRelaxationRetryTime := QueryRelaxationRetryTime t + 1\<rparr>) r
             else
               (let t' = t\<lparr>QueryRelaxationRetryTime := 0\<rparr> in
                if lt = [] then Some (Inr (UNSPECIFIED_ADDRESS, t', r))
                else if length lt = 1 then Some (Inl DivisionByZero)
                else Option.bind (pick_row lt r) (\<lambda>p. f (int (fst p)) t' (snd p))))) = Some x"
  have upd: "keeps_learning t x" if "f q' (t\<lparr>QueryRelaxationRetryTime := k\<rparr>) r' = Some x" for q' k r'
    using IH [OF that] by (simp add: keeps_learning_def)
  have found: "keeps_learning t (bindR (mac_from_string s) (\<lambda>m. Inr (m, t, r)))" for s
    by (auto simp: keeps_learning_def intro!: wpR_bindR wp_mac_from_string)
  have rest: "keeps_learning t (Inr (m, t\<lparr>QueryRelaxationRetryTime := k\<rparr>, r))" for m k
    by (simp add: keeps_learning_def)
  have faults: "keeps_learning t (Inl UndefinedBehaviour)" "keeps_learning t (Inl DivisionByZero)"
    by (simp_all add: keeps_learning_def)
  show "keeps_learning t x"
    using eq found rest faults
    by (auto simp: Let_def table_row_def bind_eq_Some_conv split: if_splits dest: upd)
qed

lemma wp_LearningPeerSelection [rule_wp]:
  assumes "rare_wf t" and "\<And>m t' r'. rare_wf t' \<Longrightarrow> Q (m, t', r')"
  shows "wpO Q kernel_ok (LearningPeerSelection q t r)"
proof (cases "LearningPeerSelection q t r")
  case (Some x)
  from LearningPeerSelection_table [OF Some] assms show ?thesis
    by (auto simp: Some wpR_def rare_wf_def keeps_learning_def split: sum.splits)
qed simp

section \<open>The invariant\<close>

definition timers_once :: "srmsg list \<Rightarrow> bool" where
  "timers_once ms \<longleftrightarrow> (\<forall>t. count_list ms (Timer t) \<le> 1)"

definition sched_wf :: "SR \<Rightarrow> bool" where
  "sched_wf n \<longleftrightarrow>
     timers_once (scheduled n) \<and>
     Timer internalAlertMsg \<notin> set (scheduled n) \<and> Timer falseAlertTimeoutMsg \<notin> set (scheduled n) \<and>
     (Timer selfGenerateRequestMsg \<in> set (scheduled n) \<longrightarrow> hasSentAdvertMsg n) \<and>
     (Timer selfInitializationMsg \<in> set (scheduled n) \<longrightarrow>
        \<not> hasSentAdvertMsg n \<and> Timer updateStatsMsg \<notin> set (scheduled n) \<and>
        (\<forall>p. Packet p \<notin> set (scheduled n))) \<and>
     (\<forall>p. Packet p \<in> set (scheduled n) \<longrightarrow> srcMACAddress p = myMACAddress n)"

definition joined_wf :: "SR \<Rightarrow> bool" where
  "joined_wf n \<longleftrightarrow> sensorStatus n \<noteq> STATUS_ALERT \<and>
     (if isSink n then \<not> hasSentAdvertMsg n
      else (hasSentAdvertMsg n \<longleftrightarrow> sensorStatus n = STATUS_NORMAL) \<and>
           (if hasSentAdvertMsg n then 1 \<le> getSinkDistance (myID n) else myID n = 65535))"

definition tables_wf :: "SR \<Rightarrow> bool" where
  "tables_wf n \<longleftrightarrow> om_wf (neighborList n) \<and> om_wf (RecordTable n) \<and> om_wf (NeighborsTable (bt n)) \<and> rare_wf (tr n)"

definition sr_wf :: "SR \<Rightarrow> bool" where
  "sr_wf n \<longleftrightarrow> sched_wf n \<and> joined_wf n \<and> tables_wf n \<and> LIVETIME n = 4096 * 64 \<and> EVENT_MAX_LIVETIME n = 4096"

lemmas sr_wf_defs = sr_wf_def sched_wf_def joined_wf_def tables_wf_def

text \<open>A node whose initialisation timer has fired.\<close>

definition sr_ready :: "SR \<Rightarrow> bool" where
  "sr_ready n \<longleftrightarrow> sr_wf n \<and> Timer selfInitializationMsg \<notin> set (scheduled n)"

lemma timers_once_remove1: "timers_once ms \<Longrightarrow> timers_once (remove1 m ms)"
proof -
  have "count_list (remove1 m ms) x \<le> count_list ms x" for x by (induction ms) auto
  then show "timers_once ms \<Longrightarrow> timers_once (remove1 m ms)" unfolding timers_once_def by (meson le_trans)
qed

lemma timers_once_removed:
  assumes "timers_once ms"
  shows "Timer t \<notin> set (remove1 (Timer t) ms)"
proof
  have "x \<in> set (remove1 x ms) \<Longrightarrow> 2 \<le> count_list ms x" for x :: srmsg
    by (induction ms) (auto simp: Suc_le_eq neq0_conv [symmetric] count_list_0_iff)
  moreover assume "Timer t \<in> set (remove1 (Timer t) ms)"
  ultimately have "2 \<le> count_list ms (Timer t)" by blast
  moreover have "count_list ms (Timer t) \<le> 1" using assms by (simp add: timers_once_def)
  ultimately show False by simp
qed

lemma timers_once_snoc:
  "timers_once (ms @ [Packet p]) = timers_once ms"
  "Timer t \<notin> set ms \<Longrightarrow> timers_once ms \<Longrightarrow> timers_once (ms @ [Timer t])"
  by (auto simp: timers_once_def)

lemma sr_wf_remove1: "sr_wf n \<Longrightarrow> sr_wf (n\<lparr>scheduled := remove1 m (scheduled n)\<rparr>)"
proof -
  assume wf: "sr_wf n"
  have "set (remove1 m (scheduled n)) \<subseteq> set (scheduled n)" by (rule set_remove1_subset)
  with wf have "sched_wf (n\<lparr>scheduled := remove1 m (scheduled n)\<rparr>)"
    unfolding sr_wf_def sched_wf_def using timers_once_remove1 by simp blast
  with wf show ?thesis by (simp add: sr_wf_def joined_wf_def tables_wf_def)
qed

section \<open>The operations keep it\<close>

lemma wp_scheduleMsgToSendNic [rule_wp]:
  assumes "controlInfo p = None"
    and "\<And>p' g'. srcMACAddress p' = myMACAddress n \<Longrightarrow> Q (n\<lparr>scheduled := scheduled n @ [Packet p']\<rparr>, g')"
  shows "wpR Q kernel_ok (scheduleMsgToSendNic p d n g)"
  using assms by (simp add: scheduleMsgToSendNic_def Let_def)

lemma wp_scheduleTimer [rule_wp]:
  assumes "Timer t \<notin> set (scheduled n)"
    and "\<And>g'. Q (n\<lparr>scheduled := scheduled n @ [Timer t]\<rparr>, g')"
  shows "wpR Q kernel_ok (scheduleTimer d t n g)"
  using assms by (simp add: scheduleTimer_def)

lemma wp_slot_search: "(\<And>x. Q x) \<Longrightarrow> wpR Q kernel_ok (slot_search k b p r)"
proof (induction k arbitrary: p r)
  case 0
  then show ?case by (subst slot_search.simps) (auto simp: Let_def)
next
  case (Suc k)
  then have "wpR Q kernel_ok (slot_search k b p r)" for p r by blast
  with Suc.prems show ?case by (subst slot_search.simps) (auto simp: Let_def)
qed

lemma wp_area_search: "(\<And>x. Q x) \<Longrightarrow> wpR Q kernel_ok (area_search k b p r)"
proof (induction k arbitrary: p r)
  case 0
  then show ?case by (subst area_search.simps) (auto simp: Let_def)
next
  case (Suc k)
  then have "wpR Q kernel_ok (area_search k b p r)" for p r by blast
  with Suc.prems show ?case by (subst area_search.simps) (auto simp: Let_def)
qed

lemma wp_scheduleTimeToGenerateRequest [rule_wp]:
  assumes "Timer selfGenerateRequestMsg \<notin> set (scheduled n)"
    and "\<And>b g'. Q (n\<lparr>iAmTheLast := b\<rparr>, g')"
    and "\<And>b g'. Q (n\<lparr>iAmTheLast := b, scheduled := scheduled n @ [Timer selfGenerateRequestMsg]\<rparr>, g')"
  shows "wpR Q kernel_ok (scheduleTimeToGenerateRequest w n g)"
proof -
  have same: "n = n\<lparr>iAmTheLast := iAmTheLast n\<rparr>" by simp
  have "Q (n, g')" for g' using assms(2) [of "iAmTheLast n" g'] by simp
  moreover have "Q (n\<lparr>scheduled := scheduled n @ [Timer selfGenerateRequestMsg]\<rparr>, g')" for g'
    using assms(3) [of "iAmTheLast n" g'] by simp
  ultimately show ?thesis
    using assms unfolding scheduleTimeToGenerateRequest_def Let_def
    by (intro wpR_if wpR_assertR wpR_bindR wp_slot_search) (auto split: option.splits intro!: wp_scheduleTimer)
qed

lemma sr_ready_send:
  "sr_ready n \<Longrightarrow> srcMACAddress p = myMACAddress n \<Longrightarrow> sr_ready (n\<lparr>scheduled := scheduled n @ [Packet p]\<rparr>)"
  by (auto simp: sr_ready_def sr_wf_def sched_wf_def joined_wf_def tables_wf_def timers_once_snoc)

lemma sr_ready_joined:
  assumes "sr_ready n" and "isSink n = False" and "1 \<le> getSinkDistance i"
  shows "sr_ready (n\<lparr>iDBuilder := i, myID := i, hasSentAdvertMsg := True, sensorStatus := STATUS_NORMAL\<rparr>)"
  using assms by (simp add: sr_ready_def sr_wf_def sched_wf_def joined_wf_def tables_wf_def)

lemma sr_ready_neighbor:
  "sr_ready n \<Longrightarrow> sr_ready (addNeighbor_bloom m i b n)"
  by (simp add: sr_ready_def sr_wf_def sched_wf_def joined_wf_def tables_wf_def addNeighbor_bloom_def
      addNeighbor_def AddFilter_def om_wf_set)

lemma sr_ready_trace: "sr_ready n \<Longrightarrow> sr_ready (trace_neighbor w i n)"
  by (auto simp: sr_ready_def sr_wf_def sched_wf_def joined_wf_def tables_wf_def trace_neighbor_def om_index_def
      om_wf_set split: option.splits)

lemma sr_ready_frame [simp]:
  "sr_ready (n\<lparr>iDBuilder := i\<rparr>) = sr_ready n"
  "sr_ready (n\<lparr>numReceived := k\<rparr>) = sr_ready n"
  "sr_ready (n\<lparr>numSent := k\<rparr>) = sr_ready n"
  "sr_ready (n\<lparr>firstSinkMsg := b\<rparr>) = sr_ready n"
  "sr_ready (n\<lparr>iAmTheLast := b\<rparr>) = sr_ready n"
  "sr_ready (n\<lparr>displayText := s\<rparr>) = sr_ready n"
  "sr_ready (n\<lparr>displayColor := s\<rparr>) = sr_ready n"
  "sr_ready (n\<lparr>currentRequestTimeStamp := ts\<rparr>) = sr_ready n"
  "sr_ready (SR_updateDisplay n) = sr_ready n"
  "sr_ready (changeDisplay n) = sr_ready n"
  by (simp_all add: sr_ready_def sr_wf_def sched_wf_def joined_wf_def tables_wf_def SR_updateDisplay_def
      changeDisplay_def Let_def)

lemma sr_ready_records:
  "sr_ready n \<Longrightarrow> om_wf r \<Longrightarrow> sr_ready (n\<lparr>RecordTable := r\<rparr>)"
  "sr_ready n \<Longrightarrow> rare_wf t \<Longrightarrow> sr_ready (n\<lparr>tr := t\<rparr>)"
  by (simp_all add: sr_ready_def sr_wf_def sched_wf_def joined_wf_def tables_wf_def)

lemma sr_readyD:
  assumes "sr_ready n"
  shows "om_wf (RecordTable n)" and "rare_wf (tr n)" and "om_wf (neighborList n)"
    and "Timer selfGenerateRequestMsg \<in> set (scheduled n) \<longrightarrow> hasSentAdvertMsg n"
    and "sensorStatus n \<noteq> STATUS_ALERT" and "isSink n \<Longrightarrow> \<not> hasSentAdvertMsg n"
  using assms by (simp_all add: sr_ready_def sr_wf_def sched_wf_def joined_wf_def tables_wf_def)

lemma wp_setMACExt: "(\<And>i. Q i) \<Longrightarrow> wpO Q kernel_ok (setMACExt bits junk s i)"
  by (auto simp: setMACExt_def setMACExtNumber_def wpO_def assertR_def split: option.splits)

lemma wp_id_fields:
  "(\<And>j. setSinkDistance d i = Inr j \<Longrightarrow> Q j) \<Longrightarrow> wpR Q kernel_ok (setSinkDistance d i)"
  "(\<And>j. setArea a' i = Inr j \<Longrightarrow> Q j) \<Longrightarrow> wpR Q kernel_ok (setArea a' i)"
  by (simp_all add: setSinkDistance_def setArea_def assertR_def)

lemma wp_get_an_ID [rule_wp]:
  assumes "\<And>i. 1 \<le> getSinkDistance i \<Longrightarrow> Q (n\<lparr>iDBuilder := i, myID := i\<rparr>)"
  shows "wpO Q kernel_ok (get_an_ID w src n)"
proof -
  have "1 \<le> getSinkDistance j" if "setSinkDistance (getSinkDistance i + 1) i = Inr j" for i j
  proof -
    have "getSinkDistance j = getSinkDistance i + 1"
      using dist_field.put_InrD [OF that] by simp
    moreover have "getSinkDistance i < 16" using field_bound [of i] by simp
    ultimately show ?thesis
      by (simp add: word_le_nat_alt word_less_nat_alt unat_word_ariths)
  qed
  with assms show ?thesis
    unfolding get_an_ID_def builder_setMACExt_def Let_def
    by (auto intro!: wpO_bindO wp_setMACExt wpR_bindR wp_id_fields simp: getID_def)
qed

lemma wp_join:
  assumes "sr_ready n" and "\<not> isSink n" and "\<not> hasSentAdvertMsg n"
    and Q: "\<And>n' g'. sr_ready n' \<Longrightarrow> Q (n', g')"
  shows "wpO Q kernel_ok (bindO (get_an_ID w src n) (\<lambda>n. Some (send_advertisement w (d n) n g)))"
proof -
  have once: "timers_once (scheduled n)" "Timer selfGenerateRequestMsg \<notin> set (scheduled n)"
    using assms(1-3) by (simp_all add: sr_ready_def sr_wf_def sched_wf_def)
  have sent: "sr_ready (n\<lparr>iDBuilder := i, myID := i, scheduled := scheduled n @ [Packet p'],
      hasSentAdvertMsg := True, sensorStatus := STATUS_NORMAL\<rparr>)"
    if "1 \<le> getSinkDistance i" "srcMACAddress p' = myMACAddress n" for i p'
    using assms(1,2) that by (auto simp: sr_ready_def sr_wf_defs timers_once_snoc)
  have timer: "sr_ready (n'\<lparr>iAmTheLast := b, scheduled := scheduled n' @ [Timer selfGenerateRequestMsg]\<rparr>)"
    if "sr_ready n'" "hasSentAdvertMsg n'" "Timer selfGenerateRequestMsg \<notin> set (scheduled n')" for n' b
    using that by (auto simp: sr_ready_def sr_wf_defs timers_once_snoc)
  show ?thesis
    unfolding send_advertisement_def
    by (rule rule_wp | assumption | rule Q | rule timer | rule sent | simp add: newSRPacket_def once sr_ready_frame(5) split_def sent Q timer)+
qed

lemma wp_handleNicDiscoveryMsg [rule_wp]:
  assumes "sr_ready n" and "\<not> isSink n" and Q: "\<And>n' g'. sr_ready n' \<Longrightarrow> Q (n', g')"
  shows "wpO Q kernel_ok (handleNicDiscoveryMsg w msg n g)"
proof -
  define n1 where "n1 = n\<lparr>iDBuilder := setID (Id msg) (iDBuilder n)\<rparr>"
  define n2 where "n2 = addNeighbor_bloom (srcMACAddress msg) (Id msg) (bloom msg) n1"
  define n3 where "n3 = trace_neighbor w (Id msg) n1"
  have r: "sr_ready n1" "sr_ready n2" "sr_ready n3"
    using assms(1) by (simp_all add: n1_def n2_def n3_def sr_ready_neighbor sr_ready_trace)
  have s: "isSink n1 = isSink n" "isSink n2 = isSink n" "isSink n3 = isSink n"
    by (simp_all add: n1_def n2_def n3_def addNeighbor_bloom_def addNeighbor_def trace_neighbor_def)
  have join2: "wpO Q kernel_ok (bindO (get_an_ID w (Id msg) n2) (\<lambda>n.
      Some (send_advertisement w (10 * getSinkDistance (iDBuilder n)) n g)))" if "\<not> hasSentAdvertMsg n2"
    by (rule wp_join [OF r(2) _ that]) (use s assms in \<open>auto intro: Q\<close>)
  have join3: "wpO (\<lambda>(n, g). Q (changeDisplay n, g)) kernel_ok (bindO (get_an_ID w (Id msg) n3) (\<lambda>n.
      Some (send_advertisement w 10 n g)))" if "\<not> hasSentAdvertMsg n3"
    by (rule wp_join [OF r(3) _ that]) (use s assms in \<open>auto intro: Q\<close>)
  then have join3': "wpO Q kernel_ok (bindO (get_an_ID w (Id msg) n3) (\<lambda>n.
      Some (bindR (send_advertisement w 10 n g) (\<lambda>(n, g). Inr (changeDisplay n, g)))))" if "\<not> hasSentAdvertMsg n3"
    using that by (auto simp: wpO_def bindO_def wpR_def bindR_def split: option.splits sum.splits)
  have ask: "wpO Q kernel_ok (Some (bindR (GetBloomPerso (bt n2)) (\<lambda>f.
      bindR (area_search 16 (areaBitmap g) p0 r0) (\<lambda>(p, r).
      bindR (scheduleMsgToSendNic ((newSRPacket ''DISCO-REQUEST'')\<lparr>Id := myID n2, msgType := MSG_DISCOVERY,
          queryType := Q_REQUEST, bloom := Some f, destMACAddress := srcMACAddress msg\<rparr>) (of_nat (p * 10)) n2
          (g\<lparr>areaBitmap := areaBitmap g + push_bit p 1, rand := r\<rparr>)) (\<lambda>(n, g).
      Inr (n\<lparr>firstSinkMsg := False\<rparr>, g))))))" for p0 r0
    by (auto simp: newSRPacket_def intro!: rule_wp wp_area_search Q sr_ready_send [OF r(2)])
  show ?thesis
    unfolding handleNicDiscoveryMsg_def Let_def n1_def [symmetric] n2_def [symmetric] n3_def [symmetric]
    using join2 join3' ask r Q by auto
qed

lemma wp_handleNicAlertMsg [rule_wp]:
  assumes "sr_ready n" and "Q (n, g)"
  shows "wpR Q kernel_ok (handleNicAlertMsg msg n g)"
  using assms sr_readyD(5) [OF assms(1)] by (simp add: handleNicAlertMsg_def)

lemma wp_forward_request:
  assumes "sr_ready n" and "controlInfo msg = None" and "\<And>n' g'. sr_ready n' \<Longrightarrow> Q (n', g')"
  shows "wpR Q kernel_ok (forward_request peer msg n g)"
  unfolding forward_request_def using assms by (auto intro!: wp_scheduleMsgToSendNic sr_ready_send)

lemma wp_answer_request:
  assumes "sr_ready n" and "\<And>n' g'. sr_ready n' \<Longrightarrow> Q (n', g')"
  shows "wpR Q kernel_ok (answer_request msg n g)"
proof -
  have rec: "sr_ready (n\<lparr>RecordTable := snd (om_index UNSPECIFIED_ADDRESS (Id msg) (RecordTable n))\<rparr>)"
    using sr_ready_records(1) [OF assms(1)] sr_readyD(1) [OF assms(1)]
    by (auto simp: om_index_def om_wf_set split: option.splits)
  have same: "n\<lparr>RecordTable := RecordTable n\<rparr> = n" by simp
  show ?thesis
    unfolding answer_request_def Let_def
    using assms sr_ready_send [OF rec] sr_ready_send [OF assms(1)]
    by (auto simp: newSRPacket_def same split_def intro!: wp_scheduleMsgToSendNic)
qed

lemma wp_flood_request:
  assumes "sr_ready n" and "controlInfo msg = None" and "\<And>n' g'. sr_ready n' \<Longrightarrow> Q (n', g')"
  shows "wpR Q kernel_ok (flood_request msg n g)"
  using assms by (auto simp: flood_request_def intro!: wp_forward_request split: option.splits)

lemma wp_ask_learning_table:
  assumes "sr_ready n" and "controlInfo msg = None" and "\<And>n' g'. sr_ready n' \<Longrightarrow> Q (n', g')"
  shows "wpO Q kernel_ok (ask_learning_table msg n g)"
  unfolding ask_learning_table_def Let_def
  using assms sr_readyD(2) [OF assms(1)]
  by (auto intro!: rule_wp wp_flood_request wp_forward_request sr_ready_records(2))

lemma wp_handle_request:
  assumes "sr_ready n" and "controlInfo msg = None" and Q: "\<And>n' g'. sr_ready n' \<Longrightarrow> Q (n', g')"
  shows "wpO Q kernel_ok (handle_request msg n g)"
proof -
  define n1 where "n1 = n\<lparr>currentRequestTimeStamp := myTimestamp msg,
      RecordTable := om_set (Id msg) (srcMACAddress msg) (RecordTable n)\<rparr>"
  have "sr_ready n1"
    using sr_ready_records(1) [of "n\<lparr>currentRequestTimeStamp := myTimestamp msg\<rparr>"] assms(1) sr_readyD(1) [OF assms(1)]
    by (simp add: n1_def om_wf_set)
  then show ?thesis
    unfolding handle_request_def Let_def n1_def [symmetric] using assms
    by (auto intro!: rule_wp wp_answer_request wp_forward_request wp_ask_learning_table)
qed

lemma wp_replies:
  assumes "sr_ready n" and "controlInfo msg = None" and Q: "\<And>n' g'. sr_ready n' \<Longrightarrow> Q (n', g')"
  shows "wpR Q kernel_ok (forward_reply msg n g)" and "wpR Q kernel_ok (receive_answer msg n g)"
proof -
  have rec: "sr_ready (n\<lparr>tr := t, RecordTable := snd (om_index UNSPECIFIED_ADDRESS (Id msg) (RecordTable n))\<rparr>)"
    if "rare_wf t" for t
    using sr_ready_records(1) [OF sr_ready_records(2) [OF assms(1) that]] sr_readyD(1) [OF assms(1)]
    by (auto simp: om_index_def om_wf_set split: option.splits)
  show "wpR Q kernel_ok (forward_reply msg n g)"
    unfolding forward_reply_def Let_def using assms sr_readyD(2) [OF assms(1)]
    by (auto simp: split_def intro!: rule_wp sr_ready_send [OF rec, simplified] Q)
  show "wpR Q kernel_ok (receive_answer msg n g)"
    unfolding receive_answer_def Let_def using assms sr_readyD(2) [OF assms(1)] sr_ready_records(2) [OF assms(1)]
    by (auto intro!: rule_wp)
qed

lemma wp_handleNicNormalMsg [rule_wp]:
  assumes "sr_ready n" and "controlInfo msg = None" and Q: "\<And>n' g'. sr_ready n' \<Longrightarrow> Q (n', g')"
  shows "wpO Q kernel_ok (handleNicNormalMsg msg n g)"
  using assms by (auto simp: handleNicNormalMsg_def intro!: wp_handle_request wp_replies)

lemma sr_ready_timer:
  assumes "sr_ready n" and "Timer t \<notin> set (scheduled n)" and "t = selfGenerateRequestMsg \<and> hasSentAdvertMsg n \<or> t = updateStatsMsg"
  shows "sr_ready (n\<lparr>scheduled := scheduled n @ [Timer t]\<rparr>)"
proof -
  have "sched_wf (n\<lparr>scheduled := scheduled n @ [Timer t]\<rparr>)"
    using assms by (auto simp: sr_ready_def sr_wf_def sched_wf_def timers_once_snoc)
  with assms show ?thesis by (auto simp: sr_ready_def sr_wf_def joined_wf_def tables_wf_def)
qed

lemma sr_ready_stats [simp]:
  "sr_ready (n\<lparr>hopCountPerRequestVector := v\<rparr>) = sr_ready n"
  "sr_ready (n\<lparr>hopCountPerRequestStats := v\<rparr>) = sr_ready n"
  "sr_ready (n\<lparr>NBMsgSentPerRequestVector := v\<rparr>) = sr_ready n"
  "sr_ready (n\<lparr>NBMsgRcvdPerRequestVector := v\<rparr>) = sr_ready n"
  "sr_ready (n\<lparr>NBMsgRcvdPerRequestVector2 := v'\<rparr>) = sr_ready n"
  by (simp_all add: sr_ready_def sr_wf_defs)

lemma wp_generaterRandomRequest:
  assumes "sr_ready n" and "hasSentAdvertMsg n" and "Timer selfGenerateRequestMsg \<notin> set (scheduled n)"
    and Q: "\<And>n' g'. sr_ready n' \<Longrightarrow> Q (n', g')"
  shows "wpO Q kernel_ok (generaterRandomRequest w n g)"
proof -
  let ?cap = "\<lambda>(peer :: mac, n', g' :: SRStatic). sr_ready n' \<and> hasSentAdvertMsg n' \<and>
      Timer selfGenerateRequestMsg \<notin> set (scheduled n')"
  define n1 where "n1 = n\<lparr>currentRequestTimeStamp := word_of_int (simRaw w) mod LIVETIME n\<rparr>"
  have n1: "sr_ready n1" "hasSentAdvertMsg n1" "Timer selfGenerateRequestMsg \<notin> set (scheduled n1)"
    using assms by (simp_all add: n1_def)
  have choose: "wpO ?cap kernel_ok (if isUnspecified peer
      then bindO (LearningPeerSelection q (tr n1) r0) (\<lambda>(peer, t, r).
             Some (Inr (if isUnspecified peer then BROADCAST_ADDRESS else peer, n1\<lparr>tr := t\<rparr>, g1\<lparr>rand := r\<rparr>)))
      else Some (Inr (peer, n1, g1)))" for peer q r0 g1
    using n1 sr_readyD(2) [OF n1(1)] sr_ready_records(2) [OF n1(1)] by (auto intro!: rule_wp)
  have send: "wpR Q kernel_ok (assertR b (bindR (scheduleMsgToSendNic p 5 n2 g2) (\<lambda>(n, g).
      scheduleTimer (uint (LIVETIME n)) selfGenerateRequestMsg n (f g))))"
    if "sr_ready n2" "hasSentAdvertMsg n2" "Timer selfGenerateRequestMsg \<notin> set (scheduled n2)" "controlInfo p = None"
    for b p n2 g2 and f :: "SRStatic \<Rightarrow> SRStatic"
    using that by (auto intro!: rule_wp Q sr_ready_timer [OF sr_ready_send, simplified])
  show ?thesis
    unfolding generaterRandomRequest_def Let_def n1_def [symmetric]
    by (intro wpO_if wpO_bindO wpO_Some wp_GetNextHop wpO_mono [OF choose])
      (auto intro!: send simp: newSRPacket_def simp del: isUnspecified_iff)
qed

lemma sr_ready_address:
  assumes "sr_ready n" and "\<forall>p. Packet p \<notin> set (scheduled n)"
  shows "sr_ready (n\<lparr>myMACAddress := m\<rparr>)"
  using assms by (simp add: sr_ready_def sr_wf_defs)

lemma sr_ready_bt:
  "sr_ready n \<Longrightarrow> NeighborsTable t = NeighborsTable (bt n) \<Longrightarrow> sr_ready (n\<lparr>bt := t\<rparr>)"
  by (simp add: sr_ready_def sr_wf_defs)

lemma wp_sensor_selfInitialization:
  assumes "sr_ready n" and "\<forall>p. Packet p \<notin> set (scheduled n)" and Q: "\<And>n' g'. sr_ready n' \<Longrightarrow> Q (n', g')"
  shows "wpR Q kernel_ok (sensor_selfInitialization w n g)"
  using sr_ready_bt [OF sr_ready_address [OF assms(1,2)]]
  by (auto simp: sensor_selfInitialization_def intro!: rule_wp Q split: option.splits)

lemma wp_SINK_updateStats:
  assumes "sr_ready n" and "Timer updateStatsMsg \<notin> set (scheduled n)" and Q: "\<And>n' g'. sr_ready n' \<Longrightarrow> Q (n', g')"
  shows "wpR Q kernel_ok (SINK_updateStats w n g)"
proof -
  have timer: "wpR Q kernel_ok (bindR (scheduleTimer d updateStatsMsg n' g) (\<lambda>(n, g). Inr (n, f g)))"
    if "sr_ready n'" "scheduled n' = scheduled n" for n' d and f :: "SRStatic \<Rightarrow> SRStatic"
    using assms(2) that sr_ready_timer [of n' updateStatsMsg] by (auto intro!: rule_wp Q)
  show ?thesis
    unfolding SINK_updateStats_def Let_def
    by (rule timer) (use assms(1) in \<open>simp_all add: SR_updateDisplay_def\<close>)
qed

lemma wp_SINK_selfInitialization:
  assumes "sr_ready n" and "isSink n" and "\<forall>p. Packet p \<notin> set (scheduled n)"
    and "Timer updateStatsMsg \<notin> set (scheduled n)" and Q: "\<And>n' g'. sr_ready n' \<Longrightarrow> Q (n', g')"
  shows "wpO Q kernel_ok (SINK_selfInitialization w n g)"
proof -
  have ready: "sr_ready (n\<lparr>myMACAddress := m, bt := updateDisplay s (bt n), iDBuilder := i, myID := j,
      scheduled := scheduled n @ [Packet p], sensorStatus := STATUS_NORMAL\<rparr>)"
    if "srcMACAddress p = m" for m s i j p
    using assms(1-3) that by (auto simp: sr_ready_def sr_wf_defs updateDisplay_def timers_once_snoc)
  show ?thesis
    unfolding SINK_selfInitialization_def AddToBloomPerso_def builder_setMACExt_def Let_def
    using assms(2,4) ready
    by (auto intro!: rule_wp wp_Add wp_setMACExt wp_id_fields wp_SINK_updateStats Q
        simp: newSRPacket_def split: option.splits)
qed

lemma wp_sendOut:
  assumes "sr_ready n" and Q: "\<And>n' g'. sr_ready n' \<Longrightarrow> Q (n', g')"
  shows "wpR Q kernel_ok (sendOut sr n g)"
  using assms by (auto simp: sendOut_def intro!: rule_wp)

lemma wp_handleSRMsg:
  assumes "sr_ready n" and "\<not> isSink n" and Q: "\<And>n' g'. sr_ready n' \<Longrightarrow> Q (n', g')"
  shows "wpO Q kernel_ok (handleSRMsg w msg n g)"
  unfolding handleSRMsg_def Let_def using assms by (auto intro!: rule_wp)

lemma wp_SINK_handleSRMsg:
  assumes "sr_ready n" and "isSink n" and Q: "\<And>n' g'. sr_ready n' \<Longrightarrow> Q (n', g')"
  shows "wpO Q kernel_ok (SINK_handleSRMsg msg n g)"
proof -
  have sink: "sr_ready (n'\<lparr>iDBuilder := i, myID := j, areaNumber := k, scheduled := scheduled n' @ [Packet p]\<rparr>)"
    if "sr_ready n'" "isSink n'" "srcMACAddress p = myMACAddress n'" for n' i j k p
    using that by (auto simp: sr_ready_def sr_wf_defs timers_once_snoc)
  have disco: "wpR Q kernel_ok (SINK_handleNicDiscoveryMsg m n g)" for m
  proof -
    define n1 where "n1 = addNeighbor_bloom (srcMACAddress m) (Id m) (bloom m) (n\<lparr>numReceived := numReceived n + 1\<rparr>)"
    have "sr_ready n1" "isSink n1"
      using assms by (simp_all add: n1_def sr_ready_neighbor) (simp add: addNeighbor_bloom_def addNeighbor_def)
    then show ?thesis
      unfolding SINK_handleNicDiscoveryMsg_def Let_def n1_def [symmetric]
      by (intro wpR_if wpR_bindR wp_id_fields wp_scheduleMsgToSendNic)
        (use assms in \<open>auto simp: newSRPacket_def intro!: Q sink [simplified]\<close>)
  qed
  show ?thesis
    unfolding SINK_handleSRMsg_def Let_def SINK_handleNicAlertMsg_def SINK_handleNicNormalMsg_def
    using assms disco by (auto intro!: rule_wp)
qed

lemma wp_deliver_arrival:
  assumes "sr_ready n"
  shows "wpO (\<lambda>(n', g'). sr_ready n') kernel_ok (deliver w (Arrival m) n g)"
  using assms by (auto simp: handleMessage_def SINK_handleMessage_def split: srmsg.splits
      intro!: wp_handleSRMsg wp_SINK_handleSRMsg)

lemma sr_ready_self:
  assumes "sr_wf n" and "m \<in> set (scheduled n)" and "m \<noteq> OtherMsg"
  shows "sr_ready (n\<lparr>scheduled := remove1 m (scheduled n)\<rparr>)"
proof -
  have wf: "sr_wf (n\<lparr>scheduled := remove1 m (scheduled n)\<rparr>)" by (rule sr_wf_remove1 [OF assms(1)])
  have sched: "sched_wf n" and once: "timers_once (scheduled n)"
    using assms(1) by (simp_all add: sr_wf_def sched_wf_def)
  have "Timer selfInitializationMsg \<notin> set (remove1 m (scheduled n))"
  proof (cases "m = Timer selfInitializationMsg")
    case True
    then show ?thesis using timers_once_removed [OF once] by simp
  next
    case False
    have "Timer selfInitializationMsg \<notin> set (scheduled n)"
    proof (cases m)
      case (Timer t)
      with sched assms(2) False show ?thesis by (cases t) (auto simp: sched_wf_def)
    qed (use sched assms in \<open>auto simp: sched_wf_def\<close>)
    then show ?thesis using set_remove1_subset by fastforce
  qed
  with wf show ?thesis by (simp add: sr_ready_def)
qed

lemmas self_dispatch = handleMessage_def SINK_handleMessage_def SINK_handleSelfMsg_def handleSelfMsg_def

lemma wp_deliver_timer:
  assumes "sr_wf n" and "Timer t \<in> set (scheduled n)"
  shows "wpO (\<lambda>(n', g'). sr_wf n') kernel_ok (deliver w (SelfMessage (Timer t)) n g)"
proof -
  let ?n = "n\<lparr>scheduled := remove1 (Timer t) (scheduled n)\<rparr>"
  have ready: "sr_ready ?n" by (rule sr_ready_self [OF assms]) simp
  have sched: "sched_wf n" using assms(1) by (simp add: sr_wf_def)
  then have gone: "Timer t \<notin> set (scheduled ?n)" using timers_once_removed by (simp add: sched_wf_def)
  have ready_wf: "\<And>n'. sr_ready n' \<Longrightarrow> sr_wf n'" by (simp add: sr_ready_def)
  show ?thesis
  proof (cases t)
    case selfInitializationMsg
    have "\<forall>p. Packet p \<notin> set (scheduled ?n)" "Timer updateStatsMsg \<notin> set (scheduled ?n)"
      using sched assms(2) set_remove1_subset [of "Timer t" "scheduled n"]
      by (auto simp: selfInitializationMsg sched_wf_def)
    then show ?thesis
      using wp_SINK_selfInitialization [OF ready] wp_sensor_selfInitialization [OF ready]
      by (auto simp: self_dispatch selfInitializationMsg ready_wf)
  next
    case selfGenerateRequestMsg
    have "hasSentAdvertMsg ?n" using sched assms(2) by (simp add: selfGenerateRequestMsg sched_wf_def)
    from wp_generaterRandomRequest [OF ready this] gone ready show ?thesis
      by (simp add: self_dispatch selfGenerateRequestMsg ready_wf)
  next
    case updateStatsMsg
    from wp_SINK_updateStats [OF ready] gone ready show ?thesis
      by (simp add: self_dispatch updateStatsMsg ready_wf)
  qed (use sched assms(2) in \<open>auto simp: sched_wf_def\<close>)
qed

lemma wp_deliver_self:
  assumes "sr_wf n" and "m \<in> set (scheduled n)"
  shows "wpO (\<lambda>(n', g'). sr_wf n') kernel_ok (deliver w (SelfMessage m) n g)"
proof (cases m)
  case (Timer t)
  then show ?thesis using wp_deliver_timer assms by blast
next
  case (Packet p)
  then have "sr_ready (n\<lparr>scheduled := remove1 m (scheduled n)\<rparr>)" using sr_ready_self [OF assms] by simp
  then show ?thesis
    by (auto simp: self_dispatch Packet Let_def sr_ready_def [THEN iffD1] intro!: rule_wp wp_sendOut)
next
  case OtherMsg
  then show ?thesis using sr_wf_remove1 [OF assms(1)] by (simp add: self_dispatch)
qed

section \<open>Reachable states of a node\<close>

text \<open>
  A node is initialised on well-formed tables. It then handles its own messages and what
  arrives from the network; the rest of the network may change what is shared between two events in
  any way. Nothing arrives before the initialisation timer has fired: it is set to one second,
  and the first packet of the network, the sink's, leaves at least six seconds later.
\<close>

definition sr_init :: "SR \<Rightarrow> bool" where
  "sr_init n \<longleftrightarrow> (\<exists>s b t i l ts g. n = fst (SR_initialize s b t i l ts g) \<and> om_wf (NeighborsTable b) \<and> rare_wf t)"

inductive sr_step :: "SR \<Rightarrow> SR \<Rightarrow> bool" where
  self_message:
    "m \<in> set (scheduled n) \<Longrightarrow> deliver w (SelfMessage m) n g = Some (Inr (n', g')) \<Longrightarrow> sr_step n n'"
| arrival:
    "Timer selfInitializationMsg \<notin> set (scheduled n) \<Longrightarrow>
     deliver w (Arrival m) n g = Some (Inr (n', g')) \<Longrightarrow> sr_step n n'"

lemma sr_wf_init: "sr_init n \<Longrightarrow> sr_wf n"
  by (auto simp: sr_init_def SR_initialize_def sr_wf_defs timers_once_def)

lemma sr_wf_step:
  assumes "sr_wf n" and "sr_step n n'"
  shows "sr_wf n'"
  using assms(2)
proof cases
  case (self_message m w g g')
  then show ?thesis using wp_deliver_self [OF assms(1), of m w g] by auto
next
  case (arrival w m g g')
  then show ?thesis using wp_deliver_arrival [of n w m g] assms(1) by (auto simp: sr_ready_def)
qed

interpretation srnode: invariant_system sr_init sr_step sr_wf
  by unfold_locales (fact sr_wf_init, fact sr_wf_step)

text \<open>
  C6: no event that a reachable node handles makes it misuse the simulation kernel: a timer is
  never scheduled while it is pending and no packet gets a second control object. A packet that
  waits to be sent is sent when its time comes: the assertion on its source address holds.
\<close>

theorem sr_node_safe:
  assumes "sr_init n0" and "sr_step\<^sup>*\<^sup>* n0 n"
  shows "(\<forall>m w g e. m \<in> set (scheduled n) \<longrightarrow> deliver w (SelfMessage m) n g \<noteq> Some (Inl (KernelError e))) \<and>
    (\<forall>m w g e. Timer selfInitializationMsg \<notin> set (scheduled n) \<longrightarrow>
       deliver w (Arrival m) n g \<noteq> Some (Inl (KernelError e))) \<and>
    (\<forall>p w g. Packet p \<in> set (scheduled n) \<longrightarrow>
       (\<exists>n' g'. deliver w (SelfMessage (Packet p)) n g = Some (Inr (n', g')) \<and>
          outputs g' = outputs g @ [SendDirect p] \<and> scheduled n' = remove1 (Packet p) (scheduled n)))"
proof -
  have wf: "sr_wf n" by (rule srnode.reachable_inv [OF assms])
  have own: "compareTo (myMACAddress n) (srcMACAddress p) = 0" if "Packet p \<in> set (scheduled n)" for p
    using that wf by (simp add: sr_wf_def sched_wf_def compareTo_def memcmp_0_iff)
  have "deliver w (SelfMessage m) n g \<noteq> Some (Inl (KernelError e))" if "m \<in> set (scheduled n)" for m w g e
    using wp_deliver_self [OF wf that, of w g] by auto
  moreover have "deliver w (Arrival m) n g \<noteq> Some (Inl (KernelError e))"
    if "Timer selfInitializationMsg \<notin> set (scheduled n)" for m w g e
    using wp_deliver_arrival [of n w m g] wf that by (auto simp: sr_ready_def)
  moreover have "\<exists>n' g'. deliver w (SelfMessage (Packet p)) n g = Some (Inr (n', g')) \<and>
      outputs g' = outputs g @ [SendDirect p] \<and> scheduled n' = remove1 (Packet p) (scheduled n)"
    if "Packet p \<in> set (scheduled n)" for p w g
    using own [OF that]
    by (simp add: self_dispatch sendOut_def Let_def SR_updateDisplay_def changeDisplay_def)
  ultimately show ?thesis by blast
qed

definition sr_example :: SR where
  "sr_example = fst (SR_initialize False newBloomTable newTableRARE 0 False 0 (initSRStatic (\<lambda>_. 0) []))"

lemma sr_init_example: "sr_init sr_example"
proof -
  have "om_wf (NeighborsTable newBloomTable)" "rare_wf newTableRARE"
    by (simp_all add: newBloomTable_def newTableRARE_def rare_wf_def INT_MAX_def)
  then show ?thesis unfolding sr_init_def sr_example_def by blast
qed

theorem sr_node_safe_witness:
  "\<exists>n. sr_init n \<and> Timer selfInitializationMsg \<in> set (scheduled n) \<and>
     (\<forall>w g e. deliver w (SelfMessage (Timer selfInitializationMsg)) n g \<noteq> Some (Inl (KernelError e)))"
proof -
  have "Timer selfInitializationMsg \<in> set (scheduled sr_example)" by (simp add: sr_example_def SR_initialize_def)
  with sr_node_safe [OF sr_init_example rtranclp.rtrancl_refl] sr_init_example show ?thesis
    by (intro exI [of _ sr_example]) blast
qed

text \<open>
  C20: in every reachable state a sensor has advertised itself exactly when its status is
  normal; before, its identifier is the placeholder 65535, afterwards it is at distance at least one
  from the sink; requests are only generated by nodes that joined.
\<close>

theorem sr_join_state:
  assumes "sr_init n0" and "sr_step\<^sup>*\<^sup>* n0 n" and "\<not> isSink n"
  shows "(hasSentAdvertMsg n \<longleftrightarrow> sensorStatus n = STATUS_NORMAL) \<and>
    (if hasSentAdvertMsg n then 1 \<le> getSinkDistance (myID n) else myID n = 65535) \<and>
    (Timer selfGenerateRequestMsg \<in> set (scheduled n) \<longrightarrow> hasSentAdvertMsg n)"
  using srnode.reachable_inv [OF assms(1,2)] assms(3)
  by (auto simp: sr_wf_def joined_wf_def sched_wf_def)

theorem sr_join_state_witness:
  "\<exists>n. sr_init n \<and> \<not> isSink n \<and> \<not> hasSentAdvertMsg n \<and> myID n = 65535"
proof -
  have "\<not> isSink sr_example" "sensorStatus sr_example = STATUS_DISCO"
    by (simp_all add: sr_example_def SR_initialize_def)
  with sr_join_state [OF sr_init_example rtranclp.rtrancl_refl] sr_init_example show ?thesis
    by (intro exI [of _ sr_example]) auto
qed

text \<open>
  the alert machinery is dead: no reachable node is ever in the alert state, and an alert
  packet that arrives is dropped without any effect on what is scheduled or sent.
\<close>

theorem alerts_are_dead:
  assumes "sr_init n0" and "sr_step\<^sup>*\<^sup>* n0 n" and "msgType p = MSG_ALERT"
  shows "sensorStatus n \<noteq> STATUS_ALERT \<and>
    (\<exists>n' g'. deliver w (Arrival (Packet p)) n g = Some (Inr (n', g')) \<and>
       scheduled n' = scheduled n \<and> outputs g' = outputs g \<and> sensorStatus n' = sensorStatus n)"
proof -
  have "sensorStatus n \<noteq> STATUS_ALERT"
    using srnode.reachable_inv [OF assms(1,2)] by (simp add: sr_wf_def joined_wf_def)
  then show ?thesis
    using assms(3)
    by (simp add: handleMessage_def SINK_handleMessage_def SINK_handleSRMsg_def SINK_handleNicAlertMsg_def
        handleSRMsg_def handleNicAlertMsg_def Let_def packet_consts SR_updateDisplay_def)
qed

theorem alerts_are_dead_witness:
  "sr_init sr_example \<and> msgType (broadcastAlert sr_example) = MSG_ALERT \<and> sensorStatus sr_example \<noteq> STATUS_ALERT \<and>
   (\<forall>w g. \<exists>n' g'. deliver w (Arrival (Packet (broadcastAlert sr_example))) sr_example g = Some (Inr (n', g')) \<and>
      outputs g' = outputs g)"
proof -
  have "msgType (broadcastAlert sr_example) = MSG_ALERT" by (simp add: broadcastAlert_def)
  with alerts_are_dead [OF sr_init_example rtranclp.rtrancl_refl this] sr_init_example show ?thesis by blast
qed

end
