(* ===== verification/SR_Protocol.thy ===== *)
theory SR_Protocol
  imports SR_Invariant
begin

unbundle bit_operations_syntax

text \<open>
  What the SR protocol does with requests, replies and discovery messages: duplicates are dropped,
  a message causes at most one transmission, replies travel back along the recorded path, a node
  joins one hop further from the sink than the node it heard, the slots of request generation,
  the sink's area numbers, and the network-wide count of unknown sensors.
\<close>

text \<open>Sequencing after an operation about which nothing needs to be known.\<close>

lemma wp_bindR_any: "(\<And>x. wpR Q (\<lambda>_. True) (f x)) \<Longrightarrow> wpR Q (\<lambda>_. True) (bindR r f)"
  by (cases r) simp_all

lemma wp_bindO_any:
  assumes "\<And>x. wpO Q (\<lambda>_. True) (f x)"
  shows "wpO Q (\<lambda>_. True) (bindO m f)"
proof (cases m)
  case (Some r)
  with assms show ?thesis by (cases r) simp_all
qed simp

lemmas wp_bind_any = wp_bindO_any wp_bindR_any

section \<open>Requests and replies\<close>



text \<open>
  The effect of a normal message on what is scheduled: nothing, or one packet for the same query.
\<close>

definition same_query :: "SRPacket \<Rightarrow> SRPacket \<Rightarrow> bool" where
  "same_query q p \<longleftrightarrow> msgType q = MSG_NORMAL \<and> Id q = Id p \<and> queryId q = queryId p \<and>
     myTimestamp q = myTimestamp p \<and> hopCount q = hopCount p"

definition relays :: "SRPacket \<Rightarrow> SR \<Rightarrow> SRStatic \<Rightarrow> SR \<times> SRStatic \<Rightarrow> bool" where
  "relays p n g = (\<lambda>(n', g').
     (scheduled n' = scheduled n \<and> outputs g' = outputs g) \<or>
     (\<exists>q d. scheduled n' = scheduled n @ [Packet q] \<and> outputs g' = outputs g @ [ScheduleAt d (Packet q)] \<and>
        11 \<le> d \<and> d \<le> 20 \<and> same_query q p \<and> srcMACAddress q = myMACAddress n \<and>
        controlInfo q = Some (destMACAddress q)))"

lemma relays_cong:
  "scheduled m = scheduled n \<Longrightarrow> myMACAddress m = myMACAddress n \<Longrightarrow> outputs h = outputs g \<Longrightarrow>
   relays p m h = relays p n g"
  by (simp add: relays_def)

lemma relays_same: "scheduled n' = scheduled n \<Longrightarrow> outputs g' = outputs g \<Longrightarrow> relays p n g (n', g')"
  by (simp add: relays_def)

lemma wp_schedule_relay:
  assumes "same_query q p" and "controlInfo q = None"
  shows "wpR (relays p n g) E (scheduleMsgToSendNic q 10 n g)"
proof -
  have "11 \<le> int (x mod 10 + 1 + unat (10 :: u16))" "int (x mod 10 + 1 + unat (10 :: u16)) \<le> 20" for x :: nat
    using mod_less_divisor [of 10 x] by simp_all
  with assms show ?thesis
    by (auto simp: scheduleMsgToSendNic_def Let_def relays_def same_query_def)
qed

lemma wp_forward_relay:
  "msgType p = MSG_NORMAL \<Longrightarrow> controlInfo p = None \<Longrightarrow> wpR (relays p n g) E (forward_request m p n g)"
  unfolding forward_request_def by (rule wp_schedule_relay) (simp_all add: same_query_def)

lemma wp_flood_relay:
  "msgType p = MSG_NORMAL \<Longrightarrow> controlInfo p = None \<Longrightarrow> wpR (relays p n g) E (flood_request p n g)"
  by (auto simp: flood_request_def relays_same intro: wp_forward_relay split: option.splits)

lemma wp_ask_relay:
  assumes "msgType p = MSG_NORMAL" and "controlInfo p = None"
  shows "wpO (relays p n g) (\<lambda>_. True) (ask_learning_table p n g)"
proof -
  have "relays p (n\<lparr>tr := t\<rparr>) (g\<lparr>rand := r\<rparr>) = relays p n g" for t r by (rule relays_cong) simp_all
  then show ?thesis
    unfolding ask_learning_table_def Let_def
    using assms wp_flood_relay [of p "n\<lparr>tr := _\<rparr>" "g\<lparr>rand := _\<rparr>"] wp_forward_relay [of p "n\<lparr>tr := _\<rparr>" "g\<lparr>rand := _\<rparr>"]
    by (auto intro!: wp_bind_any simp del: isUnspecified_iff)
qed

lemma wp_answer_relay:
  assumes "msgType p = MSG_NORMAL" and "currentRequestTimeStamp n = myTimestamp p"
  shows "wpR (relays p n g) E (answer_request p n g)"
proof -
  have "relays p (n\<lparr>RecordTable := r\<rparr>) g = relays p n g" for r by (rule relays_cong) simp_all
  then show ?thesis
    unfolding answer_request_def Let_def split_def
    using wp_schedule_relay [of _ p "n\<lparr>RecordTable := _\<rparr>" g] assms
    by (auto simp: same_query_def newSRPacket_def)
qed

lemma wp_request_relay:
  assumes "msgType p = MSG_NORMAL" and "controlInfo p = None"
  shows "wpO (relays p n g) (\<lambda>_. True) (handle_request p n g)"
proof -
  define n1 where "n1 = n\<lparr>currentRequestTimeStamp := myTimestamp p,
      RecordTable := om_set (Id p) (srcMACAddress p) (RecordTable n)\<rparr>"
  have c: "relays p n1 g = relays p n g" by (rule relays_cong) (simp_all add: n1_def)
  have cnt: "relays p n g (n', g'\<lparr>NBMsgSentPerRequest := k\<rparr>) = relays p n g (n', g')" for n' g' k
    by (simp add: relays_def)
  have ts: "currentRequestTimeStamp n1 = myTimestamp p" by (simp add: n1_def)
  have three: "wpO (relays p n g) (\<lambda>_. True)
      (if b1 then Some (answer_request p n1 g) else if b2 then Some (forward_request peer p n1 g)
       else ask_learning_table p n1 g)" for b1 b2 peer
    using wp_answer_relay [OF assms(1) ts, of g] wp_forward_relay [OF assms, of n1 g] wp_ask_relay [OF assms, of n1 g]
    by (simp add: c)
  show ?thesis
    unfolding handle_request_def Let_def n1_def [symmetric]
    by (rule wpO_if, simp add: relays_same, rule wp_bind_any, rule wpO_bindO, rule wpO_mono [OF three])
      (auto simp: cnt)
qed

lemma wp_reply_relay:
  assumes "msgType p = MSG_NORMAL" and "controlInfo p = None"
  shows "wpR (relays p n g) (\<lambda>_. True) (forward_reply p n g)" and "wpR (relays p n g) (\<lambda>_. True) (receive_answer p n g)"
proof -
  have c: "relays p (n\<lparr>tr := t, RecordTable := r\<rparr>) g = relays p n g" for t r by (rule relays_cong) simp_all
  have send: "wpR (relays p n g) (\<lambda>_. True) (scheduleMsgToSendNic (p\<lparr>srcMACAddress := myMACAddress n, destMACAddress := m\<rparr>)
      10 (n\<lparr>tr := t, RecordTable := r\<rparr>) g)" for m t r
    using wp_schedule_relay [of "p\<lparr>srcMACAddress := myMACAddress n, destMACAddress := m\<rparr>" p "n\<lparr>tr := t, RecordTable := r\<rparr>" g]
      assms by (simp add: c same_query_def)
  have cnt: "relays p n g (n', g'\<lparr>NBMsgSentPerRequest := k\<rparr>) = relays p n g (n', g')" for n' g' k
    by (simp add: relays_def)
  show "wpR (relays p n g) (\<lambda>_. True) (forward_reply p n g)"
    unfolding forward_reply_def Let_def split_def
    by (rule wp_bind_any, rule wpR_bindR, rule wpR_mono [OF send]) (auto simp: cnt)
  show "wpR (relays p n g) (\<lambda>_. True) (receive_answer p n g)"
    unfolding receive_answer_def Let_def by (rule wp_bind_any) (auto simp: relays_same)
qed

text \<open>
  a normal message that a sensor handles causes at most one transmission, between 11 and 20
  seconds later: of a packet from this node, for the same query, originator and timestamp, with the
  hop count one higher.
\<close>

theorem normal_message_relayed_once:
  assumes "\<not> isSink n" and "msgType p = MSG_NORMAL"
    and "deliver w (Arrival (Packet p)) n g = Some (Inr (n', g'))"
  shows "relays (p\<lparr>hopCount := hopCount p + 1\<rparr>) n g (n', g')"
proof -
  define p1 where "p1 = p\<lparr>controlInfo := None, hopCount := hopCount p + 1\<rparr>"
  define n1 g1 where "n1 = n\<lparr>numReceived := numReceived n + 1\<rparr>"
    and "g1 = g\<lparr>NBMsgRcvdPerRequest := NBMsgRcvdPerRequest g + 1\<rparr>"
  have c: "relays p1 n1 g1 = relays p1 n g" by (rule relays_cong) (simp_all add: n1_def g1_def)
  have "relays p1 n g = relays (p\<lparr>hopCount := hopCount p + 1\<rparr>) n g"
    by (simp add: relays_def same_query_def p1_def)
  moreover have "wpO (relays p1 n1 g1) (\<lambda>_. True) (handleNicNormalMsg p1 n1 g1)"
    using wp_request_relay [of p1 n1 g1] wp_reply_relay [of p1 n1 g1] assms(2)
    by (auto simp: handleNicNormalMsg_def p1_def relays_same)
  moreover have "deliver w (Arrival (Packet p)) n g = bindO (handleNicNormalMsg p1 n1 g1) (\<lambda>(n, g). Some (Inr (SR_updateDisplay n, g)))"
    using assms(1,2) by (simp add: handleMessage_def handleSRMsg_def Let_def packet_consts p1_def n1_def g1_def)
  ultimately show ?thesis
    using assms(3) c by (auto simp: bindO_Inr_iff relays_def SR_updateDisplay_def)
qed

theorem normal_message_relayed_once_witness:
  "\<forall>w g. \<exists>p n' g'. msgType p = MSG_NORMAL \<and>
     deliver w (Arrival (Packet p)) sr_example g = Some (Inr (n', g')) \<and>
     relays (p\<lparr>hopCount := hopCount p + 1\<rparr>) sr_example g (n', g') \<and> length (scheduled n') = 2"
proof (intro allI)
  fix w g
  let ?p = "(newSRPacket [])\<lparr>msgType := MSG_NORMAL, queryType := Q_REPLY, Id := 7\<rparr>"
  obtain n' g' where d: "deliver w (Arrival (Packet ?p)) sr_example g = Some (Inr (n', g'))" "length (scheduled n') = 2"
    by (simp add: handleMessage_def handleSRMsg_def handleNicNormalMsg_def forward_reply_def packet_consts
        sr_example_def SR_initialize_def newSRPacket_def scheduleMsgToSendNic_def UpdateTable_def newTableRARE_def
        uint_of_def INT_MAX_def Let_def om_index_def SR_updateDisplay_def)
  moreover have "\<not> isSink sr_example" by (simp add: sr_example_def SR_initialize_def)
  ultimately show "\<exists>p n' g'. msgType p = MSG_NORMAL \<and>
     deliver w (Arrival (Packet p)) sr_example g = Some (Inr (n', g')) \<and>
     relays (p\<lparr>hopCount := hopCount p + 1\<rparr>) sr_example g (n', g') \<and> length (scheduled n') = 2"
    using normal_message_relayed_once [OF _ _ d(1)] by (intro exI [of _ ?p]) auto
qed

section \<open>Effects on the shared counters and on the recorded paths\<close>

text \<open>
  The operations below, for what they leave alone: here a fault or a search that does not return is
  no obligation, so the only conditions are on results.
\<close>

named_theorems rule_eff \<open>what the operations of a node change\<close>

lemma eff_scheduleMsgToSendNic [rule_eff]:
  assumes "\<And>q r os. Q (n\<lparr>scheduled := scheduled n @ [Packet q]\<rparr>, g\<lparr>rand := r, outputs := os\<rparr>)"
  shows "wpR Q (\<lambda>_. True) (scheduleMsgToSendNic p d n g)"
  using assms by (simp add: scheduleMsgToSendNic_def Let_def)

lemma eff_scheduleTimer [rule_eff]:
  assumes "\<And>os. Q (n\<lparr>scheduled := scheduled n @ [Timer t]\<rparr>, g\<lparr>outputs := os\<rparr>)"
  shows "wpR Q (\<lambda>_. True) (scheduleTimer d t n g)"
  using assms by (simp add: scheduleTimer_def)

lemma eff_scheduleTime [rule_eff]:
  assumes "\<And>b ms bm lp r os. ms = [] \<or> ms = [Timer selfGenerateRequestMsg] \<Longrightarrow>
      Q (n\<lparr>iAmTheLast := b, scheduled := scheduled n @ ms\<rparr>,
         g\<lparr>generatorBitmap := bm, lastPosition := lp, rand := r, outputs := os\<rparr>)"
  shows "wpR Q (\<lambda>_. True) (scheduleTimeToGenerateRequest w n g)"
proof -
  have none: "Q (n, g\<lparr>rand := r\<rparr>)" for r
    using assms [where ms = "[]" and b = "iAmTheLast n" and bm = "generatorBitmap g" and lp = "lastPosition g"
        and r = r and os = "outputs g"] by simp
  have some: "wpR Q (\<lambda>_. True) (scheduleTimer d selfGenerateRequestMsg (if l then n\<lparr>iAmTheLast := True\<rparr> else n)
      ((if l then (g\<lparr>generatorBitmap := bm\<rparr>)\<lparr>lastPosition := lp\<rparr> else g\<lparr>generatorBitmap := bm\<rparr>)\<lparr>rand := r\<rparr>))" for d l bm lp r
    using assms [where ms = "[Timer selfGenerateRequestMsg]" and b = True and bm = bm and lp = lp and r = r]
      assms [where ms = "[Timer selfGenerateRequestMsg]" and b = "iAmTheLast n" and bm = bm and lp = "lastPosition g" and r = r]
    by (auto intro!: eff_scheduleTimer)
  show ?thesis
    unfolding scheduleTimeToGenerateRequest_def Let_def
    by (intro wpR_if wpR_assertR wp_bindR_any) (auto simp: none some split: option.splits simp del: if_split)
qed

lemma eff_get_an_ID [rule_eff]:
  assumes "\<And>i. Q (n\<lparr>iDBuilder := i, myID := i\<rparr>)"
  shows "wpO Q (\<lambda>_. True) (get_an_ID w src n)"
proof -
  have b: "wpO (\<lambda>n'. \<exists>i. n' = n\<lparr>iDBuilder := i\<rparr>) (\<lambda>_. True) (builder_setMACExt w m (n\<lparr>iDBuilder := j\<rparr>))" for m j
    unfolding builder_setMACExt_def by (rule wp_bindO_any) auto
  show ?thesis
    unfolding get_an_ID_def Let_def
    by (rule wpO_bindO, rule wpO_mono [OF b]) (auto intro!: wp_bindR_any assms simp: getID_def)
qed

lemma eff_send_advertisement [rule_eff]:
  assumes "\<And>b q ms bm lp r os. ms = [] \<or> ms = [Timer selfGenerateRequestMsg] \<Longrightarrow>
      Q (n\<lparr>hasSentAdvertMsg := True, sensorStatus := STATUS_NORMAL, iAmTheLast := b, scheduled := scheduled n @ [Packet q] @ ms\<rparr>,
         g\<lparr>numberSensorNotKnown := numberSensorNotKnown g - 1, generatorBitmap := bm, lastPosition := lp, rand := r, outputs := os\<rparr>)"
  shows "wpR Q (\<lambda>_. True) (send_advertisement w d n g)"
  unfolding send_advertisement_def
  by (rule wp_bindR_any, rule wpR_bindR, rule eff_scheduleMsgToSendNic)
    (auto intro!: eff_scheduleTime assms [where ms = "[]", simplified]
      assms [where ms = "[Timer selfGenerateRequestMsg]", simplified])

text \<open>Whether the initialisation timer has fired.\<close>

definition initialised :: "SR \<Rightarrow> bool" where
  "initialised n \<longleftrightarrow> Timer selfInitializationMsg \<notin> set (scheduled n)"

text \<open>The node keeps its role and its membership, and the shared counters of sensors their values.\<close>

definition counts_kept :: "SR \<Rightarrow> SRStatic \<Rightarrow> SR \<times> SRStatic \<Rightarrow> bool" where
  "counts_kept n g = (\<lambda>(n', g'). isSink n' = isSink n \<and> initialised n' = initialised n \<and>
     hasSentAdvertMsg n' = hasSentAdvertMsg n \<and> numberSensorNotKnown g' = numberSensorNotKnown g \<and>
     numberSensorInNetwork g' = numberSensorInNetwork g)"

text \<open>A sensor that was not yet known advertises itself.\<close>

definition joins :: "SR \<Rightarrow> SRStatic \<Rightarrow> SR \<times> SRStatic \<Rightarrow> bool" where
  "joins n g = (\<lambda>(n', g'). isSink n' = isSink n \<and> initialised n' = initialised n \<and>
     \<not> hasSentAdvertMsg n \<and> hasSentAdvertMsg n' \<and> numberSensorNotKnown g' = numberSensorNotKnown g - 1 \<and>
     numberSensorInNetwork g' = numberSensorInNetwork g)"

definition records_same :: "SR \<Rightarrow> SR \<times> SRStatic \<Rightarrow> bool" where
  "records_same n = (\<lambda>(n', g'). RecordTable n' = RecordTable n)"

lemmas eff_defs = counts_kept_def joins_def records_same_def initialised_def

lemma eff_handleNicDiscoveryMsg:
  "wpO (\<lambda>s. (counts_kept n g s \<or> joins n g s) \<and> records_same n s) (\<lambda>_. True) (handleNicDiscoveryMsg w msg n g)"
proof -
  define n1 where "n1 = n\<lparr>iDBuilder := setID (Id msg) (iDBuilder n)\<rparr>"
  define n2 where "n2 = addNeighbor_bloom (srcMACAddress msg) (Id msg) (bloom msg) n1"
  define n3 where "n3 = trace_neighbor w (Id msg) n1"
  have same: "isSink m = isSink n \<and> initialised m = initialised n \<and> hasSentAdvertMsg m = hasSentAdvertMsg n \<and>
      RecordTable m = RecordTable n" if "m = n1 \<or> m = n2 \<or> m = n3" for m
    using that by (elim disjE) (simp_all add: n1_def n2_def n3_def addNeighbor_bloom_def addNeighbor_def
        trace_neighbor_def initialised_def)
  let ?Q = "\<lambda>s. (counts_kept n g s \<or> joins n g s) \<and> records_same n s"
  have join: "wpO ?Q (\<lambda>_. True) (bindO (get_an_ID w (Id msg) m) (\<lambda>n. Some (bindR (send_advertisement w (d n) n g) (\<lambda>(n, g). Inr (f n, g)))))"
    if "m = n1 \<or> m = n2 \<or> m = n3" "\<not> hasSentAdvertMsg m" "f = (\<lambda>n. n) \<or> f = changeDisplay" for m d f
    using same [OF that(1)] that(2,3)
    by (auto intro!: wpO_bindO eff_get_an_ID wpR_bindR eff_send_advertisement simp: eff_defs changeDisplay_def Let_def)
  have id: "bindR m Inr = m" for m :: "(SR \<times> SRStatic) res" by (cases m) auto
  have keep: "?Q (m, g)" if "m = n1 \<or> m = n2 \<or> m = n3" for m
    using same [OF that] by (auto simp: eff_defs)
  have ask: "wpR ?Q (\<lambda>_. True) (bindR (GetBloomPerso (bt n2)) (\<lambda>f. bindR (area_search 16 bm p0 r0) (\<lambda>(p, r).
      bindR (scheduleMsgToSendNic (pk f) (of_nat (p * 10)) n2 (g\<lparr>areaBitmap := ab p, rand := r\<rparr>)) (\<lambda>(n, g).
      Inr (n\<lparr>firstSinkMsg := False\<rparr>, g)))))" for bm p0 r0 pk ab
    unfolding split_def
    by (rule wp_bindR_any, rule wp_bindR_any, rule wpR_bindR, rule eff_scheduleMsgToSendNic)
      (use same [of n2] in \<open>auto simp: eff_defs\<close>)
  show ?thesis
    unfolding handleNicDiscoveryMsg_def Let_def n1_def [symmetric] n2_def [symmetric] n3_def [symmetric]
    using join [of n2 "\<lambda>n. n"] join [of n3 changeDisplay "\<lambda>_. 10"] keep ask by (simp add: id)
qed

lemma eff_handleNicAlertMsg:
  "wpR (\<lambda>s. counts_kept n g s \<and> records_same n s) (\<lambda>_. True) (handleNicAlertMsg msg n g)"
  unfolding handleNicAlertMsg_def cancelEvent_def
  by (auto simp: eff_defs intro!: wpR_if eff_scheduleMsgToSendNic)

lemma counts_kept_cong:
  assumes "isSink m = isSink n" and "initialised m = initialised n" and "hasSentAdvertMsg m = hasSentAdvertMsg n"
    and "numberSensorNotKnown h = numberSensorNotKnown g" and "numberSensorInNetwork h = numberSensorInNetwork g"
  shows "counts_kept m h = counts_kept n g"
  using assms by (simp add: counts_kept_def)

lemma eff_scheduled_kept:
  assumes "counts_kept n g (m, h)"
  shows "wpR (counts_kept n g) (\<lambda>_. True) (scheduleMsgToSendNic p d m h)"
  by (rule eff_scheduleMsgToSendNic) (use assms in \<open>auto simp: eff_defs\<close>)

lemma eff_handleNicNormalMsg: "wpO (counts_kept n g) (\<lambda>_. True) (handleNicNormalMsg msg n g)"
proof -
  have sent: "counts_kept n g (m, h\<lparr>NBMsgSentPerRequest := k\<rparr>) = counts_kept n g (m, h)" for m h k
    by (simp add: counts_kept_def)
  have forward: "wpR (counts_kept n g) (\<lambda>_. True) (forward_request peer msg m h)" if "counts_kept n g (m, h)" for m h peer
    unfolding forward_request_def by (rule eff_scheduled_kept [OF that])
  have flood: "wpR (counts_kept n g) (\<lambda>_. True) (flood_request msg m h)" if "counts_kept n g (m, h)" for m h
    using forward [OF that] that by (auto simp: flood_request_def split: option.splits)
  have ask: "wpO (counts_kept n g) (\<lambda>_. True) (ask_learning_table msg m h)" if "counts_kept n g (m, h)" for m h
  proof -
    have "counts_kept n g (m\<lparr>tr := t\<rparr>, h\<lparr>rand := r\<rparr>)" for t r using that by (simp add: eff_defs)
    then show ?thesis
      unfolding ask_learning_table_def Let_def split_def
      by (intro wp_bindO_any) (auto intro: flood forward)
  qed
  have answer: "wpR (counts_kept n g) (\<lambda>_. True) (answer_request msg m h)" if "counts_kept n g (m, h)" for m h
    unfolding answer_request_def Let_def split_def
    by (rule eff_scheduled_kept) (use that in \<open>simp add: eff_defs\<close>)
  have request: "wpO (counts_kept n g) (\<lambda>_. True) (handle_request msg n g)"
  proof -
    define n1 where "n1 = n\<lparr>currentRequestTimeStamp := myTimestamp msg,
        RecordTable := om_set (Id msg) (srcMACAddress msg) (RecordTable n)\<rparr>"
    have kept: "counts_kept n g (n1, g)" "counts_kept n g (n, g)" by (simp_all add: n1_def eff_defs)
    have three: "wpO (counts_kept n g) (\<lambda>_. True)
        (if b1 then Some (answer_request msg n1 g) else if b2 then Some (forward_request peer msg n1 g)
         else ask_learning_table msg n1 g)" for b1 b2 peer
      using answer [OF kept(1)] forward [OF kept(1)] ask [OF kept(1)] by simp
    show ?thesis
      unfolding handle_request_def Let_def n1_def [symmetric]
      by (rule wpO_if, simp add: kept, rule wp_bindO_any, rule wpO_bindO, rule wpO_mono [OF three]) (auto simp: sent)
  qed
  have reply: "wpR (counts_kept n g) (\<lambda>_. True) (forward_reply msg n g)"
    unfolding forward_reply_def Let_def split_def
    by (rule wp_bindR_any, rule wpR_bindR, rule wpR_mono [OF eff_scheduled_kept]) (auto simp: sent, simp add: eff_defs)
  have "wpR (counts_kept n g) (\<lambda>_. True) (receive_answer msg n g)"
    unfolding receive_answer_def Let_def by (rule wp_bindR_any) (simp add: eff_defs)
  with request reply show ?thesis
    by (simp add: handleNicNormalMsg_def) (simp add: eff_defs)
qed

abbreviation quiet :: "SR \<Rightarrow> SRStatic \<Rightarrow> SR \<times> SRStatic \<Rightarrow> bool" where
  "quiet n g s \<equiv> counts_kept n g s \<and> records_same n s"

lemma eff_generaterRandomRequest: "wpO (quiet n g) (\<lambda>_. True) (generaterRandomRequest w n g)"
proof -
  define n1 where "n1 = n\<lparr>currentRequestTimeStamp := word_of_int (simRaw w) mod LIVETIME n\<rparr>"
  define g1 where "g1 = g\<lparr>iCanSendRequest := False\<rparr>"
  have n1: "quiet n g (n1, g1)" by (simp add: n1_def g1_def eff_defs)
  have choose: "wpO (\<lambda>(peer, s). quiet n g s) (\<lambda>_. True) (if isUnspecified peer
      then bindO (LearningPeerSelection q (tr n1) (rand g1)) (\<lambda>(peer, t, r).
             Some (Inr (if isUnspecified peer then BROADCAST_ADDRESS else peer, n1\<lparr>tr := t\<rparr>, g1\<lparr>rand := r\<rparr>)))
      else Some (Inr (peer, n1, g1)))" for peer q
    using n1 by (auto intro!: wp_bindO_any simp: eff_defs)
  have send: "wpR (quiet n g) (\<lambda>_. True) (assertR b (bindR (scheduleMsgToSendNic p 5 n2 g2) (\<lambda>(n, g).
      scheduleTimer (uint (LIVETIME n)) selfGenerateRequestMsg n
        (g\<lparr>s_hopCountPerRequest := 0, NBMsgSentPerRequest := 0, NBMsgRcvdPerRequest := 0\<rparr>))))"
    if "quiet n g (n2, g2)" for b p n2 g2
    using that by (auto intro!: wpR_assertR wpR_bindR rule_eff simp: eff_defs)
  show ?thesis
    unfolding generaterRandomRequest_def Let_def n1_def [symmetric] g1_def [symmetric]
    by (rule wpO_if, simp, rule wp_bindO_any, rule wpO_bindO, rule wpO_mono [OF choose])
      (auto intro!: send)
qed

lemma eff_SINK_updateStats:
  assumes "quiet n g (m, h)"
  shows "wpR (quiet n g) (\<lambda>_. True) (SINK_updateStats w m h)"
  unfolding SINK_updateStats_def Let_def
  by (rule wpR_bindR, rule eff_scheduleTimer) (use assms in \<open>simp add: eff_defs SR_updateDisplay_def\<close>)

lemma eff_SINK_selfInitialization: "wpO (quiet n g) (\<lambda>_. True) (SINK_selfInitialization w n g)"
proof -
  have b: "wpO (\<lambda>n'. \<exists>i. n' = m\<lparr>iDBuilder := i\<rparr>) (\<lambda>_. True) (builder_setMACExt w a m)" for a m
    unfolding builder_setMACExt_def by (rule wp_bindO_any) auto
  show ?thesis
  proof (cases "my_ie w")
    case (Some ie)
    obtain m l where "ie = (m, l)" by (cases ie)
    with Some show ?thesis
      unfolding SINK_selfInitialization_def Let_def
      by (simp only: option.case prod.case)
        (rule wpO_if, simp, rule wp_bindO_any, rule wpO_bindO, rule wpO_mono [OF b], rule wpO_Some,
          rule wp_bindR_any, rule wp_bindR_any, rule wp_bindR_any, rule wpR_bindR, rule eff_scheduleMsgToSendNic,
          clarsimp, rule eff_SINK_updateStats, simp add: eff_defs)
  qed (simp add: SINK_selfInitialization_def)
qed

lemma eff_SINK_handleSRMsg: "wpO (counts_kept n g) (\<lambda>_. True) (SINK_handleSRMsg msg n g)"
proof -
  have disco: "wpR (counts_kept n g) (\<lambda>_. True) (SINK_handleNicDiscoveryMsg m n g)" for m
    unfolding SINK_handleNicDiscoveryMsg_def Let_def
    by (rule wpR_if, rule wp_bindR_any, rule eff_scheduled_kept)
      (simp_all add: eff_defs addNeighbor_bloom_def addNeighbor_def)
  show ?thesis
    unfolding SINK_handleSRMsg_def Let_def SINK_handleNicAlertMsg_def SINK_handleNicNormalMsg_def
    using disco eff_handleNicNormalMsg [of n g] by (simp add: eff_defs)
qed

section \<open>Counting the sensors of a network\<close>

text \<open>A sensor's initialisation adds it to both counters.\<close>

definition initialises :: "SR \<Rightarrow> SRStatic \<Rightarrow> SR \<times> SRStatic \<Rightarrow> bool" where
  "initialises n g = (\<lambda>(n', g'). isSink n' = isSink n \<and> \<not> initialised n \<and> initialised n' \<and>
     hasSentAdvertMsg n' = hasSentAdvertMsg n \<and> numberSensorNotKnown g' = numberSensorNotKnown g + 1 \<and>
     numberSensorInNetwork g' = numberSensorInNetwork g + 1)"

definition event_effect :: "SR \<Rightarrow> SRStatic \<Rightarrow> SR \<times> SRStatic \<Rightarrow> bool" where
  "event_effect n g s \<longleftrightarrow> (if isSink n
     then isSink (fst s) \<and> numberSensorNotKnown (snd s) = numberSensorNotKnown g \<and>
          numberSensorInNetwork (snd s) = numberSensorInNetwork g
     else counts_kept n g s \<or> joins n g s \<or> initialises n g s)"

lemma event_effectI: "counts_kept n g s \<Longrightarrow> event_effect n g s"
  by (auto simp: event_effect_def counts_kept_def split: prod.splits)

lemma effect_display: "event_effect n g (SR_updateDisplay n', g') = event_effect n g (n', g')"
  by (simp add: event_effect_def initialises_def eff_defs SR_updateDisplay_def)

lemma eff_arrival: "wpO (event_effect n g) (\<lambda>_. True) (deliver w (Arrival m) n g)"
proof (cases "isSink n")
  case True
  have "wpO (event_effect n g) (\<lambda>_. True) (SINK_handleSRMsg p n g)" for p
    by (rule wpO_mono [OF eff_SINK_handleSRMsg event_effectI])
  with True show ?thesis
    by (cases m) (auto simp: handleMessage_def SINK_handleMessage_def event_effectI counts_kept_def)
next
  case False
  define n1 where "n1 = n\<lparr>numReceived := numReceived n + 1\<rparr>"
  have eq: "event_effect n1 h = event_effect n g" if "numberSensorNotKnown h = numberSensorNotKnown g"
      "numberSensorInNetwork h = numberSensorInNetwork g" for h
    using that by (simp add: fun_eq_iff n1_def event_effect_def initialises_def eff_defs)
  have disco: "wpO (event_effect n g) (\<lambda>_. True) (handleNicDiscoveryMsg w p n1 g)" for p
    by (rule wpO_mono [OF eff_handleNicDiscoveryMsg])
      (use eq [of g] False in \<open>auto simp: event_effect_def fun_eq_iff n1_def\<close>)
  have alert: "wpR (event_effect n g) (\<lambda>_. True) (handleNicAlertMsg p n1 g)" for p
    by (rule wpR_mono [OF eff_handleNicAlertMsg]) (use eq [of g] event_effectI [of n1 g] in auto)
  have normal: "wpO (event_effect n g) (\<lambda>_. True) (handleNicNormalMsg p n1 (g\<lparr>NBMsgRcvdPerRequest := k\<rparr>))" for p k
    by (rule wpO_mono [OF eff_handleNicNormalMsg])
      (use eq [of "g\<lparr>NBMsgRcvdPerRequest := k\<rparr>"] event_effectI [of n1 "g\<lparr>NBMsgRcvdPerRequest := k\<rparr>"] in auto)
  have "wpO (event_effect n g) (\<lambda>_. True) (handleSRMsg w p n g)" for p
    unfolding handleSRMsg_def Let_def n1_def [symmetric]
    by (rule wpO_bindO, rule wpO_mono [of "event_effect n g"])
      (auto simp: disco alert normal effect_display event_effectI counts_kept_def)
  with False show ?thesis
    by (cases m) (auto simp: handleMessage_def event_effectI counts_kept_def)
qed

lemma eff_self:
  assumes "sr_wf n" and "m \<in> set (scheduled n)"
  shows "wpO (event_effect n g) (\<lambda>_. True) (deliver w (SelfMessage m) n g)"
proof -
  let ?n = "n\<lparr>scheduled := remove1 m (scheduled n)\<rparr>"
  have once: "timers_once (scheduled n)" using assms(1) by (simp add: sr_wf_def sched_wf_def)
  show ?thesis
  proof (cases "m = Timer selfInitializationMsg")
    case True
    have init: "\<not> initialised n" "initialised ?n"
      using assms(2) timers_once_removed [OF once] by (simp_all add: True initialised_def)
    have "wpR (initialises n g) (\<lambda>_. True) (sensor_selfInitialization w ?n g)"
      unfolding sensor_selfInitialization_def
      by (auto intro!: wpR_assertR wp_bindR_any split: option.splits)
        (use init in \<open>simp add: initialises_def initialised_def\<close>)
    then have "wpR (event_effect n g) (\<lambda>_. True) (sensor_selfInitialization w ?n g)" if "\<not> isSink n"
      by (rule wpR_mono) (use that in \<open>simp add: event_effect_def\<close>)
    moreover have "wpO (event_effect n g) (\<lambda>_. True) (SINK_selfInitialization w ?n g)" if "isSink n"
      by (rule wpO_mono [OF eff_SINK_selfInitialization]) (use that in \<open>auto simp: event_effect_def eff_defs\<close>)
    ultimately show ?thesis by (simp add: True self_dispatch)
  next
    case False
    have same: "counts_kept ?n g = counts_kept n g"
      by (rule counts_kept_cong) (use False in \<open>simp_all add: initialised_def\<close>)
    have idle: "counts_kept n g (?n, g)" by (simp add: same [symmetric]) (simp add: counts_kept_def)
    have gen: "wpO (counts_kept n g) (\<lambda>_. True) (generaterRandomRequest w ?n g)"
      by (rule wpO_mono [OF eff_generaterRandomRequest]) (simp add: same)
    have stats: "wpR (counts_kept n g) (\<lambda>_. True) (SINK_updateStats w ?n g)"
      by (rule wpR_mono [OF eff_SINK_updateStats [of ?n g]]) (simp add: eff_defs, simp add: same)
    have "wpO (counts_kept n g) (\<lambda>_. True) (deliver w (SelfMessage m) n g)"
    proof (cases m)
      case (Timer t)
      then show ?thesis
        using gen stats idle False
        by (cases t) (auto simp: self_dispatch handleInternalAlertMsg_def isAlertAllowed_def handleFalseAlertMsg_def counts_kept_def initialised_def)
    next
      case (Packet p)
      then show ?thesis
        using idle by (auto simp: self_dispatch Let_def intro!: wpR_assertR wpR_bindR
            simp: sendOut_def counts_kept_def initialised_def changeDisplay_def SR_updateDisplay_def)
    qed (use idle in \<open>simp add: self_dispatch\<close>)
    then show ?thesis by (rule wpO_mono) (rule event_effectI)
  qed
qed

text \<open>
  A network of \<open>N\<close> nodes that share the static members: any node may handle one of its own messages,
  and a packet may arrive at any initialised node.
\<close>

type_synonym net = "(nat \<Rightarrow> SR) \<times> SRStatic"

definition net_init :: "nat \<Rightarrow> net \<Rightarrow> bool" where
  "net_init N s \<longleftrightarrow> (\<forall>i < N. sr_init (fst s i)) \<and>
     numberSensorNotKnown (snd s) = 0 \<and> numberSensorInNetwork (snd s) = 0"

inductive net_step :: "nat \<Rightarrow> net \<Rightarrow> net \<Rightarrow> bool" for N where
  net_self: "i < N \<Longrightarrow> m \<in> set (scheduled (ns i)) \<Longrightarrow>
     deliver w (SelfMessage m) (ns i) g = Some (Inr (n', g')) \<Longrightarrow> net_step N (ns, g) (ns(i := n'), g')"
| net_arrival: "i < N \<Longrightarrow> initialised (ns i) \<Longrightarrow>
     deliver w (Arrival m) (ns i) g = Some (Inr (n', g')) \<Longrightarrow> net_step N (ns, g) (ns(i := n'), g')"

definition tally :: "nat \<Rightarrow> (SR \<Rightarrow> bool) \<Rightarrow> (nat \<Rightarrow> SR) \<Rightarrow> u16" where
  "tally N P ns = (\<Sum>i<N. of_bool (P (ns i)))"

definition known :: "SR \<Rightarrow> bool" where
  "known n \<longleftrightarrow> \<not> isSink n \<and> hasSentAdvertMsg n"

definition present :: "SR \<Rightarrow> bool" where
  "present n \<longleftrightarrow> \<not> isSink n \<and> initialised n"

definition net_wf :: "nat \<Rightarrow> net \<Rightarrow> bool" where
  "net_wf N = (\<lambda>(ns, g). (\<forall>i < N. sr_wf (ns i)) \<and> numberSensorInNetwork g = tally N present ns \<and>
     numberSensorNotKnown g + tally N known ns = tally N present ns)"

lemma tally_update:
  assumes "i < N"
  shows "tally N P (ns(i := n')) = tally N P ns - of_bool (P (ns i)) + of_bool (P n')"
proof -
  have "tally N P (ns(i := n')) = of_bool (P n') + (\<Sum>j\<in>{..<N} - {i}. of_bool (P ((ns(i := n')) j)))"
    unfolding tally_def using assms by (subst sum.remove [of _ i]) auto
  also have "(\<Sum>j\<in>{..<N} - {i}. of_bool (P ((ns(i := n')) j))) = (\<Sum>j\<in>{..<N} - {i}. of_bool (P (ns j)) :: u16)"
    by (rule sum.cong) auto
  also have "\<dots> = tally N P ns - of_bool (P (ns i))"
    unfolding tally_def using assms by (subst sum.remove [of _ i "\<lambda>j. of_bool (P (ns j))"]) auto
  finally show ?thesis by (simp only: add.commute)
qed

lemma net_wf_effect:
  assumes "net_wf N (ns, g)" and "i < N" and "event_effect (ns i) g (n', g')" and "sr_wf n'"
  shows "net_wf N (ns(i := n'), g')"
proof -
  have "numberSensorInNetwork g' = numberSensorInNetwork g - of_bool (present (ns i)) + of_bool (present n')"
    and "numberSensorNotKnown g' + of_bool (known n') - of_bool (present n') =
      numberSensorNotKnown g + of_bool (known (ns i)) - of_bool (present (ns i))"
    using assms(3) by (auto simp: event_effect_def eff_defs initialises_def present_def known_def split: if_splits)
  moreover have "A' + (K - k + k') = P - p + p'" if "A' + k' - p' = A + k - p" "A + K = P" for A' A K k k' P p p' :: u16
  proof -
    have "A' + (K - k + k') = (A' + k' - p') + p' + K - k" by (simp add: algebra_simps)
    also have "\<dots> = (A + K) - p + p'" unfolding that(1) by (simp add: algebra_simps)
    finally show ?thesis unfolding that(2) .
  qed
  ultimately show ?thesis
    using assms by (auto simp only: net_wf_def tally_update [OF assms(2)] prod.case fun_upd_apply split: if_splits)
qed

lemma net_wf_step:
  assumes "net_wf N s" and "net_step N s s'"
  shows "net_wf N s'"
  using assms(2)
proof cases
  case (net_self i m ns w g n' g')
  have wf: "sr_wf (ns i)" using assms(1) net_self by (simp add: net_wf_def)
  have "sr_wf n'" using wp_deliver_self [OF wf, of m w g] net_self by auto
  moreover have "event_effect (ns i) g (n', g')" using eff_self [OF wf, of m g w] net_self by auto
  ultimately show ?thesis using net_wf_effect assms(1) net_self by blast
next
  case (net_arrival i ns w m g n' g')
  have wf: "sr_ready (ns i)" using assms(1) net_arrival by (simp add: net_wf_def sr_ready_def initialised_def)
  have "sr_wf n'" using wp_deliver_arrival [OF wf, of w m g] net_arrival by (auto simp: sr_ready_def)
  moreover have "event_effect (ns i) g (n', g')" using eff_arrival [of "ns i" g w m] net_arrival by auto
  ultimately show ?thesis using net_wf_effect assms(1) net_arrival by blast
qed

lemma net_wf_init: "net_init N s \<Longrightarrow> net_wf N s"
proof -
  assume init: "net_init N s"
  have none: "\<not> present (fst s i)" "\<not> known (fst s i)" if "i < N" for i
    using init that by (auto simp: net_init_def sr_init_def SR_initialize_def present_def known_def initialised_def)
  have "tally N present (fst s) = 0" "tally N known (fst s) = 0"
    using none by (auto simp: tally_def intro!: sum.neutral)
  with init sr_wf_init show ?thesis by (auto simp: net_wf_def net_init_def split: prod.splits)
qed

interpretation network: invariant_system "net_init N" "net_step N" "net_wf N" for N
  by unfold_locales (fact net_wf_init, fact net_wf_step)

lemma tally_card: "tally N P ns = of_nat (card {i. i < N \<and> P (ns i)})"
  by (simp add: tally_def Int_def conj_commute flip: of_nat_sum)

text \<open>
  C23: in every reachable state of a network with fewer than 65536 nodes, the shared counter
  of sensors is the number of initialised sensors, and the shared counter of unknown sensors is
  exactly the number of those that have not yet advertised themselves.
\<close>

theorem unknown_sensors_counted:
  assumes "net_init N s0" and "(net_step N)\<^sup>*\<^sup>* s0 (ns, g)" and "N < 65536"
  shows "unat (numberSensorInNetwork g) = card {i. i < N \<and> \<not> isSink (ns i) \<and> initialised (ns i)} \<and>
    unat (numberSensorNotKnown g) =
      card {i. i < N \<and> \<not> isSink (ns i) \<and> initialised (ns i) \<and> \<not> hasSentAdvertMsg (ns i)}"
proof -
  let ?in = "{i. i < N \<and> present (ns i)}" and ?kn = "{i. i < N \<and> known (ns i)}"
  have wf: "net_wf N (ns, g)" by (rule network.reachable_inv [OF assms(1,2)])
  then have count: "numberSensorInNetwork g = of_nat (card ?in)"
    "numberSensorNotKnown g + of_nat (card ?kn) = of_nat (card ?in)"
    by (simp_all add: net_wf_def tally_card)
  have sub: "?kn \<subseteq> ?in"
    using wf by (auto simp: net_wf_def known_def present_def sr_wf_def sched_wf_def initialised_def)
  have "{i. i < N \<and> \<not> isSink (ns i) \<and> initialised (ns i) \<and> \<not> hasSentAdvertMsg (ns i)} = ?in - ?kn"
    by (auto simp: known_def present_def)
  then have diff: "card {i. i < N \<and> \<not> isSink (ns i) \<and> initialised (ns i) \<and> \<not> hasSentAdvertMsg (ns i)} =
      card ?in - card ?kn"
    using sub by (simp add: card_Diff_subset finite_subset [OF sub])
  have le: "card ?kn \<le> card ?in" "card ?in \<le> N"
    using card_mono [OF _ sub] card_mono [of "{..<N}" ?in] by auto
  have "numberSensorNotKnown g = of_nat (card ?in) - of_nat (card ?kn)"
    using count(2) by (metis add_diff_cancel_right')
  then have nk: "numberSensorNotKnown g = of_nat (card ?in - card ?kn)"
    using le(1) by (simp add: of_nat_diff)
  have u: "unat (of_nat k :: u16) = k" if "k < 65536" for k
    using that by (simp add: unsigned_of_nat take_bit_nat_eq_self)
  have "unat (numberSensorNotKnown g) = card ?in - card ?kn" unfolding nk
    by (rule u) (use le assms(3) in linarith)
  moreover have "unat (numberSensorInNetwork g) = card ?in" unfolding count(1)
    by (rule u) (use le assms(3) in linarith)
  ultimately show ?thesis by (simp add: diff present_def)
qed

theorem unknown_sensors_counted_witness:
  "\<exists>g. net_init 3 (\<lambda>_. sr_example, g) \<and> unat (numberSensorNotKnown g) = 0"
proof -
  let ?g = "initSRStatic (\<lambda>_. 0) []"
  have init: "net_init 3 (\<lambda>_. sr_example, ?g)"
    using sr_init_example by (simp add: net_init_def initSRStatic_def)
  have "\<not> initialised sr_example" by (simp add: initialised_def sr_example_def SR_initialize_def)
  with unknown_sensors_counted [OF init rtranclp.rtrancl_refl] have "unat (numberSensorNotKnown ?g) = 0" by simp
  with init show ?thesis by blast
qed

end
