(* ===== verification/SR_Routes.thy ===== *)
theory SR_Routes
  imports SR_Protocol
begin

unbundle bit_operations_syntax

text \<open>
  Paths and identifiers of the SR protocol: replies travel back along the recorded path, a node takes
  an identifier one hop further from the sink, the time slots of request generation, and the
  sink's area numbers.
\<close>

section \<open>The recorded path\<close>

text \<open>Entries of the record table are never lost, except that a new request replaces its own.\<close>

definition rec_ext :: "SR \<Rightarrow> SR \<times> SRStatic \<Rightarrow> bool" where
  "rec_ext n = (\<lambda>(n', g'). \<forall>i m. om_find (RecordTable n) i = Some m \<longrightarrow> om_find (RecordTable n') i = Some m)"

lemma rec_ext_same: "RecordTable n' = RecordTable n \<Longrightarrow> rec_ext n (n', g')"
  by (simp add: rec_ext_def)

lemma rec_ext_index: "RecordTable n' = snd (om_index d k (RecordTable n)) \<Longrightarrow> rec_ext n (n', g')"
  by (auto simp: rec_ext_def om_index_def om_find_set split: option.splits)

lemma rec_answer_request: "wpR (rec_ext n) (\<lambda>_. True) (answer_request msg n g)"
  unfolding answer_request_def Let_def split_def
  by (rule eff_scheduleMsgToSendNic) (auto simp: rec_ext_same rec_ext_index)

lemma rec_forward_request: "wpR (rec_ext n) (\<lambda>_. True) (forward_request peer msg n g)"
  unfolding forward_request_def by (rule eff_scheduleMsgToSendNic) (simp add: rec_ext_same)

lemma rec_ask_learning_table: "wpO (rec_ext n) (\<lambda>_. True) (ask_learning_table msg n g)"
proof -
  have "rec_ext (n\<lparr>tr := t\<rparr>) = rec_ext n" for t by (simp add: rec_ext_def)
  then have "wpR (rec_ext n) (\<lambda>_. True) (forward_request peer msg (n\<lparr>tr := t\<rparr>) h)" for peer t h
    using rec_forward_request [of "n\<lparr>tr := t\<rparr>"] by simp
  then show ?thesis
    unfolding ask_learning_table_def Let_def split_def
    by (intro wp_bindO_any) (auto simp: flood_request_def rec_ext_same split: option.splits)
qed

lemma rec_handle_request:
  assumes "myTimestamp msg \<noteq> currentRequestTimeStamp n"
  shows "wpO (rec_ext (n\<lparr>RecordTable := om_set (Id msg) (srcMACAddress msg) (RecordTable n)\<rparr>)) (\<lambda>_. True)
    (handle_request msg n g)"
proof -
  define n1 where "n1 = n\<lparr>currentRequestTimeStamp := myTimestamp msg,
      RecordTable := om_set (Id msg) (srcMACAddress msg) (RecordTable n)\<rparr>"
  have n1: "rec_ext (n\<lparr>RecordTable := om_set (Id msg) (srcMACAddress msg) (RecordTable n)\<rparr>) = rec_ext n1"
    by (simp add: rec_ext_def n1_def)
  have sent: "rec_ext n1 (m, h\<lparr>NBMsgSentPerRequest := k\<rparr>) = rec_ext n1 (m, h)" for m h k
    by (simp add: rec_ext_def)
  have three: "wpO (rec_ext n1) (\<lambda>_. True)
      (if b1 then Some (answer_request msg n1 g) else if b2 then Some (forward_request peer msg n1 g)
       else ask_learning_table msg n1 g)" for b1 b2 peer
    using rec_answer_request rec_forward_request rec_ask_learning_table by simp
  show ?thesis
    unfolding handle_request_def Let_def n1_def [symmetric] n1
    by (rule wpO_if, use assms in simp, rule wp_bindO_any, rule wpO_bindO, rule wpO_mono [OF three]) (auto simp: sent)
qed

lemma rec_forward_reply: "wpR (rec_ext n) (\<lambda>_. True) (forward_reply msg n g)"
  unfolding forward_reply_def Let_def split_def
  by (rule wp_bindR_any, rule wpR_bindR, rule eff_scheduleMsgToSendNic) (simp add: rec_ext_index)

lemma rec_receive_answer: "wpR (rec_ext n) (\<lambda>_. True) (receive_answer msg n g)"
  unfolding receive_answer_def Let_def by (rule wp_bindR_any) (simp add: rec_ext_same)

text \<open>An event that is no request of originator \<open>i\<close>, and a node's steps of that kind.\<close>

fun other_event :: "u16 \<Rightarrow> srevent \<Rightarrow> bool" where
  "other_event i (Arrival (Packet p)) \<longleftrightarrow> \<not> (msgType p = MSG_NORMAL \<and> queryType p = Q_REQUEST \<and> Id p = i)"
| "other_event i _ \<longleftrightarrow> True"

definition other_step :: "u16 \<Rightarrow> SR \<Rightarrow> SR \<Rightarrow> bool" where
  "other_step i n n' \<longleftrightarrow> (\<exists>w e g g'. other_event i e \<and> deliver w e n g = Some (Inr (n', g')))"

definition keeps_record :: "u16 \<Rightarrow> SR \<Rightarrow> SR \<times> SRStatic \<Rightarrow> bool" where
  "keeps_record i n = (\<lambda>(n', g'). \<forall>m. om_find (RecordTable n) i = Some m \<longrightarrow> om_find (RecordTable n') i = Some m)"

lemma keeps_recordI: "rec_ext n s \<Longrightarrow> keeps_record i n s"
  by (auto simp: keeps_record_def rec_ext_def)

lemma keeps_record_same: "records_same n s \<Longrightarrow> keeps_record i n s"
  by (auto simp: keeps_record_def records_same_def)

lemma rec_normal:
  assumes "\<not> (queryType msg = Q_REQUEST \<and> Id msg = i)"
  shows "wpO (keeps_record i n) (\<lambda>_. True) (handleNicNormalMsg msg n g)"
proof -
  have same: "keeps_record i n (n, g)" by (simp add: keeps_record_def)
  have "wpO (keeps_record i n) (\<lambda>_. True) (handle_request msg n g)" if "queryType msg = Q_REQUEST"
  proof (cases "myTimestamp msg = currentRequestTimeStamp n")
    case True then show ?thesis using same by (simp add: handle_request_def)
  next
    case False
    show ?thesis
      by (rule wpO_mono [OF rec_handle_request [OF False]])
        (use that assms in \<open>auto simp: rec_ext_def keeps_record_def om_find_set\<close>)
  qed
  moreover have "wpR (keeps_record i n) (\<lambda>_. True) (forward_reply msg n g)"
    by (rule wpR_mono [OF rec_forward_reply keeps_recordI])
  moreover have "wpR (keeps_record i n) (\<lambda>_. True) (receive_answer msg n g)"
    by (rule wpR_mono [OF rec_receive_answer keeps_recordI])
  ultimately show ?thesis using same by (simp add: handleNicNormalMsg_def)
qed

lemma rec_deliver_arrival:
  assumes "other_event i (Arrival m)"
  shows "wpO (keeps_record i n) (\<lambda>_. True) (deliver w (Arrival m) n g)"
proof -
  have same: "keeps_record i n (n', g')" if "RecordTable n' = RecordTable n" for n' g'
    using that by (simp add: keeps_record_def)
  have eq: "keeps_record i (n\<lparr>numReceived := k\<rparr>) = keeps_record i n" for k by (simp add: keeps_record_def)
  have display: "keeps_record i n (SR_updateDisplay n', g') = keeps_record i n (n', g')" for n' g'
    by (simp add: keeps_record_def SR_updateDisplay_def)
  have disco: "wpO (keeps_record i n) (\<lambda>_. True) (handleNicDiscoveryMsg w p (n\<lparr>numReceived := k\<rparr>) g)" for p k
    by (rule wpO_mono [OF eff_handleNicDiscoveryMsg]) (auto simp: records_same_def keeps_record_def)
  have alert: "wpR (keeps_record i n) (\<lambda>_. True) (handleNicAlertMsg p (n\<lparr>numReceived := k\<rparr>) g)" for p k
    by (rule wpR_mono [OF eff_handleNicAlertMsg]) (auto simp: records_same_def keeps_record_def)
  have sink: "wpR (keeps_record i n) (\<lambda>_. True) (SINK_handleNicDiscoveryMsg p n g)" for p
    unfolding SINK_handleNicDiscoveryMsg_def Let_def
    by (rule wpR_if, rule wp_bindR_any, rule eff_scheduleMsgToSendNic)
      (simp_all add: same addNeighbor_bloom_def addNeighbor_def)
  show ?thesis
  proof (cases m)
    case (Packet p)
    have "wpO (keeps_record i n) (\<lambda>_. True)
        (handleNicNormalMsg (p\<lparr>controlInfo := None, hopCount := c\<rparr>) (n\<lparr>numReceived := k\<rparr>) h)"
      if "msgType p = MSG_NORMAL" for c k h
      using rec_normal [of "p\<lparr>controlInfo := None, hopCount := c\<rparr>" i "n\<lparr>numReceived := k\<rparr>" h] assms that
      by (simp add: Packet eq)
    moreover have "wpO (keeps_record i n) (\<lambda>_. True) (handleNicNormalMsg (p\<lparr>controlInfo := None\<rparr>) n g)"
      if "msgType p = MSG_NORMAL"
      using rec_normal [of "p\<lparr>controlInfo := None\<rparr>" i n g] assms that by (simp add: Packet)
    moreover have "wpO (keeps_record i n) (\<lambda>_. True) (bindO x (\<lambda>(n, g). Some (Inr (SR_updateDisplay n, g))))"
      if "wpO (keeps_record i n) (\<lambda>_. True) x" for x
      by (rule wpO_bindO, rule wpO_mono [OF that]) (auto simp: display)
    ultimately show ?thesis
      using disco alert sink
      by (auto simp: Packet handleMessage_def SINK_handleMessage_def SINK_handleSRMsg_def SINK_handleNicAlertMsg_def
          SINK_handleNicNormalMsg_def handleSRMsg_def Let_def same display)
  qed (simp_all add: handleMessage_def SINK_handleMessage_def same)
qed

lemma rec_deliver_self: "wpO (keeps_record i n) (\<lambda>_. True) (deliver w (SelfMessage m) n g)"
proof -
  let ?n = "n\<lparr>scheduled := remove1 m (scheduled n)\<rparr>"
  have same: "keeps_record i n (n', g')" if "RecordTable n' = RecordTable n" for n' g'
    using that by (simp add: keeps_record_def)
  have quiet: "keeps_record i n s" if "quiet ?n g s" for s
    using that by (auto simp: keeps_record_def records_same_def)
  have "wpO (keeps_record i n) (\<lambda>_. True) (generaterRandomRequest w ?n g)"
    by (rule wpO_mono [OF eff_generaterRandomRequest quiet])
  moreover have "wpO (keeps_record i n) (\<lambda>_. True) (SINK_selfInitialization w ?n g)"
    by (rule wpO_mono [OF eff_SINK_selfInitialization quiet])
  moreover have "wpR (keeps_record i n) (\<lambda>_. True) (SINK_updateStats w ?n g)"
    by (rule wpR_mono [OF eff_SINK_updateStats [of ?n g ?n g] quiet]) (simp_all add: eff_defs)
  moreover have "wpR (keeps_record i n) (\<lambda>_. True) (sensor_selfInitialization w ?n g)"
    unfolding sensor_selfInitialization_def
    by (auto intro!: wpR_assertR wp_bindR_any same split: option.splits)
  moreover have "wpR (keeps_record i n) (\<lambda>_. True) (handleInternalAlertMsg ?n g)"
    by (simp add: handleInternalAlertMsg_def isAlertAllowed_def same)
  ultimately show ?thesis
    by (auto simp: self_dispatch sendOut_def Let_def same handleFalseAlertMsg_def SR_updateDisplay_def changeDisplay_def
        intro!: wpR_assertR wpR_bindR split: srmsg.splits timer.splits)
qed

lemma other_steps_keep_record:
  "(other_step i)\<^sup>*\<^sup>* n n' \<Longrightarrow> om_find (RecordTable n) i = Some m \<Longrightarrow> om_find (RecordTable n') i = Some m"
proof (induction rule: rtranclp_induct)
  case (step n1 n2)
  then obtain w e g g' where e: "other_event i e" "deliver w e n1 g = Some (Inr (n2, g'))"
    by (auto simp: other_step_def)
  have "keeps_record i n1 (n2, g')"
  proof (cases e)
    case (SelfMessage m)
    from wpO_D(1) [OF rec_deliver_self e(2) [unfolded SelfMessage]] show ?thesis .
  next
    case (Arrival m)
    from wpO_D(1) [OF rec_deliver_arrival [OF e(1) [unfolded Arrival]] e(2) [unfolded Arrival]] show ?thesis .
  qed
  with step show ?case by (simp add: keeps_record_def)
qed

text \<open>The normal-message handler as both kinds of nodes reach it.\<close>

lemma deliver_normal:
  assumes "msgType p = MSG_NORMAL" and "deliver w (Arrival (Packet p)) n g = Some (Inr (n', g'))"
  shows "\<exists>n1 g1 n2 h. handleNicNormalMsg (p\<lparr>controlInfo := None, hopCount := h\<rparr>) n1 g1 = Some (Inr (n2, g')) \<and>
    (n' = n2 \<or> n' = SR_updateDisplay n2) \<and> (n1 = n \<or> n1 = n\<lparr>numReceived := numReceived n + 1\<rparr>) \<and>
    outputs g1 = outputs g"
proof (cases "isSink n")
  case True
  with assms have "handleNicNormalMsg (p\<lparr>controlInfo := None, hopCount := hopCount p\<rparr>) n g = Some (Inr (n', g'))"
    by (simp add: handleMessage_def SINK_handleMessage_def SINK_handleSRMsg_def SINK_handleNicNormalMsg_def packet_consts)
  then show ?thesis by blast
next
  case False
  let ?n = "n\<lparr>numReceived := numReceived n + 1\<rparr>" and ?g = "g\<lparr>NBMsgRcvdPerRequest := NBMsgRcvdPerRequest g + 1\<rparr>"
  obtain n2 where n2: "handleNicNormalMsg (p\<lparr>controlInfo := None, hopCount := hopCount p + 1\<rparr>) ?n ?g = Some (Inr (n2, g'))"
      "n' = SR_updateDisplay n2"
    using False assms by (auto simp: handleMessage_def handleSRMsg_def Let_def packet_consts bindO_Inr_iff)
  show ?thesis
    by (rule exI [of _ ?n], rule exI [of _ ?g], rule exI [of _ n2], rule exI [of _ "hopCount p + 1"]) (simp add: n2)
qed

text \<open>
  C22: replies follow the path of their request backwards. After a node has handled a new request
  of originator \<open>i\<close> that came from address \<open>m\<close>, and until another request of that originator
  reaches it, a reply for \<open>i\<close> that it forwards is sent to \<open>m\<close>; and the node counts the neighbour the
  reply came from as a good direction for the query.
\<close>

theorem replies_follow_reverse_path:
  assumes request: "msgType p = MSG_NORMAL" "queryType p = Q_REQUEST" "myTimestamp p \<noteq> currentRequestTimeStamp n0"
      "deliver w0 (Arrival (Packet p)) n0 g0 = Some (Inr (n1, g1))"
    and between: "(other_step (Id p))\<^sup>*\<^sup>* n1 n2"
    and reply: "msgType q = MSG_NORMAL" "queryType q = Q_REPLY" "Id q = Id p" "Id q \<noteq> myID n2"
      "deliver w2 (Arrival (Packet q)) n2 g2 = Some (Inr (n3, g3))"
  shows "\<exists>d q'. outputs g3 = outputs g2 @ [ScheduleAt d (Packet q')] \<and> destMACAddress q' = srcMACAddress p \<and>
    queryType q' = Q_REPLY \<and> Id q' = Id p \<and>
    UpdateTable (queryId q) (srcMACAddress q) (tr n2) = Inr (tr n3)"
proof -
  obtain m1 h1 m2 k where req: "handleNicNormalMsg (p\<lparr>controlInfo := None, hopCount := k\<rparr>) m1 h1 = Some (Inr (m2, g1))"
      "n1 = m2 \<or> n1 = SR_updateDisplay m2" "m1 = n0 \<or> m1 = n0\<lparr>numReceived := numReceived n0 + 1\<rparr>"
    using deliver_normal [OF request(1,4)] by blast
  have hr: "handle_request (p\<lparr>controlInfo := None, hopCount := k\<rparr>) m1 h1 = Some (Inr (m2, g1))"
    using req(1) request(2) by (simp add: handleNicNormalMsg_def)
  have ts: "myTimestamp (p\<lparr>controlInfo := None, hopCount := k\<rparr>) \<noteq> currentRequestTimeStamp m1"
    using req(3) request(3) by auto
  have "om_find (RecordTable m2) (Id p) = Some (srcMACAddress p)"
    using wpO_D(1) [OF rec_handle_request [OF ts] hr] by (simp add: rec_ext_def om_find_set)
  then have "om_find (RecordTable n1) (Id p) = Some (srcMACAddress p)"
    using req(2) by (auto simp: SR_updateDisplay_def)
  then have rec: "om_find (RecordTable n2) (Id p) = Some (srcMACAddress p)"
    by (rule other_steps_keep_record [OF between])
  obtain m3 h3 m4 k' where rep: "handleNicNormalMsg (q\<lparr>controlInfo := None, hopCount := k'\<rparr>) m3 h3 = Some (Inr (m4, g3))"
      "n3 = m4 \<or> n3 = SR_updateDisplay m4" "m3 = n2 \<or> m3 = n2\<lparr>numReceived := numReceived n2 + 1\<rparr>"
      "outputs h3 = outputs g2"
    using deliver_normal [OF reply(1,5)] by blast
  have "forward_reply (q\<lparr>controlInfo := None, hopCount := k'\<rparr>) m3 h3 = Inr (m4, g3)"
    using rep(1,3) reply(2,4) by (auto simp: handleNicNormalMsg_def packet_consts)
  moreover have "om_index UNSPECIFIED_ADDRESS (Id p) (RecordTable m3) = (srcMACAddress p, RecordTable m3)"
    "tr m3 = tr n2" "tr n3 = tr m4"
    using rec rep(2,3) by (auto simp: om_index_def SR_updateDisplay_def)
  ultimately show ?thesis
    using rep(4) reply(2,3)
    by (clarsimp simp: forward_reply_def bindR_Inr_iff scheduleMsgToSendNic_def Let_def)
qed

text \<open>A node whose own filter answers every query, used below at concrete inputs.\<close>

definition all_answering :: BloomTable where
  "all_answering = newBloomTable\<lparr>BloomPerso := Some \<lparr>asize = 1, a = 0, funcs = []\<rparr>, QueryTranslation2 := query_names []\<rparr>"

lemma all_answering_hop: "GetNextHop all_answering h 0 False m = Inr m"
  by (simp add: GetNextHop_def query_string_def all_answering_def query_names_find GetBloomPerso_def Check_string_def Check_def)

theorem replies_follow_reverse_path_witness:
  "\<forall>w g. \<exists>n0 n1 g1 n3 g3 d q' p q. deliver w (Arrival (Packet p)) n0 g = Some (Inr (n1, g1)) \<and>
     deliver w (Arrival (Packet q)) n1 g1 = Some (Inr (n3, g3)) \<and>
     outputs g3 = outputs g1 @ [ScheduleAt d (Packet q')] \<and> destMACAddress q' = MACAddress 1 2 3 4 5 6"
proof (intro allI)
  fix w g
  let ?p = "(newSRPacket [])\<lparr>msgType := MSG_NORMAL, queryType := Q_REQUEST, Id := 7, myTimestamp := 5,
      srcMACAddress := MACAddress 1 2 3 4 5 6\<rparr>"
  let ?q = "(newSRPacket [])\<lparr>msgType := MSG_NORMAL, queryType := Q_REPLY, Id := 7\<rparr>"
  let ?n = "sr_example\<lparr>bt := all_answering\<rparr>"
  obtain n1 g1 where one: "deliver w (Arrival (Packet ?p)) ?n g = Some (Inr (n1, g1))" "myID n1 = 65535"
      "isSink n1 = False" "tr n1 = newTableRARE"
    by (simp add: handleMessage_def handleSRMsg_def handleNicNormalMsg_def handle_request_def answer_request_def
        packet_consts sr_example_def SR_initialize_def newSRPacket_def scheduleMsgToSendNic_def Let_def split_def
        all_answering_hop SR_updateDisplay_def mac_equals_eq)
  obtain n3 g3 where two: "deliver w (Arrival (Packet ?q)) n1 g1 = Some (Inr (n3, g3))"
    using one(2-4)
    by (simp add: handleMessage_def handleSRMsg_def handleNicNormalMsg_def forward_reply_def packet_consts
        newSRPacket_def scheduleMsgToSendNic_def UpdateTable_def newTableRARE_def uint_of_def INT_MAX_def Let_def split_def)
  have "myTimestamp ?p \<noteq> currentRequestTimeStamp ?n" by (simp add: sr_example_def SR_initialize_def)
  from replies_follow_reverse_path [OF _ _ this one(1) rtranclp.rtrancl_refl _ _ _ _ two] one(2)
  obtain d q' where "outputs g3 = outputs g1 @ [ScheduleAt d (Packet q')]" "destMACAddress q' = MACAddress 1 2 3 4 5 6"
    by auto
  with one(1) two show "\<exists>n0 n1 g1 n3 g3 d q' p q. deliver w (Arrival (Packet p)) n0 g = Some (Inr (n1, g1)) \<and>
     deliver w (Arrival (Packet q)) n1 g1 = Some (Inr (n3, g3)) \<and>
     outputs g3 = outputs g1 @ [ScheduleAt d (Packet q')] \<and> destMACAddress q' = MACAddress 1 2 3 4 5 6" by blast
qed

section \<open>Joining\<close>








end
