(* ===== verification/Ieee802154.thy ===== *)
theory Ieee802154
  imports Complex_Main Prelude
begin

text \<open>
  The contract of the IEEE 802.15.4 model (\<open>Ieee802154Def.h\<close>, \<open>Ieee802154Const.h\<close>,
  \<open>Ieee802154Enum.h\<close>, \<open>Ieee802154Field.h\<close>, \<open>Ieee802154Frame.msg\<close>,
  \<open>Ieee802154MacPhyPrimitives.msg\<close>): integer types, constants, enumerations, the fields of frames
  and the frames themselves. Times and rates, which the code keeps as \<open>simtime_t\<close> and
  \<open>double\<close>, are exact rational numbers.
\<close>

section \<open>Constants\<close>

definition aTurnaroundTime :: u8 where "aTurnaroundTime = 12"
definition aMaxPHYPacketSize :: u8 where "aMaxPHYPacketSize = 127"
definition BR_868M :: rat where "BR_868M = 20"
definition BR_915M :: rat where "BR_915M = 40"
definition BR_2_4G :: rat where "BR_2_4G = 250"
definition SR_868M :: rat where "SR_868M = 20"
definition SR_915M :: rat where "SR_915M = 40"
definition SR_2_4G :: rat where "SR_2_4G = 125 / 2"
definition def_phyHeaderLength :: int where "def_phyHeaderLength = 6"

definition SIZE_OF_802154_ASSOCIATION_RESPONSE :: int where "SIZE_OF_802154_ASSOCIATION_RESPONSE = 29"
definition SIZE_OF_802154_DISASSOCIATION_NOTIFICATION :: int where "SIZE_OF_802154_DISASSOCIATION_NOTIFICATION = 21"
definition SIZE_OF_802154_PANID_CONFLICT_NOTIFICATION :: int where "SIZE_OF_802154_PANID_CONFLICT_NOTIFICATION = 26"
definition SIZE_OF_802154_ORPHAN_NOTIFICATION :: int where "SIZE_OF_802154_ORPHAN_NOTIFICATION = 20"
definition SIZE_OF_802154_BEACON_REQUEST :: int where "SIZE_OF_802154_BEACON_REQUEST = 10"
definition SIZE_OF_802154_GTS_REQUEST :: int where "SIZE_OF_802154_GTS_REQUEST = 11"
definition SIZE_OF_802154_ACK :: int where "SIZE_OF_802154_ACK = 5"

definition aNumSuperframeSlots :: u8 where "aNumSuperframeSlots = 16"
definition aBaseSlotDuration :: u8 where "aBaseSlotDuration = 60"
definition aBaseSuperframeDuration :: u16 where "aBaseSuperframeDuration = ucast aBaseSlotDuration * ucast aNumSuperframeSlots"
definition aMaxBE :: u8 where "aMaxBE = 5"
definition aMaxFrameOverhead :: u8 where "aMaxFrameOverhead = 25"
definition aMaxFrameRetries :: u8 where "aMaxFrameRetries = 3"
definition aMaxLostBeacons :: u8 where "aMaxLostBeacons = 4"
definition aMaxMACFrameSize :: u8 where "aMaxMACFrameSize = aMaxPHYPacketSize - aMaxFrameOverhead"
definition aMaxSIFSFrameSize :: u8 where "aMaxSIFSFrameSize = 18"
definition aMinCAPLength :: u16 where "aMinCAPLength = 440"
definition aMinLIFSPeriod :: u8 where "aMinLIFSPeriod = 40"
definition aMinSIFSPeriod :: u8 where "aMinSIFSPeriod = 12"
definition aUnitBackoffPeriod :: u8 where "aUnitBackoffPeriod = 20"

lemmas mac_consts = aTurnaroundTime_def aNumSuperframeSlots_def aBaseSlotDuration_def aBaseSuperframeDuration_def
  aMaxBE_def aMaxFrameRetries_def aMaxLostBeacons_def aMaxSIFSFrameSize_def aMinCAPLength_def
  aMinLIFSPeriod_def aMinSIFSPeriod_def aUnitBackoffPeriod_def

section \<open>Enumerations\<close>

datatype PHYenum = phy_BUSY | phy_BUSY_RX | phy_BUSY_TX | phy_FORCE_TRX_OFF | phy_IDLE | phy_INVALID_PARAMETER
  | phy_RX_ON | phy_SUCCESS | phy_TRX_OFF | phy_TX_ON | phy_UNSUPPORT_ATTRIBUTE

datatype PHYPIBenum = PHY_CURRENT_CHANNEL | PHY_CHANNELS_SUPPORTED | PHY_TRANSMIT_POWER | PHY_CCA_MODE

datatype Ieee802154MacPhyPrimitiveType = PD_DATA_CONFIRM | PLME_CCA_REQUEST | PLME_CCA_CONFIRM | PLME_ED_REQUEST
  | PLME_ED_CONFIRM | PLME_SET_TRX_STATE_REQUEST | PLME_SET_TRX_STATE_CONFIRM | PLME_SET_REQUEST | PLME_SET_CONFIRM

text \<open>The kind of a frame as the physical layer marks it; 0 for a frame received well.\<close>

datatype Ieee802154PktErrorType = NO_ERROR | COLLISION | BITERROR | BITERROR_FORCE_TRX_OFF | RX_DURING_CCA

datatype MACenum = mac_SUCCESS | mac_PAN_at_capacity | mac_PAN_access_denied | mac_BEACON_LOSS
  | mac_CHANNEL_ACCESS_FAILURE | mac_DENIED | mac_DISABLE_TRX_FAILURE | mac_FAILED_SECURITY_CHECK
  | mac_FRAME_TOO_LONG | mac_INVALID_GTS | mac_INVALID_HANDLE | mac_INVALID_PARAMETER | mac_NO_ACK | mac_NO_BEACON
  | mac_NO_DATA | mac_NO_SHORT_ADDRESS | mac_OUT_OF_CAP | mac_PAN_ID_CONFLICT | mac_REALIGNMENT
  | mac_TRANSACTION_EXPIRED | mac_TRANSACTION_OVERFLOW | mac_TX_ACTIVE | mac_UNAVAILABLE_KEY
  | mac_UNSUPPORTED_ATTRIBUTE | mac_UNDEFINED

text \<open>Frame types; \<open>other_frame_type\<close> is any value outside the enumeration, which the code checks for.\<close>

datatype Ieee802154FrameType = Ieee802154_BEACON | Ieee802154_DATA | Ieee802154_ACK | Ieee802154_CMD | other_frame_type

datatype Ieee802154MacCmdType = Ieee802154_ASSOCIATION_REQUEST | Ieee802154_ASSOCIATION_RESPONSE
  | Ieee802154_DISASSOCIATION_NOTIFICATION | Ieee802154_DATA_REQUEST | Ieee802154_PANID_CONFLICT_NOTIFICATION
  | Ieee802154_ORPHAN_NOTIFICATION | Ieee802154_BEACON_REQUEST | Ieee802154_COORDINATOR_REALIGNMENT
  | Ieee802154_GTS_REQUEST | other_cmd_type

datatype Ieee802154TxOption = DIRECT_TRANS | INDIRECT_TRANS | GTS_TRANS | other_tx_option

datatype Ieee802154MacTimerType = START_PAN_COOR_TIMER | MAC_BACKOFF_TIMER | MAC_DEFER_CCA_TIMER | MAC_BCN_RX_TIMER
  | MAC_BCN_TX_TIMER | MAC_ACK_TIMEOUT_TIMER | MAC_TX_ACK_BOUND_TIMER | MAC_TX_CMD_DATA_BOUND_TIMER | MAC_IFS_TIMER
  | MAC_TX_SD_TIMER | MAC_RX_SD_TIMER | MAC_FINAL_CAP_TIMER | MAC_GTS_TIMER

section \<open>Fields\<close>

definition defFrmCtrl_AddrModeNone :: u8 where "defFrmCtrl_AddrModeNone = 0"
definition defFrmCtrl_AddrMode16 :: u8 where "defFrmCtrl_AddrMode16 = 2"
definition defFrmCtrl_AddrMode64 :: u8 where "defFrmCtrl_AddrMode64 = 3"

lemmas addr_modes = defFrmCtrl_AddrModeNone_def defFrmCtrl_AddrMode16_def defFrmCtrl_AddrMode64_def

record PAN_ELE =
  CoordAddrMode :: u8
  CoordPANId :: u16
  CoordAddress_16_or_64 :: u16
  LogicalChannel :: u8
  GTSPermit :: bool
  LinkQuality :: u8
  SecurityUse :: bool
  ACLEntry :: u8
  SecurityFailure :: bool

record MAC_PIB =
  macAckWaitDuration :: u8
  macAssociationPermit :: bool
  macAutoRequest :: bool
  macBattLifeExt :: bool
  macBattLifeExtPeriods :: u8
  macBeaconPayload :: "u8 list"
  macBeaconPayloadLength :: u8
  macBeaconOrder :: u8
  macBeaconTxTime :: rat
  macBSN :: u8
  macCoordExtendedAddress :: u16
  macCoordShortAddress :: u16
  macDSN :: u8
  macGTSPermit :: bool
  macMaxCSMABackoffs :: u8
  macMinBE :: u8
  macPANId :: u16
  macPromiscuousMode :: bool
  macRxOnWhenIdle :: bool
  macShortAddress :: u16
  macSuperframeOrder :: u8
  macTransactionPersistenceTime :: u16

record FrameCtrl =
  frmType :: Ieee802154FrameType
  secu :: bool
  frmPending :: bool
  ackReq :: bool
  intraPan :: bool
  dstAddrMode :: u8
  srcAddrMode :: u8

record SuperframeSpec =
  BO :: u8
  BI :: u32
  SO :: u8
  SD :: u32
  finalCap :: u8
  battLifeExt :: bool
  panCoor :: bool
  assoPmt :: bool

record DevCapability =
  alterPANCoor :: bool
  FFD :: bool
  recvOnWhenIdle :: bool
  secuCapable :: bool
  alloShortAddr :: bool
  hostName :: string

record GTSDescriptor =
  devShortAddr :: u16
  startSlot :: u8
  length' :: u8
  gts_isRecvGTS :: bool
  isTxPending :: bool

section \<open>Frames\<close>

text \<open>
  The class of a frame object, with the members of its own that the code uses: the superframe
  specification of a beacon, the encapsulated packet of a data frame (a number that identifies it;
  \<open>None\<close> before \<open>encapsulate\<close>), the type of a command. \<open>byteLength\<close> is the length of the packet
  including what it encapsulates.
\<close>

datatype frame_class = BeaconFrame SuperframeSpec | DataFrame "nat option" | AckFrame | CmdFrame Ieee802154MacCmdType

record Ieee802154Frame =
  frame_class :: frame_class
  frmCtrl :: FrameCtrl
  bdsn :: u8
  dstPanId :: u16
  dstAddr :: u16
  srcPanId :: u16
  srcAddr :: u16
  isGTS :: bool
  errKind :: Ieee802154PktErrorType
  byteLength :: int

section \<open>Rounding\<close>

text \<open>
  The function \<open>fmod\<close>, and the conversion to the unsigned
  types, which is undefined when the truncated value does not fit.
\<close>

definition fmod :: "rat \<Rightarrow> rat \<Rightarrow> rat" where
  "fmod x y = x - y * of_int (trunc (x / y))"

definition to_u8 :: "rat \<Rightarrow> u8 res" where
  "to_u8 x = (if 0 \<le> trunc x \<and> trunc x < 2 ^ 8 then Inr (word_of_int (trunc x)) else Inl UndefinedBehaviour)"

definition to_u16 :: "rat \<Rightarrow> u16 res" where
  "to_u16 x = (if 0 \<le> trunc x \<and> trunc x < 2 ^ 16 then Inr (word_of_int (trunc x)) else Inl UndefinedBehaviour)"

lemma fmod_bounds:
  assumes "0 < y" and "0 \<le> x"
  shows "0 \<le> fmod x y" and "fmod x y < y"
proof -
  have "0 \<le> x / y" using assms by simp
  note b = trunc_bounds [OF this]
  have "of_int (trunc (x / y)) * y \<le> x" using b assms by (simp add: pos_le_divide_eq)
  then show "0 \<le> fmod x y" by (simp add: fmod_def mult.commute)
  have "x < (of_int (trunc (x / y)) + 1) * y" using b assms by (simp add: pos_divide_less_eq)
  then show "fmod x y < y" by (simp add: fmod_def algebra_simps)
qed

lemma fmod_nonpos:
  assumes "0 < y" and "x \<le> 0"
  shows "fmod x y \<le> 0"
proof (cases "x = 0")
  case False
  with assms have neg: "\<not> 0 \<le> x / y" by (simp add: zero_le_divide_iff)
  have "x / y \<le> of_int \<lceil>x / y\<rceil>" by (rule le_of_int_ceiling)
  then have "x \<le> of_int \<lceil>x / y\<rceil> * y" using assms pos_divide_le_eq by blast
  with neg show ?thesis by (simp add: fmod_def trunc_def mult.commute)
qed (simp add: fmod_def trunc_def)

lemma fmod_decomp: "x = of_int (trunc (x / y)) * y + fmod x y"
  by (simp add: fmod_def)

end
