(* ===== verification/HList_Link.thy ===== *)
theory HList_Link
  imports Prelude
begin

text \<open>
  The doubly linked lists of \<open>Ieee802154Link.cc\<close>, which the MAC uses to detect duplicated frames:
  the operations on an explicit heap of list cells, the abstraction of such a list to the sequence of
  its entries, and the refinement of a table that maps a host to the sequence number last seen
  from it.
\<close>

section \<open>The list on the heap\<close>

record HLISTLINK =
  hostID :: u16
  SN :: u8
  last' :: "nat option"
  next' :: "nat option"

text \<open>
  The two ends of a list (\<open>hlistLink1\<close>, \<open>hlistLink2\<close>; \<open>None\<close> is the null pointer), the cells, and
  the address the next \<open>new\<close> returns.
\<close>

record hlist =
  hlistLink1 :: "nat option"
  hlistLink2 :: "nat option"
  cells :: "nat \<rightharpoonup> HLISTLINK"
  free_cell :: nat

definition hl_oper_del :: int where "hl_oper_del = 1"
definition hl_oper_est :: int where "hl_oper_est = 2"
definition hl_oper_rpl :: int where "hl_oper_rpl = 3"

lemmas hl_opers = hl_oper_del_def hl_oper_est_def hl_oper_rpl_def

definition newHLISTLINK :: "u16 \<Rightarrow> u8 \<Rightarrow> HLISTLINK" where
  "newHLISTLINK hostid sn = \<lparr>hostID = hostid, SN = sn, last' = None, next' = None\<rparr>"

text \<open>Writing a member through a pointer.\<close>

definition update_cell :: "nat \<Rightarrow> (HLISTLINK \<Rightarrow> HLISTLINK) \<Rightarrow> hlist \<Rightarrow> hlist res" where
  "update_cell a f h = (case cells h a of None \<Rightarrow> Inl UndefinedBehaviour
     | Some c \<Rightarrow> Inr (h\<lparr>cells := (cells h)(a \<mapsto> f c)\<rparr>))"

definition addHListLink :: "u16 \<Rightarrow> u8 \<Rightarrow> hlist \<Rightarrow> (int \<times> hlist) res" where
  "addHListLink hostid sn h =
     (let tmp = free_cell h;
          h = h\<lparr>cells := (cells h)(tmp \<mapsto> newHLISTLINK hostid sn), free_cell := tmp + 1\<rparr>
      in case hlistLink2 h of
           None \<Rightarrow> Inr (0, h\<lparr>hlistLink2 := Some tmp, hlistLink1 := Some tmp\<rparr>)
         | Some e \<Rightarrow>
             bindR (update_cell tmp (\<lambda>c. c\<lparr>last' := Some e\<rparr>) h) (\<lambda>h.
             bindR (update_cell e (\<lambda>c. c\<lparr>next' := Some tmp\<rparr>) h) (\<lambda>h.
             Inr (0, h\<lparr>hlistLink2 := Some tmp\<rparr>))))"

text \<open>Deletion of the cell \<open>a\<close> with contents \<open>c\<close>.\<close>

definition unlink :: "nat \<Rightarrow> HLISTLINK \<Rightarrow> hlist \<Rightarrow> hlist res" where
  "unlink a c h =
     bindR (case last' c of
              Some l \<Rightarrow>
                bindR (update_cell l (\<lambda>d. d\<lparr>next' := next' c\<rparr>) h) (\<lambda>h.
                (case next' c of Some m \<Rightarrow> update_cell m (\<lambda>d. d\<lparr>last' := last' c\<rparr>) h
                 | None \<Rightarrow> Inr (h\<lparr>hlistLink2 := last' c\<rparr>)))
            | None \<Rightarrow>
                (case next' c of
                   Some m \<Rightarrow> update_cell m (\<lambda>d. d\<lparr>last' := None\<rparr>) (h\<lparr>hlistLink1 := next' c\<rparr>)
                 | None \<Rightarrow> Inr (h\<lparr>hlistLink1 := None, hlistLink2 := None\<rparr>)))
       (\<lambda>h. Inr (h\<lparr>cells := (cells h)(a := None)\<rparr>))"

text \<open>What the loop of \<open>updateHListLink\<close> does at the cell of the host.\<close>

definition update_found :: "int \<Rightarrow> u8 \<Rightarrow> nat \<Rightarrow> HLISTLINK \<Rightarrow> hlist \<Rightarrow> (int \<times> hlist) res" where
  "update_found oper sn a c h =
     (if oper = hl_oper_del then bindR (unlink a c h) (\<lambda>h. Inr (0, h))
      else if oper = hl_oper_rpl then
        (if SN c \<noteq> sn then bindR (update_cell a (\<lambda>d. d\<lparr>SN := sn\<rparr>) h) (\<lambda>h. Inr (0, h))
         else Inr (2, h))
      else Inr (0, h))"

partial_function (option) update_loop :: "int \<Rightarrow> u16 \<Rightarrow> u8 \<Rightarrow> nat option \<Rightarrow> hlist \<Rightarrow> (int \<times> hlist) res option" where
  "update_loop oper hostid sn tmp h =
     (case tmp of
        None \<Rightarrow> Some (Inr (1, h))
      | Some a \<Rightarrow>
          (case cells h a of
             None \<Rightarrow> Some (Inl UndefinedBehaviour)
           | Some c \<Rightarrow>
               if hostID c = hostid then Some (update_found oper sn a c h)
               else update_loop oper hostid sn (next' c) h))"

definition updateHListLink :: "int \<Rightarrow> u16 \<Rightarrow> u8 \<Rightarrow> hlist \<Rightarrow> (int \<times> hlist) res option" where
  "updateHListLink oper hostid sn h = update_loop oper hostid sn (hlistLink1 h) h"

definition chkAddUpdHListLink :: "u16 \<Rightarrow> u8 \<Rightarrow> hlist \<Rightarrow> (int \<times> hlist) res option" where
  "chkAddUpdHListLink hostid sn h =
     bindO (updateHListLink hl_oper_rpl hostid sn h) (\<lambda>(i, h).
       if i = 0 then Some (Inr (1, h)) else if i = 2 then Some (Inr (2, h))
       else bindO (Some (addHListLink hostid sn h)) (\<lambda>(i, h).
         Some (Inr (if i = 0 then 0 else 3, h))))"

partial_function (option) empty_loop :: "nat option \<Rightarrow> hlist \<Rightarrow> hlist res option" where
  "empty_loop tmp h =
     (case tmp of
        None \<Rightarrow> Some (Inr h)
      | Some a \<Rightarrow>
          (case cells h a of
             None \<Rightarrow> Some (Inl UndefinedBehaviour)
           | Some c \<Rightarrow> empty_loop (next' c) (h\<lparr>cells := (cells h)(a := None)\<rparr>)))"

definition emptyHListLink :: "hlist \<Rightarrow> hlist res option" where
  "emptyHListLink h =
     (if hlistLink1 h \<noteq> None
      then bindO (empty_loop (hlistLink1 h) h) (\<lambda>h. Some (Inr (h\<lparr>hlistLink1 := None, hlistLink2 := None\<rparr>)))
      else Some (Inr (h\<lparr>hlistLink2 := hlistLink1 h\<rparr>)))"

definition newHList :: hlist where
  "newHList = \<lparr>hlistLink1 = None, hlistLink2 = None, cells = Map.empty, free_cell = 0\<rparr>"

section \<open>Abstraction\<close>

text \<open>
  \<open>dll m prv p xs te q\<close>: from pointer \<open>p\<close> up to pointer \<open>q\<close> the cells of \<open>m\<close> form the list \<open>xs\<close> of
  addresses and contents, linked in both directions; the cell before it is \<open>prv\<close> and its last cell
  is \<open>te\<close> (\<open>prv\<close> when it is empty).
\<close>

fun dll :: "(nat \<rightharpoonup> HLISTLINK) \<Rightarrow> nat option \<Rightarrow> nat option \<Rightarrow> (nat \<times> u16 \<times> u8) list \<Rightarrow> nat option \<Rightarrow>
    nat option \<Rightarrow> bool" where
  "dll m prv p [] te q \<longleftrightarrow> p = q \<and> te = prv"
| "dll m prv p ((a, i, n) # xs) te q \<longleftrightarrow> p = Some a \<and>
     (\<exists>nx. m a = Some \<lparr>hostID = i, SN = n, last' = prv, next' = nx\<rparr> \<and> dll m (Some a) nx xs te q)"

definition hl_entries :: "(nat \<times> u16 \<times> u8) list \<Rightarrow> (u16 \<times> u8) list" where
  "hl_entries = map snd"

text \<open>The list holds the entries \<open>ys\<close>, in this order, and nothing else is allocated.\<close>

definition hl_rep :: "hlist \<Rightarrow> (u16 \<times> u8) list \<Rightarrow> bool" where
  "hl_rep h ys \<longleftrightarrow> (\<exists>xs. hl_entries xs = ys \<and> dll (cells h) None (hlistLink1 h) xs (hlistLink2 h) None \<and>
     distinct (map fst xs) \<and> distinct (map fst ys) \<and> dom (cells h) = set (map fst xs) \<and>
     (\<forall>a \<in> set (map fst xs). a < free_cell h))"

text \<open>What the operations do to the entries.\<close>

fun seen_update :: "u16 \<Rightarrow> u8 \<Rightarrow> (u16 \<times> u8) list \<Rightarrow> (u16 \<times> u8) list" where
  "seen_update i n [] = [(i, n)]"
| "seen_update i n ((j, k) # ys) = (if j = i then (j, n) # ys else (j, k) # seen_update i n ys)"

definition seen_check :: "u16 \<Rightarrow> u8 \<Rightarrow> (u16 \<times> u8) list \<Rightarrow> int" where
  "seen_check i n ys = (case map_of ys i of None \<Rightarrow> 0 | Some k \<Rightarrow> if k = n then 2 else 1)"

text \<open>A sequence of checks, with their answers.\<close>

fun check_all :: "('h \<Rightarrow> 'n \<Rightarrow> 't \<Rightarrow> (int \<times> 't) res option) \<Rightarrow> ('h \<times> 'n) list \<Rightarrow> 't \<Rightarrow> (int list \<times> 't) res option" where
  "check_all check [] t = Some (Inr ([], t))"
| "check_all check ((i, n) # xs) t =
     bindO (check i n t) (\<lambda>(r, t). bindO (check_all check xs t) (\<lambda>(rs, t). Some (Inr (r # rs, t))))"

lemma map_of_seen_update: "map_of (seen_update i n ys) = (map_of ys)(i \<mapsto> n)"
  by (induction i n ys rule: seen_update.induct) auto

lemma keys_seen_update: "fst ` set (seen_update i n ys) = insert i (fst ` set ys)"
  by (induction i n ys rule: seen_update.induct) auto

lemma distinct_seen_update: "distinct (map fst ys) \<Longrightarrow> distinct (map fst (seen_update i n ys))"
  by (induction i n ys rule: seen_update.induct) (auto simp: keys_seen_update)

section \<open>Properties of list segments\<close>

lemma dll_upd [simp]: "a \<notin> fst ` set xs \<Longrightarrow> dll (m(a := v)) prv p xs te q = dll m prv p xs te q"
  by (induction xs arbitrary: prv p) auto

lemma dll_append: "dll m prv p (xs @ ys) te q \<longleftrightarrow> (\<exists>t r. dll m prv p xs t r \<and> dll m t r ys te q)"
  by (induction xs arbitrary: prv p) (auto, blast+)

lemma hl_entries_simps [simp]:
  "hl_entries [] = []" "hl_entries ((a, e) # xs) = e # hl_entries xs" "hl_entries (xs @ ys) = hl_entries xs @ hl_entries ys"
  by (simp_all add: hl_entries_def)

lemma hl_entries_split:
  "hl_entries xs = ys @ (i, n) # zs \<Longrightarrow> \<exists>us a vs. xs = us @ (a, i, n) # vs \<and> hl_entries us = ys \<and> hl_entries vs = zs"
  by (auto simp: hl_entries_def map_eq_append_conv) fastforce+

lemma update_loop_none:
  "dll (cells h) prv p xs te None \<Longrightarrow> i \<notin> fst ` set (hl_entries xs) \<Longrightarrow> update_loop oper i sn p h = Some (Inr (1, h))"
  by (induction xs arbitrary: prv p) (auto simp: update_loop.simps [where tmp = p] update_loop.simps [where tmp = None] update_loop.simps [where tmp = "Some a" for a])

lemma update_loop_found:
  assumes "dll (cells h) prv p (us @ (a, i, n) # vs) te None" and "i \<notin> fst ` set (hl_entries us)"
  shows "\<exists>c. cells h a = Some c \<and> update_loop oper i sn p h = Some (update_found oper sn a c h)"
  using assms
proof (induction us arbitrary: prv p)
  case Nil
  then show ?case by (auto simp: update_loop.simps [where tmp = "Some a"])
next
  case (Cons x us)
  then show ?case by (cases x) (auto simp: update_loop.simps [where tmp = "Some a" for a])
qed

text \<open>A cell of the list, and the list after the cell's sequence number has changed.\<close>

lemma dll_set_SN:
  assumes "dll m prv p (us @ (a, i, n) # vs) te q" and "distinct (map fst (us @ (a, i, n) # vs))" and "m a = Some c"
  shows "SN c = n \<and> dll (m(a \<mapsto> c\<lparr>SN := sn\<rparr>)) prv p (us @ (a, i, sn) # vs) te q"
  using assms by (auto simp: dll_append)

text \<open>
  Unlinking a cell: the cell before it gets its successor as next, the cell after it gets its
  predecessor as last.
\<close>

lemma dll_set_next:
  assumes "dll m prv p (us @ [(l, j, k)]) te r" and "l \<notin> fst ` set us" and "m l = Some d"
  shows "dll (m(l \<mapsto> d\<lparr>next' := r'\<rparr>)) prv p (us @ [(l, j, k)]) te r'"
  using assms by (auto simp: dll_append)

lemma dll_set_last:
  assumes "dll m t p ((b, j, k) # vs) te q" and "b \<notin> fst ` set vs" and "m b = Some d"
  shows "dll (m(b \<mapsto> d\<lparr>last' := t'\<rparr>)) t' p ((b, j, k) # vs) te q"
  using assms by auto


text \<open>The four cases of \<open>unlink\<close>, by what stands before and after the cell.\<close>

lemma unlink_refines:
  assumes dll: "dll (cells h) None (hlistLink1 h) (us @ (a, i, n) # vs) (hlistLink2 h) None"
    and dist: "distinct (map fst (us @ (a, i, n) # vs))" and c: "cells h a = Some c"
  shows "\<exists>h'. unlink a c h = Inr h' \<and> dll (cells h') None (hlistLink1 h') (us @ vs) (hlistLink2 h') None \<and>
    dom (cells h') = dom (cells h) - {a} \<and> free_cell h' = free_cell h"
proof -
  obtain t where us: "dll (cells h) None (hlistLink1 h) us t (Some a)" "last' c = t"
    and vs: "dll (cells h) (Some a) (next' c) vs (hlistLink2 h) None"
    using dll c by (auto simp: dll_append)
  show ?thesis
  proof (cases us rule: rev_cases)
    case Nil
    show ?thesis
    proof (cases vs)
      case Nil
      with us vs \<open>us = []\<close> show ?thesis by (auto simp: unlink_def)
    next
      case (Cons v vs')
      obtain b j k where v: "v = (b, j, k)" by (cases v)
      obtain d where d: "cells h b = Some d" using vs Cons v by auto
      have "dll ((cells h)(b \<mapsto> d\<lparr>last' := None\<rparr>)) None (next' c) vs (hlistLink2 h) None"
        using dll_set_last [of "cells h" "Some a" "next' c" b j k vs' "hlistLink2 h" None d None] vs Cons v d dist by simp
      with us vs Nil Cons v d dist show ?thesis
        by (auto simp: unlink_def update_cell_def)
    qed
  next
    case (snoc us' u)
    obtain l j k where u: "u = (l, j, k)" by (cases u)
    obtain d where d: "cells h l = Some d" "t = Some l" using us(1) snoc u by (auto simp: dll_append)
    have left: "dll ((cells h)(l \<mapsto> d\<lparr>next' := next' c\<rparr>)) None (hlistLink1 h) us t (next' c)"
      using dll_set_next [of "cells h" None "hlistLink1 h" us' l j k t "Some a" d "next' c"] us(1) snoc u d dist by simp
    show ?thesis
    proof (cases vs)
      case Nil
      with us vs left d dist snoc u show ?thesis
        by (auto simp: unlink_def update_cell_def dll_append)
    next
      case (Cons v vs')
      obtain b j' k' where v: "v = (b, j', k')" by (cases v)
      obtain e where e: "cells h b = Some e" using vs Cons v by auto
      have "dll ((cells h)(b \<mapsto> e\<lparr>last' := t\<rparr>)) t (next' c) vs (hlistLink2 h) None"
        using dll_set_last [of "cells h" "Some a" "next' c" b j' k' vs' "hlistLink2 h" None e t] vs Cons v e dist by simp
      moreover have "next' c = Some b" using vs Cons v by simp
      ultimately show ?thesis
        using us left d e dist snoc u Cons v
        by (auto simp: unlink_def update_cell_def dll_append fun_upd_twist)
    qed
  qed
qed

section \<open>Refinement\<close>

lemma seen_update_found: "i \<notin> fst ` set as \<Longrightarrow> seen_update i n (as @ (i, k) # bs) = as @ (i, n) # bs"
  by (induction as) auto

lemma seen_update_new: "i \<notin> fst ` set ys \<Longrightarrow> seen_update i n ys = ys @ [(i, n)]"
  by (induction ys) auto

lemma entry_cases:
  obtains (absent) "i \<notin> fst ` set ys"
  | (present) as k bs where "ys = as @ (i, k) # bs" "i \<notin> fst ` set as" "map_of ys i = Some k"
proof (cases "i \<in> fst ` set ys")
  case True
  then have "\<exists>as k bs. ys = as @ (i, k) # bs \<and> i \<notin> fst ` set as \<and> map_of ys i = Some k"
  proof (induction ys)
    case (Cons y ys)
    show ?case
    proof (cases "fst y = i")
      case True
      then show ?thesis by (intro exI [of _ "[]"] exI [of _ "snd y"] exI [of _ ys]) auto
    next
      case False
      with Cons obtain as k bs where "ys = as @ (i, k) # bs" "i \<notin> fst ` set as" "map_of ys i = Some k" by auto
      with False show ?thesis by (intro exI [of _ "y # as"] exI [of _ k] exI [of _ bs]) (cases y, auto)
    qed
  qed simp
  then show thesis using present by blast
qed (use absent in blast)

lemma add_refines:
  assumes "hl_rep h ys" and "i \<notin> fst ` set ys"
  shows "\<exists>h'. addHListLink i n h = Inr (0, h') \<and> hl_rep h' (ys @ [(i, n)])"
proof -
  obtain xs where xs: "hl_entries xs = ys" "dll (cells h) None (hlistLink1 h) xs (hlistLink2 h) None"
      "distinct (map fst xs)" "distinct (map fst ys)" "dom (cells h) = set (map fst xs)" "\<forall>a \<in> set (map fst xs). a < free_cell h"
    using assms(1) by (auto simp: hl_rep_def)
  let ?t = "free_cell h" and ?xs = "xs @ [(free_cell h, i, n)]"
  have new: "?t \<notin> fst ` set xs" using xs(6) by auto
  have "\<exists>h'. addHListLink i n h = Inr (0, h') \<and> dll (cells h') None (hlistLink1 h') ?xs (hlistLink2 h') None \<and>
      dom (cells h') = set (map fst ?xs) \<and> free_cell h' = ?t + 1"
  proof (cases xs rule: rev_cases)
    case Nil
    with xs show ?thesis by (simp add: addHListLink_def newHLISTLINK_def Let_def)
  next
    case (snoc us u)
    obtain l j k where u: "u = (l, j, k)" by (cases u)
    obtain d where d: "cells h l = Some d" "hlistLink2 h = Some l" "l \<noteq> ?t" "l \<notin> fst ` set us"
      using xs(2,3) snoc u new by (auto simp: dll_append)
    have "dll ((cells h)(l \<mapsto> d\<lparr>next' := Some ?t\<rparr>)) None (hlistLink1 h) xs (Some l) (Some ?t)"
      using dll_set_next [of "cells h" None "hlistLink1 h" us l j k "Some l" None d "Some ?t"] xs(2) snoc u d by simp
    with xs snoc u d new show ?thesis
      by (auto simp: addHListLink_def newHLISTLINK_def update_cell_def Let_def dll_append fun_upd_twist)
  qed
  then obtain h' where h': "addHListLink i n h = Inr (0, h')" "dll (cells h') None (hlistLink1 h') ?xs (hlistLink2 h') None"
      "dom (cells h') = set (map fst ?xs)" "free_cell h' = ?t + 1" by blast
  have "hl_rep h' (ys @ [(i, n)])"
    unfolding hl_rep_def using h' xs new assms(2) by (intro exI [of _ ?xs]) (auto simp: less_Suc_eq)
  with h'(1) show ?thesis by blast
qed

lemma rpl_refines:
  assumes "hl_rep h ys"
  shows "\<exists>h'. updateHListLink hl_oper_rpl i n h = Some (Inr (if map_of ys i = None then 1 else if map_of ys i = Some n then 2 else 0, h')) \<and>
    hl_rep h' (if map_of ys i = None then ys else seen_update i n ys)"
proof -
  obtain xs where xs: "hl_entries xs = ys" "dll (cells h) None (hlistLink1 h) xs (hlistLink2 h) None"
      "distinct (map fst xs)" "distinct (map fst ys)" "dom (cells h) = set (map fst xs)" "\<forall>a \<in> set (map fst xs). a < free_cell h"
    using assms by (auto simp: hl_rep_def)
  show ?thesis
  proof (cases i ys rule: entry_cases)
    case absent
    then have "map_of ys i = None" by (simp add: map_of_eq_None_iff)
    with update_loop_none [OF xs(2)] absent xs(1) assms show ?thesis by (simp add: updateHListLink_def)
  next
    case (present as k bs)
    obtain us a vs where us: "xs = us @ (a, i, k) # vs" "hl_entries us = as" "hl_entries vs = bs"
      using hl_entries_split xs(1) present(1) by metis
    obtain c where c: "cells h a = Some c" "update_loop hl_oper_rpl i n (hlistLink1 h) h = Some (update_found hl_oper_rpl n a c h)"
      using update_loop_found [OF xs(2) [unfolded us(1)]] present(2) us(2) by blast
    have SN: "SN c = k" and dll: "dll ((cells h)(a \<mapsto> c\<lparr>SN := n\<rparr>)) None (hlistLink1 h) (us @ (a, i, n) # vs) (hlistLink2 h) None"
      using dll_set_SN [OF xs(2) [unfolded us(1)] xs(3) [unfolded us(1)] c(1)] by auto
    show ?thesis
    proof (cases "k = n")
      case True
      then have "seen_update i n ys = ys" using present by (simp add: seen_update_found)
      with True c SN present assms show ?thesis by (simp add: updateHListLink_def update_found_def hl_opers)
    next
      case False
      let ?h = "h\<lparr>cells := (cells h)(a \<mapsto> c\<lparr>SN := n\<rparr>)\<rparr>"
      have "hl_rep ?h (seen_update i n ys)"
        unfolding hl_rep_def using dll xs us present
        by (intro exI [of _ "us @ (a, i, n) # vs"]) (auto simp: seen_update_found insert_absorb)
      with False c SN present show ?thesis
        by (simp add: updateHListLink_def update_found_def update_cell_def hl_opers)
    qed
  qed
qed

lemma chk_refines:
  assumes "hl_rep h ys"
  shows "\<exists>h'. chkAddUpdHListLink i n h = Some (Inr (seen_check i n ys, h')) \<and> hl_rep h' (seen_update i n ys)"
proof -
  obtain h1 where h1: "updateHListLink hl_oper_rpl i n h = Some (Inr (if map_of ys i = None then 1 else if map_of ys i = Some n then 2 else 0, h1))"
      "hl_rep h1 (if map_of ys i = None then ys else seen_update i n ys)"
    using rpl_refines [OF assms] by blast
  show ?thesis
  proof (cases "map_of ys i")
    case None
    then have "i \<notin> fst ` set ys" by (simp add: map_of_eq_None_iff)
    with None h1 add_refines [of h1 ys i n] show ?thesis
      by (auto simp: chkAddUpdHListLink_def seen_check_def seen_update_new)
  qed (use h1 in \<open>auto simp: chkAddUpdHListLink_def seen_check_def\<close>)
qed

lemma filter_absent: "i \<notin> fst ` set zs \<Longrightarrow> filter (\<lambda>e. fst e \<noteq> i) zs = zs"
  by (induction zs) auto

lemma del_refines:
  assumes "hl_rep h ys"
  shows "\<exists>h'. updateHListLink hl_oper_del i n h = Some (Inr (if i \<in> fst ` set ys then 0 else 1, h')) \<and>
    hl_rep h' (filter (\<lambda>e. fst e \<noteq> i) ys)"
proof -
  obtain xs where xs: "hl_entries xs = ys" "dll (cells h) None (hlistLink1 h) xs (hlistLink2 h) None"
      "distinct (map fst xs)" "distinct (map fst ys)" "dom (cells h) = set (map fst xs)" "\<forall>a \<in> set (map fst xs). a < free_cell h"
    using assms by (auto simp: hl_rep_def)
  show ?thesis
  proof (cases i ys rule: entry_cases)
    case absent
    then have "filter (\<lambda>e. fst e \<noteq> i) ys = ys" by (rule filter_absent)
    with update_loop_none [OF xs(2)] absent xs(1) assms show ?thesis by (simp add: updateHListLink_def)
  next
    case (present as k bs)
    obtain us a vs where us: "xs = us @ (a, i, k) # vs" "hl_entries us = as" "hl_entries vs = bs"
      using hl_entries_split xs(1) present(1) by metis
    obtain c where c: "cells h a = Some c" "update_loop hl_oper_del i n (hlistLink1 h) h = Some (update_found hl_oper_del n a c h)"
      using update_loop_found [OF xs(2) [unfolded us(1)]] present(2) us(2) by blast
    obtain h' where h': "unlink a c h = Inr h'" "dll (cells h') None (hlistLink1 h') (us @ vs) (hlistLink2 h') None"
        "dom (cells h') = dom (cells h) - {a}" "free_cell h' = free_cell h"
      using unlink_refines [OF xs(2) [unfolded us(1)] xs(3) [unfolded us(1)] c(1)] by blast
    have "i \<notin> fst ` set bs" using present xs(4) by simp
    then have gone: "filter (\<lambda>e. fst e \<noteq> i) ys = as @ bs"
      using present(1,2) by (simp add: filter_absent)
    have "hl_rep h' (as @ bs)"
      unfolding hl_rep_def using h' xs us present by (intro exI [of _ "us @ vs"]) auto
    with gone c h'(1) present show ?thesis by (simp add: updateHListLink_def update_found_def hl_opers)
  qed
qed

lemma empty_loop_frees:
  "dll (cells h) prv p xs te None \<Longrightarrow> distinct (map fst xs) \<Longrightarrow>
   empty_loop p h = Some (Inr (h\<lparr>cells := (\<lambda>a. if a \<in> fst ` set xs then None else cells h a)\<rparr>))"
proof (induction xs arbitrary: prv p h)
  case Nil
  then show ?case by (simp add: empty_loop.simps)
next
  case (Cons x xs)
  obtain a i n where x: "x = (a, i, n)" by (cases x)
  let ?h = "h\<lparr>cells := (cells h)(a := None)\<rparr>"
  obtain nx where nx: "p = Some a" "cells h a = Some \<lparr>hostID = i, SN = n, last' = prv, next' = nx\<rparr>" "dll (cells ?h) (Some a) nx xs te None"
    using Cons.prems x by auto
  have "empty_loop p h = empty_loop nx ?h" using nx by (simp add: empty_loop.simps [where tmp = "Some a"])
  also have "\<dots> = Some (Inr (?h\<lparr>cells := (\<lambda>b. if b \<in> fst ` set xs then None else cells ?h b)\<rparr>))"
    using Cons.IH [OF nx(3)] Cons.prems x by simp
  also have "(\<lambda>b. if b \<in> fst ` set xs then None else cells ?h b) = (\<lambda>b. if b \<in> fst ` set (x # xs) then None else cells h b)"
    using x by (auto simp: fun_eq_iff)
  finally show ?case by simp
qed

lemma empty_refines:
  assumes "hl_rep h ys"
  shows "\<exists>h'. emptyHListLink h = Some (Inr h') \<and> hl_rep h' [] \<and> cells h' = Map.empty"
proof -
  obtain xs where xs: "dll (cells h) None (hlistLink1 h) xs (hlistLink2 h) None" "distinct (map fst xs)" "dom (cells h) = set (map fst xs)"
    using assms by (auto simp: hl_rep_def)
  have none: "(\<lambda>a. if a \<in> fst ` set xs then None else cells h a) = Map.empty"
    using xs(3) by (auto simp: fun_eq_iff dom_def)
  show ?thesis
  proof (cases xs)
    case Nil
    with xs show ?thesis by (auto simp: emptyHListLink_def hl_rep_def)
  next
    case (Cons x xs')
    then have "hlistLink1 h \<noteq> None" using xs(1) by (cases x) auto
    with empty_loop_frees [OF xs(1,2)] show ?thesis by (auto simp: emptyHListLink_def none hl_rep_def)
  qed
qed

section \<open>Duplicate detection\<close>

text \<open>
  The interface the MAC relies on: a table with a check operation that records the sequence number
  of a host and answers whether the host is new (0), known with another number (1) or known with
  this number (2).
\<close>

locale duplicate_table =
  fixes check :: "'h \<Rightarrow> 'n \<Rightarrow> 't \<Rightarrow> (int \<times> 't) res option"
    and start :: 't
    and rep :: "'t \<Rightarrow> ('h \<rightharpoonup> 'n) \<Rightarrow> bool"
  assumes rep_start: "rep start Map.empty"
    and rep_check: "rep t m \<Longrightarrow> \<exists>t'. check i n t =
      Some (Inr (case m i of None \<Rightarrow> 0 | Some k \<Rightarrow> if k = n then 2 else 1, t')) \<and> rep t' (m(i \<mapsto> n))"
begin

lemma check_sequence:
  "rep t m \<Longrightarrow> \<exists>rs t'. check_all check xs t = Some (Inr (rs, t')) \<and> rep t' (m ++ map_of (rev xs))"
proof (induction xs arbitrary: t m)
  case (Cons x xs)
  obtain i n where x: "x = (i, n)" by (cases x)
  obtain r t1 where t1: "check i n t = Some (Inr (r, t1))" "rep t1 (m(i \<mapsto> n))"
    using rep_check [OF Cons.prems] by blast
  obtain rs t' where t': "check_all check xs t1 = Some (Inr (rs, t'))" "rep t' (m(i \<mapsto> n) ++ map_of (rev xs))"
    using Cons.IH [OF t1(2)] by blast
  have "m ++ map_of (rev (x # xs)) = m(i \<mapsto> n) ++ map_of (rev xs)" by (simp add: x map_add_upd_left)
  with t1 t' x show ?case by simp
qed simp

lemma duplicate_iff:
  "\<exists>rs t r t'. check_all check xs start = Some (Inr (rs, t)) \<and> check i n t = Some (Inr (r, t')) \<and>
     r = (case map_of (rev xs) i of None \<Rightarrow> 0 | Some k \<Rightarrow> if k = n then 2 else 1)"
proof -
  obtain rs t where "check_all check xs start = Some (Inr (rs, t))" "rep t (map_of (rev xs))"
    using check_sequence [OF rep_start, of xs] by auto
  with rep_check [of t _ i n] show ?thesis by blast
qed

end

lemma hl_rep_new: "hl_rep newHList []"
  by (simp add: hl_rep_def newHList_def hl_entries_def)

interpretation hl: duplicate_table chkAddUpdHListLink newHList "\<lambda>h m. \<exists>ys. hl_rep h ys \<and> m = map_of ys"
proof
  show "\<exists>ys. hl_rep newHList ys \<and> Map.empty = map_of ys" using hl_rep_new by force
next
  fix h m i n
  assume "\<exists>ys. hl_rep h ys \<and> m = map_of ys"
  then obtain ys where ys: "hl_rep h ys" "m = map_of ys" by blast
  have "m(i \<mapsto> n) = map_of (seen_update i n ys)" by (simp add: ys(2) map_of_seen_update)
  with ys chk_refines [OF ys(1), of i n] show "\<exists>h'. chkAddUpdHListLink i n h =
      Some (Inr (case m i of None \<Rightarrow> 0 | Some k \<Rightarrow> if k = n then 2 else 1, h')) \<and>
      (\<exists>ys. hl_rep h' ys \<and> m(i \<mapsto> n) = map_of ys)"
    unfolding seen_check_def by blast
qed

text \<open>
  C33: on a well-formed list every operation returns, without touching a cell that is not in the
  list, and does to the sequence of entries what it promises: checking a host updates its entry
  or appends one, deleting removes it, emptying frees every cell.
\<close>

theorem hlist_refines:
  assumes "hl_rep h ys"
  shows "(\<exists>h'. chkAddUpdHListLink i n h = Some (Inr (seen_check i n ys, h')) \<and> hl_rep h' (seen_update i n ys)) \<and>
    (\<exists>h'. updateHListLink hl_oper_del i n h = Some (Inr (if i \<in> fst ` set ys then 0 else 1, h')) \<and>
      hl_rep h' (filter (\<lambda>e. fst e \<noteq> i) ys)) \<and>
    (\<exists>h'. emptyHListLink h = Some (Inr h') \<and> hl_rep h' [] \<and> cells h' = Map.empty)"
  using chk_refines [OF assms] del_refines [OF assms] empty_refines [OF assms] by blast

theorem hlist_refines_witness:
  "\<exists>h h'. hl_rep h [(7, 1)] \<and> chkAddUpdHListLink 7 2 h = Some (Inr (1, h')) \<and> hl_rep h' [(7, 2)]"
proof -
  obtain h where h: "hl_rep h [(7, 1)]" using hlist_refines [OF hl_rep_new, of 7 1] by auto
  with hlist_refines [OF h, of 7 2] show ?thesis by (auto simp: seen_check_def)
qed

text \<open>
  C34: the duplicate check answers by the last sequence number seen from the host: after any
  sequence of frames, a frame is reported as a duplicate exactly when the last frame of its
  host had the same sequence number, and as new exactly when its host was never seen.
\<close>

theorem duplicate_detection:
  "\<exists>rs h r h'. check_all chkAddUpdHListLink xs newHList = Some (Inr (rs, h)) \<and>
     chkAddUpdHListLink i n h = Some (Inr (r, h')) \<and>
     (r = 2 \<longleftrightarrow> map_of (rev xs) i = Some n) \<and> (r = 0 \<longleftrightarrow> i \<notin> fst ` set xs)"
proof -
  have "map_of (rev xs) i = None \<longleftrightarrow> i \<notin> fst ` set xs" by (simp add: map_of_eq_None_iff)
  with hl.duplicate_iff [of xs i n] show ?thesis by (auto split: option.splits if_splits)
qed

end
