(* ===== verification/Mac_State.thy ===== *)
theory Mac_State
  imports Ieee802154 HList_Link
begin

text \<open>
  The state of the MAC module (\<open>srwsn802154MAC.h\<close>) as a record, the statements its functions are
  made of, and its basic operations: timers, frame buffers, requests to the physical layer and
  the utility functions of \<open>srwsn802154MAC.cc\<close>.

  Frames are objects on a heap, buffers are pointers to them (\<open>None\<close> is the null pointer): which
  buffers refer to the same frame, and whether a pointer outlives its frame, is part of the
  behaviour.
\<close>

section \<open>State\<close>

type_synonym fptr = "nat option"

record taskPending =
  mcps_data_request :: bool
  mcps_data_request_STEP :: u8
  mcps_data_request_frFunc :: string
  mcps_data_request_TxOption :: Ieee802154TxOption
  CCA_csmaca :: bool
  RX_ON_csmaca :: bool

text \<open>What the module hands to its gates and to the queue above it.\<close>

datatype macoutput =
    SendFrame Ieee802154Frame
  | SetTrxState PHYenum
  | SetChannel int
  | CcaRequest
  | SendUp nat
  | RequestPacket

record MacStats =
  numUpperPkt :: int
  numUpperPktLost :: int
  numCollision :: int
  numTxBcnPkt :: int
  numTxDataSucc :: int
  numTxDataFail :: int
  numTxGTSSucc :: int
  numTxGTSFail :: int
  numTxAckPkt :: int
  numRxBcnPkt :: int
  numRxDataPkt :: int
  numRxGTSPkt :: int
  numRxAckPkt :: int
  numTxAckInactive :: int

record Mac =
  ack4Data :: bool
  ack4Gts :: bool
  secuData :: bool
  secuBeacon :: bool
  isPANCoor :: bool
  dataTransMode :: Ieee802154TxOption
  isRecvGTS :: bool
  gtsPayload :: int
  queueModule :: bool
  taskP :: taskPending
  trx_state_req :: PHYenum
  phyCurrentChannel :: int
  phy_bitrate :: rat
  phy_symbolrate :: rat
  aExtendedAddress :: u16
  mpib :: MAC_PIB
  capability :: DevCapability
  rxBO :: u8
  rxSO :: u8
  txSfSlotDuration :: u32
  rxSfSlotDuration :: u32
  txBcnDuration :: u8
  rxBcnDuration :: u8
  bPeriod :: rat
  bcnRxTime :: rat
  schedBcnRxTime :: rat
  txSfSpec :: SuperframeSpec
  rxSfSpec :: SuperframeSpec
  rxPanDescriptor :: PAN_ELE
  beaconEnabled :: bool
  beaconWaitingTx :: bool
  notAssociated :: bool
  bcnLossCounter :: u8
  NB :: u8
  CW :: u8
  BE :: u8
  backoffStatus :: u8
  bPeriodsLeft :: int
  csmacaAckReq :: bool
  csmacaWaitNextBeacon :: bool
  gtsCount :: u8
  gtsList :: "GTSDescriptor list"
  tmp_finalCap :: u8
  indexCurrGts :: u8
  gtsLength :: u8
  gtsStartSlot :: u8
  gtsTransDuration :: rat
  frames :: "nat \<rightharpoonup> Ieee802154Frame"
  txPkt :: fptr
  txBeacon :: fptr
  txBcnCmdUpper :: fptr
  txBcnCmd :: fptr
  txData :: fptr
  txGTS :: fptr
  txAck :: fptr
  txCsmaca :: fptr
  tmpCsmaca :: fptr
  rxData :: fptr
  rxCmd :: fptr
  timers :: "Ieee802154MacTimerType \<Rightarrow> rat option"
  lastTime_bcnRxTimer :: rat
  txNow_bcnTxTimer :: bool
  inTxSD_txSDTimer :: bool
  inRxSD_rxSDTimer :: bool
  index_gtsTimer :: u8
  inTransmission :: bool
  waitBcnCmdAck :: bool
  waitBcnCmdUpperAck :: bool
  waitDataAck :: bool
  waitGTSAck :: bool
  numBcnCmdRetry :: u8
  numBcnCmdUpperRetry :: u8
  numDataRetry :: u8
  numGTSRetry :: u8
  hlistBLink :: hlist
  hlistDLink :: hlist
  deviceList :: "u16 \<rightharpoonup> DevCapability"
  stats :: MacStats
  draws :: rng
  macOut :: "macoutput list"

text \<open>
  What an event finds in its surroundings: the simulation time, the address a frame object created
  now gets, the address of the message that arrives, and what uninitialised local variables hold (the acknowledgement flag of a frame that is
  sent indirectly, and the variable \<open>i\<close> of \<open>handleLowerMsg\<close>).
\<close>

record MacEnv =
  simTime :: rat
  new_addr :: nat
  msg_addr :: nat
  junk_ackReq :: bool
  junk_i :: int

section \<open>Statements\<close>

text \<open>
  A function of the module is a statement: it may change the state, fault, or not return. A
  block is a list of statements; a call returns a value as well.
\<close>

type_synonym stmt = "Mac \<Rightarrow> Mac res option"
type_synonym 'a call = "Mac \<Rightarrow> ('a \<times> Mac) res option"

primrec doM :: "stmt list \<Rightarrow> stmt" where
  "doM [] s = Some (Inr s)"
| "doM (c # cs) s = bindO (c s) (doM cs)"

definition upd :: "(Mac \<Rightarrow> Mac) \<Rightarrow> stmt" where
  "upd f s = Some (Inr (f s))"

definition ifM :: "(Mac \<Rightarrow> bool) \<Rightarrow> stmt \<Rightarrow> stmt \<Rightarrow> stmt" where
  "ifM b c d s = (if b s then c s else d s)"

definition whenM :: "(Mac \<Rightarrow> bool) \<Rightarrow> stmt \<Rightarrow> stmt" where
  "whenM b c s = (if b s then c s else Some (Inr s))"

definition assertM :: "(Mac \<Rightarrow> bool) \<Rightarrow> stmt" where
  "assertM b s = (if b s then Some (Inr s) else Some (Inl AssertFailed))"

definition errorM :: "string \<Rightarrow> stmt" where
  "errorM e s = Some (Inl (RuntimeError e))"

definition valM :: "(Mac \<Rightarrow> 'a res) \<Rightarrow> ('a \<Rightarrow> stmt) \<Rightarrow> stmt" where
  "valM e k s = bindO (Some (e s)) (\<lambda>x. k x s)"

definition callM :: "'a call \<Rightarrow> ('a \<Rightarrow> stmt) \<Rightarrow> stmt" where
  "callM f k s = bindO (f s) (\<lambda>(x, s). k x s)"

section \<open>Frame objects\<close>

definition deref :: "fptr \<Rightarrow> Mac \<Rightarrow> Ieee802154Frame res" where
  "deref p s = (case p of None \<Rightarrow> Inl NullDeref
     | Some a \<Rightarrow> (case frames s a of None \<Rightarrow> Inl DanglingPointer | Some f \<Rightarrow> Inr f))"

text \<open>\<open>check_and_cast\<close> refuses a null pointer.\<close>

definition check_and_cast :: "fptr \<Rightarrow> Mac \<Rightarrow> Ieee802154Frame res" where
  "check_and_cast p s = (if p = None then Inl (RuntimeError ''check_and_cast'') else deref p s)"

definition deleteM :: "(Mac \<Rightarrow> fptr) \<Rightarrow> stmt" where
  "deleteM p s = (case p s of None \<Rightarrow> Some (Inr s)
     | Some a \<Rightarrow> if frames s a = None then Some (Inl DanglingPointer)
                 else Some (Inr (s\<lparr>frames := (frames s)(a := None)\<rparr>)))"

definition newM :: "MacEnv \<Rightarrow> (Mac \<Rightarrow> Ieee802154Frame res) \<Rightarrow> (fptr \<Rightarrow> stmt) \<Rightarrow> stmt" where
  "newM w f k s = bindO (Some (f s)) (\<lambda>f. k (Some (new_addr w)) (s\<lparr>frames := (frames s)(new_addr w \<mapsto> f)\<rparr>))"

section \<open>Requests to the physical layer, sending\<close>

definition emit :: "macoutput \<Rightarrow> stmt" where
  "emit out s = Some (Inr (s\<lparr>macOut := macOut s @ [out]\<rparr>))"

definition PLME_SET_TRX_STATE_request :: "PHYenum \<Rightarrow> stmt" where
  "PLME_SET_TRX_STATE_request state s = Some (Inr (s\<lparr>macOut := macOut s @ [SetTrxState state], trx_state_req := state\<rparr>))"

definition PLME_SET_request :: "int \<Rightarrow> PHYPIBenum \<Rightarrow> stmt" where
  "PLME_SET_request channel attr =
     (case attr of PHY_CURRENT_CHANNEL \<Rightarrow> emit (SetChannel channel) | _ \<Rightarrow> errorM ''invalid PHY PIB attribute'')"

definition PLME_CCA_request :: stmt where
  "PLME_CCA_request = emit CcaRequest"

definition sendDown :: "Ieee802154Frame \<Rightarrow> stmt" where
  "sendDown frame s = Some (Inr (s\<lparr>inTransmission := True, macOut := macOut s @ [SendFrame frame]\<rparr>))"

definition reqtMsgFromIFq :: stmt where
  "reqtMsgFromIFq = whenM queueModule (emit RequestPacket)"

definition resetTRX :: stmt where
  "resetTRX s =
     (let t_state =
        (if macBeaconOrder (mpib s) \<noteq> 15 \<or> rxBO s \<noteq> 15 then
           (if \<not> inTxSD_txSDTimer s \<and> \<not> inRxSD_rxSDTimer s then phy_TRX_OFF
            else if inTxSD_txSDTimer s then phy_RX_ON
            else if macRxOnWhenIdle (mpib s) then phy_RX_ON else phy_TRX_OFF)
         else if macRxOnWhenIdle (mpib s) then phy_RX_ON else phy_TRX_OFF)
      in PLME_SET_TRX_STATE_request t_state s)"

definition MCPS_DATA_confirm :: "MACenum \<Rightarrow> stmt" where
  "MCPS_DATA_confirm status s = Some (Inr s)"

text \<open>The data frame's packet goes up and the frame is deleted.\<close>

definition MCPS_DATA_indication :: "(Mac \<Rightarrow> fptr) \<Rightarrow> stmt" where
  "MCPS_DATA_indication p =
     valM (\<lambda>s. deref (p s) s) (\<lambda>f. doM
      [upd (\<lambda>s. if isGTS f then s\<lparr>stats := (stats s)\<lparr>numRxGTSPkt := numRxGTSPkt (stats s) + 1\<rparr>\<rparr>
                else s\<lparr>stats := (stats s)\<lparr>numRxDataPkt := numRxDataPkt (stats s) + 1\<rparr>\<rparr>),
       deleteM p,
       (case frame_class f of DataFrame (Some d) \<Rightarrow> emit (SendUp d)
        | _ \<Rightarrow> (\<lambda>s. Some (Inl (KernelError ''send: message is NULL''))))])"

section \<open>Utility functions\<close>

definition calMHRByteLength :: "u8 \<Rightarrow> int res" where
  "calMHRByteLength addrModeSum =
     (if addrModeSum = 0 then Inr 3 else if addrModeSum = 2 then Inr 7 else if addrModeSum = 3 then Inr 13
      else if addrModeSum = 4 then Inr 11 else if addrModeSum = 5 then Inr 17 else if addrModeSum = 6 then Inr 23
      else Inl (RuntimeError ''impossible address mode sum''))"

definition calFrmByteLength :: "Ieee802154Frame \<Rightarrow> int res" where
  "calFrmByteLength frame =
     bindR (calMHRByteLength (srcAddrMode (frmCtrl frame) + dstAddrMode (frmCtrl frame))) (\<lambda>MHRLength.
       case frmType (frmCtrl frame) of
         Ieee802154_BEACON \<Rightarrow>
           (case frame_class frame of BeaconFrame _ \<Rightarrow> Inr (MHRLength + 6) | _ \<Rightarrow> Inl (RuntimeError ''check_and_cast''))
       | Ieee802154_DATA \<Rightarrow> Inr (11 + 2)
       | Ieee802154_ACK \<Rightarrow> Inr SIZE_OF_802154_ACK
       | Ieee802154_CMD \<Rightarrow>
           (case frame_class frame of
              CmdFrame cmd \<Rightarrow>
                (case cmd of
                   Ieee802154_ASSOCIATION_REQUEST \<Rightarrow> Inr (MHRLength + 4)
                 | Ieee802154_ASSOCIATION_RESPONSE \<Rightarrow> Inr SIZE_OF_802154_ASSOCIATION_RESPONSE
                 | Ieee802154_DISASSOCIATION_NOTIFICATION \<Rightarrow> Inr SIZE_OF_802154_DISASSOCIATION_NOTIFICATION
                 | Ieee802154_DATA_REQUEST \<Rightarrow> Inr (MHRLength + 3)
                 | Ieee802154_PANID_CONFLICT_NOTIFICATION \<Rightarrow> Inr SIZE_OF_802154_PANID_CONFLICT_NOTIFICATION
                 | Ieee802154_ORPHAN_NOTIFICATION \<Rightarrow> Inr SIZE_OF_802154_ORPHAN_NOTIFICATION
                 | Ieee802154_BEACON_REQUEST \<Rightarrow> Inr SIZE_OF_802154_BEACON_REQUEST
                 | Ieee802154_COORDINATOR_REALIGNMENT \<Rightarrow> Inr (MHRLength + 10)
                 | Ieee802154_GTS_REQUEST \<Rightarrow> Inr SIZE_OF_802154_GTS_REQUEST
                 | other_cmd_type \<Rightarrow> Inl (RuntimeError ''MAC command frame with unknown type''))
            | _ \<Rightarrow> Inl (RuntimeError ''check_and_cast''))
       | other_frame_type \<Rightarrow> Inl (RuntimeError ''MAC frame with unknown type''))"

definition calDuration :: "Ieee802154Frame \<Rightarrow> Mac \<Rightarrow> rat" where
  "calDuration frame s = of_int (def_phyHeaderLength * 8 + byteLength frame * 8) / phy_bitrate s"

definition getRate :: "bool \<Rightarrow> int \<Rightarrow> rat" where
  "getRate bits channel =
     (if channel = 0 then (if bits then BR_868M else SR_868M)
      else if channel \<le> 10 then (if bits then BR_915M else SR_915M)
      else (if bits then BR_2_4G else SR_2_4G)) * 1000"

definition toParent :: "Ieee802154Frame \<Rightarrow> Mac \<Rightarrow> bool" where
  "toParent frame s \<longleftrightarrow>
     dstAddrMode (frmCtrl frame) = defFrmCtrl_AddrMode16 \<and> dstAddr frame = macCoordShortAddress (mpib s) \<or>
     dstAddrMode (frmCtrl frame) = defFrmCtrl_AddrMode64 \<and> dstAddr frame = macCoordExtendedAddress (mpib s)"

text \<open>The inter-frame space a frame of this length is followed by, in symbols.\<close>

definition ifs_of :: "int \<Rightarrow> u8" where
  "ifs_of len = (if len \<le> uint aMaxSIFSFrameSize then aMinSIFSPeriod else aMinLIFSPeriod)"

text \<open>Duration of a beacon in backoff periods, rounded up.\<close>

definition bcn_periods :: "Ieee802154Frame \<Rightarrow> Mac \<Rightarrow> u8 res" where
  "bcn_periods frame s =
     (let tmpf = calDuration frame s * phy_symbolrate s + of_int (uint (ifs_of (byteLength frame))) in
      bindR (to_u8 (tmpf / of_int (uint aUnitBackoffPeriod))) (\<lambda>n.
        Inr (if fmod tmpf (of_int (uint aUnitBackoffPeriod)) > 0 then n + 1 else n)))"

section \<open>Timers\<close>

definition isScheduled :: "Ieee802154MacTimerType \<Rightarrow> Mac \<Rightarrow> bool" where
  "isScheduled t s \<longleftrightarrow> timers s t \<noteq> None"

definition cancelTimer :: "Ieee802154MacTimerType \<Rightarrow> stmt" where
  "cancelTimer t s = Some (Inr (s\<lparr>timers := (timers s)(t := None)\<rparr>))"

text \<open>Cancel a pending timer, then schedule it; the kernel refuses a time in the past.\<close>

definition startTimer :: "Ieee802154MacTimerType \<Rightarrow> MacEnv \<Rightarrow> rat \<Rightarrow> stmt" where
  "startTimer t w wtime s =
     (if wtime < 0 then Some (Inl (KernelError ''scheduleAt: cannot schedule to the past''))
      else Some (Inr (s\<lparr>timers := (timers s)(t := Some (simTime w + wtime))\<rparr>)))"

definition startBackoffTimer :: "MacEnv \<Rightarrow> rat \<Rightarrow> stmt" where
  "startBackoffTimer = startTimer MAC_BACKOFF_TIMER"

definition startDeferCCATimer :: "MacEnv \<Rightarrow> rat \<Rightarrow> stmt" where
  "startDeferCCATimer = startTimer MAC_DEFER_CCA_TIMER"

definition startTxAckBoundTimer :: "MacEnv \<Rightarrow> rat \<Rightarrow> stmt" where
  "startTxAckBoundTimer = startTimer MAC_TX_ACK_BOUND_TIMER"

definition startTxCmdDataBoundTimer :: "MacEnv \<Rightarrow> rat \<Rightarrow> stmt" where
  "startTxCmdDataBoundTimer = startTimer MAC_TX_CMD_DATA_BOUND_TIMER"

definition startGtsTimer :: "MacEnv \<Rightarrow> rat \<Rightarrow> stmt" where
  "startGtsTimer = startTimer MAC_GTS_TIMER"

definition startFinalCapTimer :: "MacEnv \<Rightarrow> rat \<Rightarrow> stmt" where
  "startFinalCapTimer = startTimer MAC_FINAL_CAP_TIMER"

text \<open>A number of symbols as time.\<close>

definition symbols :: "'a::len word \<Rightarrow> Mac \<Rightarrow> rat" where
  "symbols n s = of_int (uint n) / phy_symbolrate s"

definition startAckTimeoutTimer :: "MacEnv \<Rightarrow> stmt" where
  "startAckTimeoutTimer w s = startTimer MAC_ACK_TIMEOUT_TIMER w (symbols (macAckWaitDuration (mpib s)) s) s"

definition startIfsTimer :: "MacEnv \<Rightarrow> bool \<Rightarrow> stmt" where
  "startIfsTimer w sifs s = startTimer MAC_IFS_TIMER w (symbols (if sifs then aMinSIFSPeriod else aMinLIFSPeriod) s) s"

definition startTxSDTimer :: "MacEnv \<Rightarrow> stmt" where
  "startTxSDTimer w = doM
    [assertM (\<lambda>s. \<not> inTxSD_txSDTimer s),
     (\<lambda>s. startTimer MAC_TX_SD_TIMER w (symbols (ucast aNumSuperframeSlots * txSfSlotDuration s) s) s),
     upd (\<lambda>s. s\<lparr>inTxSD_txSDTimer := True\<rparr>)]"

definition startRxSDTimer :: "MacEnv \<Rightarrow> stmt" where
  "startRxSDTimer w = doM
    [assertM (\<lambda>s. \<not> inRxSD_rxSDTimer s),
     (\<lambda>s. let wtime = symbols (ucast aNumSuperframeSlots * rxSfSlotDuration s) s + bcnRxTime s - simTime w
          in doM [assertM (\<lambda>_. wtime > 0), startTimer MAC_RX_SD_TIMER w wtime] s),
     upd (\<lambda>s. s\<lparr>inRxSD_rxSDTimer := True\<rparr>)]"

text \<open>
  The beacon interval of the incoming superframe, and the loop that finds the last beacon
  that should have arrived.
\<close>

definition rxBI :: "Mac \<Rightarrow> rat" where
  "rxBI s = symbols (BI (rxSfSpec s)) s"

partial_function (option) bcnRx_loop :: "rat \<Rightarrow> rat \<Rightarrow> rat \<Rightarrow> rat option" where
  "bcnRx_loop now bi t = (if now - t > bi then bcnRx_loop now bi (t + bi) else Some t)"

definition startBcnRxTimer :: "MacEnv \<Rightarrow> stmt" where
  "startBcnRxTimer w s =
     (let now = simTime w; bi = rxBI s; len12s = symbols aTurnaroundTime s in
      case bcnRx_loop now bi (bcnRxTime s) of
        None \<Rightarrow> None
      | Some t_bcnRxTime \<Rightarrow>
          (let wtime = bi - (now - t_bcnRxTime);
               wtime = (if wtime \<ge> len12s then wtime - len12s else wtime);
               wtime = (if now + wtime - lastTime_bcnRxTimer s < bi - len12s
                        then 2 * bi - now + t_bcnRxTime - len12s else wtime)
           in startTimer MAC_BCN_RX_TIMER w wtime (s\<lparr>lastTime_bcnRxTimer := now + wtime\<rparr>)))"

end
