(* ===== verification/Mac_Csma.thy ===== *)
theory Mac_Csma
  imports Mac_State
begin

text \<open>
  The CSMA/CA functions of \<open>srwsn802154MAC.cc\<close> up to the start of a backoff: backoff boundaries,
  the end of the contention access period (CAP), the evaluation whether a transmission still
  fits, starting, resuming and cancelling the algorithm.
\<close>

section \<open>Backoff boundaries\<close>

partial_function (option) sched_loop :: "rat \<Rightarrow> rat \<Rightarrow> rat \<Rightarrow> rat option" where
  "sched_loop now bi t = (if t + bi < now then sched_loop now bi (t + bi) else Some t)"

text \<open>\<open>schedBcnRxTime\<close>: the latest time a beacon should have arrived.\<close>

definition set_schedBcnRxTime :: "MacEnv \<Rightarrow> stmt" where
  "set_schedBcnRxTime w s =
     (if rxBO s \<noteq> 15 then
        (case sched_loop (simTime w) (rxBI s) (bcnRxTime s) of
           None \<Rightarrow> None | Some t \<Rightarrow> Some (Inr (s\<lparr>schedBcnRxTime := t\<rparr>)))
      else Some (Inr s))"

definition csmacaLocateBoundary :: "MacEnv \<Rightarrow> bool \<Rightarrow> rat \<Rightarrow> rat call" where
  "csmacaLocateBoundary w toPar wtime s =
     (if macBeaconOrder (mpib s) = 15 \<and> rxBO s = 15 then Some (Inr (wtime, s))
      else
        (let align = (if toPar then (if rxBO s = 15 then 1 else 2)
                      else if macBeaconOrder (mpib s) = 15 then 2 else (1 :: int))
         in bindO (set_schedBcnRxTime w s) (\<lambda>s.
            let bcnTxRxTime = (if align = 1 then macBeaconTxTime (mpib s) else schedBcnRxTime s);
                newtime = fmod (simTime w + wtime - bcnTxRxTime) (bPeriod s)
            in Some (Inr (if newtime > 0 then wtime + (bPeriod s - newtime) else wtime, s)))))"

definition csmacaAdjustTime :: "MacEnv \<Rightarrow> rat \<Rightarrow> Mac \<Rightarrow> rat res" where
  "csmacaAdjustTime w wtime s =
     assertR (tmpCsmaca s \<noteq> None)
       (bindR (deref (tmpCsmaca s) s) (\<lambda>frame.
          Inr (if \<not> toParent frame s then
                 (if macBeaconOrder (mpib s) \<noteq> 15 then
                    (let neg = simTime w - of_int (uint (txBcnDuration s)) * bPeriod s + wtime - macBeaconTxTime (mpib s)
                     in if neg < 0 then wtime - neg else wtime)
                  else wtime)
               else
                 (if rxBO s \<noteq> 15 then
                    (let neg = simTime w - of_int (uint (rxBcnDuration s)) * bPeriod s + wtime - schedBcnRxTime s
                     in if neg < 0 then wtime - neg else wtime)
                  else wtime))))"

section \<open>The end of the contention access period\<close>

partial_function (option) finalCAP_loop :: "rat \<Rightarrow> rat \<Rightarrow> rat \<Rightarrow> rat option" where
  "finalCAP_loop now bi t = (if t < now then finalCAP_loop now bi (t + bi) else Some t)"

text \<open>\<open>getFinalCAP\<close>, with \<open>tx\<close> for the argument \<open>'t'\<close>.\<close>

definition getFinalCAP :: "MacEnv \<Rightarrow> bool \<Rightarrow> Mac \<Rightarrow> rat res option" where
  "getFinalCAP w tx s =
     (let now = simTime w; oneDay = now + 24 * 3600;
          txSlotDuration = symbols (txSfSlotDuration s) s; rxSlotDuration = symbols (rxSfSlotDuration s) s
      in if macBeaconOrder (mpib s) = 15 \<and> rxBO s = 15 then Some (Inr oneDay)
         else if tx then
           (if macBeaconOrder (mpib s) \<noteq> 15 then
              (if battLifeExt (txSfSpec s) then Some (Inl (RuntimeError ''this function TBD''))
               else
                 (let txCAP = macBeaconTxTime (mpib s) + of_int (uint (finalCap (txSfSpec s)) + 1) * txSlotDuration
                  in Some (Inr (if txCAP \<ge> now then txCAP else oneDay))))
            else Some (Inr oneDay))
         else
           (if rxBO s \<noteq> 15 then
              (if battLifeExt (rxSfSpec s) then Some (Inl (RuntimeError ''this function TBD''))
               else
                 (let rxCAP = bcnRxTime s + of_int (uint (finalCap (rxSfSpec s)) + 1) * rxSlotDuration;
                      tmpf = of_int (uint aMaxLostBeacons) * rxBI s
                  in if rxCAP < now \<and> rxCAP + tmpf \<ge> now
                     then map_option (\<lambda>t. Inr (if t \<ge> now then t else oneDay)) (finalCAP_loop now (rxBI s) rxCAP)
                     else Some (Inr (if rxCAP \<ge> now then rxCAP else oneDay))))
            else Some (Inr oneDay)))"

section \<open>Whether a transmission fits\<close>

text \<open>
  The end of the CAP as check 1 computes it, and the number of backoff periods of check 2 that
  do not fit into the CAP that began at \<open>start\<close>.
\<close>

definition cap_end :: "rat \<Rightarrow> SuperframeSpec \<Rightarrow> u32 \<Rightarrow> Mac \<Rightarrow> rat" where
  "cap_end start spec slot s = start + symbols ((ucast (finalCap spec) + 1) * slot) s"

definition cap_periods :: "SuperframeSpec \<Rightarrow> u32 \<Rightarrow> u8 \<Rightarrow> u16" where
  "cap_periods spec slot bcn = ucast ((ucast (finalCap spec) + 1) * slot div ucast aUnitBackoffPeriod - ucast bcn)"

definition periods_left :: "MacEnv \<Rightarrow> rat \<Rightarrow> SuperframeSpec \<Rightarrow> u32 \<Rightarrow> u8 \<Rightarrow> rat \<Rightarrow> Mac \<Rightarrow> int res" where
  "periods_left w start spec slot bcn wtime s =
     (let tmpf = simTime w + wtime - start in
      bindR (to_u16 (tmpf / bPeriod s - of_int (uint bcn))) (\<lambda>t_bPeriods.
        let t_bPeriods = (if fmod tmpf (bPeriod s) > 0 then t_bPeriods + 1 else t_bPeriods)
        in Inr (uint t_bPeriods - uint (cap_periods spec slot bcn))))"

text \<open>As a device the next beacon must be tracked; then wait for it.\<close>

definition wait_next_beacon :: "MacEnv \<Rightarrow> bool call" where
  "wait_next_beacon w s =
     bindO (if rxBO s \<noteq> 15 \<and> \<not> isScheduled MAC_BCN_RX_TIMER s then startBcnRxTimer w s else Some (Inr s)) (\<lambda>s.
       Some (Inr (False, s\<lparr>csmacaWaitNextBeacon := True\<rparr>)))"

text \<open>The time the whole transaction takes (check 3).\<close>

definition transac_time :: "MacEnv \<Rightarrow> bool \<Rightarrow> Ieee802154Frame \<Rightarrow> rat call" where
  "transac_time w afterCCA frame s =
     (let t_CCATime = 8 / phy_symbolrate s; t_IFS = symbols (ifs_of (byteLength frame)) s in
      bindO (if \<not> afterCCA
             then bindO (csmacaLocateBoundary w (toParent frame s) t_CCATime s) (\<lambda>(b, s).
                    Some (Inr (t_CCATime + (b - t_CCATime) + t_CCATime, s)))
             else Some (Inr (0, s))) (\<lambda>(t, s).
      bindO (csmacaLocateBoundary w (toParent frame s) t s) (\<lambda>(b, s).
        let t = t + (b - t) + calDuration frame s;
            t = (if csmacaAckReq s then t + symbols (macAckWaitDuration (mpib s)) s + t_IFS
                 else t + symbols aTurnaroundTime s + t_IFS)
        in Some (Inr (t, s)))))"

definition final_cap_of :: "MacEnv \<Rightarrow> Ieee802154Frame \<Rightarrow> Mac \<Rightarrow> rat res option" where
  "final_cap_of w frame s =
     (if \<not> toParent frame s then getFinalCAP w (macBeaconOrder (mpib s) \<noteq> 15) s
      else getFinalCAP w (rxBO s = 15) s)"

text \<open>Check 3, the last part of \<open>csmacaCanProceed\<close>.\<close>

definition can_finish :: "MacEnv \<Rightarrow> rat \<Rightarrow> bool \<Rightarrow> Ieee802154Frame \<Rightarrow> bool call" where
  "can_finish w wtime afterCCA frame s =
     bindO (transac_time w afterCCA frame s) (\<lambda>(t_transacTime, s).
     bindO (final_cap_of w frame s) (\<lambda>t_fCAP.
       if simTime w + wtime + t_transacTime > t_fCAP
       then wait_next_beacon w (s\<lparr>bPeriodsLeft := 0\<rparr>)
       else Some (Inr (True, s\<lparr>bPeriodsLeft := -1\<rparr>))))"

definition csmacaCanProceed :: "MacEnv \<Rightarrow> rat \<Rightarrow> bool \<Rightarrow> bool call" where
  "csmacaCanProceed w wtime afterCCA s =
     (let s = s\<lparr>csmacaWaitNextBeacon := False\<rparr>; now = simTime w in
      bindO (Some (deref (tmpCsmaca s) s)) (\<lambda>frame.
      bindO (csmacaLocateBoundary w (toParent frame s) wtime s) (\<lambda>(wtime, s).
      let par = toParent frame s;
          enabled = (if \<not> par then macBeaconOrder (mpib s) \<noteq> 15 else rxBO s \<noteq> 15);
          start = (if \<not> par then macBeaconTxTime (mpib s) else schedBcnRxTime s);
          spec = (if \<not> par then txSfSpec s else rxSfSpec s);
          slot = (if \<not> par then txSfSlotDuration s else rxSfSlotDuration s);
          bcn = (if \<not> par then txBcnDuration s else rxBcnDuration s)
      in if enabled \<and> now \<ge> cap_end start spec slot s
         then Some (Inr (False, s\<lparr>csmacaWaitNextBeacon := True, bPeriodsLeft := 0\<rparr>))
         else
           bindO (Some (if enabled then periods_left w start spec slot bcn wtime s else Inr (-1))) (\<lambda>left.
             let s = s\<lparr>bPeriodsLeft := left\<rparr>;
                 ok = (if left > 0 then False else if left = 0 then battLifeExt spec else True)
             in if \<not> ok then wait_next_beacon w s else can_finish w wtime afterCCA frame s))))"

section \<open>Running the algorithm\<close>

definition csmacaReset :: "bool \<Rightarrow> stmt" where
  "csmacaReset bcnEnabled s = Some (Inr
     (if bcnEnabled
      then (let be = macMinBE (mpib s) in
            s\<lparr>NB := 0, CW := 2, BE := (if macBattLifeExt (mpib s) \<and> be > 2 then 2 else be)\<rparr>)
      else s\<lparr>NB := 0, BE := macMinBE (mpib s)\<rparr>))"

text \<open>\<open>intrand(1<<BE)\<close>: the shift is undefined from 31 on.\<close>

definition choose_backoff :: "rat call" where
  "choose_backoff s =
     (if unat (BE s) < 31
      then Some (Inr (of_nat (rand_value (draws s) mod 2 ^ unat (BE s)) * bPeriod s, s\<lparr>draws := rand_next (draws s)\<rparr>))
      else Some (Inl UndefinedBehaviour))"

definition csmacaStart :: "MacEnv \<Rightarrow> bool \<Rightarrow> fptr \<Rightarrow> bool \<Rightarrow> stmt" where
  "csmacaStart w firsttime frame ackRequired =
     ifM (\<lambda>s. txAck s \<noteq> None) (upd (\<lambda>s. s\<lparr>backoffStatus := 0, tmpCsmaca := None\<rparr>)) (doM
      [assertM (\<lambda>s. \<not> isScheduled MAC_BACKOFF_TIMER s),
       whenM (\<lambda>_. firsttime) (doM
        [upd (\<lambda>s. s\<lparr>beaconEnabled := (macBeaconOrder (mpib s) \<noteq> 15 \<or> rxBO s \<noteq> 15)\<rparr>),
         (\<lambda>s. csmacaReset (beaconEnabled s) s),
         assertM (\<lambda>s. tmpCsmaca s = None),
         upd (\<lambda>s. s\<lparr>tmpCsmaca := frame, csmacaAckReq := ackRequired\<rparr>)]),
       set_schedBcnRxTime w,
       callM choose_backoff (\<lambda>wtime.
       valM (csmacaAdjustTime w wtime) (\<lambda>wtime.
       ifM beaconEnabled
         (callM (\<lambda>s. if firsttime
                     then bindO (Some (deref (tmpCsmaca s) s)) (\<lambda>f. csmacaLocateBoundary w (toParent f s) wtime s)
                     else Some (Inr (wtime, s))) (\<lambda>wtime.
          callM (csmacaCanProceed w wtime False) (\<lambda>backoff.
          whenM (\<lambda>_. backoff) (startBackoffTimer w wtime))))
         (startBackoffTimer w wtime)))])"

definition csmacaResume :: "MacEnv \<Rightarrow> stmt" where
  "csmacaResume w =
     whenM (\<lambda>s. backoffStatus s \<noteq> 99 \<and> \<not> inTransmission s)
      (ifM (\<lambda>s. txBcnCmd s \<noteq> None \<and> \<not> waitBcnCmdAck s)
        (doM [upd (\<lambda>s. s\<lparr>backoffStatus := 99, txCsmaca := txBcnCmd s\<rparr>),
              valM (\<lambda>s. deref (txBcnCmd s) s) (\<lambda>f s. csmacaStart w True (txBcnCmd s) (ackReq (frmCtrl f)) s)])
      (ifM (\<lambda>s. txBcnCmdUpper s \<noteq> None \<and> \<not> waitBcnCmdUpperAck s)
        (doM [upd (\<lambda>s. s\<lparr>backoffStatus := 99, txCsmaca := txBcnCmdUpper s\<rparr>),
              valM (\<lambda>s. deref (txBcnCmdUpper s) s) (\<lambda>f s. csmacaStart w True (txBcnCmdUpper s) (ackReq (frmCtrl f)) s)])
      (whenM (\<lambda>s. txData s \<noteq> None \<and> \<not> waitDataAck s)
        (doM [upd (\<lambda>s. s\<lparr>taskP := (taskP s)\<lparr>mcps_data_request_frFunc := ''csmacaCallBack'', mcps_data_request_STEP := 1\<rparr>,
                         backoffStatus := 99, txCsmaca := txData s\<rparr>),
              valM (\<lambda>s. deref (txData s) s) (\<lambda>f s. csmacaStart w True (txData s) (ackReq (frmCtrl f)) s)]))))"

definition csmacaCancel :: stmt where
  "csmacaCancel = doM
    [ifM (isScheduled MAC_BACKOFF_TIMER) (cancelTimer MAC_BACKOFF_TIMER)
      (ifM (isScheduled MAC_DEFER_CCA_TIMER) (cancelTimer MAC_DEFER_CCA_TIMER)
        (upd (\<lambda>s. s\<lparr>taskP := (taskP s)\<lparr>CCA_csmaca := False\<rparr>\<rparr>))),
     upd (\<lambda>s. s\<lparr>tmpCsmaca := None\<rparr>)]"

definition csmacaEntry :: "MacEnv \<Rightarrow> char \<Rightarrow> stmt" where
  "csmacaEntry w pktType =
     (if pktType = CHR ''c'' then doM
       [upd (\<lambda>s. s\<lparr>waitBcnCmdAck := False, numBcnCmdRetry := 0\<rparr>),
        whenM (\<lambda>s. backoffStatus s = 99) (doM [upd (\<lambda>s. s\<lparr>backoffStatus := 0\<rparr>), csmacaCancel]),
        csmacaResume w]
      else if pktType = CHR ''u'' then doM
       [upd (\<lambda>s. s\<lparr>waitBcnCmdUpperAck := False, numBcnCmdUpperRetry := 0\<rparr>),
        whenM (\<lambda>s. backoffStatus s = 99 \<and> txCsmaca s \<noteq> txBcnCmd s) (doM [upd (\<lambda>s. s\<lparr>backoffStatus := 0\<rparr>), csmacaCancel]),
        csmacaResume w]
      else doM
       [upd (\<lambda>s. s\<lparr>waitDataAck := False, numDataRetry := 0\<rparr>),
        csmacaResume w])"

definition csmacaTrxBeacon :: "MacEnv \<Rightarrow> stmt" where
  "csmacaTrxBeacon w = doM
    [whenM (\<lambda>s. txAck s = None) (PLME_SET_TRX_STATE_request phy_RX_ON),
     upd (\<lambda>s. s\<lparr>beaconEnabled := (macBeaconOrder (mpib s) \<noteq> 15 \<or> rxBO s \<noteq> 15)\<rparr>),
     (\<lambda>s. csmacaReset (beaconEnabled s) s),
     ifM (\<lambda>s. csmacaWaitNextBeacon s \<and> tmpCsmaca s \<noteq> None \<and> \<not> isScheduled MAC_BACKOFF_TIMER s)
       (doM [assertM (\<lambda>s. bPeriodsLeft s \<ge> 0),
             ifM (\<lambda>s. bPeriodsLeft s = 0) (csmacaStart w False None False)
               (\<lambda>s. let wtime = of_int (bPeriodsLeft s) * bPeriod s in
                    callM (csmacaCanProceed w wtime False) (\<lambda>ok. whenM (\<lambda>_. ok) (startBackoffTimer w wtime)) s)])
       (upd (\<lambda>s. s\<lparr>csmacaWaitNextBeacon := False\<rparr>))]"

section \<open>Backoff timers\<close>

definition handleBackoffTimer :: stmt where
  "handleBackoffTimer = doM
    [upd (\<lambda>s. s\<lparr>taskP := (taskP s)\<lparr>RX_ON_csmaca := True\<rparr>\<rparr>), PLME_SET_TRX_STATE_request phy_RX_ON]"

definition handleDeferCCATimer :: stmt where
  "handleDeferCCATimer = doM
    [upd (\<lambda>s. s\<lparr>taskP := (taskP s)\<lparr>CCA_csmaca := True\<rparr>\<rparr>), PLME_CCA_request]"

definition csmaca_handle_RX_ON_confirm :: "MacEnv \<Rightarrow> PHYenum \<Rightarrow> stmt" where
  "csmaca_handle_RX_ON_confirm w status =
     (if status \<noteq> phy_RX_ON then
        (if status = phy_BUSY_TX then upd (\<lambda>s. s\<lparr>taskP := (taskP s)\<lparr>RX_ON_csmaca := True\<rparr>\<rparr>)
         else handleBackoffTimer)
      else
        callM (\<lambda>s. if beaconEnabled s
                   then bindO (Some (deref (tmpCsmaca s) s)) (\<lambda>f. csmacaLocateBoundary w (toParent f s) 0 s)
                   else Some (Inr (0, s))) (\<lambda>wtime.
          if wtime = 0
          then doM [upd (\<lambda>s. s\<lparr>taskP := (taskP s)\<lparr>CCA_csmaca := True\<rparr>\<rparr>), PLME_CCA_request]
          else startDeferCCATimer w wtime))"

end
