(* ===== verification/Mac_Tasks.thy ===== *)
theory Mac_Tasks
  imports Mac_Csma
begin

text \<open>
  Tasks of \<open>srwsn802154MAC.cc\<close>: the state machine of a data request, the dispatch of results to it,
  the confirms of the physical layer, and the data request itself.
\<close>

section \<open>Task ends\<close>

definition set_task :: "bool \<Rightarrow> stmt" where
  "set_task b = upd (\<lambda>s. s\<lparr>taskP := (taskP s)\<lparr>mcps_data_request := b\<rparr>\<rparr>)"

definition goto_step :: "u8 \<Rightarrow> string \<Rightarrow> stmt" where
  "goto_step k f = upd (\<lambda>s. s\<lparr>taskP := (taskP s)\<lparr>mcps_data_request_STEP := k, mcps_data_request_frFunc := f\<rparr>\<rparr>)"

definition next_step :: "string \<Rightarrow> stmt" where
  "next_step f = upd (\<lambda>s. s\<lparr>taskP := (taskP s)\<lparr>mcps_data_request_STEP := mcps_data_request_STEP (taskP s) + 1,
     mcps_data_request_frFunc := f\<rparr>\<rparr>)"

text \<open>Access to the array of seven GTS descriptors.\<close>

definition gts_at :: "u8 \<Rightarrow> Mac \<Rightarrow> GTSDescriptor res" where
  "gts_at i s = (if unat i < length (gtsList s) then Inr (gtsList s ! unat i) else Inl UndefinedBehaviour)"

definition set_gts :: "u8 \<Rightarrow> (GTSDescriptor \<Rightarrow> GTSDescriptor) \<Rightarrow> stmt" where
  "set_gts i f = valM (gts_at i) (\<lambda>d. upd (\<lambda>s. s\<lparr>gtsList := (gtsList s)[unat i := f d]\<rparr>))"

text \<open>The PAN coordinator clears the pending mark of the current GTS.\<close>

definition clear_pending :: stmt where
  "clear_pending = whenM isPANCoor
     (valM (\<lambda>s. gts_at (indexCurrGts s) s) (\<lambda>d. doM
       [assertM (\<lambda>_. isTxPending d), (\<lambda>s. set_gts (indexCurrGts s) (\<lambda>d. d\<lparr>isTxPending := False\<rparr>) s)]))"

definition request_when_idle :: stmt where
  "request_when_idle = whenM (\<lambda>s. \<not> mcps_data_request (taskP s)) reqtMsgFromIFq"

definition beacon_sent :: "MacEnv \<Rightarrow> bool \<Rightarrow> stmt" where
  "beacon_sent w csmacaRes =
     valM (\<lambda>s. deref (txBeacon s) s) (\<lambda>f.
     valM (bcn_periods f) (\<lambda>n. doM
      [upd (\<lambda>s. s\<lparr>txBcnDuration := n\<rparr>),
       (\<lambda>s. let none = (cap_periods (txSfSpec s) (txSfSlotDuration s) n = 0) in doM
         [PLME_SET_TRX_STATE_request (if none then phy_TRX_OFF else phy_RX_ON),
          whenM (\<lambda>s. backoffStatus s = 99) (csmacaTrxBeacon w),
          upd (\<lambda>s. s\<lparr>beaconWaitingTx := False\<rparr>),
          deleteM txBeacon,
          upd (\<lambda>s. s\<lparr>txBeacon := None, stats := (stats s)\<lparr>numTxBcnPkt := numTxBcnPkt (stats s) + 1\<rparr>\<rparr>),
          whenM (\<lambda>_. csmacaRes \<and> \<not> none) (csmacaResume w)] s)]))"

definition ack_sent :: "MacEnv \<Rightarrow> bool \<Rightarrow> stmt" where
  "ack_sent w csmacaRes = doM
    [upd (\<lambda>s. s\<lparr>stats := (stats s)\<lparr>numTxAckPkt := numTxAckPkt (stats s) + 1\<rparr>\<rparr>),
     assertM (\<lambda>s. txAck s \<noteq> None),
     deleteM txAck,
     upd (\<lambda>s. s\<lparr>txAck := None\<rparr>),
     whenM (\<lambda>_. csmacaRes) (csmacaResume w)]"

definition data_sent :: "MacEnv \<Rightarrow> bool \<Rightarrow> stmt" where
  "data_sent w csmacaRes = doM
    [assertM (\<lambda>s. txData s \<noteq> None),
     deleteM txData,
     upd (\<lambda>s. s\<lparr>txData := None\<rparr>),
     MCPS_DATA_confirm mac_SUCCESS,
     upd (\<lambda>s. s\<lparr>stats := (stats s)\<lparr>numTxDataSucc := numTxDataSucc (stats s) + 1\<rparr>\<rparr>),
     request_when_idle,
     whenM (\<lambda>_. csmacaRes) (csmacaResume w)]"

definition gts_sent :: stmt where
  "gts_sent = doM
    [assertM (\<lambda>s. txGTS s \<noteq> None),
     clear_pending,
     deleteM txGTS,
     upd (\<lambda>s. s\<lparr>txGTS := None\<rparr>),
     MCPS_DATA_confirm mac_SUCCESS,
     upd (\<lambda>s. s\<lparr>stats := (stats s)\<lparr>numTxGTSSucc := numTxGTSSucc (stats s) + 1\<rparr>\<rparr>),
     request_when_idle]"

definition taskSuccess :: "MacEnv \<Rightarrow> char \<Rightarrow> bool \<Rightarrow> stmt" where
  "taskSuccess w type csmacaRes =
     (if type = CHR ''b'' then beacon_sent w csmacaRes
      else if type = CHR ''a'' then ack_sent w csmacaRes
      else if type = CHR ''d'' then data_sent w csmacaRes
      else if type = CHR ''g'' then gts_sent
      else assertM (\<lambda>_. False))"

definition taskFailed :: "MacEnv \<Rightarrow> char \<Rightarrow> MACenum \<Rightarrow> bool \<Rightarrow> stmt" where
  "taskFailed w type status csmacaRes =
     (if type = CHR ''b'' \<or> type = CHR ''a'' \<or> type = CHR ''c'' then assertM (\<lambda>_. False)
      else if type = CHR ''C'' then doM [deleteM txBcnCmdUpper, upd (\<lambda>s. s\<lparr>txBcnCmdUpper := None\<rparr>)]
      else if type = CHR ''d'' then doM
       [assertM (\<lambda>s. txData s \<noteq> None),
        deleteM txData,
        upd (\<lambda>s. s\<lparr>txData := None, stats := (stats s)\<lparr>numTxDataFail := numTxDataFail (stats s) + 1\<rparr>\<rparr>),
        MCPS_DATA_confirm status,
        whenM (\<lambda>_. csmacaRes) (csmacaResume w),
        request_when_idle]
      else if type = CHR ''g'' then doM
       [assertM (\<lambda>s. txGTS s \<noteq> None),
        clear_pending,
        deleteM txGTS,
        upd (\<lambda>s. s\<lparr>txGTS := None, stats := (stats s)\<lparr>numTxGTSFail := numTxGTSFail (stats s) + 1\<rparr>\<rparr>),
        MCPS_DATA_confirm status,
        request_when_idle]
      else doM [])"

definition checkTaskOverflow :: stmt where
  "checkTaskOverflow = ifM (\<lambda>s. mcps_data_request (taskP s)) (errorM ''task overflow'') (goto_step 0 [])"

section \<open>The state machine of a data request\<close>

definition FSM_direct :: "MacEnv \<Rightarrow> PHYenum \<Rightarrow> u8 \<Rightarrow> stmt" where
  "FSM_direct w pStatus k =
     (if k = 1 then
        (if pStatus = phy_IDLE then doM [next_step ''handle_PD_DATA_confirm'', PLME_SET_TRX_STATE_request phy_TX_ON]
         else csmacaResume w)
      else if k = 2 then
        valM (\<lambda>s. deref (txData s) s) (\<lambda>f.
          if ackReq (frmCtrl f) then doM
           [next_step ''handleAck'', PLME_SET_TRX_STATE_request phy_RX_ON, startAckTimeoutTimer w,
            upd (\<lambda>s. s\<lparr>waitDataAck := True\<rparr>)]
          else doM [set_task False, resetTRX, taskSuccess w CHR ''d'' True])
      else if k = 3 then
        (if pStatus = phy_SUCCESS then doM
          [set_task False, upd (\<lambda>s. s\<lparr>waitDataAck := False\<rparr>), resetTRX, taskSuccess w CHR ''d'' True]
         else doM
          [upd (\<lambda>s. s\<lparr>numDataRetry := numDataRetry s + 1\<rparr>),
           ifM (\<lambda>s. numDataRetry s \<le> aMaxFrameRetries)
            (doM [goto_step 1 ''csmacaCallBack'', upd (\<lambda>s. s\<lparr>waitDataAck := False\<rparr>), csmacaResume w])
            (doM [set_task False, upd (\<lambda>s. s\<lparr>waitDataAck := False\<rparr>), resetTRX, taskFailed w CHR ''d'' mac_NO_ACK True])])
      else doM [])"

definition FSM_gts :: "MacEnv \<Rightarrow> PHYenum \<Rightarrow> u8 \<Rightarrow> stmt" where
  "FSM_gts w pStatus k =
     (if k = 1 then doM
       [next_step ''handle_PD_DATA_confirm'', PLME_SET_TRX_STATE_request phy_FORCE_TRX_OFF,
        PLME_SET_TRX_STATE_request phy_TX_ON]
      else if k = 2 then
        valM (\<lambda>s. deref (txGTS s) s) (\<lambda>f.
          if ackReq (frmCtrl f) then doM
           [next_step ''handleAck'', PLME_SET_TRX_STATE_request phy_RX_ON, startAckTimeoutTimer w,
            upd (\<lambda>s. s\<lparr>waitGTSAck := True\<rparr>)]
          else doM
           [PLME_SET_TRX_STATE_request phy_FORCE_TRX_OFF, goto_step 4 ''handleIfsTimer'',
            startIfsTimer w (byteLength f \<le> uint aMaxSIFSFrameSize)])
      else if k = 3 then
        (if pStatus = phy_SUCCESS then doM
          [upd (\<lambda>s. s\<lparr>waitGTSAck := False\<rparr>), PLME_SET_TRX_STATE_request phy_FORCE_TRX_OFF, next_step ''handleIfsTimer'',
           valM (\<lambda>s. deref (txGTS s) s) (\<lambda>f. startIfsTimer w (byteLength f \<le> uint aMaxSIFSFrameSize))]
         else doM
          [upd (\<lambda>s. s\<lparr>numGTSRetry := numGTSRetry s + 1\<rparr>),
           ifM (\<lambda>s. numGTSRetry s \<le> aMaxFrameRetries)
            (doM [goto_step 1 ''handleGtsTimer'', upd (\<lambda>s. s\<lparr>waitGTSAck := False\<rparr>), PLME_SET_TRX_STATE_request phy_FORCE_TRX_OFF])
            (doM [set_task False, upd (\<lambda>s. s\<lparr>waitGTSAck := False\<rparr>), PLME_SET_TRX_STATE_request phy_FORCE_TRX_OFF,
                  taskFailed w CHR ''g'' mac_NO_ACK True])])
      else if k = 4 then doM [set_task False, taskSuccess w CHR ''g'' True]
      else doM [])"

definition FSM_MCPS_DATA_request :: "MacEnv \<Rightarrow> PHYenum \<Rightarrow> stmt" where
  "FSM_MCPS_DATA_request w pStatus s =
     (let k = mcps_data_request_STEP (taskP s) in
      case mcps_data_request_TxOption (taskP s) of
        DIRECT_TRANS \<Rightarrow> FSM_direct w pStatus k s
      | INDIRECT_TRANS \<Rightarrow> Some (Inr s)
      | GTS_TRANS \<Rightarrow> FSM_gts w pStatus k s
      | other_tx_option \<Rightarrow> errorM ''undefined txOption'' s)"

section \<open>Dispatch\<close>

definition task_waits :: "string \<Rightarrow> Mac \<Rightarrow> bool" where
  "task_waits frFunc s \<longleftrightarrow> mcps_data_request (taskP s) \<and> mcps_data_request_frFunc (taskP s) = frFunc"

definition ack_transmitted :: "MacEnv \<Rightarrow> stmt" where
  "ack_transmitted w =
     ifM (\<lambda>s. rxCmd s \<noteq> None)
       (valM (\<lambda>s. deref (rxCmd s) s) (\<lambda>f. doM
         [startIfsTimer w (byteLength f \<le> uint aMaxSIFSFrameSize), resetTRX, taskSuccess w CHR ''a'' True]))
     (ifM (\<lambda>s. rxData s \<noteq> None)
       (valM (\<lambda>s. deref (rxData s) s) (\<lambda>f. doM
         [startIfsTimer w (byteLength f \<le> uint aMaxSIFSFrameSize),
          (if isGTS f then ifM isPANCoor (PLME_SET_TRX_STATE_request phy_RX_ON) (PLME_SET_TRX_STATE_request phy_TRX_OFF)
           else resetTRX),
          taskSuccess w CHR ''a'' True]))
       (doM [resetTRX, taskSuccess w CHR ''a'' True]))"

definition dispatch :: "MacEnv \<Rightarrow> PHYenum \<Rightarrow> string \<Rightarrow> stmt" where
  "dispatch w pStatus frFunc =
     (if frFunc = ''csmacaCallBack'' then
        ifM (\<lambda>s. txCsmaca s = txBcnCmdUpper s) (doM [])
        (whenM (\<lambda>s. txCsmaca s = txData s)
          (doM [assertM (task_waits frFunc), FSM_MCPS_DATA_request w pStatus]))
      else if frFunc = ''handle_PD_DATA_confirm'' then
        ifM (\<lambda>s. txPkt s = txBeacon s) (doM [resetTRX, taskSuccess w CHR ''b'' True])
        (ifM (\<lambda>s. txPkt s = txAck s) (ack_transmitted w)
        (ifM (\<lambda>s. txPkt s = txData s)
          (doM [assertM (task_waits frFunc), FSM_MCPS_DATA_request w pStatus])
        (whenM (\<lambda>s. txPkt s = txGTS s)
          (doM [assertM (task_waits frFunc), assertM (\<lambda>s. mcps_data_request_TxOption (taskP s) = GTS_TRANS),
                FSM_MCPS_DATA_request w pStatus]))))
      else if frFunc = ''handleAck'' then
        ifM (\<lambda>s. txPkt s = txData s)
          (ifM (task_waits frFunc) (FSM_MCPS_DATA_request w pStatus)
            (doM [set_task False, resetTRX, taskSuccess w CHR ''d'' True]))
        (whenM (\<lambda>s. txPkt s = txGTS s \<and> task_waits frFunc s) (FSM_MCPS_DATA_request w pStatus))
      else if frFunc = ''handleAckTimeoutTimer'' then
        ifM (\<lambda>s. txPkt s = txData s)
          (whenM (task_waits ''handleAck'') (FSM_MCPS_DATA_request w phy_BUSY))
        (whenM (\<lambda>s. txPkt s = txGTS s)
          (doM [assertM (task_waits ''handleAck''), assertM (\<lambda>s. mcps_data_request_TxOption (taskP s) = GTS_TRANS),
                FSM_MCPS_DATA_request w phy_BUSY]))
      else doM [])"

definition csmacaCallBack :: "MacEnv \<Rightarrow> PHYenum \<Rightarrow> stmt" where
  "csmacaCallBack w status =
     ifM (\<lambda>s. (txBcnCmd s = None \<or> waitBcnCmdAck s) \<and> (txBcnCmdUpper s = None \<or> waitBcnCmdUpperAck s) \<and>
              (txData s = None \<or> waitDataAck s)) (doM [])
      (doM [upd (\<lambda>s. s\<lparr>backoffStatus := (if status = phy_IDLE then 1 else 2)\<rparr>), dispatch w status ''csmacaCallBack''])"

section \<open>Confirms of the physical layer\<close>

definition handle_PD_DATA_confirm :: "MacEnv \<Rightarrow> PHYenum \<Rightarrow> stmt" where
  "handle_PD_DATA_confirm w status = doM
    [upd (\<lambda>s. s\<lparr>inTransmission := False, backoffStatus := (if backoffStatus s = 1 then 0 else backoffStatus s)\<rparr>),
     (if status = phy_SUCCESS then dispatch w status ''handle_PD_DATA_confirm''
      else
        ifM (\<lambda>s. txPkt s = txBeacon s)
          (doM [upd (\<lambda>s. s\<lparr>beaconWaitingTx := False\<rparr>), deleteM txBeacon, upd (\<lambda>s. s\<lparr>txBeacon := None\<rparr>)])
        (ifM (\<lambda>s. txPkt s = txAck s) (doM [deleteM txAck, upd (\<lambda>s. s\<lparr>txAck := None\<rparr>)])
        (whenM (\<lambda>s. txPkt s = txGTS s) (errorM ''GTS transmission failed''))))]"

definition handle_PLME_CCA_confirm :: "MacEnv \<Rightarrow> PHYenum \<Rightarrow> stmt" where
  "handle_PLME_CCA_confirm w status =
     whenM (\<lambda>s. CCA_csmaca (taskP s)) (doM
      [upd (\<lambda>s. s\<lparr>taskP := (taskP s)\<lparr>CCA_csmaca := False\<rparr>\<rparr>),
       (if status = phy_IDLE then
          ifM (\<lambda>s. \<not> beaconEnabled s)
            (doM [upd (\<lambda>s. s\<lparr>tmpCsmaca := None\<rparr>), csmacaCallBack w phy_IDLE])
            (doM [upd (\<lambda>s. s\<lparr>CW := CW s - 1\<rparr>),
                  ifM (\<lambda>s. CW s = 0)
                    (callM (csmacaCanProceed w 0 True) (\<lambda>ok.
                       if ok then doM [upd (\<lambda>s. s\<lparr>tmpCsmaca := None\<rparr>), csmacaCallBack w phy_IDLE]
                       else upd (\<lambda>s. s\<lparr>CW := 2, bPeriodsLeft := 0, csmacaWaitNextBeacon := True\<rparr>)))
                    handleBackoffTimer])
        else doM
          [upd (\<lambda>s. if beaconEnabled s then s\<lparr>CW := 2\<rparr> else s),
           upd (\<lambda>s. s\<lparr>NB := NB s + 1\<rparr>),
           ifM (\<lambda>s. NB s > macMaxCSMABackoffs (mpib s))
             (doM [upd (\<lambda>s. s\<lparr>tmpCsmaca := None\<rparr>), csmacaCallBack w phy_BUSY])
             (doM [upd (\<lambda>s. s\<lparr>BE := (if BE s + 1 > aMaxBE then aMaxBE else BE s + 1)\<rparr>),
                   csmacaStart w False None False])])])"

definition handleTxAckBoundTimer :: stmt where
  "handleTxAckBoundTimer =
     whenM (\<lambda>s. \<not> beaconWaitingTx s \<and> txAck s \<noteq> None)
      (doM [upd (\<lambda>s. s\<lparr>txPkt := txAck s\<rparr>), valM (\<lambda>s. deref (txAck s) s) sendDown])"

definition handleTxCmdDataBoundTimer :: stmt where
  "handleTxCmdDataBoundTimer =
     ifM (\<lambda>s. txBcnCmd s = txCsmaca s)
       (doM [upd (\<lambda>s. s\<lparr>txPkt := txBcnCmd s\<rparr>), valM (\<lambda>s. deref (txBcnCmd s) s) sendDown])
     (ifM (\<lambda>s. txBcnCmdUpper s = txCsmaca s)
       (doM [upd (\<lambda>s. s\<lparr>txPkt := txBcnCmdUpper s\<rparr>), valM (\<lambda>s. deref (txBcnCmdUpper s) s) sendDown])
     (whenM (\<lambda>s. txData s = txCsmaca s)
       (doM [upd (\<lambda>s. s\<lparr>txPkt := txData s\<rparr>), valM (\<lambda>s. deref (txData s) s) sendDown])))"

text \<open>The transmitter is on: what to send.\<close>

definition transmit :: "MacEnv \<Rightarrow> stmt" where
  "transmit w =
     ifM beaconWaitingTx (doM [])
     (ifM (\<lambda>s. txAck s \<noteq> None)
       (callM (\<lambda>s.
          if macBeaconOrder (mpib s) = 15 \<and> rxBO s = 15 then Some (Inr (0, s))
          else bindO (Some (deref (txAck s) s)) (\<lambda>f.
            if isGTS f then Some (Inr (0, s))
            else bindO (csmacaLocateBoundary w (dstAddr f = macCoordShortAddress (mpib s)) 0 s) (\<lambda>(delay, s).
              if delay < bPeriod s then Some (Inr (delay, s)) else Some (Inl AssertFailed)))) (\<lambda>delay.
          if delay = 0 then handleTxAckBoundTimer else startTxAckBoundTimer w delay))
     (ifM (\<lambda>s. txGTS s \<noteq> None)
       (doM [upd (\<lambda>s. s\<lparr>txPkt := txGTS s\<rparr>), valM (\<lambda>s. deref (txGTS s) s) sendDown])
       (callM (\<lambda>s.
          if macBeaconOrder (mpib s) = 15 \<and> rxBO s = 15 then Some (Inr (0, s))
          else bindO (Some (deref (txCsmaca s) s)) (\<lambda>f. csmacaLocateBoundary w (toParent f s) 0 s)) (\<lambda>delay.
          if delay = 0 then handleTxCmdDataBoundTimer else startTxCmdDataBoundTimer w delay))))"

definition handle_PLME_SET_TRX_STATE_confirm :: "MacEnv \<Rightarrow> PHYenum \<Rightarrow> stmt" where
  "handle_PLME_SET_TRX_STATE_confirm w status0 s0 =
     (let status = (if status0 = phy_SUCCESS then trx_state_req s0 else status0) in doM
      [whenM (\<lambda>s. backoffStatus s = 99 \<and> trx_state_req s = phy_RX_ON \<and> RX_ON_csmaca (taskP s))
        (doM [upd (\<lambda>s. s\<lparr>taskP := (taskP s)\<lparr>RX_ON_csmaca := False\<rparr>\<rparr>), csmaca_handle_RX_ON_confirm w status]),
       whenM (\<lambda>_. status = phy_TX_ON) (transmit w)] s0)"

section \<open>Data requests\<close>

definition gtsCanProceed :: "MacEnv \<Rightarrow> Mac \<Rightarrow> bool res" where
  "gtsCanProceed w s =
     (case timers s MAC_GTS_TIMER of
        Some t \<Rightarrow> assertR (index_gtsTimer s = 99) (Inr (t - simTime w > gtsTransDuration s))
      | None \<Rightarrow> Inl AssertFailed)"

text \<open>The MPDU of a data request; \<open>msdu\<close> is the packet of the upper layer with its length.\<close>

definition data_frame :: "MacEnv \<Rightarrow> u8 \<Rightarrow> u16 \<Rightarrow> u16 \<Rightarrow> u8 \<Rightarrow> u16 \<Rightarrow> u16 \<Rightarrow> nat \<times> int \<Rightarrow> Ieee802154TxOption \<Rightarrow>
    Mac \<Rightarrow> Ieee802154Frame res" where
  "data_frame w SrcAddrMode SrcPANId SrcAddr DstAddrMode DstPANId DstAddr msdu TxOption s =
     (let tmpData = \<lparr>frame_class = DataFrame None,
            frmCtrl = \<lparr>frmType = Ieee802154_DATA, secu = secuData s, frmPending = False,
              ackReq = (if TxOption = DIRECT_TRANS then ack4Data s
                        else if TxOption = GTS_TRANS then ack4Gts s else junk_ackReq w),
              intraPan = (SrcPANId = DstPANId), dstAddrMode = DstAddrMode, srcAddrMode = SrcAddrMode\<rparr>,
            bdsn = macDSN (mpib s), dstPanId = DstPANId, dstAddr = DstAddr, srcPanId = SrcPANId, srcAddr = SrcAddr,
            isGTS = (TxOption = GTS_TRANS), errKind = NO_ERROR, byteLength = 0\<rparr>
      in bindR (calFrmByteLength tmpData) (\<lambda>n.
         Inr (tmpData\<lparr>byteLength := n + snd msdu, frame_class := DataFrame (Some (fst msdu))\<rparr>)))"

definition MCPS_DATA_request :: "MacEnv \<Rightarrow> u8 \<Rightarrow> u16 \<Rightarrow> u16 \<Rightarrow> u8 \<Rightarrow> u16 \<Rightarrow> u16 \<Rightarrow> nat \<times> int \<Rightarrow> Ieee802154TxOption \<Rightarrow> stmt" where
  "MCPS_DATA_request w SrcAddrMode SrcPANId SrcAddr DstAddrMode DstPANId DstAddr msdu TxOption = doM
    [checkTaskOverflow,
     set_task True,
     upd (\<lambda>s. s\<lparr>taskP := (taskP s)\<lparr>mcps_data_request_TxOption := TxOption\<rparr>\<rparr>),
     newM w (data_frame w SrcAddrMode SrcPANId SrcAddr DstAddrMode DstPANId DstAddr msdu TxOption) (\<lambda>tmpData. doM
      [upd (\<lambda>s. s\<lparr>mpib := (mpib s)\<lparr>macDSN := macDSN (mpib s) + 1\<rparr>\<rparr>),
       (case TxOption of
          DIRECT_TRANS \<Rightarrow> doM
           [next_step ''csmacaCallBack'', assertM (\<lambda>s. txData s = None), upd (\<lambda>s. s\<lparr>txData := tmpData\<rparr>),
            csmacaEntry w CHR ''d'']
        | INDIRECT_TRANS \<Rightarrow> doM []
        | GTS_TRANS \<Rightarrow> doM
           [next_step ''handleGtsTimer'', assertM (\<lambda>s. txGTS s = None), upd (\<lambda>s. s\<lparr>txGTS := tmpData, numGTSRetry := 0\<rparr>),
            whenM (\<lambda>s. \<not> isPANCoor s \<and> index_gtsTimer s = 99) (doM
             [assertM (isScheduled MAC_GTS_TIMER),
              valM (gtsCanProceed w) (\<lambda>ok. whenM (\<lambda>_. ok) (FSM_MCPS_DATA_request w phy_SUCCESS))])]
        | other_tx_option \<Rightarrow> errorM ''undefined txOption'')])]"

end
