(* ===== verification/Mac_Handlers.thy ===== *)
theory Mac_Handlers
  imports Mac_Tasks
begin

text \<open>
  The event handlers of \<open>srwsn802154MAC.cc\<close>: guaranteed time slots (GTS), beacons, received frames,
  packets of the upper layer, timers, initialisation, and the dispatch of messages to them. A
  device calls two functions of its PAN coordinator's module directly, so the handlers of received
  frames take that module's state as well and return it.
\<close>

section \<open>Guaranteed time slots\<close>

definition associate_request_cmd :: "u16 \<Rightarrow> DevCapability \<Rightarrow> Mac \<Rightarrow> u16 \<times> Mac" where
  "associate_request_cmd extAddr capaInfo c = (extAddr, c\<lparr>deviceList := (deviceList c)(extAddr \<mapsto> capaInfo)\<rparr>)"

text \<open>The CAP in symbols that would be left: the \<open>int\<close> \<open>tmp_finalCap - length + 1\<close> becomes unsigned.\<close>

definition cap_left :: "u8 \<Rightarrow> Mac \<Rightarrow> u32" where
  "cap_left len c = txSfSlotDuration c * word_of_int (uint (tmp_finalCap c) - uint len + 1)"

definition gts_request_cmd :: "u16 \<Rightarrow> u8 \<Rightarrow> bool \<Rightarrow> Mac \<Rightarrow> (u8 \<times> Mac) res" where
  "gts_request_cmd macShortAddr len isReceive c =
     assertR (isPANCoor c)
      (if deviceList c macShortAddr = None then Inr (0, c)
       else if gtsCount c \<ge> 7 then Inr (0, c)
       else if cap_left len c < ucast aMinCAPLength then Inr (0, c)
       else
         (let c = c\<lparr>tmp_finalCap := tmp_finalCap c - len\<rparr>;
              slot = tmp_finalCap c + 1;
              d = (gtsList c ! unat (gtsCount c))\<lparr>devShortAddr := macShortAddr, startSlot := slot, length' := len,
                    gts_isRecvGTS := isReceive\<rparr>
          in Inr (slot, c\<lparr>gtsList := (gtsList c)[unat (gtsCount c) := d], gtsCount := gtsCount c + 1\<rparr>)))"

definition gtsScheduler :: "MacEnv \<Rightarrow> stmt" where
  "gtsScheduler w = doM
    [assertM isPANCoor,
     valM (\<lambda>s. gts_at (index_gtsTimer s) s) (\<lambda>d s.
       let w_time = macBeaconTxTime (mpib s) + symbols (ucast (startSlot d) * txSfSlotDuration s) s - simTime w;
           w_time = (if \<not> gts_isRecvGTS d then w_time - symbols aTurnaroundTime s else w_time)
       in startGtsTimer w w_time s)]"

definition coor_gts_starts :: "MacEnv \<Rightarrow> stmt" where
  "coor_gts_starts w = doM
    [upd (\<lambda>s. s\<lparr>indexCurrGts := index_gtsTimer s\<rparr>),
     valM (\<lambda>s. gts_at (indexCurrGts s) s) (\<lambda>d.
       if \<not> gts_isRecvGTS d then PLME_SET_TRX_STATE_request phy_RX_ON
       else ifM (\<lambda>s. txGTS s \<noteq> None \<and> isTxPending d)
         (doM [assertM (\<lambda>s. mcps_data_request (taskP s) \<and> mcps_data_request_STEP (taskP s) = 1),
               FSM_MCPS_DATA_request w phy_SUCCESS])
         (PLME_SET_TRX_STATE_request phy_TRX_OFF)),
     whenM (\<lambda>s. index_gtsTimer s > 0)
       (doM [upd (\<lambda>s. s\<lparr>index_gtsTimer := index_gtsTimer s - 1\<rparr>), gtsScheduler w])]"

definition device_gts_starts :: "MacEnv \<Rightarrow> stmt" where
  "device_gts_starts w = doM
    [ifM isRecvGTS (PLME_SET_TRX_STATE_request phy_RX_ON)
      (ifM (\<lambda>s. txGTS s \<noteq> None)
        (doM [assertM (\<lambda>s. mcps_data_request (taskP s) \<and> mcps_data_request_STEP (taskP s) = 1),
              FSM_MCPS_DATA_request w phy_SUCCESS])
        (PLME_SET_TRX_STATE_request phy_FORCE_TRX_OFF)),
     upd (\<lambda>s. s\<lparr>index_gtsTimer := 99\<rparr>),
     (\<lambda>s. let w_time = symbols (ucast (gtsLength s) * rxSfSlotDuration s) s;
              w_time = (if isRecvGTS s then w_time + symbols aTurnaroundTime s else w_time)
          in startGtsTimer w w_time s)]"

definition handleGtsTimer :: "MacEnv \<Rightarrow> stmt" where
  "handleGtsTimer w =
     ifM isPANCoor (coor_gts_starts w)
      (ifM (\<lambda>s. index_gtsTimer s \<noteq> 99) (device_gts_starts w)
        (doM [upd (\<lambda>s. s\<lparr>index_gtsTimer := 0\<rparr>), PLME_SET_TRX_STATE_request phy_TRX_OFF]))"

definition handleFinalCapTimer :: stmt where
  "handleFinalCapTimer = doM
    [assertM (\<lambda>s. uint (gtsStartSlot s) > uint (finalCap (rxSfSpec s)) + 1), PLME_SET_TRX_STATE_request phy_TRX_OFF]"

section \<open>Beacons of the coordinator\<close>

text \<open>\<open>aBaseSlotDuration * (1 << order)\<close> as an \<open>int\<close>, undefined when it does not fit.\<close>

definition slot_duration :: "u8 \<Rightarrow> u32 res" where
  "slot_duration order = (if unat order < 26 then Inr (word_of_int (60 * 2 ^ unat order)) else Inl UndefinedBehaviour)"

text \<open>\<open>aBaseSuperframeDuration * (1 << order)\<close>; the order is at most 15.\<close>

definition superframe_duration :: "u8 \<Rightarrow> int" where
  "superframe_duration order = uint aBaseSuperframeDuration * 2 ^ unat order"

text \<open>\<open>startBcnTxTimer\<close> for any beacon but the first.\<close>

definition startBcnTxTimer_next :: "MacEnv \<Rightarrow> stmt" where
  "startBcnTxTimer_next w = doM
    [ifM (\<lambda>s. \<not> txNow_bcnTxTimer s) (\<lambda>s. startTimer MAC_BCN_TX_TIMER w (symbols aTurnaroundTime s) s)
      (whenM (\<lambda>s. macBeaconOrder (mpib s) \<noteq> 15)
        (\<lambda>s. startTimer MAC_BCN_TX_TIMER w
              (of_int (superframe_duration (macBeaconOrder (mpib s)) - uint aTurnaroundTime) / phy_symbolrate s) s)),
     upd (\<lambda>s. s\<lparr>txNow_bcnTxTimer := (\<not> txNow_bcnTxTimer s)\<rparr>)]"

definition beacon_frame :: "Mac \<Rightarrow> Ieee802154Frame res" where
  "beacon_frame s =
     (let short = (macShortAddress (mpib s) \<noteq> 0xfffe);
          spec = \<lparr>BO = macBeaconOrder (mpib s), BI = word_of_int (superframe_duration (macBeaconOrder (mpib s))),
            SO = macSuperframeOrder (mpib s), SD = word_of_int (superframe_duration (macSuperframeOrder (mpib s))),
            finalCap = tmp_finalCap s, battLifeExt = macBattLifeExt (mpib s), panCoor = isPANCoor s,
            assoPmt = macAssociationPermit (mpib s)\<rparr>;
          tmpBcn = \<lparr>frame_class = BeaconFrame spec,
            frmCtrl = \<lparr>frmType = Ieee802154_BEACON, secu = secuBeacon s, frmPending = False, ackReq = False,
              intraPan = False, dstAddrMode = defFrmCtrl_AddrModeNone,
              srcAddrMode = (if short then defFrmCtrl_AddrMode16 else defFrmCtrl_AddrMode64)\<rparr>,
            bdsn = macBSN (mpib s), dstPanId = 0, dstAddr = 0, srcPanId = macPANId (mpib s),
            srcAddr = (if short then macShortAddress (mpib s) else aExtendedAddress s), isGTS = False,
            errKind = NO_ERROR, byteLength = 0\<rparr>
      in bindR (calFrmByteLength tmpBcn) (\<lambda>n. Inr (tmpBcn\<lparr>byteLength := n\<rparr>)))"

text \<open>The superframe specification a beacon frame carries.\<close>

definition sfSpec :: "Ieee802154Frame \<Rightarrow> SuperframeSpec res" where
  "sfSpec f = (case frame_class f of BeaconFrame spec \<Rightarrow> Inr spec | _ \<Rightarrow> Inl (RuntimeError ''check_and_cast''))"

definition transmit_beacon :: "MacEnv \<Rightarrow> stmt" where
  "transmit_beacon w = doM
    [assertM (\<lambda>s. txBeacon s = None),
     valM beacon_frame (\<lambda>f. valM (\<lambda>_. sfSpec f) (\<lambda>spec.
       newM w (\<lambda>_. Inr f) (\<lambda>tmpBcn. doM
        [upd (\<lambda>s. s\<lparr>txSfSpec := spec, txBeacon := tmpBcn, txPkt := tmpBcn,
            mpib := (mpib s)\<lparr>macBSN := macBSN (mpib s) + 1, macBeaconTxTime := simTime w\<rparr>\<rparr>),
         sendDown f,
         startTxSDTimer w,
         whenM (\<lambda>s. gtsCount s > 0)
           (doM [upd (\<lambda>s. s\<lparr>index_gtsTimer := gtsCount s - 1\<rparr>), gtsScheduler w])])))]"

definition handleBcnTxTimer :: "MacEnv \<Rightarrow> stmt" where
  "handleBcnTxTimer w = doM
    [whenM (\<lambda>s. macBeaconOrder (mpib s) \<noteq> 15)
      (ifM (\<lambda>s. \<not> txNow_bcnTxTimer s)
        (doM [upd (\<lambda>s. s\<lparr>beaconWaitingTx := True\<rparr>),
              PLME_SET_TRX_STATE_request phy_FORCE_TRX_OFF,
              deleteM txAck, upd (\<lambda>s. s\<lparr>txAck := None\<rparr>),
              PLME_SET_TRX_STATE_request phy_TX_ON])
        (transmit_beacon w)),
     startBcnTxTimer_next w]"

definition startBcnTxTimer :: "MacEnv \<Rightarrow> bool \<Rightarrow> rat \<Rightarrow> stmt" where
  "startBcnTxTimer w txFirstBcn startTime =
     (if txFirstBcn then
        (if startTime = 0 then doM
          [assertM (\<lambda>s. macBeaconOrder (mpib s) \<noteq> 15),
           upd (\<lambda>s. s\<lparr>txNow_bcnTxTimer := True, beaconWaitingTx := True\<rparr>),
           PLME_SET_TRX_STATE_request phy_FORCE_TRX_OFF,
           PLME_SET_TRX_STATE_request phy_TX_ON,
           handleBcnTxTimer w]
         else doM
          [assertM (\<lambda>s. macBeaconOrder (mpib s) \<noteq> 15),
           upd (\<lambda>s. s\<lparr>txNow_bcnTxTimer := False\<rparr>),
           (\<lambda>s. let wtime = startTime - (simTime w - bcnRxTime s) - symbols aTurnaroundTime s in
                doM [assertM (\<lambda>_. wtime \<ge> 0), startTimer MAC_BCN_TX_TIMER w wtime] s)])
      else startBcnTxTimer_next w)"

definition startPANCoor :: "MacEnv \<Rightarrow> stmt" where
  "startPANCoor w = doM
    [upd (\<lambda>s. s\<lparr>mpib := (mpib s)\<lparr>macShortAddress := aExtendedAddress s, macPANId := aExtendedAddress s,
                                macAssociationPermit := True\<rparr>\<rparr>),
     valM (\<lambda>s. slot_duration (macSuperframeOrder (mpib s))) (\<lambda>d. upd (\<lambda>s. s\<lparr>txSfSlotDuration := d\<rparr>)),
     startBcnTxTimer w True 0]"

definition startDevice :: stmt where
  "startDevice = doM
    [upd (\<lambda>s. s\<lparr>mpib := (mpib s)\<lparr>macBeaconOrder := 15, macSuperframeOrder := 15, macAssociationPermit := False\<rparr>\<rparr>),
     PLME_SET_TRX_STATE_request phy_RX_ON]"

section \<open>Received frames\<close>

text \<open>\<open>frameFilter\<close>: whether the frame is filtered out.\<close>

definition frame_filtered :: "Ieee802154Frame \<Rightarrow> Mac \<Rightarrow> bool" where
  "frame_filtered frame s =
     (let ctrl = frmCtrl frame; typ = frmType (frmCtrl frame); pib = mpib s in
      if errKind frame = COLLISION then True
      else if errKind frame = RX_DURING_CCA then True
      else if \<not> macPromiscuousMode pib then
        (if typ \<noteq> Ieee802154_BEACON \<and> typ \<noteq> Ieee802154_DATA \<and> typ \<noteq> Ieee802154_ACK \<and> typ \<noteq> Ieee802154_CMD then True
         else if typ = Ieee802154_BEACON \<and> macPANId pib \<noteq> 0xffff \<and> srcPanId frame \<noteq> macPANId pib then True
         else if (dstAddrMode ctrl = defFrmCtrl_AddrMode16 \<or> dstAddrMode ctrl = defFrmCtrl_AddrMode64) \<and>
             dstPanId frame \<noteq> 0xffff \<and> dstPanId frame \<noteq> macPANId pib then True
         else if dstAddrMode ctrl = defFrmCtrl_AddrMode16 \<and> dstAddr frame \<noteq> 0xffff \<and>
             dstAddr frame \<noteq> macShortAddress pib then True
         else if dstAddrMode ctrl = defFrmCtrl_AddrMode64 \<and> dstAddr frame \<noteq> aExtendedAddress s then True
         else if typ = Ieee802154_ACK \<and> dstAddr frame \<noteq> aExtendedAddress s then True
         else if (typ = Ieee802154_DATA \<or> typ = Ieee802154_CMD) \<and> dstAddrMode ctrl = defFrmCtrl_AddrModeNone \<and>
             \<not> isPANCoor s then True
         else False)
      else False)"

definition frameFilter :: "Ieee802154Frame \<Rightarrow> Mac \<Rightarrow> bool \<times> Mac" where
  "frameFilter frame s =
     (frame_filtered frame s,
      if errKind frame = COLLISION then s\<lparr>stats := (stats s)\<lparr>numCollision := numCollision (stats s) + 1\<rparr>\<rparr> else s)"

definition ack_frame :: "Ieee802154Frame \<Rightarrow> Ieee802154Frame res" where
  "ack_frame rxFrame =
     (let tmpAck = \<lparr>frame_class = AckFrame,
            frmCtrl = \<lparr>frmType = Ieee802154_ACK, secu = False, frmPending = False, ackReq = False,
              intraPan = intraPan (frmCtrl rxFrame), dstAddrMode = defFrmCtrl_AddrModeNone,
              srcAddrMode = defFrmCtrl_AddrModeNone\<rparr>,
            bdsn = bdsn rxFrame, dstPanId = 0, dstAddr = srcAddr rxFrame, srcPanId = 0, srcAddr = 0,
            isGTS = isGTS rxFrame, errKind = NO_ERROR, byteLength = 0\<rparr>
      in bindR (calFrmByteLength tmpAck) (\<lambda>n. Inr (tmpAck\<lparr>byteLength := n\<rparr>)))"

definition constructACK :: "MacEnv \<Rightarrow> Ieee802154Frame \<Rightarrow> stmt" where
  "constructACK w rxFrame =
     newM w (\<lambda>_. ack_frame rxFrame) (\<lambda>tmpAck. doM
      [assertM (\<lambda>s. txAck s = None), upd (\<lambda>s. s\<lparr>txAck := tmpAck\<rparr>)])"

definition handleData :: "MacEnv \<Rightarrow> fptr \<Rightarrow> Ieee802154Frame \<Rightarrow> stmt" where
  "handleData w p frame = doM
    [assertM (\<lambda>s. rxData s = None),
     upd (\<lambda>s. s\<lparr>rxData := p\<rparr>),
     whenM (\<lambda>_. \<not> ackReq (frmCtrl frame)) (startIfsTimer w (byteLength frame \<le> uint aMaxSIFSFrameSize))]"

definition ack_in_time :: stmt where
  "ack_in_time = doM
    [upd (\<lambda>s. s\<lparr>stats := (stats s)\<lparr>numRxAckPkt := numRxAckPkt (stats s) + 1\<rparr>\<rparr>),
     cancelTimer MAC_ACK_TIMEOUT_TIMER,
     upd (\<lambda>s. if txPkt s = txBcnCmd s then s\<lparr>numBcnCmdRetry := 0\<rparr>
              else if txPkt s = txBcnCmdUpper s then s\<lparr>numBcnCmdUpperRetry := 0\<rparr>
              else if txPkt s = txData s then s\<lparr>numDataRetry := 0\<rparr>
              else if txPkt s = txGTS s then s\<lparr>numGTSRetry := 0\<rparr> else s)]"

definition handleAck :: "MacEnv \<Rightarrow> fptr \<Rightarrow> Ieee802154Frame \<Rightarrow> stmt" where
  "handleAck w p frame =
     ifM (\<lambda>s. txBcnCmd s = None \<and> txBcnCmdUpper s = None \<and> txData s = None \<and> txGTS s = None) (deleteM (\<lambda>_. p))
     (ifM (\<lambda>s. txPkt s \<noteq> txBcnCmd s \<and> txPkt s \<noteq> txBcnCmdUpper s \<and> txPkt s \<noteq> txData s \<and> txPkt s \<noteq> txGTS s) (deleteM (\<lambda>_. p))
     (valM (\<lambda>s. check_and_cast (txPkt s) s) (\<lambda>sent.
       if bdsn frame \<noteq> bdsn sent then deleteM (\<lambda>_. p)
       else
         ifM (isScheduled MAC_ACK_TIMEOUT_TIMER)
           (doM [ack_in_time, dispatch w phy_SUCCESS ''handleAck'', deleteM (\<lambda>_. p)])
         (ifM (\<lambda>s. txPkt s \<noteq> txData s) (deleteM (\<lambda>_. p))
           (doM [whenM (\<lambda>s. backoffStatus s = 99) (doM [upd (\<lambda>s. s\<lparr>backoffStatus := 0\<rparr>), csmacaCancel]),
                 dispatch w phy_SUCCESS ''handleAck'', deleteM (\<lambda>_. p)])))))"

definition handleCommand :: "fptr \<Rightarrow> Ieee802154Frame \<Rightarrow> stmt" where
  "handleCommand p frame =
     (case frame_class frame of
        CmdFrame cmd \<Rightarrow>
          (if cmd = Ieee802154_ASSOCIATION_REQUEST \<or> cmd = Ieee802154_DATA_REQUEST
           then doM [assertM (\<lambda>s. rxCmd s = None), upd (\<lambda>s. s\<lparr>rxCmd := p\<rparr>)]
           else if cmd = Ieee802154_BEACON_REQUEST then errorM ''Beacon request''
           else if cmd = other_cmd_type then errorM ''Undefined MAC command type''
           else deleteM (\<lambda>_. p))
      | _ \<Rightarrow> errorM ''check_and_cast'')"

subsection \<open>Beacons\<close>

text \<open>What is taken from the beacon, up to the reset of the loss counter.\<close>

definition note_beacon :: "MacEnv \<Rightarrow> Ieee802154Frame \<Rightarrow> stmt" where
  "note_beacon w frame =
     valM (\<lambda>_. sfSpec frame) (\<lambda>spec.
     valM (\<lambda>_. slot_duration (SO spec)) (\<lambda>slot. doM
      [upd (\<lambda>s. let duration = calDuration frame s in
         s\<lparr>rxSfSpec := spec, rxBO := BO spec, rxSO := SO spec, rxSfSlotDuration := slot,
           bcnRxTime := simTime w - duration, schedBcnRxTime := simTime w - duration\<rparr>),
       valM (bcn_periods frame) (\<lambda>n. upd (\<lambda>s. s\<lparr>rxBcnDuration := n,
         rxPanDescriptor := (rxPanDescriptor s)\<lparr>CoordAddrMode := srcAddrMode (frmCtrl frame), CoordPANId := srcPanId frame,
           CoordAddress_16_or_64 := srcAddr frame, LogicalChannel := word_of_int (phyCurrentChannel s)\<rparr>\<rparr>)),
       startRxSDTimer w,
       upd (\<lambda>s. s\<lparr>bcnLossCounter := 0\<rparr>)]))"

text \<open>The length of a GTS that holds one data transaction.\<close>

definition gts_duration :: "Mac \<Rightarrow> rat" where
  "gts_duration s =
     (let dataFrmLength = 11 + gtsPayload s + 2; ifs = ifs_of dataFrmLength;
          duration = of_int ((def_phyHeaderLength + dataFrmLength) * 8) / phy_bitrate s
      in duration + of_int ((if ack4Gts s then uint (macAckWaitDuration (mpib s)) else uint aTurnaroundTime) + uint ifs)
           / phy_symbolrate s)"

definition gts_slots :: "Mac \<Rightarrow> u8 res" where
  "gts_slots s =
     (let duration = gts_duration s; tmpf = symbols (rxSfSlotDuration s) s in
      if duration < tmpf then Inr 1
      else bindR (to_u8 (duration / tmpf)) (\<lambda>n. Inr (if fmod duration tmpf > 0 then n + 1 else n)))"

text \<open>The first beacon: associate with the coordinator \<open>c\<close> and apply for a GTS.\<close>

definition associate :: "MacEnv \<Rightarrow> Ieee802154Frame \<Rightarrow> Mac option \<Rightarrow> Mac \<Rightarrow> (Mac option \<times> Mac) res option" where
  "associate w frame coor s =
     bindO (doM
      [assertM (\<lambda>s. macCoordShortAddress (mpib s) = 0xffff), assertM (\<lambda>s. macPANId (mpib s) = 0xffff),
       upd (\<lambda>s. s\<lparr>notAssociated := False, mpib := (mpib s)\<lparr>macPANId := srcPanId frame,
         macCoordShortAddress := srcAddr frame, macCoordExtendedAddress := srcAddr frame\<rparr>\<rparr>)] s) (\<lambda>s.
     case coor of
       None \<Rightarrow> Some (Inl NullDeref)
     | Some c \<Rightarrow>
         (let (short, c) = associate_request_cmd (aExtendedAddress s) (capability s) c in
          bindO (startBcnRxTimer w (s\<lparr>mpib := (mpib s)\<lparr>macShortAddress := short\<rparr>\<rparr>)) (\<lambda>s.
          if dataTransMode s = GTS_TRANS then
            bindO (Some (gts_slots s)) (\<lambda>n.
              let s = s\<lparr>gtsTransDuration := gts_duration s, gtsLength := n\<rparr> in
              bindO (Some (gts_request_cmd (macShortAddress (mpib s)) (gtsLength s) (isRecvGTS s) c)) (\<lambda>(slot, c).
                if slot \<noteq> 0 then Some (Inr (Some c, s\<lparr>gtsStartSlot := slot\<rparr>))
                else Some (Inl (RuntimeError ''request for GTS failed''))))
          else Some (Inr (Some c, s)))))"

text \<open>A later beacon: schedule the own GTS, and the end of the CAP when the GTS is not the first.\<close>

definition schedule_gts :: "MacEnv \<Rightarrow> stmt" where
  "schedule_gts w = doM
    [(\<lambda>s. let w_time = bcnRxTime s + symbols (ucast (gtsStartSlot s) * rxSfSlotDuration s) s - simTime w;
              w_time = (if isRecvGTS s then w_time - symbols aTurnaroundTime s else w_time)
          in startGtsTimer w w_time s),
     whenM (\<lambda>s. uint (gtsStartSlot s) \<noteq> uint (finalCap (rxSfSpec s)) + 1) (doM
      [assertM (\<lambda>s. gtsStartSlot s > finalCap (rxSfSpec s)),
       (\<lambda>s. startFinalCapTimer w
          (bcnRxTime s + symbols ((ucast (finalCap (rxSfSpec s)) + 1) * rxSfSlotDuration s) s - simTime w) s)])]"

definition handleBeacon :: "MacEnv \<Rightarrow> fptr \<Rightarrow> Ieee802154Frame \<Rightarrow> Mac option \<Rightarrow> Mac \<Rightarrow> (Mac option \<times> Mac) res option" where
  "handleBeacon w p frame coor s =
     bindO (note_beacon w frame s) (\<lambda>s.
     bindO (if notAssociated s then associate w frame coor s
            else if gtsStartSlot s \<noteq> 0 then bindO (schedule_gts w s) (\<lambda>s. Some (Inr (coor, s)))
            else Some (Inr (coor, s))) (\<lambda>(coor, s).
     bindO (doM
      [dispatch w phy_SUCCESS ''handleBeacon'',
       whenM (\<lambda>s. backoffStatus s = 99) (csmacaTrxBeacon w),
       resetTRX,
       deleteM (\<lambda>_. p),
       upd (\<lambda>s. s\<lparr>stats := (stats s)\<lparr>numRxBcnPkt := numRxBcnPkt (stats s) + 1\<rparr>\<rparr>)] s) (\<lambda>s. Some (Inr (coor, s)))))"

subsection \<open>The handler of received frames\<close>

definition check_gts_timing :: "Ieee802154Frame \<Rightarrow> stmt" where
  "check_gts_timing frame =
     whenM (\<lambda>_. frmType (frmCtrl frame) = Ieee802154_DATA \<and> isGTS frame)
      (ifM isPANCoor
        (ifM (\<lambda>s. indexCurrGts s = 99) (errorM ''timing error'')
          (valM (\<lambda>s. gts_at (indexCurrGts s) s) (\<lambda>d.
            if gts_isRecvGTS d \<or> devShortAddr d \<noteq> srcAddr frame then errorM ''timing error'' else doM [])))
        (whenM (\<lambda>s. index_gtsTimer s \<noteq> 99 \<or> \<not> isRecvGTS s \<or> srcAddr frame \<noteq> macCoordShortAddress (mpib s))
          (errorM ''timing error'')))"

definition busy_with_cmd :: "Mac \<Rightarrow> bool" where
  "busy_with_cmd s \<longleftrightarrow> rxCmd s \<noteq> None \<or> txBcnCmd s \<noteq> None"

definition acknowledge :: "MacEnv \<Rightarrow> Ieee802154Frame \<Rightarrow> stmt" where
  "acknowledge w frame =
     whenM (\<lambda>_. frmType (frmCtrl frame) = Ieee802154_DATA \<or> frmType (frmCtrl frame) = Ieee802154_CMD)
      (if ackReq (frmCtrl frame) then
         whenM (\<lambda>s. \<not> (frmType (frmCtrl frame) = Ieee802154_CMD \<and> busy_with_cmd s)) (doM
          [constructACK w frame,
           whenM (\<lambda>s. backoffStatus s = 99) (doM [upd (\<lambda>s. s\<lparr>backoffStatus := 0\<rparr>), csmacaCancel]),
           PLME_SET_TRX_STATE_request phy_TX_ON])
       else if isGTS frame then ifM isPANCoor (PLME_SET_TRX_STATE_request phy_RX_ON) (PLME_SET_TRX_STATE_request phy_TRX_OFF)
       else resetTRX)"

definition check_duplicate :: "MacEnv \<Rightarrow> Ieee802154Frame \<Rightarrow> int call" where
  "check_duplicate w frame s =
     (if frmType (frmCtrl frame) = Ieee802154_BEACON
      then bindO (chkAddUpdHListLink (srcAddr frame) (bdsn frame) (hlistBLink s)) (\<lambda>(i, h). Some (Inr (i, s\<lparr>hlistBLink := h\<rparr>)))
      else if frmType (frmCtrl frame) \<noteq> Ieee802154_ACK
      then bindO (chkAddUpdHListLink (srcAddr frame) (bdsn frame) (hlistDLink s)) (\<lambda>(i, h). Some (Inr (i, s\<lparr>hlistDLink := h\<rparr>)))
      else Some (Inr (junk_i w, s)))"

definition process_frame :: "MacEnv \<Rightarrow> fptr \<Rightarrow> Ieee802154Frame \<Rightarrow> Mac option \<Rightarrow> Mac \<Rightarrow> (Mac option \<times> Mac) res option" where
  "process_frame w p frame coor s =
     (let keep = (\<lambda>c. bindO (c s) (\<lambda>s. Some (Inr (coor, s)))) in
      case frmType (frmCtrl frame) of
        Ieee802154_BEACON \<Rightarrow> handleBeacon w p frame coor s
      | Ieee802154_DATA \<Rightarrow> keep (handleData w p frame)
      | Ieee802154_ACK \<Rightarrow> keep (handleAck w p frame)
      | Ieee802154_CMD \<Rightarrow> keep (handleCommand p frame)
      | other_frame_type \<Rightarrow> Some (Inl (RuntimeError ''undefined MAC frame type'')))"

definition handleLowerMsg :: "MacEnv \<Rightarrow> fptr \<Rightarrow> Mac option \<Rightarrow> Mac \<Rightarrow> (Mac option \<times> Mac) res option" where
  "handleLowerMsg w p coor s =
     (let dropped = (\<lambda>s. bindO (deleteM (\<lambda>_. p) s) (\<lambda>s. Some (Inr (coor, s)))) in
      bindO (Some (deref p s)) (\<lambda>frame.
      let (filtered, s) = frameFilter frame s; typ = frmType (frmCtrl frame) in
      if filtered then dropped s
      else
        bindO (doM [check_gts_timing frame, acknowledge w frame] s) (\<lambda>s.
        if typ = Ieee802154_CMD \<and> busy_with_cmd s then dropped s
        else if typ = Ieee802154_DATA \<and> rxData s \<noteq> None then dropped s
        else
          bindO (check_duplicate w frame s) (\<lambda>(i, s).
            if i = 2 then dropped s else process_frame w p frame coor s))))"

section \<open>Packets of the upper layer\<close>

text \<open>
  A packet with its length and control information: whether it goes to the parent, and the MAC
  address of the destination host (\<open>None\<close> when there is no such host).
\<close>

record UpperMsg =
  u_packet :: nat
  u_length :: int
  u_toParent :: bool
  u_dest :: "u16 option"

definition drop_upper :: stmt where
  "drop_upper = doM
    [upd (\<lambda>s. s\<lparr>stats := (stats s)\<lparr>numUpperPktLost := numUpperPktLost (stats s) + 1\<rparr>\<rparr>), reqtMsgFromIFq]"

definition request_data :: "MacEnv \<Rightarrow> UpperMsg \<Rightarrow> u16 \<Rightarrow> stmt" where
  "request_data w msg destAddr s =
     MCPS_DATA_request w defFrmCtrl_AddrMode16 (macPANId (mpib s)) (macShortAddress (mpib s))
       defFrmCtrl_AddrMode16 (macPANId (mpib s)) destAddr (u_packet msg, u_length msg) (dataTransMode s) s"

text \<open>The receive GTS of a device in the coordinator's list.\<close>

definition find_gts :: "u16 \<Rightarrow> Mac \<Rightarrow> nat option" where
  "find_gts destAddr s =
     List.find (\<lambda>i. devShortAddr (gtsList s ! i) = destAddr \<and> gts_isRecvGTS (gtsList s ! i))
       [0..<min (unat (gtsCount s)) (length (gtsList s))]"

definition upper_to_parent :: "MacEnv \<Rightarrow> UpperMsg \<Rightarrow> stmt" where
  "upper_to_parent w msg =
     ifM notAssociated drop_upper
     (ifM (\<lambda>s. dataTransMode s = GTS_TRANS)
       (doM [assertM (\<lambda>s. \<not> isPANCoor s),
             ifM (\<lambda>s. gtsStartSlot s = 0 \<or> isRecvGTS s) drop_upper
               (\<lambda>s. request_data w msg (macCoordShortAddress (mpib s)) s)])
       (\<lambda>s. request_data w msg (macCoordShortAddress (mpib s)) s))"

definition upper_to_device :: "MacEnv \<Rightarrow> UpperMsg \<Rightarrow> stmt" where
  "upper_to_device w msg =
     (case u_dest msg of
        None \<Rightarrow> errorM ''address conversion fails''
      | Some destAddr \<Rightarrow>
          ifM (\<lambda>s. deviceList s destAddr = None) drop_upper
          (ifM (\<lambda>s. dataTransMode s = GTS_TRANS)
            (doM [assertM isPANCoor,
                  (\<lambda>s. case find_gts destAddr s of
                         Some i \<Rightarrow> doM [set_gts (of_nat i) (\<lambda>d. d\<lparr>isTxPending := True\<rparr>), request_data w msg destAddr] s
                       | None \<Rightarrow> drop_upper s)])
            (request_data w msg destAddr)))"

definition handleUpperMsg :: "MacEnv \<Rightarrow> UpperMsg \<Rightarrow> stmt" where
  "handleUpperMsg w msg = doM
    [upd (\<lambda>s. s\<lparr>stats := (stats s)\<lparr>numUpperPkt := numUpperPkt (stats s) + 1\<rparr>\<rparr>),
     ifM (\<lambda>s. mcps_data_request (taskP s)) drop_upper
     (if u_length msg > uint aMaxMACFrameSize then doM [MCPS_DATA_confirm mac_INVALID_PARAMETER, drop_upper]
      else if u_toParent msg then upper_to_parent w msg else upper_to_device w msg)]"

section \<open>Timers\<close>

definition handleBcnRxTimer :: "MacEnv \<Rightarrow> stmt" where
  "handleBcnRxTimer w =
     whenM (\<lambda>s. rxBO s \<noteq> 15) (doM
      [deleteM txAck, upd (\<lambda>s. s\<lparr>txAck := None\<rparr>),
       PLME_SET_TRX_STATE_request phy_RX_ON,
       upd (\<lambda>s. if bcnLossCounter s \<noteq> 0 then s\<lparr>stats := (stats s)\<lparr>numCollision := numCollision (stats s) + 1\<rparr>\<rparr> else s),
       upd (\<lambda>s. s\<lparr>bcnLossCounter := bcnLossCounter s + 1\<rparr>),
       startBcnRxTimer w])"

definition handleAckTimeoutTimer :: "MacEnv \<Rightarrow> stmt" where
  "handleAckTimeoutTimer w =
     ifM (\<lambda>s. txBcnCmd s \<noteq> None \<or> txBcnCmdUpper s \<noteq> None \<or> txData s \<noteq> None \<or> txGTS s \<noteq> None \<and> waitGTSAck s)
      (dispatch w phy_BUSY ''handleAckTimeoutTimer'') (errorM ''handleAckTimeoutTimer'')"

definition handleIfsTimer :: "MacEnv \<Rightarrow> stmt" where
  "handleIfsTimer w = doM
    [assertM (\<lambda>s. rxData s \<noteq> None \<or> rxCmd s \<noteq> None \<or> txGTS s \<noteq> None),
     ifM (\<lambda>s. rxCmd s \<noteq> None) (doM [])
     (ifM (\<lambda>s. rxData s \<noteq> None) (doM [MCPS_DATA_indication rxData, upd (\<lambda>s. s\<lparr>rxData := None\<rparr>)])
     (whenM (\<lambda>s. txGTS s \<noteq> None) (doM
       [assertM (\<lambda>s. mcps_data_request (taskP s) \<and> mcps_data_request_STEP (taskP s) = 4),
        FSM_MCPS_DATA_request w phy_SUCCESS])))]"

definition handleSDTimer :: stmt where
  "handleSDTimer = doM
    [upd (\<lambda>s. s\<lparr>inTxSD_txSDTimer := False, inRxSD_rxSDTimer := False\<rparr>),
     upd (\<lambda>s. if isPANCoor s then s\<lparr>indexCurrGts := 99\<rparr> else s),
     ifM (\<lambda>s. txAck s = None) (PLME_SET_TRX_STATE_request phy_TRX_OFF)
      (upd (\<lambda>s. s\<lparr>stats := (stats s)\<lparr>numTxAckInactive := numTxAckInactive (stats s) + 1\<rparr>\<rparr>))]"

definition mac_handleSelfMsg :: "MacEnv \<Rightarrow> Ieee802154MacTimerType \<Rightarrow> stmt" where
  "mac_handleSelfMsg w t =
     (case t of
        START_PAN_COOR_TIMER \<Rightarrow> startPANCoor w
      | MAC_BACKOFF_TIMER \<Rightarrow> handleBackoffTimer
      | MAC_DEFER_CCA_TIMER \<Rightarrow> handleDeferCCATimer
      | MAC_BCN_RX_TIMER \<Rightarrow> handleBcnRxTimer w
      | MAC_BCN_TX_TIMER \<Rightarrow> handleBcnTxTimer w
      | MAC_ACK_TIMEOUT_TIMER \<Rightarrow> handleAckTimeoutTimer w
      | MAC_TX_ACK_BOUND_TIMER \<Rightarrow> handleTxAckBoundTimer
      | MAC_TX_CMD_DATA_BOUND_TIMER \<Rightarrow> handleTxCmdDataBoundTimer
      | MAC_IFS_TIMER \<Rightarrow> handleIfsTimer w
      | MAC_TX_SD_TIMER \<Rightarrow> handleSDTimer
      | MAC_RX_SD_TIMER \<Rightarrow> handleSDTimer
      | MAC_FINAL_CAP_TIMER \<Rightarrow> handleFinalCapTimer
      | MAC_GTS_TIMER \<Rightarrow> handleGtsTimer w)"

section \<open>Messages\<close>

definition handleMacPhyPrimitive :: "MacEnv \<Rightarrow> Ieee802154MacPhyPrimitiveType \<Rightarrow> PHYenum \<Rightarrow> stmt" where
  "handleMacPhyPrimitive w msgkind status =
     (case msgkind of
        PD_DATA_CONFIRM \<Rightarrow> handle_PD_DATA_confirm w status
      | PLME_CCA_CONFIRM \<Rightarrow> handle_PLME_CCA_confirm w status
      | PLME_ED_CONFIRM \<Rightarrow> doM []
      | PLME_SET_TRX_STATE_CONFIRM \<Rightarrow> handle_PLME_SET_TRX_STATE_confirm w status
      | PLME_SET_CONFIRM \<Rightarrow> doM []
      | _ \<Rightarrow> errorM ''unknown primitive'')"

text \<open>A channel change announced by the radio.\<close>

definition receiveChangeNotification :: "int \<Rightarrow> stmt" where
  "receiveChangeNotification channel =
     upd (\<lambda>s. let sr = getRate False channel in
       s\<lparr>phyCurrentChannel := channel, phy_bitrate := getRate True channel, phy_symbolrate := sr,
         bPeriod := of_int (uint aUnitBackoffPeriod) / sr\<rparr>)"

text \<open>
  The events of the module: a primitive or a frame from the physical layer, some other message
  from there (its object is lost: the code deletes the null pointer the cast gave), an own timer, a packet
  from above, a change notification. An arriving frame is on the heap when the handler starts, an own
  timer is no longer scheduled.
\<close>

datatype macevent =
    Primitive Ieee802154MacPhyPrimitiveType PHYenum
  | LowerFrame Ieee802154Frame
  | LowerOther
  | SelfTimer Ieee802154MacTimerType
  | Upper UpperMsg
  | ChannelChanged int

fun mac_handleMessage :: "MacEnv \<Rightarrow> macevent \<Rightarrow> Mac option \<Rightarrow> Mac \<Rightarrow> (Mac option \<times> Mac) res option" where
  "mac_handleMessage w (Primitive k st) c s = bindO (handleMacPhyPrimitive w k st s) (\<lambda>s. Some (Inr (c, s)))"
| "mac_handleMessage w (LowerFrame f) c s =
     handleLowerMsg w (Some (msg_addr w)) c (s\<lparr>frames := (frames s)(msg_addr w \<mapsto> f)\<rparr>)"
| "mac_handleMessage w LowerOther c s = Some (Inr (c, s))"
| "mac_handleMessage w (SelfTimer t) c s =
     bindO (mac_handleSelfMsg w t (s\<lparr>timers := (timers s)(t := None)\<rparr>)) (\<lambda>s. Some (Inr (c, s)))"
| "mac_handleMessage w (Upper msg) c s = bindO (handleUpperMsg w msg s) (\<lambda>s. Some (Inr (c, s)))"
| "mac_handleMessage w (ChannelChanged ch) c s = bindO (receiveChangeNotification ch s) (\<lambda>s. Some (Inr (c, s)))"

section \<open>Initialisation\<close>

definition MPIB :: MAC_PIB where
  "MPIB = \<lparr>macAckWaitDuration = 54, macAssociationPermit = False, macAutoRequest = True, macBattLifeExt = False,
     macBattLifeExtPeriods = 6, macBeaconPayload = replicate 53 0, macBeaconPayloadLength = 0, macBeaconOrder = 15,
     macBeaconTxTime = 0, macBSN = 0, macCoordExtendedAddress = 0xffff, macCoordShortAddress = 0xffff, macDSN = 0,
     macGTSPermit = True, macMaxCSMABackoffs = 4, macMinBE = 3, macPANId = 0xffff, macPromiscuousMode = False,
     macRxOnWhenIdle = True, macShortAddress = 0xffff, macSuperframeOrder = 15, macTransactionPersistenceTime = 0x01f4\<rparr>"

text \<open>The constructor: no frames, timers or list cells; the members it does not set are those of \<open>junk\<close>.\<close>

definition newMac :: "u16 \<Rightarrow> Mac \<Rightarrow> Mac" where
  "newMac addrCount junk = junk\<lparr>aExtendedAddress := addrCount, frames := Map.empty, txPkt := None, txBeacon := None,
     txBcnCmdUpper := None, txBcnCmd := None, txData := None, txGTS := None, txAck := None, txCsmaca := None,
     tmpCsmaca := None, rxData := None, rxCmd := None, timers := (\<lambda>_. None), hlistBLink := newHList,
     hlistDLink := newHList, deviceList := Map.empty, macOut := []\<rparr>"

text \<open>The module's parameters.\<close>

record MacPar =
  par_isPANCoor :: bool
  par_BO :: u8
  par_SO :: u8
  par_dataTransMode :: int
  par_panCoorName :: string
  par_isRecvGTS :: bool
  par_gtsPayload :: int
  par_ack4Gts :: bool
  par_queueModule :: bool
  par_fullName :: string

definition transMode :: "int \<Rightarrow> Ieee802154TxOption" where
  "transMode m = (if m = 1 then DIRECT_TRANS else if m = 2 then INDIRECT_TRANS else if m = 3 then GTS_TRANS else other_tx_option)"

definition zeroStats :: MacStats where
  "zeroStats = \<lparr>numUpperPkt = 0, numUpperPktLost = 0, numCollision = 0, numTxBcnPkt = 0, numTxDataSucc = 0,
     numTxDataFail = 0, numTxGTSSucc = 0, numTxGTSFail = 0, numTxAckPkt = 0, numRxBcnPkt = 0, numRxDataPkt = 0,
     numRxGTSPkt = 0, numRxAckPkt = 0, numTxAckInactive = 0\<rparr>"

text \<open>\<open>initializeQueueModule\<close>: without a queue the pointer stays what it was.\<close>

definition initializeQueueModule :: "MacPar \<Rightarrow> stmt" where
  "initializeQueueModule par = whenM (\<lambda>_. par_queueModule par) (doM [upd (\<lambda>s. s\<lparr>queueModule := True\<rparr>), emit RequestPacket])"

text \<open>Stage 0; \<open>bsn\<close> and \<open>dsn\<close> are the random initial sequence numbers.\<close>

definition initialize_stage0 :: "MacPar \<Rightarrow> u8 \<Rightarrow> u8 \<Rightarrow> stmt" where
  "initialize_stage0 par bsn dsn = doM
    [initializeQueueModule par,
     upd (\<lambda>s. s\<lparr>mpib := MPIB\<lparr>macBSN := bsn, macDSN := dsn, macBeaconOrder := par_BO par, macSuperframeOrder := par_SO par\<rparr>,
        isPANCoor := par_isPANCoor par, dataTransMode := transMode (par_dataTransMode par), isRecvGTS := par_isRecvGTS par,
        gtsPayload := par_gtsPayload par, ack4Gts := par_ack4Gts par\<rparr>),
     (if par_BO par > 15 \<or> par_SO par > par_BO par then errorM ''wrong values for MAC parameter BO or SO''
      else if par_BO par = 15 then errorM ''non-beacon mode (BO = 15) has not been tested''
      else if par_SO par = par_BO par then errorM ''the case BO == SO has not been tested''
      else if par_dataTransMode par \<noteq> 1 \<and> par_dataTransMode par \<noteq> 3 then errorM ''data transfer mode is not supported''
      else doM []),
     upd (\<lambda>s. s\<lparr>ack4Data := True, secuData := False, secuBeacon := False,
        taskP := (taskP s)\<lparr>mcps_data_request := False, mcps_data_request_STEP := 0, CCA_csmaca := False, RX_ON_csmaca := False\<rparr>,
        rxBO := 15, rxSO := 15, beaconWaitingTx := False, notAssociated := True, bcnLossCounter := 0,
        inTransmission := False, waitBcnCmdAck := False, waitBcnCmdUpperAck := False, waitDataAck := False, waitGTSAck := False,
        numBcnCmdRetry := 0, numBcnCmdUpperRetry := 0, numDataRetry := 0, numGTSRetry := 0,
        csmacaWaitNextBeacon := False, backoffStatus := 0, lastTime_bcnRxTimer := 0, inTxSD_txSDTimer := False,
        inRxSD_rxSDTimer := False, index_gtsTimer := 0\<rparr>),
     upd (\<lambda>s. s\<lparr>capability := \<lparr>alterPANCoor = False, FFD = True, recvOnWhenIdle = macRxOnWhenIdle (mpib s), secuCapable = False,
          alloShortAddr = True, hostName = par_fullName par\<rparr>,
        gtsCount := 0,
        gtsList := replicate 7 \<lparr>devShortAddr = 0xffff, startSlot = 0, length' = 0, gts_isRecvGTS = False, isTxPending = False\<rparr>,
        tmp_finalCap := aNumSuperframeSlots - 1, indexCurrGts := 99, gtsLength := 0, gtsStartSlot := 0, gtsTransDuration := 0,
        stats := zeroStats\<rparr>)]"

text \<open>Stage 2: start a PAN coordinator (by a timer that fires at once) or a device.\<close>

definition initialize_stage2 :: "MacPar \<Rightarrow> MacEnv \<Rightarrow> stmt" where
  "initialize_stage2 par w =
     ifM isPANCoor
      (if par_panCoorName par \<noteq> par_fullName par then errorM ''name of PAN coordinator does not match''
       else startTimer START_PAN_COOR_TIMER w 0)
      startDevice"

definition mac_initialize :: "MacPar \<Rightarrow> MacEnv \<Rightarrow> u16 \<Rightarrow> u8 \<Rightarrow> u8 \<Rightarrow> Mac \<Rightarrow> Mac res option" where
  "mac_initialize par w addrCount bsn dsn junk =
     doM [initialize_stage0 par bsn dsn, initialize_stage2 par w] (newMac addrCount junk)"

end
