(* ===== verification/Mac_Rules.thy ===== *)
theory Mac_Rules
  imports Mac_Handlers
begin

text \<open>
  Rules to reason about the statements of the MAC module, and what its CSMA/CA functions leave
  alone.
\<close>

section \<open>Rules for statements\<close>

named_theorems rule_mac \<open>weakest preconditions of statements\<close>

lemma wp_doM_Nil [rule_mac]: "Q s \<Longrightarrow> wpO Q E (doM [] s)"
  by simp

lemma wp_doM_Cons [rule_mac]: "wpO (\<lambda>s. wpO Q E (doM cs s)) E (c s) \<Longrightarrow> wpO Q E (doM (c # cs) s)"
  by (simp add: wpO_bindO)

lemma wp_upd [rule_mac]: "Q (f s) \<Longrightarrow> wpO Q E (upd f s)"
  by (simp add: upd_def)

lemma wp_ifM [rule_mac]: "(b s \<Longrightarrow> wpO Q E (c s)) \<Longrightarrow> (\<not> b s \<Longrightarrow> wpO Q E (d s)) \<Longrightarrow> wpO Q E (ifM b c d s)"
  by (simp add: ifM_def)

lemma wp_whenM [rule_mac]: "(b s \<Longrightarrow> wpO Q E (c s)) \<Longrightarrow> (\<not> b s \<Longrightarrow> Q s) \<Longrightarrow> wpO Q E (whenM b c s)"
  by (simp add: whenM_def)

lemma wp_assertM [rule_mac]: "(b s \<Longrightarrow> Q s) \<Longrightarrow> E AssertFailed \<Longrightarrow> wpO Q E (assertM b s)"
  by (simp add: assertM_def)

lemma wp_errorM [rule_mac]: "E (RuntimeError e) \<Longrightarrow> wpO Q E (errorM e s)"
  by (simp add: errorM_def)

lemma wp_valM [rule_mac]:
  "(\<And>x. e s = Inr x \<Longrightarrow> wpO Q E (k x s)) \<Longrightarrow> (\<And>x. e s = Inl x \<Longrightarrow> E x) \<Longrightarrow> wpO Q E (valM e k s)"
  by (cases "e s") (simp_all add: valM_def)

lemma wp_callM [rule_mac]: "wpO (\<lambda>(x, s). wpO Q E (k x s)) E (f s) \<Longrightarrow> wpO Q E (callM f k s)"
  unfolding callM_def by (rule wpO_bindO, erule wpO_mono) auto

lemma wp_emit [rule_mac]: "Q (s\<lparr>macOut := macOut s @ [x]\<rparr>) \<Longrightarrow> wpO Q E (emit x s)"
  by (simp add: emit_def)

lemma wp_set_trx [rule_mac]:
  "Q (s\<lparr>macOut := macOut s @ [SetTrxState st], trx_state_req := st\<rparr>) \<Longrightarrow> wpO Q E (PLME_SET_TRX_STATE_request st s)"
  by (simp add: PLME_SET_TRX_STATE_request_def)

lemma wp_sendDown [rule_mac]:
  "Q (s\<lparr>inTransmission := True, macOut := macOut s @ [SendFrame f]\<rparr>) \<Longrightarrow> wpO Q E (sendDown f s)"
  by (simp add: sendDown_def)

lemma wp_startTimer [rule_mac]:
  "Q (s\<lparr>timers := (timers s)(t := Some (simTime w + d))\<rparr>) \<Longrightarrow> E (KernelError ''scheduleAt: cannot schedule to the past'') \<Longrightarrow>
   wpO Q E (startTimer t w d s)"
  by (simp add: startTimer_def)

lemma wp_cancelTimer [rule_mac]: "Q (s\<lparr>timers := (timers s)(t := None)\<rparr>) \<Longrightarrow> wpO Q E (cancelTimer t s)"
  by (simp add: cancelTimer_def)

lemma wp_newM [rule_mac]:
  "(\<And>x. f s = Inr x \<Longrightarrow> wpO Q E (k (Some (new_addr w)) (s\<lparr>frames := (frames s)(new_addr w \<mapsto> x)\<rparr>))) \<Longrightarrow>
   (\<And>x. f s = Inl x \<Longrightarrow> E x) \<Longrightarrow> wpO Q E (newM w f k s)"
  by (cases "f s") (simp_all add: newM_def)

lemma wp_Some_if [rule_mac]:
  "(b \<Longrightarrow> wpO Q E x) \<Longrightarrow> (\<not> b \<Longrightarrow> wpO Q E y) \<Longrightarrow> wpO Q E (if b then x else y)"
  by simp

lemma wp_if_stmt [rule_mac]:
  "(b \<Longrightarrow> wpO Q E (c s)) \<Longrightarrow> (\<not> b \<Longrightarrow> wpO Q E (d s)) \<Longrightarrow> wpO Q E ((if b then c else d) s)"
  by simp

section \<open>What the CSMA/CA functions leave alone\<close>

text \<open>
  The part of the state that the data request task and the frame buffers live in.
\<close>

definition core :: "Mac \<Rightarrow> _" where
  "core s = (frames s, [txBeacon s, txData s, txGTS s, txAck s, rxData s, rxCmd s, txBcnCmd s, txBcnCmdUpper s],
     (mcps_data_request (taskP s), mcps_data_request_STEP (taskP s), mcps_data_request_frFunc (taskP s),
      mcps_data_request_TxOption (taskP s)), (waitDataAck s, waitGTSAck s, numDataRetry s, numGTSRetry s),
     dataTransMode s, timers s MAC_ACK_TIMEOUT_TIMER, txPkt s, inTransmission s)"

text \<open>A state the same but for what concerns neither that part nor the frame CSMA/CA works on.\<close>

definition calm :: "Mac \<Rightarrow> Mac \<Rightarrow> bool" where
  "calm s s' \<longleftrightarrow> core s' = core s \<and> tmpCsmaca s' = tmpCsmaca s \<and> backoffStatus s' = backoffStatus s"

text \<open>No fault but the use of a deleted frame.\<close>

abbreviation no_dangling :: "fault \<Rightarrow> bool" where
  "no_dangling e \<equiv> e \<noteq> DanglingPointer"

definition tmp_live :: "Mac \<Rightarrow> bool" where
  "tmp_live s \<longleftrightarrow> (\<forall>a. tmpCsmaca s = Some a \<longrightarrow> frames s a \<noteq> None)"

lemma calm_refl [simp]: "calm s s"
  by (simp add: calm_def)

lemma calm_trans: "calm s s' \<Longrightarrow> calm s' s'' \<Longrightarrow> calm s s''"
  by (simp add: calm_def)

lemma calm_tmp_live: "calm s s' \<Longrightarrow> tmp_live s' = tmp_live s"
  by (simp add: calm_def tmp_live_def core_def)

lemma deref_tmp: "tmp_live s \<Longrightarrow> deref (tmpCsmaca s) s = Inl e \<Longrightarrow> no_dangling e"
  by (auto simp: deref_def tmp_live_def split: option.splits)

lemma deref_dangling: "deref p s = Inl DanglingPointer \<longleftrightarrow> (\<exists>a. p = Some a \<and> frames s a = None)"
  by (auto simp: deref_def split: option.splits)

lemmas calm_simps = calm_def core_def

lemma calm_startBcnRxTimer: "wpO (calm s) no_dangling (startBcnRxTimer w s)"
  by (auto simp: startBcnRxTimer_def startTimer_def calm_simps Let_def split: option.splits)

lemma calm_locate: "wpO (\<lambda>(x, s'). calm s s') no_dangling (csmacaLocateBoundary w par t s)"
  by (auto simp: csmacaLocateBoundary_def set_schedBcnRxTime_def calm_simps Let_def split: option.splits)

lemma calm_set_sched: "wpO (calm s) no_dangling (set_schedBcnRxTime w s)"
  by (auto simp: set_schedBcnRxTime_def calm_simps split: option.splits)

lemma calm_wait_next_beacon: "wpO (\<lambda>(x, s'). calm s s') no_dangling (wait_next_beacon w s)"
  unfolding wait_next_beacon_def
  by (rule wpO_bindO, rule wpO_if, rule wpO_mono [OF calm_startBcnRxTimer]) (auto simp: calm_simps)

lemma wp_bind: "wpO P E m \<Longrightarrow> (\<And>x. P x \<Longrightarrow> wpO Q E (k x)) \<Longrightarrow> wpO Q E (bindO m k)"
  by (rule wpO_bindO) (erule wpO_mono)

lemma wp_bind_call:
  "wpO (\<lambda>(x, s). P x s) E m \<Longrightarrow> (\<And>x s. P x s \<Longrightarrow> wpO Q E (k (x, s))) \<Longrightarrow> wpO Q E (bindO m k)"
  by (erule wp_bind) auto

lemma wp_bind_val: "(\<And>x. r = Inr x \<Longrightarrow> wpO Q E (k x)) \<Longrightarrow> (\<And>x. r = Inl x \<Longrightarrow> E x) \<Longrightarrow> wpO Q E (bindO (Some r) k)"
  by (cases r) auto

lemma wp_bind_opt: "(\<And>x. m = Some (Inr x) \<Longrightarrow> wpO Q E (k x)) \<Longrightarrow> (\<And>e. m = Some (Inl e) \<Longrightarrow> E e) \<Longrightarrow> wpO Q E (bindO m k)"
  by (auto simp: bindO_def wpO_def wpR_def split: option.splits sum.splits)

lemma calm_sub: "calm s s' \<Longrightarrow> wpO (calm s') E m \<Longrightarrow> wpO (calm s) E m"
  by (erule wpO_mono) (rule calm_trans)

lemma calm_call: "calm s s' \<Longrightarrow> wpO (\<lambda>(x, u). calm s' u) E m \<Longrightarrow> wpO (\<lambda>(x, u). calm s u) E m"
  by (erule wpO_mono) (auto intro: calm_trans)

lemma calm_transac_time: "wpO (\<lambda>(x, s'). calm s s') no_dangling (transac_time w after f s)"
proof -
  have "wpO (\<lambda>(x, s'). calm s s') no_dangling
    (if \<not> after then bindO (csmacaLocateBoundary w (toParent f s) (8 / phy_symbolrate s) s) (\<lambda>(b, s).
       Some (Inr (8 / phy_symbolrate s' + (b - 8 / phy_symbolrate s') + 8 / phy_symbolrate s', s))) else Some (Inr (0, s)))" for s'
    by (rule wpO_if, rule wp_bind_call [OF calm_locate]) auto
  then show ?thesis
    unfolding transac_time_def Let_def
    by (rule wp_bind_call, unfold prod.case)
      (rule wp_bind_call [OF calm_locate], auto intro: calm_trans)
qed

lemma final_cap_no_dangling: "final_cap_of w f s \<noteq> Some (Inl DanglingPointer)"
  by (auto simp: final_cap_of_def getFinalCAP_def Let_def split: if_splits)

lemma calm_can_finish: "wpO (\<lambda>(x, s'). calm s s') no_dangling (can_finish w t after f s)"
  unfolding can_finish_def
proof (rule wp_bind_call [OF calm_transac_time], unfold prod.case, rule wp_bind_opt)
  fix t' s' cap
  assume c: "calm s s'"
  have 1: "calm s' (s'\<lparr>bPeriodsLeft := x\<rparr>)" for x by (simp add: calm_simps)
  show "wpO (\<lambda>(x, s'). calm s s') no_dangling
      (if cap < simTime w + t + t' then wait_next_beacon w (s'\<lparr>bPeriodsLeft := 0\<rparr>)
       else Some (Inr (True, s'\<lparr>bPeriodsLeft := - 1\<rparr>)))"
    by (rule wpO_if, rule wpO_mono [OF calm_wait_next_beacon]) (auto intro: calm_trans [OF c] calm_trans [OF 1] 1)
qed (use final_cap_no_dangling in metis)

lemma periods_left_no_dangling: "periods_left w st spec slot bcn t s \<noteq> Inl DanglingPointer"
  by (auto simp: periods_left_def to_u16_def Let_def bindR_Inl_iff)

lemma calm_upd1:
  "calm s (s\<lparr>bPeriodsLeft := x\<rparr>)" "calm s (s\<lparr>csmacaWaitNextBeacon := b\<rparr>)"
  "calm s (s\<lparr>csmacaWaitNextBeacon := b, bPeriodsLeft := x\<rparr>)" "calm s (s\<lparr>draws := r\<rparr>)"
  "calm s (s\<lparr>beaconEnabled := b\<rparr>)" "calm s (s\<lparr>macOut := m, trx_state_req := p\<rparr>)"
  by (simp_all add: calm_simps)

lemma calm_ret: "calm s s' \<Longrightarrow> calm s' s'' \<Longrightarrow> wpO (\<lambda>(x, u). calm s u) E (Some (Inr (x, s'')))"
  by (auto intro: calm_trans)

lemma calm_canProceed: "tmp_live s \<Longrightarrow> wpO (\<lambda>(x, s'). calm s s') no_dangling (csmacaCanProceed w t after s)"
  unfolding csmacaCanProceed_def Let_def
  apply (rule wp_bind_val)
   apply (rule wp_bind_call [OF calm_locate], unfold prod.case, drule calm_trans [OF calm_upd1(2)])
   apply (rule wpO_if, erule calm_ret, rule calm_upd1)
   apply (rule wp_bind_val, rule wpO_if)
     apply (rule calm_call [OF _ calm_wait_next_beacon], erule calm_trans, rule calm_upd1)
    apply (rule calm_call [OF _ calm_can_finish], erule calm_trans, rule calm_upd1)
   apply (auto simp: periods_left_no_dangling deref_dangling tmp_live_def split: if_splits)
  done

lemma calm_choose: "wpO (\<lambda>(x, s'). calm s s') no_dangling (choose_backoff s)"
  by (simp add: choose_backoff_def calm_upd1)

lemma calm_reset: "wpO (calm s) E (csmacaReset b s)"
  by (simp add: csmacaReset_def Let_def calm_simps)

lemma calm_backoff_timer: "wpO (calm s) no_dangling (startBackoffTimer w t s)"
  by (simp add: startBackoffTimer_def startTimer_def calm_simps)

text \<open>
  CSMA/CA has been started on frame \<open>f\<close>, or has given way to an acknowledgement.
\<close>

definition started :: "fptr \<Rightarrow> Mac \<Rightarrow> Mac \<Rightarrow> bool" where
  "started f s s' \<longleftrightarrow> core s' = core s \<and>
     (tmpCsmaca s' = f \<and> backoffStatus s' = backoffStatus s \<or> tmpCsmaca s' = None \<and> backoffStatus s' = 0)"

lemma started_calm: "started f s s' \<Longrightarrow> calm s' s'' \<Longrightarrow> started f s s''"
  by (auto simp: started_def calm_def)

lemma adjust_no_dangling: "tmp_live s \<Longrightarrow> csmacaAdjustTime w t s = Inl e \<Longrightarrow> no_dangling e"
  by (auto simp: csmacaAdjustTime_def bindR_Inl_iff assertR_def deref_dangling tmp_live_def split: if_splits)

text \<open>The part of \<open>csmacaStart\<close> behind the preparations of a first start.\<close>

lemma started_tail:
  assumes "tmp_live s"
  shows "wpO (calm s) no_dangling
    (doM [set_schedBcnRxTime w, callM choose_backoff (\<lambda>wtime. valM (csmacaAdjustTime w wtime) (\<lambda>wtime.
       ifM beaconEnabled
         (callM (\<lambda>s. if first
                     then bindO (Some (deref (tmpCsmaca s) s)) (\<lambda>f. csmacaLocateBoundary w (toParent f s) wtime s)
                     else Some (Inr (wtime, s))) (\<lambda>wtime.
          callM (csmacaCanProceed w wtime False) (\<lambda>backoff. whenM (\<lambda>_. backoff) (startBackoffTimer w wtime))))
         (startBackoffTimer w wtime)))] s)"
proof -
  have L: "calm s u \<Longrightarrow> tmp_live u" for u using assms calm_tmp_live by blast
  have loc: "wpO (\<lambda>(x, s'). calm s s') no_dangling (if first
                     then bindO (Some (deref (tmpCsmaca u) u)) (\<lambda>f. csmacaLocateBoundary w (toParent f u) wt u)
                     else Some (Inr (wt, u)))" if "calm s u" for u wt
    using that by (intro wpO_if wp_bind_val calm_call [OF that calm_locate])
      (auto dest: deref_tmp [OF L])
  have bt: "wpO (calm s) no_dangling (startBackoffTimer w wt u)" if "calm s u" for u wt
    by (rule calm_sub [OF that calm_backoff_timer])
  show ?thesis
    apply (rule wp_doM_Cons, rule wpO_mono [OF calm_set_sched], rule wp_doM_Cons, rule wp_callM)
    apply (rule wpO_mono [OF calm_call [OF _ calm_choose]], assumption)
    apply (clarsimp, rule wp_valM)
     apply (rule wp_ifM, rule wp_callM, rule wpO_mono [OF loc], assumption)
      apply (clarsimp, rule wp_callM)
      apply (rule wpO_mono [OF calm_call [OF _ calm_canProceed]], assumption, erule L)
      apply (clarsimp, rule wp_whenM, erule wpO_mono [OF bt], simp, simp)
     apply (erule wpO_mono [OF bt], simp)
    apply (erule adjust_no_dangling [OF L, rotated], assumption)
    done
qed

lemma started_csmacaStart:
  assumes "\<And>a. (if first then f else tmpCsmaca s) = Some a \<Longrightarrow> frames s a \<noteq> None"
  shows "wpO (started (if first then f else tmpCsmaca s) s) no_dangling (csmacaStart w first f ack s)"
proof -
  let ?f = "if first then f else tmpCsmaca s"
  let ?P = "\<lambda>u. core u = core s \<and> tmpCsmaca u = ?f \<and> backoffStatus u = backoffStatus s"
  have tail: "wpO (started ?f s) no_dangling (doM [set_schedBcnRxTime w, callM choose_backoff k] u)"
    if "?P u" and "tmp_live u \<Longrightarrow> wpO (calm u) no_dangling (doM [set_schedBcnRxTime w, callM choose_backoff k] u)" for u k
    using that assms by (intro wpO_mono [OF that(2)]) (auto simp: started_def calm_def tmp_live_def core_def)
  have prep: "wpO ?P no_dangling (whenM (\<lambda>_. first) (doM
        [upd (\<lambda>s. s\<lparr>beaconEnabled := (macBeaconOrder (mpib s) \<noteq> 15 \<or> rxBO s \<noteq> 15)\<rparr>),
         (\<lambda>s. csmacaReset (beaconEnabled s) s),
         assertM (\<lambda>s. tmpCsmaca s = None),
         upd (\<lambda>s. s\<lparr>tmpCsmaca := f, csmacaAckReq := ack\<rparr>)]) s)"
    by (simp add: whenM_def upd_def assertM_def csmacaReset_def core_def Let_def)
  show ?thesis
    unfolding csmacaStart_def
    apply (rule wp_ifM)
     apply (rule wp_upd, simp add: started_def core_def)
    apply (rule wp_doM_Cons, rule wp_assertM)
     apply (rule wp_doM_Cons, rule wpO_mono [OF prep])
     apply (erule tail, erule started_tail)
    apply simp
    done
qed

lemma started_again: "tmp_live s \<Longrightarrow> wpO (started (tmpCsmaca s) s) no_dangling (csmacaStart w False f ack s)"
  using started_csmacaStart [of False f s w ack] by (simp add: tmp_live_def)

lemma started_refl [simp]: "started (tmpCsmaca s) s s"
  by (simp add: started_def)

lemma calm_started: "calm s s' \<Longrightarrow> started (tmpCsmaca s) s s'"
  by (simp add: started_def calm_def)

lemma started_after: "calm s s' \<Longrightarrow> started (tmpCsmaca s') s' s'' \<Longrightarrow> started (tmpCsmaca s) s s''"
  by (auto simp: started_def calm_def)

lemma started_csmacaTrxBeacon: "tmp_live s \<Longrightarrow> wpO (started (tmpCsmaca s) s) no_dangling (csmacaTrxBeacon w s)"
proof -
  assume live: "tmp_live s"
  have L: "calm s u \<Longrightarrow> tmp_live u" for u using live calm_tmp_live by blast
  have more: "wpO (started (tmpCsmaca s) s) no_dangling
     (callM (csmacaCanProceed w t False) (\<lambda>ok. whenM (\<lambda>_. ok) (startBackoffTimer w t)) u)" if c: "calm s u" for t u
    apply (rule wp_callM, rule wpO_mono [OF calm_call [OF c calm_canProceed [OF L [OF c]]]])
    apply (clarsimp, rule wp_whenM, rule wpO_mono [OF calm_sub [OF _ calm_backoff_timer]], assumption)
     apply (simp_all add: calm_started)
    done
  show ?thesis
    unfolding csmacaTrxBeacon_def Let_def
    apply (rule wp_doM_Cons, rule wpO_mono [of "calm s"], rule wp_whenM, rule wp_set_trx, simp add: calm_upd1, simp)
    apply (rule wp_doM_Cons, rule wp_upd, drule calm_trans, rule calm_upd1(5))
    apply (rule wp_doM_Cons, erule wpO_mono [OF calm_sub [OF _ calm_reset]], rule wp_doM_Cons)
    apply (rule wp_ifM)
     apply (rule wp_doM_Cons, rule wp_assertM, rule wp_doM_Cons, rule wp_ifM)
        apply (rule wpO_mono [OF started_again], erule L, simp add: started_after)
       apply (erule wpO_mono [OF more], simp)
      apply simp
    apply (rule wp_upd, simp, rule calm_started, erule calm_trans, rule calm_upd1)
    done
qed

lemma calm_backoff: "wpO (calm s) no_dangling (handleBackoffTimer s)"
  by (simp add: handleBackoffTimer_def upd_def PLME_SET_TRX_STATE_request_def calm_simps)

lemma calm_deferCCA: "wpO (calm s) no_dangling (handleDeferCCATimer s)"
  by (simp add: handleDeferCCATimer_def PLME_CCA_request_def upd_def emit_def calm_simps)

lemma calm_RX_ON_confirm: "tmp_live s \<Longrightarrow> wpO (calm s) no_dangling (csmaca_handle_RX_ON_confirm w st s)"
proof -
  assume live: "tmp_live s"
  have loc: "wpO (\<lambda>(x, s'). calm s s') no_dangling (if beaconEnabled s
                   then bindO (Some (deref (tmpCsmaca s) s)) (\<lambda>f. csmacaLocateBoundary w (toParent f s) 0 s)
                   else Some (Inr (0, s)))"
    by (intro wpO_if wp_bind_val calm_locate) (auto dest: deref_tmp [OF live])
  have t: "wpO (calm u) no_dangling (if x = 0
      then doM [upd (\<lambda>s. s\<lparr>taskP := (taskP s)\<lparr>CCA_csmaca := True\<rparr>\<rparr>), PLME_CCA_request] u
      else startDeferCCATimer w x u)" for x u
    by (simp add: upd_def PLME_CCA_request_def emit_def startDeferCCATimer_def startTimer_def calm_simps)
  show ?thesis
    unfolding csmaca_handle_RX_ON_confirm_def
    apply (rule wp_if_stmt)
     apply (rule wp_if_stmt)
      apply (rule wp_upd, simp add: calm_simps)
     apply (rule calm_backoff)
    apply (rule wp_callM, rule wpO_mono [OF loc])
    apply (unfold split_beta if_distrib [of "\<lambda>f. f _"], rule calm_sub [OF _ t], simp)
    done
qed

end
