(* ===== verification/Mac_Invariant.thy ===== *)
theory Mac_Invariant
  imports Mac_Rules
begin

text \<open>
  What holds in every state of the MAC module: the flags, pointers and timers of a data request
  agree on where it stands, and every frame on the heap has exactly one owner. The request
  itself refines an abstract state machine.
\<close>

section \<open>The abstract data request\<close>

text \<open>
  A MAC module serves one data request at a time. The first number is the step the request is in,
  the second the retransmissions so far.
\<close>

datatype phase = Idle | Direct u8 u8 | Gts u8 u8

definition phase :: "Mac \<Rightarrow> phase" where
  "phase s =
     (if \<not> mcps_data_request (taskP s) then Idle
      else if mcps_data_request_TxOption (taskP s) = DIRECT_TRANS
      then Direct (mcps_data_request_STEP (taskP s)) (numDataRetry s)
      else Gts (mcps_data_request_STEP (taskP s)) (numGTSRetry s))"

inductive task_step :: "phase \<Rightarrow> phase \<Rightarrow> bool" where
  stay: "task_step p p"
| request: "task_step Idle (Direct 1 0)"
| request_gts: "task_step Idle (Gts 1 0)"
| request_in_slot: "task_step Idle (Gts 2 0)"
| channel_won: "task_step (Direct 1 n) (Direct 2 n)"
| contend_again: "task_step (Direct 2 n) (Direct 1 n)"
| slot_begins: "task_step (Gts 1 n) (Gts 2 n)"
| sent: "task_step (Direct 2 n) (Direct 3 n)"
| sent_gts: "task_step (Gts 2 n) (Gts 3 n)"
| sent_unacknowledged: "task_step (Direct 2 n) Idle"
| sent_gts_unacknowledged: "task_step (Gts 2 n) (Gts 4 n)"
| acknowledged: "task_step (Direct k n) Idle"
| acknowledged_gts: "task_step (Gts 3 n) (Gts 4 0)"
| retry: "n < 3 \<Longrightarrow> task_step (Direct 3 n) (Direct 1 (n + 1))"
| retry_gts: "n < 3 \<Longrightarrow> task_step (Gts 3 n) (Gts 1 (n + 1))"
| failed: "task_step (Direct 3 3) Idle"
| failed_gts: "task_step (Gts 3 3) Idle"
| gts_done: "task_step (Gts 4 n) Idle"

section \<open>The invariant\<close>

text \<open>The flags, pointers and timers of the module agree on the phase of the data request.\<close>

fun phase_ok :: "phase \<Rightarrow> string \<Rightarrow> bool" where
  "phase_ok Idle f = True"
| "phase_ok (Direct k n) f =
     (n \<le> 3 \<and> (k = 1 \<and> f = ''csmacaCallBack'' \<or> k = 2 \<and> f = ''handle_PD_DATA_confirm'' \<or> k = 3 \<and> f = ''handleAck''))"
| "phase_ok (Gts k n) f =
     (n \<le> 3 \<and> (k = 1 \<and> f = ''handleGtsTimer'' \<or> k = 2 \<and> f = ''handle_PD_DATA_confirm'' \<or> k = 3 \<and> f = ''handleAck'' \<or>
       k = 4 \<and> f = ''handleIfsTimer''))"

definition task_wf :: "Mac \<Rightarrow> bool" where
  "task_wf s \<longleftrightarrow> txBcnCmd s = None \<and> txBcnCmdUpper s = None \<and>
     (dataTransMode s = DIRECT_TRANS \<or> dataTransMode s = GTS_TRANS) \<and>
     (mcps_data_request (taskP s) \<longrightarrow> mcps_data_request_TxOption (taskP s) = dataTransMode s) \<and>
     phase_ok (phase s) (mcps_data_request_frFunc (taskP s)) \<and>
     (txData s \<noteq> None \<longleftrightarrow> (\<exists>k n. phase s = Direct k n)) \<and>
     (txGTS s \<noteq> None \<longleftrightarrow> (\<exists>k n. phase s = Gts k n)) \<and>
     (waitDataAck s \<longleftrightarrow> (\<exists>n. phase s = Direct 3 n)) \<and>
     (waitGTSAck s \<longleftrightarrow> (\<exists>n. phase s = Gts 3 n)) \<and>
     (isScheduled MAC_ACK_TIMEOUT_TIMER s \<longrightarrow> waitDataAck s \<or> waitGTSAck s)"

text \<open>CSMA/CA works on the frame of the data request, while the request is in its first step.\<close>

definition csma_wf :: "Mac \<Rightarrow> bool" where
  "csma_wf s \<longleftrightarrow> (tmpCsmaca s \<noteq> None \<longrightarrow> backoffStatus s = 99 \<and> tmpCsmaca s = txData s \<and> (\<exists>n. phase s = Direct 1 n))"

text \<open>
  Every frame on the heap is owned by exactly one buffer, and every buffer is empty or owns a frame;
  \<open>X\<close> holds the frames a handler has not stored or deleted yet.
\<close>

definition buffers :: "Mac \<Rightarrow> fptr list" where
  "buffers s = [txBeacon s, txData s, txGTS s, txAck s, rxData s, rxCmd s]"

definition owns :: "nat set \<Rightarrow> (nat \<rightharpoonup> Ieee802154Frame) \<Rightarrow> fptr list \<Rightarrow> bool" where
  "owns X h bs \<longleftrightarrow> sorted_wrt (\<lambda>p q. p \<noteq> None \<longrightarrow> p \<noteq> q) bs \<and>
     dom h = X \<union> {a. Some a \<in> set bs} \<and> (\<forall>a\<in>X. Some a \<notin> set bs)"

definition own_wf :: "nat set \<Rightarrow> Mac \<Rightarrow> bool" where
  "own_wf X s \<longleftrightarrow> owns X (frames s) (buffers s)"

definition mac_wf :: "nat set \<Rightarrow> Mac \<Rightarrow> bool" where
  "mac_wf X s \<longleftrightarrow> task_wf s \<and> csma_wf s \<and> own_wf X s"

text \<open>What an operation does to a well-formed state: it stays well-formed, and the request makes a step.\<close>

definition steps_to :: "nat set \<Rightarrow> Mac \<Rightarrow> Mac \<Rightarrow> bool" where
  "steps_to X s s' \<longleftrightarrow> mac_wf X s' \<and> task_step (phase s) (phase s')"

lemma core_eq_phase: "core s' = core s \<Longrightarrow> phase s' = phase s"
  by (simp add: core_def phase_def)

lemma core_eq_task: "core s' = core s \<Longrightarrow> task_wf s' = task_wf s"
  using core_eq_phase [of s' s] by (simp add: core_def task_wf_def isScheduled_def)

lemma core_eq_own: "core s' = core s \<Longrightarrow> own_wf X s' = own_wf X s"
  by (simp add: core_def own_wf_def buffers_def)

lemma calm_wf: "calm s s' \<Longrightarrow> mac_wf X s' = mac_wf X s"
  using core_eq_phase [of s' s] core_eq_task [of s' s] core_eq_own [of s' s]
  by (auto simp: calm_def mac_wf_def csma_wf_def core_def)

lemma calm_phase: "calm s s' \<Longrightarrow> phase s' = phase s"
  unfolding calm_def by (blast intro: core_eq_phase)

lemma started_wf: "mac_wf X s \<Longrightarrow> started (tmpCsmaca s) s s' \<Longrightarrow> mac_wf X s'"
  using core_eq_phase [of s' s] core_eq_task [of s' s] core_eq_own [of s' s]
  by (auto simp: started_def mac_wf_def csma_wf_def core_def)

lemma started_phase: "started f s s' \<Longrightarrow> phase s' = phase s"
  unfolding started_def by (blast intro: core_eq_phase)

lemma own_live: "own_wf X s \<Longrightarrow> Some a \<in> set (buffers s) \<Longrightarrow> frames s a \<noteq> None"
  unfolding own_wf_def owns_def by blast

lemma wf_own: "mac_wf X s \<Longrightarrow> own_wf X s"
  by (simp add: mac_wf_def)

lemma wf_deref: "mac_wf X s \<Longrightarrow> p \<in> set (buffers s) \<Longrightarrow> deref p s = Inl e \<Longrightarrow> no_dangling e"
  by (metis deref_dangling own_live wf_own)

lemma wf_tmp_live: "mac_wf X s \<Longrightarrow> tmp_live s"
proof -
  assume wf: "mac_wf X s"
  have "txData s \<in> set (buffers s)" by (simp add: buffers_def)
  then show ?thesis
    using own_live [OF wf_own [OF wf]] wf unfolding tmp_live_def mac_wf_def csma_wf_def by (metis option.distinct(1))
qed

section \<open>Ends of tasks\<close>

text \<open>A resumed CSMA/CA takes a request that had won the channel back to its first step.\<close>

fun resumed :: "phase \<Rightarrow> phase" where
  "resumed (Direct k n) = (if k = 2 then Direct 1 n else Direct k n)"
| "resumed p = p"

definition resumes_to :: "nat set \<Rightarrow> Mac \<Rightarrow> Mac \<Rightarrow> bool" where
  "resumes_to X s s' \<longleftrightarrow> mac_wf X s' \<and> (phase s' = phase s \<or> phase s' = resumed (phase s))"

lemma resume_state:
  assumes wf: "mac_wf X s" and "txData s \<noteq> None" and "\<not> waitDataAck s" and "backoffStatus s \<noteq> 99"
  defines "u \<equiv> s\<lparr>taskP := (taskP s)\<lparr>mcps_data_request_frFunc := ''csmacaCallBack'', mcps_data_request_STEP := 1\<rparr>,
                         backoffStatus := 99, txCsmaca := txData s\<rparr>"
  shows "task_wf u" "own_wf X u" "\<exists>n. phase u = Direct 1 n" "phase u = resumed (phase s)" "tmpCsmaca u = None"
proof -
  obtain k n where ph: "phase s = Direct k n" using assms(1,2) by (auto simp: mac_wf_def task_wf_def)
  have t: "mcps_data_request (taskP s)" "mcps_data_request_TxOption (taskP s) = DIRECT_TRANS"
    "k = mcps_data_request_STEP (taskP s)" "n = numDataRetry s"
    using ph by (auto simp: phase_def split: if_splits)
  have k: "k = 1 \<or> k = 2" and n: "n \<le> 3" using wf assms(3) ph by (auto simp: mac_wf_def task_wf_def)
  have u: "phase u = Direct 1 n" using t by (simp add: u_def phase_def)
  show "\<exists>n. phase u = Direct 1 n" "phase u = resumed (phase s)" using u ph k by auto
  show "own_wf X u" using wf by (simp add: mac_wf_def own_wf_def buffers_def u_def)
  have "tmpCsmaca s = None" using wf assms(4) by (auto simp: mac_wf_def csma_wf_def)
  then show "tmpCsmaca u = None" by (simp add: u_def)
  show "task_wf u" unfolding task_wf_def u
    using wf ph assms(2,3) t n k by (auto simp: mac_wf_def task_wf_def u_def isScheduled_def)
qed

lemma resume_first:
  assumes wf: "mac_wf X s" and p: "txData s \<noteq> None" "\<not> waitDataAck s" "backoffStatus s \<noteq> 99"
  shows "wpO (resumes_to X s) no_dangling (doM
    [upd (\<lambda>s. s\<lparr>taskP := (taskP s)\<lparr>mcps_data_request_frFunc := ''csmacaCallBack'', mcps_data_request_STEP := 1\<rparr>,
              backoffStatus := 99, txCsmaca := txData s\<rparr>),
     valM (\<lambda>s. deref (txData s) s) (\<lambda>f s. csmacaStart w True (txData s) (ackReq (frmCtrl f)) s)] s)"
proof -
  define u where "u = s\<lparr>taskP := (taskP s)\<lparr>mcps_data_request_frFunc := ''csmacaCallBack'', mcps_data_request_STEP := 1\<rparr>,
                         backoffStatus := 99, txCsmaca := txData s\<rparr>"
  note u = resume_state [OF assms, folded u_def]
  have live: "txData u = Some a \<Longrightarrow> frames u a \<noteq> None" for a
    using own_live [OF u(2)] by (metis buffers_def list.set_intros)
  have b: "backoffStatus u = 99" by (simp add: u_def)
  have "resumes_to X s v" if "started (txData u) u v" for v
  proof -
    have c: "core v = core u" using that by (simp add: started_def)
    have "txData v = txData u" using c by (simp add: core_def)
    then show ?thesis
      using that u(1-5) b core_eq_phase [OF c] core_eq_task [OF c] core_eq_own [OF c]
      by (auto simp: resumes_to_def mac_wf_def csma_wf_def started_def)
  qed
  then have "wpO (resumes_to X s) no_dangling (csmacaStart w True (txData u) k u)" for k
    using live by (intro wpO_mono [OF started_csmacaStart]) auto
  moreover have "deref (txData u) u = Inl e \<Longrightarrow> no_dangling e" for e
    using live by (auto simp: deref_dangling)
  ultimately show ?thesis
    apply -
    apply (rule wp_doM_Cons, rule wp_upd, fold u_def, rule wp_doM_Cons, rule wp_valM)
     apply (rule wpO_mono [of "resumes_to X s"], assumption, erule wp_doM_Nil)
    apply assumption
    done
qed

lemma resume_ok: "mac_wf X s \<Longrightarrow> wpO (resumes_to X s) no_dangling (csmacaResume w s)"
  unfolding csmacaResume_def
  apply (rule wp_whenM, rule wp_ifM, simp add: mac_wf_def task_wf_def, rule wp_ifM, simp add: mac_wf_def task_wf_def)
   apply (rule wp_whenM, rule resume_first)
       apply (simp_all add: resumes_to_def)
  done

declare doM.simps [simp del]

lemma wp_deleteM:
  "(p s = None \<Longrightarrow> Q s) \<Longrightarrow> (\<And>a. p s = Some a \<Longrightarrow> frames s a \<noteq> None \<Longrightarrow> Q (s\<lparr>frames := (frames s)(a := None)\<rparr>)) \<Longrightarrow>
   (\<And>a. p s = Some a \<Longrightarrow> frames s a = None \<Longrightarrow> E DanglingPointer) \<Longrightarrow> wpO Q E (deleteM p s)"
  by (auto simp: deleteM_def split: option.splits)

lemma sorted_wrt_distinct_nth:
  "sorted_wrt (\<lambda>p q. p \<noteq> None \<longrightarrow> p \<noteq> q) bs \<longleftrightarrow>
   (\<forall>i j. i < length bs \<longrightarrow> j < length bs \<longrightarrow> i \<noteq> j \<longrightarrow> bs ! i \<noteq> None \<longrightarrow> bs ! i \<noteq> bs ! j)"
  (is "?l \<longleftrightarrow> ?r")
proof
  assume l: ?l
  show ?r
  proof (intro allI impI)
    fix i j assume "i < length bs" "j < length bs" "i \<noteq> j" "bs ! i \<noteq> None"
    then show "bs ! i \<noteq> bs ! j"
      using l unfolding sorted_wrt_iff_nth_less by (cases i j rule: linorder_cases) (metis | simp)+
  qed
qed (simp add: sorted_wrt_iff_nth_less)

lemma distinct_update:
  assumes "sorted_wrt (\<lambda>p q. p \<noteq> None \<longrightarrow> p \<noteq> q) bs" and "x = None \<or> x \<notin> set bs"
  shows "sorted_wrt (\<lambda>p q. p \<noteq> None \<longrightarrow> p \<noteq> q) (bs[i := x])"
  unfolding sorted_wrt_distinct_nth
proof (intro allI impI)
  fix j k assume "j < length (bs[i := x])" "k < length (bs[i := x])" "j \<noteq> k" "bs[i := x] ! j \<noteq> None"
  then show "bs[i := x] ! j \<noteq> bs[i := x] ! k"
    using assms unfolding sorted_wrt_distinct_nth
    by (cases "i = j"; cases "i = k") (auto simp: in_set_conv_nth)
qed

lemma ownsI:
  "sorted_wrt (\<lambda>p q. p \<noteq> None \<longrightarrow> p \<noteq> q) bs \<Longrightarrow> dom h = X \<union> {a. Some a \<in> set bs} \<Longrightarrow> \<forall>a\<in>X. Some a \<notin> set bs \<Longrightarrow>
   owns X h bs"
  unfolding owns_def by blast

lemma owns_del:
  assumes "owns X h bs" and "i < length bs" and "bs ! i = Some a"
  shows "owns X (h(a := None)) (bs[i := None])"
proof -
  have d: "bs ! j \<noteq> Some a" if "j < length bs" "j \<noteq> i" for j
    using assms that unfolding owns_def sorted_wrt_distinct_nth by (metis option.distinct(1))
  have s: "Some b \<in> set (bs[i := None]) \<longleftrightarrow> Some b \<in> set bs \<and> b \<noteq> a" for b
    unfolding in_set_conv_nth using d assms(2,3)
    by (metis length_list_update nth_list_update_eq nth_list_update_neq option.distinct(1) option.inject)
  have "a \<notin> X" using assms unfolding owns_def by (metis nth_mem)
  then have "dom (h(a := None)) = X \<union> {b. Some b \<in> set (bs[i := None])}"
    using assms(1) unfolding owns_def by (auto simp: s)
  moreover have "\<forall>b\<in>X. Some b \<notin> set (bs[i := None])" using assms(1) by (simp add: s owns_def)
  moreover have "sorted_wrt (\<lambda>p q. p \<noteq> None \<longrightarrow> p \<noteq> q) (bs[i := None])"
    using assms(1) by (intro distinct_update) (auto simp: owns_def in_set_conv_nth)
  ultimately show ?thesis by (intro ownsI)
qed

lemma owns_store:
  assumes "owns X h bs" and "i < length bs" and "bs ! i = None" and "a \<in> X"
  shows "owns (X - {a}) h (bs[i := Some a])"
proof -
  have d: "bs ! j \<noteq> Some a" if "j < length bs" for j using assms that unfolding owns_def by (metis nth_mem)
  have s: "Some b \<in> set (bs[i := Some a]) \<longleftrightarrow> Some b \<in> set bs \<or> b = a" for b
    unfolding in_set_conv_nth using assms(2,3)
    by (metis length_list_update nth_list_update_eq nth_list_update_neq option.distinct(1) option.inject)
  have "dom h = (X - {a}) \<union> {b. Some b \<in> set (bs[i := Some a])}"
    using assms(1,4) unfolding owns_def by (auto simp: s)
  moreover have "\<forall>b\<in>X - {a}. Some b \<notin> set (bs[i := Some a])" using assms(1) by (simp add: s owns_def)
  moreover have "sorted_wrt (\<lambda>p q. p \<noteq> None \<longrightarrow> p \<noteq> q) (bs[i := Some a])"
    using assms(1) d by (intro distinct_update) (auto simp: owns_def in_set_conv_nth)
  ultimately show ?thesis by (intro ownsI)
qed

lemma owns_new: "owns X h bs \<Longrightarrow> a \<notin> dom h \<Longrightarrow> owns (insert a X) (h(a \<mapsto> f)) bs"
proof -
  assume o: "owns X h bs" and a: "a \<notin> dom h"
  have n: "Some a \<notin> set bs" using o a unfolding owns_def by blast
  have d: "dom (h(a \<mapsto> f)) = insert a X \<union> {a. Some a \<in> set bs}" using o by (simp add: owns_def)
  show ?thesis by (rule ownsI [OF _ d]) (use o n in \<open>simp_all add: owns_def\<close>)
qed

lemma owns_drop: "owns X h bs \<Longrightarrow> a \<in> X \<Longrightarrow> owns (X - {a}) (h(a := None)) bs"
proof -
  assume o: "owns X h bs" and a: "a \<in> X"
  then have "dom h = X \<union> {b. Some b \<in> set bs}" "Some a \<notin> set bs" by (simp_all add: owns_def)
  then have d: "dom (h(a := None)) = X - {a} \<union> {b. Some b \<in> set bs}" by auto
  show ?thesis by (rule ownsI [OF _ d]) (use o in \<open>simp_all add: owns_def\<close>)
qed

lemma own_del:
  assumes "own_wf X s" and "i < length (buffers s)" and "buffers s ! i = Some a"
    and "frames u = (frames s)(a := None)" and "buffers u = (buffers s)[i := None]"
  shows "own_wf X u"
  using owns_del [OF assms(1) [unfolded own_wf_def] assms(2,3)] assms(4,5) by (simp add: own_wf_def)

lemma own_same: "own_wf X s \<Longrightarrow> frames u = frames s \<Longrightarrow> buffers u = buffers s \<Longrightarrow> own_wf X u"
  by (simp add: own_wf_def)

lemma own_deleteM:
  "own_wf X s \<Longrightarrow> p s \<in> set (buffers s) \<Longrightarrow> (p s = None \<Longrightarrow> Q s) \<Longrightarrow>
   (\<And>a. p s = Some a \<Longrightarrow> Q (s\<lparr>frames := (frames s)(a := None)\<rparr>)) \<Longrightarrow> wpO Q E (deleteM p s)"
  by (rule wp_deleteM) (auto dest: own_live)

text \<open>The request has ended, but its frame is still in its buffer.\<close>

definition ending :: "nat set \<Rightarrow> Mac \<Rightarrow> bool" where
  "ending X s \<longleftrightarrow> own_wf X s \<and> txBcnCmd s = None \<and> txBcnCmdUpper s = None \<and>
     (dataTransMode s = DIRECT_TRANS \<or> dataTransMode s = GTS_TRANS) \<and> \<not> mcps_data_request (taskP s) \<and>
     \<not> waitDataAck s \<and> \<not> waitGTSAck s \<and> \<not> isScheduled MAC_ACK_TIMEOUT_TIMER s \<and> tmpCsmaca s = None"

definition idle_wf :: "nat set \<Rightarrow> Mac \<Rightarrow> bool" where
  "idle_wf X s \<longleftrightarrow> mac_wf X s \<and> phase s = Idle"

lemma idle_iff: "idle_wf X s \<longleftrightarrow> ending X s \<and> txData s = None \<and> txGTS s = None"
  by (auto simp: idle_wf_def ending_def mac_wf_def task_wf_def csma_wf_def phase_def split: if_splits)

lemma idle_resume: "idle_wf X s \<Longrightarrow> wpO (idle_wf X) no_dangling (csmacaResume w s)"
  unfolding idle_wf_def by (rule wpO_mono [OF resume_ok]) (auto simp: resumes_to_def)

lemmas mac_emits = reqtMsgFromIFq_def emit_def request_when_idle_def MCPS_DATA_confirm_def

lemma calm_request: "wpO (calm s) no_dangling (request_when_idle s)"
  by (simp add: mac_emits whenM_def calm_simps)

lemma idle_calm: "idle_wf X s \<Longrightarrow> calm s s' \<Longrightarrow> idle_wf X s'"
  unfolding idle_wf_def by (simp add: calm_wf calm_phase)

lemma idle_request: "idle_wf X s \<Longrightarrow> wpO (idle_wf X) no_dangling (request_when_idle s)"
  by (rule wpO_mono [OF calm_request]) (rule idle_calm)

lemma wp_confirm [rule_mac]: "Q s \<Longrightarrow> wpO Q E (MCPS_DATA_confirm st s)"
  by (simp add: MCPS_DATA_confirm_def)

lemma ending_del:
  assumes "ending X s" and "i < length (buffers s)" and "buffers s ! i = Some a"
    and "frames u = (frames s)(a := None)" and "buffers u = (buffers s)[i := None]"
    and "txBcnCmd u = txBcnCmd s" "txBcnCmdUpper u = txBcnCmdUpper s" "dataTransMode u = dataTransMode s" "taskP u = taskP s"
      "waitDataAck u = waitDataAck s" "waitGTSAck u = waitGTSAck s" "timers u = timers s" "tmpCsmaca u = tmpCsmaca s"
  shows "ending X u"
  using assms own_del [OF _ assms(2-5)] by (simp add: ending_def isScheduled_def)

lemma ending_del_data:
  "ending X s \<Longrightarrow> txGTS s = None \<Longrightarrow> txData s = Some a \<Longrightarrow>
   idle_wf X (s\<lparr>frames := (frames s)(a := None), txData := None, stats := st\<rparr>)"
  using ending_del [of X s 1 a "s\<lparr>frames := (frames s)(a := None), txData := None, stats := st\<rparr>"]
  by (simp add: idle_iff buffers_def)

lemma ending_del_gts:
  "ending X s \<Longrightarrow> txData s = None \<Longrightarrow> txGTS s = Some a \<Longrightarrow>
   idle_wf X (s\<lparr>frames := (frames s)(a := None), txGTS := None, stats := st\<rparr>)"
  using ending_del [of X s 2 a "s\<lparr>frames := (frames s)(a := None), txGTS := None, stats := st\<rparr>"]
  by (simp add: idle_iff buffers_def)

lemma data_sent_ok: "ending X s \<Longrightarrow> txGTS s = None \<Longrightarrow> wpO (idle_wf X) no_dangling (data_sent w b s)"
  unfolding data_sent_def
  apply (rule wp_doM_Cons, rule wp_assertM, rule wp_doM_Cons, rule own_deleteM [of X])
      apply (simp add: ending_def, simp add: buffers_def, simp)
    apply (rule wp_doM_Cons, rule wp_upd, rule wp_doM_Cons, rule wp_confirm, rule wp_doM_Cons, rule wp_upd)
    apply (rule wp_doM_Cons, rule wpO_mono [OF idle_request [of X]], simp add: ending_del_data)
    apply (rule wp_doM_Cons, rule wp_whenM)
     apply (rule wpO_mono [OF idle_resume], assumption, erule wp_doM_Nil)
    apply (erule wp_doM_Nil)
   apply simp
  done

lemma data_failed_ok:
  "ending X s \<Longrightarrow> txGTS s = None \<Longrightarrow> wpO (idle_wf X) no_dangling (taskFailed w CHR ''d'' st b s)"
  unfolding taskFailed_def
  apply simp
  apply (rule wp_doM_Cons, rule wp_assertM, rule wp_doM_Cons, rule own_deleteM [of X])
      apply (simp add: ending_def, simp add: buffers_def, simp)
    apply (rule wp_doM_Cons, rule wp_upd, rule wp_doM_Cons, rule wp_confirm)
    apply (rule wp_doM_Cons, rule wpO_mono [of "idle_wf X"], rule wp_whenM)
      apply (rule idle_resume, simp add: ending_del_data, simp add: ending_del_data)
    apply (rule wp_doM_Cons, rule wpO_mono [OF idle_request], assumption, erule wp_doM_Nil)
   apply simp
  done

text \<open>The mark of a pending GTS transmission concerns none of this.\<close>

lemma gts_at_no_dangling: "gts_at i s \<noteq> Inl DanglingPointer"
  by (simp add: gts_at_def)

lemma calm_set_gts: "wpO (calm s) no_dangling (set_gts i f s)"
  unfolding set_gts_def
  by (rule wp_valM, rule wp_upd) (auto simp: calm_simps gts_at_no_dangling)

lemma ending_clear:
  "ending X s \<Longrightarrow> wpO (\<lambda>s'. ending X s' \<and> txData s' = txData s \<and> txGTS s' = txGTS s) no_dangling (clear_pending s)"
  unfolding clear_pending_def set_gts_def
  apply (rule wp_whenM, rule wp_valM, rule wp_doM_Cons, rule wp_assertM, rule wp_doM_Cons, rule wp_valM, rule wp_upd, rule wp_doM_Nil)
      apply (auto simp: gts_at_no_dangling ending_def own_wf_def buffers_def isScheduled_def)
  done

lemma gts_sent_ok: "ending X s \<Longrightarrow> txData s = None \<Longrightarrow> wpO (idle_wf X) no_dangling (gts_sent s)"
  unfolding gts_sent_def
  apply (rule wp_doM_Cons, rule wp_assertM, rule wp_doM_Cons, rule wpO_mono [OF ending_clear], assumption)
   apply (elim conjE, rule wp_doM_Cons, rule own_deleteM [of X])
      apply (simp add: ending_def, simp add: buffers_def, simp)
   apply (rule wp_doM_Cons, rule wp_upd, rule wp_doM_Cons, rule wp_confirm, rule wp_doM_Cons, rule wp_upd)
   apply (rule wp_doM_Cons, rule wpO_mono [OF idle_request [of X]], simp add: ending_del_gts, erule wp_doM_Nil)
  apply simp
  done

lemma gts_failed_ok:
  "ending X s \<Longrightarrow> txData s = None \<Longrightarrow> wpO (idle_wf X) no_dangling (taskFailed w CHR ''g'' st b s)"
  unfolding taskFailed_def
  apply simp
  apply (rule wp_doM_Cons, rule wp_assertM, rule wp_doM_Cons, rule wpO_mono [OF ending_clear], assumption)
   apply (elim conjE, rule wp_doM_Cons, rule own_deleteM [of X])
      apply (simp add: ending_def, simp add: buffers_def, simp)
   apply (rule wp_doM_Cons, rule wp_upd, rule wp_doM_Cons, rule wp_confirm)
   apply (rule wp_doM_Cons, rule wpO_mono [OF idle_request [of X]], simp add: ending_del_gts, erule wp_doM_Nil)
  apply simp
  done

text \<open>Acknowledgements and beacons: their buffers are not part of the data request.\<close>

definition task_core :: "Mac \<Rightarrow> _" where
  "task_core s = (txData s, txGTS s, txBcnCmd s, txBcnCmdUpper s,
     (mcps_data_request (taskP s), mcps_data_request_STEP (taskP s), mcps_data_request_frFunc (taskP s),
      mcps_data_request_TxOption (taskP s)), (waitDataAck s, waitGTSAck s, numDataRetry s, numGTSRetry s),
     dataTransMode s, timers s MAC_ACK_TIMEOUT_TIMER, tmpCsmaca s, backoffStatus s)"

lemma task_core_phase: "task_core u = task_core s \<Longrightarrow> phase u = phase s"
  by (simp add: task_core_def phase_def)

lemma task_core_wf: "task_core u = task_core s \<Longrightarrow> task_wf u = task_wf s \<and> csma_wf u = csma_wf s"
  using task_core_phase [of u s] by (simp add: task_core_def task_wf_def csma_wf_def isScheduled_def)

lemma wf_del:
  assumes "mac_wf X s" and "i < length (buffers s)" and "buffers s ! i = Some a"
    and "frames u = (frames s)(a := None)" and "buffers u = (buffers s)[i := None]" and "task_core u = task_core s"
  shows "mac_wf X u \<and> phase u = phase s"
  using assms own_del [OF _ assms(2-5), of X] task_core_wf [OF assms(6)] task_core_phase [OF assms(6)]
  by (simp add: mac_wf_def)

lemma wf_del_ack:
  assumes "mac_wf X s" "txAck s = Some a"
  shows "mac_wf X (s\<lparr>frames := (frames s)(a := None), txAck := None\<rparr>) \<and> phase (s\<lparr>frames := (frames s)(a := None), txAck := None\<rparr>) = phase s"
  using wf_del [of X s 3 a "s\<lparr>frames := (frames s)(a := None), txAck := None\<rparr>"] assms by (simp add: buffers_def task_core_def)

lemma wf_del_beacon:
  assumes "mac_wf X s" "txBeacon s = Some a"
  shows "mac_wf X (s\<lparr>frames := (frames s)(a := None), txBeacon := None\<rparr>) \<and>
    phase (s\<lparr>frames := (frames s)(a := None), txBeacon := None\<rparr>) = phase s"
  using wf_del [of X s 0 a "s\<lparr>frames := (frames s)(a := None), txBeacon := None\<rparr>"] assms by (simp add: buffers_def task_core_def)

lemma wf_del_rxData:
  assumes "mac_wf X s" "rxData s = Some a"
  shows "mac_wf X (s\<lparr>frames := (frames s)(a := None), rxData := None\<rparr>) \<and>
    phase (s\<lparr>frames := (frames s)(a := None), rxData := None\<rparr>) = phase s"
  using wf_del [of X s 4 a "s\<lparr>frames := (frames s)(a := None), rxData := None\<rparr>"] assms by (simp add: buffers_def task_core_def)

section \<open>Operations that keep the phase\<close>

definition keeps :: "nat set \<Rightarrow> Mac \<Rightarrow> Mac \<Rightarrow> bool" where
  "keeps X s u \<longleftrightarrow> mac_wf X u \<and> phase u = phase s"

lemma wp_seq: "wpO P E (c u) \<Longrightarrow> (\<And>v. P v \<Longrightarrow> wpO Q E (doM cs v)) \<Longrightarrow> wpO Q E (doM (c # cs) u)"
  by (rule wp_doM_Cons) (erule wpO_mono)

lemma wp_one: "wpO Q E (c u) \<Longrightarrow> wpO Q E (doM [c] u)"
  by (rule wp_doM_Cons) (erule wpO_mono, erule wp_doM_Nil)

lemma keeps_refl: "mac_wf X s \<Longrightarrow> keeps X s s"
  by (simp add: keeps_def)

lemma keeps_wf: "keeps X s u \<Longrightarrow> mac_wf X u"
  by (simp add: keeps_def)

lemma keeps_live: "keeps X s u \<Longrightarrow> tmp_live u"
  using wf_tmp_live keeps_wf by blast

lemma keeps_calm: "keeps X s u \<Longrightarrow> calm u v \<Longrightarrow> keeps X s v"
  by (simp add: keeps_def calm_wf calm_phase)

lemma keeps_started: "keeps X s u \<Longrightarrow> started (tmpCsmaca u) u v \<Longrightarrow> keeps X s v"
  using started_wf started_phase unfolding keeps_def by metis

lemma wp_calm: "keeps X s u \<Longrightarrow> wpO (calm u) E m \<Longrightarrow> wpO (keeps X s) E m"
  by (erule wpO_mono) (rule keeps_calm)

lemma wp_started: "keeps X s u \<Longrightarrow> wpO (started (tmpCsmaca u) u) E m \<Longrightarrow> wpO (keeps X s) E m"
  by (erule wpO_mono) (rule keeps_started)

lemma wp_keeps_upd: "keeps X s u \<Longrightarrow> calm u (f u) \<Longrightarrow> wpO (keeps X s) E (upd f u)"
  by (rule wp_upd) (rule keeps_calm)

lemma wp_keeps_when: "keeps X s u \<Longrightarrow> (b u \<Longrightarrow> wpO (keeps X s) E (c u)) \<Longrightarrow> wpO (keeps X s) E (whenM b c u)"
  by (rule wp_whenM)

text \<open>Statements that keep the phase may come first.\<close>

lemma keeps_seq:
  "keeps X s u \<Longrightarrow> (\<And>u. keeps X s u \<Longrightarrow> wpO (keeps X s) E (c u)) \<Longrightarrow> (\<And>v. keeps X s v \<Longrightarrow> wpO Q E (doM cs v)) \<Longrightarrow>
   wpO Q E (doM (c # cs) u)"
  by (blast intro: wp_seq)

lemma keeps_seq_calm:
  "keeps X s u \<Longrightarrow> wpO (calm u) E (c u) \<Longrightarrow> (\<And>v. keeps X s v \<Longrightarrow> wpO Q E (doM cs v)) \<Longrightarrow> wpO Q E (doM (c # cs) u)"
  by (blast intro: wp_seq wp_calm)

lemma keeps_seq_upd:
  "keeps X s u \<Longrightarrow> calm u (f u) \<Longrightarrow> (\<And>v. keeps X s v \<Longrightarrow> wpO Q E (doM cs v)) \<Longrightarrow> wpO Q E (doM (upd f # cs) u)"
  by (blast intro: wp_seq wp_keeps_upd)

lemma resume_keeps: "keeps X s u \<Longrightarrow> wpO (resumes_to X s) no_dangling (csmacaResume w u)"
  by (rule wpO_mono [OF resume_ok [of X]]) (auto simp: keeps_def resumes_to_def)

lemma resume_when: "keeps X s u \<Longrightarrow> wpO (resumes_to X s) no_dangling (whenM b (csmacaResume w) u)"
  by (rule wp_whenM, erule resume_keeps) (simp add: keeps_def resumes_to_def)

lemma calm_set_trx: "wpO (calm s) no_dangling (PLME_SET_TRX_STATE_request p s)"
  by (simp add: PLME_SET_TRX_STATE_request_def calm_upd1)

lemma calm_resetTRX: "wpO (calm s) no_dangling (resetTRX s)"
  by (simp add: resetTRX_def Let_def calm_set_trx)

lemma keeps_del:
  assumes "keeps X s v" and "i < length (buffers v)" and "buffers v ! i = Some a"
    and "frames u = (frames v)(a := None)" and "buffers u = (buffers v)[i := None]" and "task_core u = task_core v"
  shows "keeps X s u"
  using wf_del [OF _ assms(2-6), of X] assms(1) by (simp add: keeps_def)

lemma keeps_buffer: "keeps X s u \<Longrightarrow> own_wf X u"
  by (simp add: keeps_def wf_own)

lemma ack_sent_ok: "keeps X s v \<Longrightarrow> wpO (resumes_to X s) no_dangling (ack_sent w b v)"
  unfolding ack_sent_def
  apply (erule keeps_seq_upd, simp add: calm_simps)
  apply (rule wp_doM_Cons, rule wp_assertM, rule wp_doM_Cons)
   apply (rule own_deleteM, erule keeps_buffer, simp add: buffers_def, simp)
   apply (rule wp_doM_Cons, rule wp_upd, rule wp_one, rule resume_when)
   apply (erule keeps_del [of X s _ 3], simp_all add: buffers_def task_core_def)
  done

lemma to_u8_no_dangling: "to_u8 x \<noteq> Inl DanglingPointer"
  by (simp add: to_u8_def)

lemma bcn_periods_no_dangling: "bcn_periods f s \<noteq> Inl DanglingPointer"
  by (simp add: bcn_periods_def Let_def bindR_Inl_iff to_u8_no_dangling)

lemma beacon_tail_ok:
  "keeps X s v \<Longrightarrow> wpO (resumes_to X s) no_dangling (doM
     [upd (\<lambda>s. s\<lparr>beaconWaitingTx := False\<rparr>), deleteM txBeacon,
      upd (\<lambda>s. s\<lparr>txBeacon := None, stats := (stats s)\<lparr>numTxBcnPkt := numTxBcnPkt (stats s) + 1\<rparr>\<rparr>),
      whenM c (csmacaResume w)] v)"
  apply (erule keeps_seq_upd, simp add: calm_simps, rule wp_doM_Cons)
  apply (rule own_deleteM, erule keeps_buffer, simp add: buffers_def)
   apply (erule keeps_seq_upd, simp add: calm_simps, rule wp_one, erule resume_when)
  apply (rule wp_doM_Cons, rule wp_upd, rule wp_one, rule resume_when)
  apply (erule keeps_del [of X s _ 0], simp_all add: buffers_def task_core_def)
  done

lemma beacon_sent_ok: "keeps X s v \<Longrightarrow> wpO (resumes_to X s) no_dangling (beacon_sent w b v)"
  unfolding beacon_sent_def Let_def
  apply (rule wp_valM, rule wp_valM)
    apply (erule keeps_seq_upd, simp add: calm_simps, rule wp_one)
    apply (erule keeps_seq_calm, rule calm_set_trx)
    apply (erule keeps_seq)
     apply (rule wp_keeps_when, assumption, rule wp_started, assumption, erule started_csmacaTrxBeacon [OF keeps_live])
    apply (erule beacon_tail_ok)
   apply (auto simp: bcn_periods_no_dangling buffers_def dest: wf_deref [OF keeps_wf])
  done

lemma cancel_full:
  assumes "keeps X s u"
  shows "wpO (\<lambda>v. keeps X s v \<and> tmpCsmaca v = None \<and> core v = core u) no_dangling
    (whenM (\<lambda>s. backoffStatus s = 99) (doM [upd (\<lambda>s. s\<lparr>backoffStatus := 0\<rparr>), csmacaCancel]) u)"
proof -
  have c: "keeps X s v \<and> tmpCsmaca v = None \<and> core v = core u" if "core v = core u" "tmpCsmaca v = None" for v
    using assms that core_eq_phase [of v u] core_eq_task [of v u] core_eq_own [of v u]
    by (simp add: keeps_def mac_wf_def csma_wf_def)
  have "tmpCsmaca u = None" if "backoffStatus u \<noteq> 99"
    using assms that by (auto simp: keeps_def mac_wf_def csma_wf_def)
  then show ?thesis
    unfolding csmacaCancel_def
    apply -
    apply (rule wp_whenM, rule wp_doM_Cons, rule wp_upd, rule wp_one, rule wp_doM_Cons)
     apply (rule wp_ifM, rule wp_cancelTimer, rule wp_one, rule wp_upd, rule c, simp add: core_def, simp)
     apply (rule wp_ifM, rule wp_cancelTimer, rule wp_one, rule wp_upd, rule c, simp add: core_def, simp)
     apply (rule wp_upd, rule wp_one, rule wp_upd, rule c, simp add: core_def, simp)
    apply (rule c, simp_all)
    done
qed

lemma cancel_ok:
  "keeps X s u \<Longrightarrow> wpO (keeps X s) no_dangling
    (whenM (\<lambda>s. backoffStatus s = 99) (doM [upd (\<lambda>s. s\<lparr>backoffStatus := 0\<rparr>), csmacaCancel]) u)"
  by (erule wpO_mono [OF cancel_full]) simp

section \<open>The state machine of a data request\<close>

text \<open>The part of the state that a step of the request leaves alone.\<close>

definition rest :: "Mac \<Rightarrow> _" where
  "rest s = (frames s, buffers s, txBcnCmd s, txBcnCmdUpper s, dataTransMode s)"

lemma rest_buffers: "rest u = rest s \<Longrightarrow> txData u = txData s \<and> txGTS u = txGTS s"
  by (simp add: rest_def buffers_def)

lemma direct_at:
  assumes wf: "mac_wf X s" and ph: "phase s = Direct k n" and r: "rest u = rest s"
    and u: "tmpCsmaca u = None" "mcps_data_request (taskP u)" "mcps_data_request_TxOption (taskP u) = DIRECT_TRANS"
    and "\<not> waitGTSAck u" "waitDataAck u \<longleftrightarrow> mcps_data_request_STEP (taskP u) = 3"
    and "isScheduled MAC_ACK_TIMEOUT_TIMER u \<Longrightarrow> waitDataAck u"
    and "phase_ok (Direct (mcps_data_request_STEP (taskP u)) (numDataRetry u)) (mcps_data_request_frFunc (taskP u))"
  shows "mac_wf X u \<and> phase u = Direct (mcps_data_request_STEP (taskP u)) (numDataRetry u)"
proof -
  have p: "phase u = Direct (mcps_data_request_STEP (taskP u)) (numDataRetry u)" using u by (simp add: phase_def)
  have m: "dataTransMode s = DIRECT_TRANS" using wf ph by (auto simp: mac_wf_def task_wf_def phase_def split: if_splits)
  have "own_wf X u" using wf r by (simp add: mac_wf_def own_wf_def rest_def)
  moreover have "task_wf u"
    unfolding task_wf_def p using assms(7-) u(3) m wf ph r rest_buffers [OF r]
    by (simp add: mac_wf_def task_wf_def rest_def)
  ultimately show ?thesis using u p by (simp add: mac_wf_def csma_wf_def)
qed

lemma gts_at_step:
  assumes wf: "mac_wf X s" and ph: "phase s = Gts k n" and r: "rest u = rest s"
    and u: "tmpCsmaca u = None" "mcps_data_request (taskP u)" "mcps_data_request_TxOption (taskP u) = GTS_TRANS"
    and "\<not> waitDataAck u" "waitGTSAck u \<longleftrightarrow> mcps_data_request_STEP (taskP u) = 3"
    and "isScheduled MAC_ACK_TIMEOUT_TIMER u \<Longrightarrow> waitGTSAck u"
    and "phase_ok (Gts (mcps_data_request_STEP (taskP u)) (numGTSRetry u)) (mcps_data_request_frFunc (taskP u))"
  shows "mac_wf X u \<and> phase u = Gts (mcps_data_request_STEP (taskP u)) (numGTSRetry u)"
proof -
  have p: "phase u = Gts (mcps_data_request_STEP (taskP u)) (numGTSRetry u)" using u by (simp add: phase_def)
  have m: "dataTransMode s = GTS_TRANS" using wf ph by (auto simp: mac_wf_def task_wf_def phase_def split: if_splits)
  have "own_wf X u" using wf r by (simp add: mac_wf_def own_wf_def rest_def)
  moreover have "task_wf u"
    unfolding task_wf_def p using assms(7-) u(3) m wf ph r rest_buffers [OF r]
    by (simp add: mac_wf_def task_wf_def rest_def)
  ultimately show ?thesis using u p by (simp add: mac_wf_def csma_wf_def)
qed

lemma ending_at:
  assumes wf: "mac_wf X s" and r: "rest u = rest s"
    and u: "tmpCsmaca u = None" "\<not> mcps_data_request (taskP u)" "\<not> waitGTSAck u" "\<not> waitDataAck u" "\<not> isScheduled MAC_ACK_TIMEOUT_TIMER u"
  shows "ending X u"
  using assms by (simp add: mac_wf_def task_wf_def ending_def own_wf_def rest_def)

text \<open>What the phase says about the concrete state.\<close>

lemma phase_DirectD:
  assumes "mac_wf X s" "phase s = Direct k n"
  shows "mcps_data_request (taskP s)" "mcps_data_request_TxOption (taskP s) = DIRECT_TRANS"
    "mcps_data_request_STEP (taskP s) = k" "numDataRetry s = n" "n \<le> 3" "\<not> waitGTSAck s" "waitDataAck s \<longleftrightarrow> k = 3"
    "txGTS s = None" "txData s \<noteq> None" "k = 1 \<or> k = 2 \<or> k = 3" "isScheduled MAC_ACK_TIMEOUT_TIMER s \<Longrightarrow> k = 3"
    "mcps_data_request_frFunc (taskP s) = (if k = 1 then ''csmacaCallBack'' else if k = 2 then ''handle_PD_DATA_confirm'' else ''handleAck'')"
  using assms by (auto simp: mac_wf_def task_wf_def phase_def split: if_splits)

lemma phase_GtsD:
  assumes "mac_wf X s" "phase s = Gts k n"
  shows "mcps_data_request (taskP s)" "mcps_data_request_TxOption (taskP s) = GTS_TRANS"
    "mcps_data_request_STEP (taskP s) = k" "numGTSRetry s = n" "n \<le> 3" "\<not> waitDataAck s" "waitGTSAck s \<longleftrightarrow> k = 3"
    "txData s = None" "txGTS s \<noteq> None" "k = 1 \<or> k = 2 \<or> k = 3 \<or> k = 4" "isScheduled MAC_ACK_TIMEOUT_TIMER s \<Longrightarrow> k = 3" "tmpCsmaca s = None"
    "mcps_data_request_frFunc (taskP s) = (if k = 1 then ''handleGtsTimer'' else if k = 2 then ''handle_PD_DATA_confirm''
       else if k = 3 then ''handleAck'' else ''handleIfsTimer'')"
  using assms by (auto simp: mac_wf_def task_wf_def csma_wf_def phase_def split: if_splits)

lemmas step_defs = next_step_def goto_step_def set_task_def

lemma steps_keeps: "steps_to X s u \<Longrightarrow> calm u v \<Longrightarrow> steps_to X s v"
  by (simp add: steps_to_def calm_wf calm_phase)

lemma steps_calm: "steps_to X s u \<Longrightarrow> wpO (calm u) E m \<Longrightarrow> wpO (steps_to X s) E m"
  by (erule wpO_mono) (rule steps_keeps)

lemma steps_idle: "phase s \<noteq> Idle \<Longrightarrow> task_step (phase s) Idle \<Longrightarrow> idle_wf X u \<Longrightarrow> steps_to X s u"
  by (simp add: steps_to_def idle_wf_def)

lemma resumes_steps: "mac_wf X s \<Longrightarrow> resumes_to X s u \<Longrightarrow> steps_to X s u"
  by (cases "phase s") (auto simp: resumes_to_def steps_to_def intro: task_step.intros)

lemma direct_won:
  assumes wf: "mac_wf X s" and ph: "phase s = Direct 1 n" and "tmpCsmaca s = None"
  shows "wpO (steps_to X s) no_dangling (doM [next_step ''handle_PD_DATA_confirm'', PLME_SET_TRX_STATE_request phy_TX_ON] s)"
proof -
  note d = phase_DirectD [OF wf ph]
  let ?u = "s\<lparr>taskP := (taskP s)\<lparr>mcps_data_request_STEP := mcps_data_request_STEP (taskP s) + 1,
     mcps_data_request_frFunc := ''handle_PD_DATA_confirm''\<rparr>\<rparr>"
  have "mac_wf X ?u \<and> phase ?u = Direct 2 n"
    using direct_at [OF wf ph, of ?u] d assms(3) by (simp add: rest_def buffers_def isScheduled_def)
  then have "steps_to X s ?u" using ph channel_won by (simp add: steps_to_def)
  then show ?thesis unfolding step_defs
    by (intro wp_doM_Cons wp_upd wp_doM_Nil wp_set_trx) (erule steps_keeps, simp add: calm_simps)
qed

lemma direct_sent:
  assumes wf: "mac_wf X s" and ph: "phase s = Direct 2 n"
  shows "wpO (steps_to X s) no_dangling (doM
    [next_step ''handleAck'', PLME_SET_TRX_STATE_request phy_RX_ON, startAckTimeoutTimer w, upd (\<lambda>s. s\<lparr>waitDataAck := True\<rparr>)] s)"
proof -
  note d = phase_DirectD [OF wf ph]
  have t: "tmpCsmaca s = None" using wf ph by (auto simp: mac_wf_def csma_wf_def)
  show ?thesis unfolding step_defs startAckTimeoutTimer_def
    apply (rule wp_doM_Cons, rule wp_upd, rule wp_doM_Cons, rule wp_set_trx, rule wp_doM_Cons, rule wp_startTimer, rule wp_one, rule wp_upd)
    subgoal premises
      using direct_at [OF wf ph, of "s\<lparr>taskP := (taskP s)\<lparr>mcps_data_request_STEP := mcps_data_request_STEP (taskP s) + 1,
          mcps_data_request_frFunc := ''handleAck''\<rparr>, macOut := m, trx_state_req := x, timers := y, waitDataAck := True\<rparr>" for m x y] d t
        task_step.sent [of n] ph
      by (simp add: steps_to_def rest_def buffers_def isScheduled_def)
    apply simp
    done
qed

lemma ending_calm: "ending X u \<Longrightarrow> calm u v \<Longrightarrow> ending X v \<and> txData v = txData u \<and> txGTS v = txGTS u"
  by (simp add: ending_def calm_simps own_wf_def buffers_def isScheduled_def)

lemma direct_success:
  "ending X u \<Longrightarrow> txGTS u = None \<Longrightarrow> wpO (idle_wf X) no_dangling (doM [resetTRX, taskSuccess w CHR ''d'' b] u)"
  apply (rule wp_seq, rule calm_resetTRX, rule wp_one, drule ending_calm, assumption)
  apply (simp add: taskSuccess_def data_sent_ok)
  done

lemma direct_failure:
  "ending X u \<Longrightarrow> txGTS u = None \<Longrightarrow> wpO (idle_wf X) no_dangling (doM [resetTRX, taskFailed w CHR ''d'' st b] u)"
  apply (rule wp_seq, rule calm_resetTRX, rule wp_one, drule ending_calm, assumption)
  apply (simp add: data_failed_ok)
  done

lemma steps_idle_mono: "task_step (phase s) Idle \<Longrightarrow> wpO (idle_wf X) E m \<Longrightarrow> wpO (steps_to X s) E m"
  by (erule wpO_mono) (simp add: steps_to_def idle_wf_def)

lemma direct_retry:
  assumes wf: "mac_wf X s" and ph: "phase s = Direct 3 n" and "tmpCsmaca s = None" and "\<not> isScheduled MAC_ACK_TIMEOUT_TIMER s"
    and "n < 3"
  defines "u \<equiv> s\<lparr>numDataRetry := numDataRetry s + 1, taskP := (taskP s)\<lparr>mcps_data_request_STEP := 1,
      mcps_data_request_frFunc := ''csmacaCallBack''\<rparr>, waitDataAck := False\<rparr>"
  shows "wpO (steps_to X s) no_dangling (csmacaResume w u)"
proof -
  note d = phase_DirectD [OF wf ph]
  have "n + 1 \<le> 3" using assms(5) by (simp add: word_le_nat_alt word_less_nat_alt unat_word_ariths)
  then have u: "mac_wf X u \<and> phase u = Direct 1 (n + 1)"
    using direct_at [OF wf ph, of u] d assms(3,4) by (simp add: u_def rest_def buffers_def isScheduled_def)
  then have "resumes_to X u v \<Longrightarrow> steps_to X s v" for v
    using ph retry [OF assms(5)] by (auto simp: resumes_to_def steps_to_def)
  then show ?thesis using resume_ok [of X u w] u by (blast intro: wpO_mono)
qed

lemma direct_acked:
  assumes wf: "mac_wf X s" and ph: "phase s = Direct 3 n" and t: "tmpCsmaca s = None" and a: "\<not> isScheduled MAC_ACK_TIMEOUT_TIMER s"
  shows "wpO (idle_wf X) no_dangling
    (doM [set_task False, upd (\<lambda>s. s\<lparr>waitDataAck := False\<rparr>), resetTRX, taskSuccess w CHR ''d'' True] s)"
proof -
  note d = phase_DirectD [OF wf ph]
  have "ending X (s\<lparr>taskP := (taskP s)\<lparr>mcps_data_request := False\<rparr>, waitDataAck := False\<rparr>)"
    by (rule ending_at [OF wf], use d t a in \<open>simp_all add: rest_def buffers_def isScheduled_def\<close>)
  then show ?thesis
    unfolding step_defs
    by - (rule wp_doM_Cons, rule wp_upd, rule wp_doM_Cons, rule wp_upd, rule direct_success, use d in simp_all)
qed

lemma direct_ok:
  assumes wf: "mac_wf X s" and ph: "phase s = Direct k n" and t: "tmpCsmaca s = None" and a: "\<not> isScheduled MAC_ACK_TIMEOUT_TIMER s"
  shows "wpO (steps_to X s) no_dangling (FSM_direct w st k s)"
proof -
  note d = phase_DirectD [OF wf ph]
  have idle: "task_step (phase s) Idle" using ph acknowledged by simp
  have e: "k = 2 \<Longrightarrow> ending X (s\<lparr>taskP := (taskP s)\<lparr>mcps_data_request := False\<rparr>\<rparr>)"
    "ending X (s\<lparr>numDataRetry := x, taskP := (taskP s)\<lparr>mcps_data_request := False\<rparr>, waitDataAck := False\<rparr>)" for x
    by (rule ending_at [OF wf], use d t a in \<open>simp_all add: rest_def buffers_def isScheduled_def\<close>)+
  have n: "n + 1 \<le> aMaxFrameRetries \<Longrightarrow> n < 3"
    using d(5) by (auto simp: word_le_nat_alt word_less_nat_alt unat_word_ariths aMaxFrameRetries_def)
  have data: "deref (txData s) s = Inl e \<Longrightarrow> no_dangling e" for e
    using wf_deref [OF wf, of "txData s" e] by (simp add: buffers_def)
  have "k = 1 \<or> k = 2 \<or> k = 3" by (rule d(10))
  then show ?thesis
  proof (elim disjE)
    assume k: "k = 1"
    then show ?thesis
      using direct_won [OF wf _ t, of n] ph wpO_mono [OF resume_ok [OF wf] resumes_steps [OF wf]]
      by (simp add: FSM_direct_def)
  next
    assume k: "k = 2"
    then show ?thesis unfolding FSM_direct_def step_defs
      apply simp
      apply (rule wp_valM, rule wp_if_stmt)
        apply (rule direct_sent [unfolded step_defs, OF wf], use ph in simp)
       apply (rule steps_idle_mono [OF idle], rule wp_doM_Cons, rule wp_upd, rule direct_success)
        apply (use e(1) d in simp_all)
      apply (erule data)
      done
  next
    assume k: "k = 3"
    then show ?thesis unfolding FSM_direct_def
      apply simp
      apply (intro conjI impI)
       apply (rule steps_idle_mono [OF idle direct_acked [OF wf _ t a]], use ph in simp)
      apply (unfold step_defs)
      apply (rule wp_doM_Cons, rule wp_upd, rule wp_one, rule wp_ifM)
       apply (rule wp_doM_Cons, rule wp_upd, rule wp_doM_Cons, rule wp_upd, rule wp_one)
       apply (use direct_retry [OF wf _ t a] ph n d(4) in simp)
      apply (rule steps_idle_mono [OF idle], rule wp_doM_Cons, rule wp_upd, rule wp_doM_Cons, rule wp_upd, rule direct_failure)
       apply (use e(2) d in simp_all)
      done
  qed
qed

lemma calm_ifs: "wpO (calm s) no_dangling (startIfsTimer w b s)"
  by (simp add: startIfsTimer_def startTimer_def calm_simps)

lemma gts_start:
  assumes wf: "mac_wf X s" and ph: "phase s = Gts 1 n"
  shows "wpO (steps_to X s) no_dangling (doM [next_step ''handle_PD_DATA_confirm'', PLME_SET_TRX_STATE_request p,
        PLME_SET_TRX_STATE_request p'] s)"
proof -
  note d = phase_GtsD [OF wf ph]
  let ?u = "s\<lparr>taskP := (taskP s)\<lparr>mcps_data_request_STEP := mcps_data_request_STEP (taskP s) + 1,
     mcps_data_request_frFunc := ''handle_PD_DATA_confirm''\<rparr>\<rparr>"
  have "mac_wf X ?u \<and> phase ?u = Gts 2 n"
    using gts_at_step [OF wf ph, of ?u] d by (simp add: rest_def buffers_def isScheduled_def)
  then have "steps_to X s ?u" using ph slot_begins by (simp add: steps_to_def)
  then show ?thesis unfolding step_defs
    by (intro wp_doM_Cons wp_upd wp_doM_Nil wp_set_trx) (erule steps_keeps, simp add: calm_simps)
qed

lemma gts_wait_ack:
  assumes wf: "mac_wf X s" and ph: "phase s = Gts 2 n"
  shows "wpO (steps_to X s) no_dangling (doM
    [next_step ''handleAck'', PLME_SET_TRX_STATE_request phy_RX_ON, startAckTimeoutTimer w, upd (\<lambda>s. s\<lparr>waitGTSAck := True\<rparr>)] s)"
proof -
  note d = phase_GtsD [OF wf ph]
  show ?thesis unfolding step_defs startAckTimeoutTimer_def
    apply (rule wp_doM_Cons, rule wp_upd, rule wp_doM_Cons, rule wp_set_trx, rule wp_doM_Cons, rule wp_startTimer, rule wp_one, rule wp_upd)
    subgoal premises
      using gts_at_step [OF wf ph, of "s\<lparr>taskP := (taskP s)\<lparr>mcps_data_request_STEP := mcps_data_request_STEP (taskP s) + 1,
          mcps_data_request_frFunc := ''handleAck''\<rparr>, macOut := m, trx_state_req := x, timers := y, waitGTSAck := True\<rparr>" for m x y] d
        task_step.sent_gts [of n] ph
      by (simp add: steps_to_def rest_def buffers_def isScheduled_def)
    apply simp
    done
qed

lemma gts_unacked:
  assumes wf: "mac_wf X s" and ph: "phase s = Gts 2 n"
  shows "wpO (steps_to X s) no_dangling
    (doM [PLME_SET_TRX_STATE_request p, goto_step 4 ''handleIfsTimer'', startIfsTimer w b] s)"
proof -
  note d = phase_GtsD [OF wf ph]
  show ?thesis unfolding step_defs
    apply (rule wp_doM_Cons, rule wp_set_trx, rule wp_doM_Cons, rule wp_upd, rule wp_one, rule steps_calm [OF _ calm_ifs])
    using gts_at_step [OF wf ph, of "s\<lparr>macOut := m, trx_state_req := x, taskP := (taskP s)\<lparr>mcps_data_request_STEP := 4,
        mcps_data_request_frFunc := ''handleIfsTimer''\<rparr>\<rparr>" for m x] d ph sent_gts_unacknowledged
    by (simp add: steps_to_def rest_def buffers_def isScheduled_def)
qed

lemma deref_frames: "frames u = frames s \<Longrightarrow> deref p u = deref p s"
  by (simp add: deref_def split: option.split)

lemma calm_wf_phase: "calm s s' \<Longrightarrow> mac_wf X s' = mac_wf X s \<and> phase s' = phase s"
  by (simp add: calm_wf calm_phase)

lemma gts_acked:
  assumes wf: "mac_wf X s" and ph: "phase s = Gts 3 n" and a: "\<not> isScheduled MAC_ACK_TIMEOUT_TIMER s"
  shows "wpO (\<lambda>u. mac_wf X u \<and> phase u = Gts 4 n) no_dangling (doM
          [upd (\<lambda>s. s\<lparr>waitGTSAck := False\<rparr>), PLME_SET_TRX_STATE_request p, next_step ''handleIfsTimer'',
           valM (\<lambda>s. deref (txGTS s) s) (\<lambda>f. startIfsTimer w (byteLength f \<le> uint aMaxSIFSFrameSize))] s)"
proof -
  note d = phase_GtsD [OF wf ph]
  show ?thesis unfolding step_defs
    apply (rule wp_doM_Cons, rule wp_upd, rule wp_doM_Cons, rule wp_set_trx, rule wp_doM_Cons, rule wp_upd, rule wp_one, rule wp_valM)
     apply (rule wpO_mono [OF calm_ifs], drule calm_wf_phase [of _ _ X])
    using gts_at_step [OF wf ph, of "s\<lparr>waitGTSAck := False, macOut := m, trx_state_req := x,
        taskP := (taskP s)\<lparr>mcps_data_request_STEP := mcps_data_request_STEP (taskP s) + 1,
        mcps_data_request_frFunc := ''handleIfsTimer''\<rparr>\<rparr>" for m x] d ph a
     apply (simp add: rest_def buffers_def isScheduled_def)
    apply (rule wf_deref [OF wf, of "txGTS s"], simp add: buffers_def)
    apply (subst deref_frames [of _ s, symmetric], simp_all)
    done
qed

lemma gts_retry:
  assumes wf: "mac_wf X s" and ph: "phase s = Gts 3 n" and "n < 3" and a: "\<not> isScheduled MAC_ACK_TIMEOUT_TIMER s"
  shows "wpO (steps_to X s) no_dangling
    (doM [goto_step 1 ''handleGtsTimer'', upd (\<lambda>s. s\<lparr>waitGTSAck := False\<rparr>), PLME_SET_TRX_STATE_request p]
      (s\<lparr>numGTSRetry := numGTSRetry s + 1\<rparr>))"
proof -
  note d = phase_GtsD [OF wf ph]
  have n: "n + 1 \<le> 3" using assms(3) by (simp add: word_le_nat_alt word_less_nat_alt unat_word_ariths)
  show ?thesis unfolding step_defs
    apply (rule wp_doM_Cons, rule wp_upd, rule wp_doM_Cons, rule wp_upd, rule wp_one, rule wp_set_trx)
    using gts_at_step [OF wf ph, of "s\<lparr>numGTSRetry := numGTSRetry s + 1, taskP := (taskP s)\<lparr>mcps_data_request_STEP := 1,
        mcps_data_request_frFunc := ''handleGtsTimer''\<rparr>, waitGTSAck := False, macOut := m, trx_state_req := x\<rparr>" for m x]
      d ph n a retry_gts [OF assms(3)]
    by (simp add: steps_to_def rest_def buffers_def isScheduled_def)
qed

lemma gts_ok:
  assumes wf: "mac_wf X s" and ph: "phase s = Gts k n" and a: "\<not> isScheduled MAC_ACK_TIMEOUT_TIMER s"
    and z: "k = 3 \<Longrightarrow> st = phy_SUCCESS \<Longrightarrow> n = 0"
  shows "wpO (steps_to X s) no_dangling (FSM_gts w st k s)"
proof -
  note d = phase_GtsD [OF wf ph]
  have e: "ending X (s\<lparr>numGTSRetry := x, taskP := (taskP s)\<lparr>mcps_data_request := False\<rparr>, waitGTSAck := False, macOut := m,
      trx_state_req := y\<rparr>)" "k = 4 \<Longrightarrow> ending X (s\<lparr>taskP := (taskP s)\<lparr>mcps_data_request := False\<rparr>\<rparr>)" for x m y
    by (rule ending_at [OF wf], use d a in \<open>simp_all add: rest_def buffers_def isScheduled_def\<close>)+
  have n: "n + 1 \<le> aMaxFrameRetries \<longleftrightarrow> n < 3"
    using d(5) by (auto simp: word_le_nat_alt word_less_nat_alt unat_word_ariths aMaxFrameRetries_def)
  have n3: "\<not> n < 3 \<Longrightarrow> n = 3" using d(5) by simp
  have gts: "deref (txGTS s) s = Inl e \<Longrightarrow> no_dangling e" for e
    using wf_deref [OF wf, of "txGTS s" e] by (simp add: buffers_def)
  consider "k = 1" | "k = 2" | "k = 3" | "k = 4" using d(10) by blast
  then show ?thesis
  proof cases
    case 1
    then show ?thesis using gts_start [OF wf] ph by (simp add: FSM_gts_def)
  next
    case 2
    then show ?thesis unfolding FSM_gts_def
      apply simp
      apply (rule wp_valM, rule wp_if_stmt, rule gts_wait_ack [OF wf], use ph in simp, rule gts_unacked [OF wf], use ph in simp)
      apply (erule gts)
      done
  next
    case 3
    then show ?thesis unfolding FSM_gts_def
      apply simp
      apply (intro conjI impI)
       apply (rule wpO_mono [OF gts_acked [OF wf _ a]], use ph in simp, use ph z acknowledged_gts [of 0] in \<open>simp add: steps_to_def\<close>)
      apply (rule wp_doM_Cons, rule wp_upd, rule wp_one, rule wp_ifM)
       apply (rule gts_retry [OF wf _ _ a], use ph d n in simp_all)
      apply (unfold step_defs, rule steps_idle_mono, use ph n n3 failed_gts d in simp)
      apply (rule wp_doM_Cons, rule wp_upd, rule wp_doM_Cons, rule wp_upd, rule wp_doM_Cons, rule wp_set_trx, rule wp_one)
      apply (rule gts_failed_ok, use e(1) d in simp_all)
      done
  next
    case 4
    then show ?thesis unfolding FSM_gts_def step_defs
      apply simp
      apply (rule steps_idle_mono, use ph gts_done in simp, rule wp_doM_Cons, rule wp_upd, rule wp_one)
      apply (unfold taskSuccess_def, simp)
      apply (rule gts_sent_ok, use e(2) d in simp_all)
      done
  qed
qed

lemma FSM_ok:
  assumes wf: "mac_wf X s" and "mcps_data_request (taskP s)" and t: "tmpCsmaca s = None" and a: "\<not> isScheduled MAC_ACK_TIMEOUT_TIMER s"
    and z: "\<And>n. phase s = Gts 3 n \<Longrightarrow> st = phy_SUCCESS \<Longrightarrow> n = 0"
  shows "wpO (steps_to X s) no_dangling (FSM_MCPS_DATA_request w st s)"
proof (cases "phase s")
  case Idle
  with assms(2) show ?thesis by (auto simp: phase_def split: if_splits)
next
  case (Direct k n)
  then show ?thesis using direct_ok [OF wf Direct t a] phase_DirectD [OF wf Direct]
    by (simp add: FSM_MCPS_DATA_request_def)
next
  case (Gts k n)
  then show ?thesis using gts_ok [OF wf Gts a] phase_GtsD [OF wf Gts] z
    by (simp add: FSM_MCPS_DATA_request_def)
qed

end
