(* ===== verification/Mac_Reachable.thy ===== *)
theory Mac_Reachable
  imports Mac_Invariant
begin

text \<open>
  Every handler of the MAC module keeps the invariant of \<open>Mac_Invariant\<close> and lets the data request make
  a step of its abstract state machine, whatever the physical layer does. So the invariant holds
  in every reachable state.
\<close>

section \<open>Dispatch\<close>

lemma waits_phase:
  assumes wf: "mac_wf X s" and w: "task_waits f s"
  shows "f = ''csmacaCallBack'' \<Longrightarrow> \<exists>n. phase s = Direct 1 n"
    "f = ''handle_PD_DATA_confirm'' \<Longrightarrow> \<exists>n. phase s = Direct 2 n \<or> phase s = Gts 2 n"
    "f = ''handleAck'' \<Longrightarrow> \<exists>n. phase s = Direct 3 n \<or> phase s = Gts 3 n"
proof -
  have "phase s \<noteq> Idle" using w by (simp add: task_waits_def phase_def)
  then show "f = ''csmacaCallBack'' \<Longrightarrow> \<exists>n. phase s = Direct 1 n"
    "f = ''handle_PD_DATA_confirm'' \<Longrightarrow> \<exists>n. phase s = Direct 2 n \<or> phase s = Gts 2 n"
    "f = ''handleAck'' \<Longrightarrow> \<exists>n. phase s = Direct 3 n \<or> phase s = Gts 3 n"
    using wf w by (cases "phase s"; auto simp: mac_wf_def task_wf_def task_waits_def)+
qed

lemma wf_no_tmp: "mac_wf X s \<Longrightarrow> (\<And>n. phase s \<noteq> Direct 1 n) \<Longrightarrow> tmpCsmaca s = None"
  by (auto simp: mac_wf_def csma_wf_def)

lemma wf_no_timer: "mac_wf X s \<Longrightarrow> (\<And>n. phase s \<noteq> Direct 3 n) \<Longrightarrow> (\<And>n. phase s \<noteq> Gts 3 n) \<Longrightarrow> \<not> isScheduled MAC_ACK_TIMEOUT_TIMER s"
  by (auto simp: mac_wf_def task_wf_def)

lemma steps_refl: "mac_wf X s \<Longrightarrow> steps_to X s s"
  by (simp add: steps_to_def stay)

lemma wp_skip: "Q s \<Longrightarrow> wpO Q E (doM [] s)"
  by (rule wp_doM_Nil)

lemma dispatch_csma:
  assumes wf: "mac_wf X s" and "tmpCsmaca s = None"
  shows "wpO (steps_to X s) no_dangling (dispatch w st ''csmacaCallBack'' s)"
proof -
  have "wpO (steps_to X s) no_dangling (FSM_MCPS_DATA_request w st s)" if tw: "task_waits ''csmacaCallBack'' s"
  proof -
    obtain n where "phase s = Direct 1 n" using waits_phase(1) [OF wf tw] by auto
    then show ?thesis
      using FSM_ok [OF wf _ assms(2) wf_no_timer [OF wf]] tw by (simp add: task_waits_def)
  qed
  then show ?thesis
    unfolding dispatch_def using steps_refl [OF wf]
    by (auto intro!: wp_ifM wp_doM_Nil wp_whenM wp_doM_Cons wp_assertM wp_one)
qed

lemma FSM_waits:
  assumes wf: "mac_wf X s" and "task_waits ''handle_PD_DATA_confirm'' s"
  shows "wpO (steps_to X s) no_dangling (FSM_MCPS_DATA_request w st s)"
proof -
  obtain n where "phase s = Direct 2 n \<or> phase s = Gts 2 n" using waits_phase(2) [OF wf assms(2)] by auto
  then show ?thesis
    using FSM_ok [OF wf _ wf_no_tmp [OF wf] wf_no_timer [OF wf]] assms(2) by (auto simp: task_waits_def)
qed

lemma success_types: "taskSuccess w CHR ''b'' r = beacon_sent w r" "taskSuccess w CHR ''a'' r = ack_sent w r"
  "taskSuccess w CHR ''d'' r = data_sent w r" "taskSuccess w CHR ''g'' r = gts_sent"
  by (simp_all add: taskSuccess_def fun_eq_iff)

lemma keeps_deref: "keeps X s v \<Longrightarrow> p \<in> set (buffers v) \<Longrightarrow> deref p v = Inl e \<Longrightarrow> no_dangling e"
  using wf_deref keeps_wf by blast

lemma ack_transmitted_ok: "keeps X s v \<Longrightarrow> wpO (resumes_to X s) no_dangling (ack_transmitted w v)"
  unfolding ack_transmitted_def success_types
  apply (rule wp_ifM, rule wp_valM)
    apply (erule keeps_seq_calm, rule calm_ifs, erule keeps_seq_calm, rule calm_resetTRX, rule wp_one, erule ack_sent_ok)
   apply (erule keeps_deref [rotated 2], assumption, simp add: buffers_def)
  apply (rule wp_ifM, rule wp_valM)
    apply (erule keeps_seq_calm, rule calm_ifs, erule keeps_seq_calm)
     apply (rule wp_if_stmt, rule wp_ifM, rule calm_set_trx, rule calm_set_trx, rule calm_resetTRX, rule wp_one, erule ack_sent_ok)
   apply (erule keeps_deref [rotated 2], assumption, simp add: buffers_def)
  apply (erule keeps_seq_calm, rule calm_resetTRX, rule wp_one, erule ack_sent_ok)
  done

lemma resumes_mono: "mac_wf X s \<Longrightarrow> wpO (resumes_to X s) E m \<Longrightarrow> wpO (steps_to X s) E m"
  by (erule wpO_mono) (rule resumes_steps)

lemma dispatch_sent:
  assumes wf: "mac_wf X s"
  shows "wpO (steps_to X s) no_dangling (dispatch w st ''handle_PD_DATA_confirm'' s)"
  unfolding dispatch_def success_types
  apply (simp, rule wp_ifM)
   apply (rule resumes_mono [OF wf], rule keeps_seq_calm [OF keeps_refl [OF wf]], rule calm_resetTRX, rule wp_one, erule beacon_sent_ok)
  apply (rule wp_ifM, rule resumes_mono [OF wf], rule ack_transmitted_ok [OF keeps_refl [OF wf]])
  apply (rule wp_ifM)
   apply (rule wp_doM_Cons, rule wp_assertM, rule wp_one, erule FSM_waits [OF wf], simp)
  apply (rule wp_whenM)
   apply (rule wp_doM_Cons, rule wp_assertM, rule wp_doM_Cons, rule wp_assertM, rule wp_one, erule FSM_waits [OF wf], simp, simp)
  apply (rule steps_refl [OF wf])
  done

lemma late_ack:
  assumes wf: "mac_wf X s" and t: "tmpCsmaca s = None" and a: "\<not> isScheduled MAC_ACK_TIMEOUT_TIMER s"
    and w: "\<not> task_waits ''handleAck'' s"
  shows "wpO (steps_to X s) no_dangling (doM [set_task False, resetTRX, taskSuccess w CHR ''d'' True] s)"
proof (cases "phase s")
  case (Direct k n)
  note d = phase_DirectD [OF wf Direct]
  have "k \<noteq> 3" using d w by (auto simp: task_waits_def)
  then have "ending X (s\<lparr>taskP := (taskP s)\<lparr>mcps_data_request := False\<rparr>\<rparr>)"
    by (intro ending_at [OF wf], use d t a in \<open>simp_all add: rest_def buffers_def isScheduled_def\<close>)
  then show ?thesis
    unfolding step_defs
    apply (intro steps_idle_mono)
     apply (simp add: Direct acknowledged)
    apply (rule wp_doM_Cons, rule wp_upd, rule direct_success, assumption, simp add: d)
    done
next
  case Idle
  then have "txData s = None" using wf by (auto simp: mac_wf_def task_wf_def)
  then show ?thesis
    unfolding step_defs success_types data_sent_def
    by (simp add: doM.simps upd_def resetTRX_def PLME_SET_TRX_STATE_request_def assertM_def Let_def)
next
  case (Gts k n)
  then have "txData s = None" using phase_GtsD [OF wf] by blast
  then show ?thesis
    unfolding step_defs success_types data_sent_def
    by (simp add: doM.simps upd_def resetTRX_def PLME_SET_TRX_STATE_request_def assertM_def Let_def)
qed

lemma dispatch_late_ack:
  assumes wf: "mac_wf X s" and t: "tmpCsmaca s = None" and a: "\<not> isScheduled MAC_ACK_TIMEOUT_TIMER s"
    and z: "\<And>n. phase s = Gts 3 n \<Longrightarrow> n = 0"
  shows "wpO (steps_to X s) no_dangling (dispatch w phy_SUCCESS ''handleAck'' s)"
proof -
  have F: "task_waits ''handleAck'' s \<Longrightarrow> wpO (steps_to X s) no_dangling (FSM_MCPS_DATA_request w phy_SUCCESS s)"
    using FSM_ok [OF wf _ t a] z by (simp add: task_waits_def)
  show ?thesis
    unfolding dispatch_def
    apply (simp, rule wp_ifM, rule wp_ifM, erule F, erule late_ack [OF wf t a], rule wp_whenM)
     apply (elim conjE, erule F)
    apply (rule steps_refl [OF wf])
    done
qed

lemma dispatch_timeout:
  assumes wf: "mac_wf X s" and a: "\<not> isScheduled MAC_ACK_TIMEOUT_TIMER s"
  shows "wpO (steps_to X s) no_dangling (dispatch w st ''handleAckTimeoutTimer'' s)"
proof -
  have F: "task_waits ''handleAck'' s \<Longrightarrow> wpO (steps_to X s) no_dangling (FSM_MCPS_DATA_request w phy_BUSY s)"
    using FSM_ok [OF wf _ wf_no_tmp [OF wf] a, of phy_BUSY w] waits_phase(3) [OF wf] by (auto simp: task_waits_def)
  show ?thesis
    unfolding dispatch_def
    apply (simp, rule wp_ifM, rule wp_whenM, erule F, rule steps_refl [OF wf], rule wp_whenM)
     apply (rule wp_doM_Cons, rule wp_assertM, rule wp_doM_Cons, rule wp_assertM, rule wp_one, erule F, simp, simp)
    apply (rule steps_refl [OF wf])
    done
qed

text \<open>The state after an acknowledgement in time.\<close>

definition acked :: "nat set \<Rightarrow> Mac \<Rightarrow> Mac \<Rightarrow> bool" where
  "acked X s u \<longleftrightarrow> mac_wf X u \<and> tmpCsmaca u = None \<and> \<not> isScheduled MAC_ACK_TIMEOUT_TIMER u \<and>
     ((\<exists>n. phase s = Direct 3 n) \<and> phase u = Direct 3 0 \<and> txPkt u = txData u \<or>
      (\<exists>n. phase s = Gts 3 n) \<and> phase u = Gts 3 0 \<and> txPkt u = txGTS u)"

lemma ack_in_time_ok:
  assumes wf: "mac_wf X s" and sch: "isScheduled MAC_ACK_TIMEOUT_TIMER s"
    and pkt: "txPkt s \<noteq> None" "txPkt s = txData s \<or> txPkt s = txGTS s"
  shows "wpO (acked X s) no_dangling (ack_in_time s)"
proof -
  have c: "txBcnCmd s = None" "txBcnCmdUpper s = None" using wf by (auto simp: mac_wf_def task_wf_def)
  have "(\<exists>n. phase s = Direct 3 n) \<or> (\<exists>n. phase s = Gts 3 n)" using wf_no_timer [OF wf] sch by blast
  then show ?thesis
  proof (elim disjE exE)
    fix n assume ph: "phase s = Direct 3 n"
    note d = phase_DirectD [OF wf ph]
    have t: "tmpCsmaca s = None" using wf_no_tmp [OF wf] ph by simp
    have p: "txPkt s = txData s" using pkt d(8) by auto
    show ?thesis
      unfolding ack_in_time_def
      apply (rule wp_doM_Cons, rule wp_upd, rule wp_doM_Cons, rule wp_cancelTimer, rule wp_one, rule wp_upd)
      using direct_at [OF wf ph, of "s\<lparr>stats := x, timers := (timers s)(MAC_ACK_TIMEOUT_TIMER := None), numDataRetry := 0\<rparr>" for x] d c t p pkt(1) ph
      by (auto simp: acked_def rest_def buffers_def isScheduled_def)
  next
    fix n assume ph: "phase s = Gts 3 n"
    note d = phase_GtsD [OF wf ph]
    have p: "txPkt s = txGTS s" "txPkt s \<noteq> txData s" using pkt d(8) by auto
    show ?thesis
      unfolding ack_in_time_def
      apply (rule wp_doM_Cons, rule wp_upd, rule wp_doM_Cons, rule wp_cancelTimer, rule wp_one, rule wp_upd)
      using gts_at_step [OF wf ph, of "s\<lparr>stats := x, timers := (timers s)(MAC_ACK_TIMEOUT_TIMER := None), numGTSRetry := 0\<rparr>" for x] d c p pkt(1) ph
      by (auto simp: acked_def rest_def buffers_def isScheduled_def)
  qed
qed

lemma dispatch_acked:
  assumes "acked X s u"
  shows "wpO (steps_to X s) no_dangling (dispatch w phy_SUCCESS ''handleAck'' u)"
proof -
  have wf: "mac_wf X u" and t: "tmpCsmaca u = None" and a: "\<not> isScheduled MAC_ACK_TIMEOUT_TIMER u"
    using assms by (auto simp: acked_def)
  from assms consider n where "phase s = Direct 3 n" "phase u = Direct 3 0" "txPkt u = txData u"
    | n where "phase s = Gts 3 n" "phase u = Gts 3 0" "txPkt u = txGTS u" by (auto simp: acked_def)
  then show ?thesis
  proof cases
    case 1
    then have "wpO (steps_to X s) no_dangling (FSM_MCPS_DATA_request w phy_SUCCESS u)"
      using steps_idle_mono [OF _ direct_acked [OF wf _ t a]] acknowledged [of 3 n] phase_DirectD [OF wf, of 3 0]
      by (simp add: FSM_MCPS_DATA_request_def FSM_direct_def)
    then show ?thesis
      using 1 phase_DirectD [OF wf 1(2)] by (simp add: dispatch_def ifM_def task_waits_def)
  next
    case 2
    then have "wpO (steps_to X s) no_dangling (FSM_MCPS_DATA_request w phy_SUCCESS u)"
      using wpO_mono [OF gts_acked [OF wf _ a], of 0 "steps_to X s"] acknowledged_gts [of n] phase_GtsD [OF wf, of 3 0]
      by (simp add: FSM_MCPS_DATA_request_def FSM_gts_def steps_to_def)
    then show ?thesis
      using 2 phase_GtsD [OF wf 2(2)] by (simp add: dispatch_def ifM_def whenM_def task_waits_def)
  qed
qed

section \<open>Received frames\<close>

text \<open>Deleting the frame that arrived.\<close>

lemma steps_drop:
  assumes "steps_to (insert a X) s u" and "a \<notin> X"
  shows "wpO (steps_to X s) no_dangling (deleteM (\<lambda>_. Some a) u)"
proof -
  let ?u = "u\<lparr>frames := (frames u)(a := None)\<rparr>"
  have wf: "mac_wf (insert a X) u" using assms by (simp add: steps_to_def)
  then have o: "owns (insert a X) (frames u) (buffers u)" by (simp add: mac_wf_def own_wf_def)
  then have live: "frames u a \<noteq> None" unfolding owns_def by blast
  have "owns X (frames ?u) (buffers ?u)" using owns_drop [OF o, of a] assms(2) by (simp add: buffers_def)
  moreover have "task_core ?u = task_core u" by (simp add: task_core_def)
  ultimately have "mac_wf X ?u \<and> phase ?u = phase u"
    using wf task_core_wf [of ?u u] task_core_phase [of ?u u] by (simp add: mac_wf_def own_wf_def)
  then have "steps_to X s ?u" using assms(1) by (simp add: steps_to_def)
  then show ?thesis using live by (simp add: deleteM_def)
qed

lemma steps_after: "keeps X s u \<Longrightarrow> steps_to Y u v \<Longrightarrow> steps_to Y s v"
  by (simp add: keeps_def steps_to_def)

lemma keeps_steps: "keeps X s u \<Longrightarrow> steps_to X s u"
  by (simp add: keeps_def steps_to_def stay)

lemma update_cell_faults: "update_cell a f h \<noteq> Inl DanglingPointer"
  by (simp add: update_cell_def split: option.split)

lemma update_found_faults: "update_found hl_oper_rpl sn a c h \<noteq> Inl DanglingPointer"
  by (simp add: update_found_def update_cell_faults bindR_Inl_iff hl_oper_rpl_def hl_oper_del_def)

lemma update_loop_faults: "update_loop hl_oper_rpl hostid sn tmp h \<noteq> Some (Inl DanglingPointer)"
proof
  assume a: "update_loop hl_oper_rpl hostid sn tmp h = Some (Inl DanglingPointer)"
  have "hl_oper_rpl = hl_oper_rpl \<longrightarrow> Inl DanglingPointer \<noteq> (Inl DanglingPointer :: (int \<times> hlist) res)"
    by (rule update_loop.raw_induct [where P = "\<lambda>oper b c d e r. oper = hl_oper_rpl \<longrightarrow> r \<noteq> Inl DanglingPointer", OF _ a])
      (auto split: option.splits if_splits simp: update_found_faults)
  then show False by simp
qed

lemma chk_faults: "chkAddUpdHListLink hostid sn h \<noteq> Some (Inl DanglingPointer)"
proof -
  have "wpO (\<lambda>_. True) no_dangling (chkAddUpdHListLink hostid sn h)"
    unfolding chkAddUpdHListLink_def updateHListLink_def
    apply (rule wp_bind_opt, unfold split_beta, rule wpO_if, simp, rule wpO_if, simp, rule wp_bind_val)
      apply (auto simp: addHListLink_def Let_def bindR_Inl_iff update_cell_faults update_loop_faults split: option.splits)
    done
  then show ?thesis by auto
qed

lemma keeps_core:
  assumes "keeps X s u" and "frames v = frames u" "buffers v = buffers u" "task_core v = task_core u"
  shows "keeps X s v"
  using assms task_core_wf [OF assms(4)] task_core_phase [OF assms(4)] by (simp add: keeps_def mac_wf_def own_wf_def)

lemma wp_keeps_core:
  "keeps X s u \<Longrightarrow> frames (f u) = frames u \<Longrightarrow> buffers (f u) = buffers u \<Longrightarrow> task_core (f u) = task_core u \<Longrightarrow> wpO (keeps X s) E (upd f u)"
  by (rule wp_upd) (rule keeps_core)

text \<open>A new frame goes into an empty buffer.\<close>

lemma keeps_new:
  assumes k: "keeps X s u" and n: "a \<notin> dom (frames u)" and i: "i < length (buffers u)" "buffers u ! i = None"
    and v: "frames v = (frames u)(a \<mapsto> f)" "buffers v = (buffers u)[i := Some a]" "task_core v = task_core u"
  shows "keeps X s v"
proof -
  have o: "owns X (frames u) (buffers u)" using k by (simp add: keeps_def mac_wf_def own_wf_def)
  have "a \<notin> X" using o n unfolding owns_def by blast
  then have "owns X (frames v) (buffers v)"
    using owns_store [OF owns_new [OF o n] i, of a] v by simp
  then show ?thesis
    using k task_core_wf [OF v(3)] task_core_phase [OF v(3)] by (simp add: keeps_def mac_wf_def own_wf_def)
qed

lemma steps_store:
  assumes k: "steps_to (insert a X) s u" and n: "a \<notin> X" and i: "i < length (buffers u)" "buffers u ! i = None"
    and v: "frames v = frames u" "buffers v = (buffers u)[i := Some a]" "task_core v = task_core u"
  shows "steps_to X s v"
proof -
  have o: "owns (insert a X) (frames u) (buffers u)" using k by (simp add: steps_to_def mac_wf_def own_wf_def)
  have "owns X (frames v) (buffers v)"
    using owns_store [OF o i, of a] v n by simp
  then show ?thesis
    using k task_core_wf [OF v(3)] task_core_phase [OF v(3)] by (simp add: steps_to_def mac_wf_def own_wf_def)
qed

lemma ack_frame_no_dangling: "ack_frame f \<noteq> Inl DanglingPointer"
  by (simp add: ack_frame_def calFrmByteLength_def calMHRByteLength_def addr_modes Let_def bindR_Inl_iff)

lemma constructACK_ok:
  assumes "keeps X s u" and "new_addr w \<notin> dom (frames u)"
  shows "wpO (keeps X s) no_dangling (constructACK w f u)"
  unfolding constructACK_def
  apply (rule wp_newM, rule wp_doM_Cons, rule wp_assertM, rule wp_one, rule wp_upd)
    apply (rule keeps_new [OF assms, of 3])
       apply (auto simp: buffers_def task_core_def ack_frame_no_dangling)
  done

lemma acknowledge_ok:
  assumes k: "keeps X s u" and n: "new_addr w \<notin> dom (frames u)"
  shows "wpO (keeps X s) no_dangling (acknowledge w f u)"
  unfolding acknowledge_def
  apply (rule wp_whenM, rule wp_if_stmt, rule wp_whenM)
      apply (rule wp_doM_Cons, rule wpO_mono [OF constructACK_ok [OF assms]])
      apply (rule wp_doM_Cons, erule wpO_mono [OF cancel_ok], rule wp_one, erule wp_calm, rule calm_set_trx)
     apply (rule k)
    apply (rule wp_if_stmt, rule wp_ifM)
      apply (rule wp_calm [OF k calm_set_trx])+
    apply (rule wp_calm [OF k calm_resetTRX])
  apply (rule k)
  done

lemma check_gts_timing_ok: "wpO (\<lambda>v. v = u) no_dangling (check_gts_timing f u)"
  unfolding check_gts_timing_def
  by (intro wp_whenM wp_ifM wp_errorM wp_valM wp_if_stmt wp_doM_Nil) (auto simp: gts_at_no_dangling)

lemma check_duplicate_ok: "wpO (\<lambda>(i, v). calm u v) no_dangling (check_duplicate w f u)"
proof -
  have "wpO (\<lambda>(i, v). calm u v) no_dangling (bindO (chkAddUpdHListLink h n t) (\<lambda>(i, h). Some (Inr (i, g h))))"
    if "\<And>h. calm u (g h)" for h n t g
    by (rule wp_bind_opt) (use that chk_faults in \<open>auto simp: split_beta\<close>)
  then show ?thesis
    unfolding check_duplicate_def by (auto simp: calm_simps)
qed

lemma handleData_ok:
  assumes k: "keeps (insert a X) s u" and n: "a \<notin> X"
  shows "wpO (steps_to X s) no_dangling (handleData w (Some a) f u)"
  unfolding handleData_def
  apply (rule wp_doM_Cons, rule wp_assertM, rule wp_doM_Cons, rule wp_upd, rule wp_one)
   apply (rule wpO_mono [of "calm (u\<lparr>rxData := Some a\<rparr>)"], rule wp_whenM, rule calm_ifs, simp)
   apply (rule steps_keeps, rule steps_store [OF keeps_steps [OF k] n, of 4])
        apply (simp_all add: buffers_def task_core_def)
  done

lemma handleCommand_ok:
  assumes k: "keeps (insert a X) s u" and n: "a \<notin> X"
  shows "wpO (steps_to X s) no_dangling (handleCommand (Some a) f u)"
proof -
  have st: "wpO (steps_to X s) no_dangling (doM [assertM (\<lambda>s. rxCmd s = None), upd (\<lambda>s. s\<lparr>rxCmd := Some a\<rparr>)] u)"
    apply (rule wp_doM_Cons, rule wp_assertM, rule wp_one, rule wp_upd)
     apply (rule steps_store [OF keeps_steps [OF k] n, of 5])
         apply (simp_all add: buffers_def task_core_def)
    done
  show ?thesis
    unfolding handleCommand_def
    using st steps_drop [OF keeps_steps [OF k] n]
    by (auto simp: errorM_def split: frame_class.splits)
qed

lemma cast_not_null: "check_and_cast p s = Inr f \<Longrightarrow> p \<noteq> None"
  by (cases p) (simp_all add: check_and_cast_def)

lemma handleAck_ok:
  assumes k: "keeps (insert a X) s u" and n: "a \<notin> X"
  shows "wpO (steps_to X s) no_dangling (handleAck w (Some a) f u)"
proof -
  have wf: "mac_wf (insert a X) u" by (rule keeps_wf [OF k])
  have c: "txBcnCmd u = None" "txBcnCmdUpper u = None" using wf by (auto simp: mac_wf_def task_wf_def)
  have drop: "wpO (steps_to X s) no_dangling (deleteM (\<lambda>_. Some a) u)" by (rule steps_drop [OF keeps_steps [OF k] n])
  have after: "wpO (steps_to X s) no_dangling (deleteM (\<lambda>_. Some a) v)" if "steps_to (insert a X) u v" for v
    by (rule steps_drop [OF steps_after [OF k that] n])
  have in_time: "wpO (steps_to X s) no_dangling (doM [ack_in_time, dispatch w phy_SUCCESS ''handleAck'', deleteM (\<lambda>_. Some a)] u)"
    if "isScheduled MAC_ACK_TIMEOUT_TIMER u" "txPkt u \<noteq> None" "txPkt u = txData u \<or> txPkt u = txGTS u"
    apply (rule wp_doM_Cons, rule wpO_mono [OF ack_in_time_ok [OF wf that]])
    apply (rule wp_doM_Cons, erule wpO_mono [OF dispatch_acked], rule wp_one, erule after)
    done
  have late: "wpO (steps_to X s) no_dangling (doM [whenM (\<lambda>s. backoffStatus s = 99) (doM [upd (\<lambda>s. s\<lparr>backoffStatus := 0\<rparr>), csmacaCancel]),
        dispatch w phy_SUCCESS ''handleAck'', deleteM (\<lambda>_. Some a)] u)"
    if na: "\<not> isScheduled MAC_ACK_TIMEOUT_TIMER u" and pkt: "txPkt u = txData u" "txPkt u \<noteq> None"
  proof -
    obtain k n where ph: "phase u = Direct k n" using wf pkt by (auto simp: mac_wf_def task_wf_def)
    have d: "wpO (steps_to (insert a X) u) no_dangling (dispatch w phy_SUCCESS ''handleAck'' v)"
      if kv: "keeps (insert a X) u v" and t: "tmpCsmaca v = None" and cv: "core v = core u" for v
    proof (rule wpO_mono [OF dispatch_late_ack [OF keeps_wf [OF kv] t]])
      show "\<not> isScheduled MAC_ACK_TIMEOUT_TIMER v"
        using cv na by (simp add: core_def isScheduled_def)
      show "n = 0" if "phase v = Gts 3 n" for n using kv ph that by (simp add: keeps_def)
      show "steps_to (insert a X) u x" if "steps_to (insert a X) v x" for x by (rule steps_after [OF kv that])
    qed
    show ?thesis
      apply (rule wp_doM_Cons, rule wpO_mono [OF cancel_full [OF keeps_refl [OF wf]]])
      apply (elim conjE, rule wp_doM_Cons, rule wpO_mono, rule d, assumption+, rule wp_one, erule after)
      done
  qed
  have live: "check_and_cast (txPkt u) u = Inl e \<Longrightarrow> txPkt u = txData u \<or> txPkt u = txGTS u \<or> txPkt u = None \<Longrightarrow> no_dangling e" for e
    using wf_deref [OF wf, of "txPkt u" e] by (auto simp: buffers_def check_and_cast_def split: if_splits)
  show ?thesis
    unfolding handleAck_def
    apply (rule wp_ifM, rule drop, rule wp_ifM, rule drop, rule wp_valM, rule wp_if_stmt, rule drop)
     apply (rule wp_ifM, rule in_time, assumption)
       apply (auto simp: c split: if_splits dest!: cast_not_null)[2]
     apply (rule wp_ifM, rule drop, rule late)
       apply (auto dest!: cast_not_null)[3]
    apply (erule live, use c in auto)
    done
qed

subsection \<open>Beacons\<close>

lemma sfSpec_no_dangling: "sfSpec f \<noteq> Inl DanglingPointer"
  by (simp add: sfSpec_def split: frame_class.split)

lemma slot_duration_no_dangling: "slot_duration k \<noteq> Inl DanglingPointer"
  by (simp add: slot_duration_def)

lemma calm_startRxSDTimer: "wpO (calm u) no_dangling (startRxSDTimer w u)"
  by (simp add: startRxSDTimer_def doM.simps assertM_def startTimer_def upd_def calm_simps Let_def)

lemma note_beacon_ok: "keeps X s u \<Longrightarrow> wpO (keeps X s) no_dangling (note_beacon w f u)"
  unfolding note_beacon_def
  apply (rule wp_valM, rule wp_valM)
    apply (erule keeps_seq_upd, simp add: calm_simps Let_def)
    apply (erule keeps_seq)
     apply (rule wp_valM, erule wp_keeps_upd, simp add: calm_simps)
     apply (metis bcn_periods_no_dangling)
    apply (erule keeps_seq_calm, rule calm_startRxSDTimer, rule wp_one, erule wp_keeps_upd, simp add: calm_simps)
   apply (metis slot_duration_no_dangling)
  apply (metis sfSpec_no_dangling)
  done

lemma gts_slots_no_dangling: "gts_slots s \<noteq> Inl DanglingPointer"
  by (simp add: gts_slots_def Let_def bindR_Inl_iff to_u8_no_dangling)

lemma gts_request_no_dangling: "gts_request_cmd a n r c \<noteq> Inl DanglingPointer"
  by (simp add: gts_request_cmd_def assertR_def Let_def)

text \<open>The request for a GTS, once the device is associated.\<close>

lemma associate_gts_ok:
  assumes "keeps X s u"
  shows "wpO (\<lambda>(c, v). keeps X s v) no_dangling
    (bindO (Some (gts_slots u)) (\<lambda>n.
      let s = u\<lparr>gtsTransDuration := gts_duration u, gtsLength := n\<rparr> in
      bindO (Some (gts_request_cmd (macShortAddress (mpib s)) (gtsLength s) (isRecvGTS s) c)) (\<lambda>(slot, c).
        if slot \<noteq> 0 then Some (Inr (Some c, s\<lparr>gtsStartSlot := slot\<rparr>))
        else Some (Inl (RuntimeError ''request for GTS failed'')))))"
  apply (rule wp_bind_val, unfold Let_def, rule wp_bind_val)
    apply (auto simp: gts_slots_no_dangling gts_request_no_dangling calm_simps intro!: keeps_calm [OF assms])
  done

lemma associate_ok:
  assumes "keeps X s u"
  shows "wpO (\<lambda>(c, v). keeps X s v) no_dangling (associate w f c u)"
proof -
  have 1: "wpO (keeps X s) no_dangling (doM
      [assertM (\<lambda>s. macCoordShortAddress (mpib s) = 0xffff), assertM (\<lambda>s. macPANId (mpib s) = 0xffff),
       upd (\<lambda>s. s\<lparr>notAssociated := False, mpib := (mpib s)\<lparr>macPANId := srcPanId f,
         macCoordShortAddress := srcAddr f, macCoordExtendedAddress := srcAddr f\<rparr>\<rparr>)] u)"
    by (rule wp_doM_Cons, rule wp_assertM, rule wp_doM_Cons, rule wp_assertM, rule wp_one, rule wp_keeps_upd [OF assms])
      (simp_all add: calm_simps)
  have 2: "wpO (keeps X s) no_dangling (startBcnRxTimer w (v\<lparr>mpib := m\<rparr>))" if "keeps X s v" for v m
    by (rule wp_calm [OF keeps_calm calm_startBcnRxTimer], rule that) (simp add: calm_simps)
  show ?thesis
    unfolding associate_def
    apply (rule wp_bind [OF 1])
    apply (simp add: associate_request_cmd_def split: option.split)
    apply (intro allI impI, rule wp_bind, erule 2, rule wpO_if, erule associate_gts_ok, simp)
    done
qed

lemma schedule_gts_ok: "keeps X s u \<Longrightarrow> wpO (keeps X s) no_dangling (schedule_gts w u)"
  unfolding schedule_gts_def startGtsTimer_def startFinalCapTimer_def Let_def
  apply (erule keeps_seq_calm, simp add: startTimer_def calm_simps)
  apply (rule wp_one, rule wp_whenM, rule wp_doM_Cons, rule wp_assertM, rule wp_one, erule wp_calm)
     apply (simp_all add: startTimer_def calm_simps)
  done

lemma handleBeacon_ok:
  assumes k: "keeps (insert a X) s u" and n: "a \<notin> X"
  shows "wpO (\<lambda>(c, v). steps_to X s v) no_dangling (handleBeacon w (Some a) f c u)"
proof -
  have 1: "wpO (\<lambda>(c, v). keeps (insert a X) s v) no_dangling
      (if notAssociated v then associate w f c v
       else if gtsStartSlot v \<noteq> 0 then bindO (schedule_gts w v) (\<lambda>s. Some (Inr (c, s))) else Some (Inr (c, v)))"
    if kv: "keeps (insert a X) s v" for v
    apply (intro wpO_if associate_ok [OF kv] wp_bind [OF schedule_gts_ok [OF kv]])
    using kv by simp_all
  have d: "dispatch w phy_SUCCESS ''handleBeacon'' v = Some (Inr v)" for v by (simp add: dispatch_def doM.simps)
  have 2: "wpO (steps_to X s) no_dangling (doM
      [dispatch w phy_SUCCESS ''handleBeacon'', whenM (\<lambda>s. backoffStatus s = 99) (csmacaTrxBeacon w), resetTRX, deleteM (\<lambda>_. Some a),
       upd (\<lambda>s. s\<lparr>stats := (stats s)\<lparr>numRxBcnPkt := numRxBcnPkt (stats s) + 1\<rparr>\<rparr>)] v)" if kv: "keeps (insert a X) s v" for v
    using kv
    apply -
    apply (rule wp_doM_Cons, simp add: d)
    apply (erule keeps_seq)
     apply (rule wp_keeps_when, assumption, rule wp_started, assumption, erule started_csmacaTrxBeacon [OF keeps_live])
    apply (erule keeps_seq_calm, rule calm_resetTRX)
    apply (rule wp_doM_Cons, rule wpO_mono [OF steps_drop [OF _ n]], erule keeps_steps, rule wp_one, rule wp_upd)
    apply (erule steps_keeps, simp add: calm_simps)
    done
  show ?thesis
    unfolding handleBeacon_def
    apply (rule wp_bind [OF note_beacon_ok [OF k]], rule wp_bind_call [OF 1], assumption)
    apply (unfold prod.case, rule wp_bind [OF 2], assumption, simp)
    done
qed

lemma process_frame_ok:
  assumes "keeps (insert a X) s u" and "a \<notin> X"
  shows "wpO (\<lambda>(c, v). steps_to X s v) no_dangling (process_frame w (Some a) f c u)"
proof -
  have keep: "wpO (\<lambda>(c, v). steps_to X s v) no_dangling (bindO (g u) (\<lambda>s. Some (Inr (c, s))))"
    if "wpO (steps_to X s) no_dangling (g u)" for g
    using that by (rule wp_bind) simp
  show ?thesis
    unfolding process_frame_def Let_def
    using handleBeacon_ok [OF assms] keep [of "handleData w (Some a) f"] handleData_ok [OF assms]
      keep [of "handleAck w (Some a) f"] handleAck_ok [OF assms] keep [of "handleCommand (Some a) f"] handleCommand_ok [OF assms]
    by (simp split: Ieee802154FrameType.split)
qed

lemma handleLowerMsg_ok:
  assumes k: "keeps (insert a X) s u" and n: "a \<notin> X" and new: "new_addr w \<notin> dom (frames u)"
  shows "wpO (\<lambda>(c, v). steps_to X s v) no_dangling (handleLowerMsg w (Some a) c u)"
proof -
  have drop: "wpO (\<lambda>(c, v). steps_to X s v) no_dangling (bindO (deleteM (\<lambda>_. Some a) v) (\<lambda>s. Some (Inr (c, s))))"
    if "keeps (insert a X) s v" for v
    by (rule wp_bind [OF steps_drop [OF keeps_steps [OF that] n]]) simp
  have ff: "keeps (insert a X) s (snd (frameFilter f u))" "frames (snd (frameFilter f u)) = frames u" for f
    using keeps_calm [OF k, of "snd (frameFilter f u)"] by (simp_all add: frameFilter_def calm_simps)
  have ack: "wpO (keeps (insert a X) s) no_dangling (doM [check_gts_timing f, acknowledge w f] v)"
    if "keeps (insert a X) s v" "frames v = frames u" for v f
    apply (rule wp_doM_Cons, rule wpO_mono [OF check_gts_timing_ok], hypsubst, rule wp_one)
    apply (rule acknowledge_ok [OF that(1)], simp add: that new)
    done
  have "a \<in> dom (frames u)" using keeps_buffer [OF k] unfolding own_wf_def owns_def by blast
  then have live: "deref (Some a) u = Inl e \<Longrightarrow> no_dangling e" for e
    by (auto simp: deref_dangling)
  show ?thesis
    unfolding handleLowerMsg_def Let_def case_prod_beta [of _ "frameFilter _ _"]
    apply (rule wp_bind_val)
     apply (rule wpO_if, rule drop, rule ff)
     apply (rule wp_bind [OF ack], rule ff, rule ff)
     apply (rule wpO_if, erule drop, rule wpO_if, erule drop)
     apply (rule wp_bind_call [OF check_duplicate_ok], unfold prod.case)
     apply (rule wpO_if, rule drop, erule keeps_calm, assumption, rule process_frame_ok [OF _ n], erule keeps_calm, assumption)
    apply (erule live)
    done
qed

section \<open>Timers\<close>

lemma keeps_deleteM:
  assumes k: "keeps X s u" and i: "i < length (buffers u)" "buffers u ! i = p u"
    and v: "\<And>h. frames (f (u\<lparr>frames := h\<rparr>)) = h" "\<And>h. buffers (f (u\<lparr>frames := h\<rparr>)) = (buffers u)[i := None]"
      "\<And>h. task_core (f (u\<lparr>frames := h\<rparr>)) = task_core u"
    and cs: "\<And>v. keeps X s v \<Longrightarrow> wpO Q no_dangling (doM cs v)"
  shows "wpO Q no_dangling (doM (deleteM p # upd f # cs) u)"
proof -
  have "p u \<in> set (buffers u)" using i by (metis nth_mem)
  then show ?thesis
  proof (intro wp_doM_Cons own_deleteM [OF keeps_buffer [OF k]] wp_upd cs)
    assume "p u = None"
    then have "(buffers u)[i := None] = buffers u" using i by (metis list_update_id)
    then show "keeps X s (f u)" using keeps_core [OF k, of "f u"] v [of "frames u"] by simp
  next
    fix a assume "p u = Some a"
    then show "keeps X s (f (u\<lparr>frames := (frames u)(a := None)\<rparr>))"
      using keeps_del [OF k i(1), of a "f (u\<lparr>frames := (frames u)(a := None)\<rparr>)"] i(2) v by simp
  qed
qed

lemma keeps_del_ack:
  "keeps X s u \<Longrightarrow> (\<And>v. keeps X s v \<Longrightarrow> wpO Q no_dangling (doM cs v)) \<Longrightarrow>
   wpO Q no_dangling (doM (deleteM txAck # upd (\<lambda>s. s\<lparr>txAck := None\<rparr>) # cs) u)"
  by (rule keeps_deleteM [of X s u 3]) (simp_all add: buffers_def task_core_def)

lemma handleBcnRxTimer_ok: "keeps X s u \<Longrightarrow> wpO (keeps X s) no_dangling (handleBcnRxTimer w u)"
  unfolding handleBcnRxTimer_def
  apply (rule wp_keeps_when, assumption, erule keeps_del_ack)
  apply (erule keeps_seq_calm, rule calm_set_trx, erule keeps_seq_upd, simp add: calm_simps)
  apply (erule keeps_seq_upd, simp add: calm_simps, rule wp_one, erule wp_calm, rule calm_startBcnRxTimer)
  done

lemma keeps_sendDown: "keeps X s u \<Longrightarrow> wpO (keeps X s) no_dangling (sendDown f u)"
  by (rule wp_sendDown, erule keeps_core) (simp_all add: buffers_def task_core_def)

lemma calm_startTimer: "t \<noteq> MAC_ACK_TIMEOUT_TIMER \<Longrightarrow> wpO (calm s) no_dangling (startTimer t w d s)"
  by (simp add: startTimer_def calm_simps)

lemma calm_gtsScheduler: "wpO (calm s) no_dangling (gtsScheduler w s)"
  unfolding gtsScheduler_def startGtsTimer_def Let_def
  apply (rule wp_doM_Cons, rule wp_assertM, rule wp_one, rule wp_valM, rule calm_startTimer, simp)
   apply (metis gts_at_no_dangling)
  apply simp
  done

lemma beacon_frame_no_dangling: "beacon_frame s \<noteq> Inl DanglingPointer"
  by (simp add: beacon_frame_def calFrmByteLength_def calMHRByteLength_def Let_def bindR_Inl_iff)

lemma calm_startTxSDTimer: "wpO (calm s) no_dangling (startTxSDTimer w s)"
  by (simp add: startTxSDTimer_def doM.simps assertM_def startTimer_def upd_def calm_simps Let_def)

lemma transmit_beacon_ok:
  assumes k: "keeps X s u" and new: "new_addr w \<notin> dom (frames u)"
  shows "wpO (keeps X s) no_dangling (transmit_beacon w u)"
  unfolding transmit_beacon_def
  apply (rule wp_doM_Cons, rule wp_assertM, rule wp_one, rule wp_valM, rule wp_valM, rule wp_newM)
      apply (rule wp_seq [where P = "keeps X s"], rule wp_upd, rule keeps_new [OF k new, of 0])
           apply (simp_all add: buffers_def task_core_def)
     apply (erule keeps_seq, erule keeps_sendDown)
     apply (erule keeps_seq_calm, rule calm_startTxSDTimer)
     apply (rule wp_one, rule wp_whenM, erule keeps_seq_upd, simp add: calm_simps, rule wp_one, erule wp_calm, rule calm_gtsScheduler, assumption)
   apply (metis sfSpec_no_dangling)
  apply (metis beacon_frame_no_dangling)
  done

lemma startBcnTxTimer_next_ok: "keeps X s u \<Longrightarrow> wpO (keeps X s) no_dangling (startBcnTxTimer_next w u)"
  unfolding startBcnTxTimer_next_def
  apply (erule keeps_seq_calm)
   apply (rule wp_ifM, rule calm_startTimer, simp, rule wp_whenM, rule calm_startTimer, simp, simp)
  apply (rule wp_one, erule wp_keeps_upd, simp add: calm_simps)
  done

lemma handleBcnTxTimer_ok:
  assumes k: "keeps X s u" and new: "new_addr w \<notin> dom (frames u)"
  shows "wpO (keeps X s) no_dangling (handleBcnTxTimer w u)"
  unfolding handleBcnTxTimer_def
  apply (rule wp_seq [where P = "keeps X s"])
   apply (rule wp_whenM, rule wp_ifM)
     apply (rule keeps_seq_upd [OF k], simp add: calm_simps, erule keeps_seq_calm, rule calm_set_trx)
     apply (erule keeps_del_ack, rule wp_one, erule wp_calm, rule calm_set_trx)
    apply (rule transmit_beacon_ok [OF k new], rule k)
  apply (rule wp_one, erule startBcnTxTimer_next_ok)
  done

lemma startPANCoor_ok:
  assumes k: "keeps X s u" and new: "new_addr w \<notin> dom (frames u)"
  shows "wpO (keeps X s) no_dangling (startPANCoor w u)"
  unfolding startPANCoor_def startBcnTxTimer_def
  apply (rule wp_doM_Cons, rule wp_upd, rule wp_doM_Cons, rule wp_valM, rule wp_upd)
   apply (simp, rule wp_one, rule wp_doM_Cons, rule wp_assertM, rule wp_doM_Cons, rule wp_upd, rule wp_doM_Cons, rule wp_set_trx)
    apply (rule wp_doM_Cons, rule wp_set_trx, rule wp_one, rule handleBcnTxTimer_ok)
     apply (rule keeps_calm [OF k])
     apply (simp_all add: calm_simps new del: not_None_eq)
  apply (metis slot_duration_no_dangling)
  done

lemma handleAckTimeoutTimer_ok:
  assumes "mac_wf X s" and "\<not> isScheduled MAC_ACK_TIMEOUT_TIMER s"
  shows "wpO (steps_to X s) no_dangling (handleAckTimeoutTimer w s)"
  unfolding handleAckTimeoutTimer_def
  by (rule wp_ifM, rule dispatch_timeout [OF assms]) (simp add: errorM_def)

lemma MCPS_DATA_indication_ok:
  assumes k: "keeps X s u" and i: "rxData u \<noteq> None"
  shows "wpO (keeps X s) no_dangling (doM [MCPS_DATA_indication rxData, upd (\<lambda>s. s\<lparr>rxData := None\<rparr>)] u)"
proof -
  have del: "wpO (\<lambda>v. keeps X s (v\<lparr>rxData := None\<rparr>)) no_dangling (doM [deleteM rxData,
       (case c of DataFrame (Some d) \<Rightarrow> emit (SendUp d) | _ \<Rightarrow> (\<lambda>s. Some (Inl (KernelError ''send: message is NULL''))))] v)"
    if kv: "keeps X s v" "rxData v \<noteq> None" for v c
  proof -
    have o: "keeps X s (v\<lparr>frames := (frames v)(a := None), macOut := m, rxData := None\<rparr>)" if "rxData v = Some a" for a m
      by (rule keeps_del [OF kv(1), of 4 a]) (simp_all add: buffers_def task_core_def that)
    show ?thesis
      apply (rule wp_doM_Cons, rule own_deleteM [OF keeps_buffer [OF kv(1)]], simp add: buffers_def, simp add: kv)
      apply (rule wp_one, simp split: frame_class.split option.split)
      apply (auto intro!: wp_emit o)
      done
  qed
  show ?thesis
    unfolding MCPS_DATA_indication_def
    apply (rule wp_doM_Cons, rule wp_valM)
     apply (rule wp_doM_Cons, rule wp_upd)
    subgoal for f
      apply (rule wpO_mono [OF del])
        apply (rule keeps_calm [OF k], simp add: calm_simps)
       apply (use i in simp)
      apply (rule wp_one, rule wp_upd, assumption)
      done
    apply (erule keeps_deref [OF k, rotated], simp add: buffers_def)
    done
qed

lemma handleIfsTimer_ok:
  assumes wf: "mac_wf X s"
  shows "wpO (steps_to X s) no_dangling (handleIfsTimer w s)"
proof -
  have F: "wpO (steps_to X s) no_dangling (FSM_MCPS_DATA_request w phy_SUCCESS s)"
    if t: "mcps_data_request (taskP s)" and k: "mcps_data_request_STEP (taskP s) = 4"
  proof -
    obtain n where ph: "phase s = Gts 4 n"
      using wf t k by (cases "phase s") (auto simp: mac_wf_def task_wf_def phase_def split: if_splits)
    show ?thesis
      by (rule FSM_ok [OF wf t wf_no_tmp [OF wf] wf_no_timer [OF wf]]) (simp_all add: ph)
  qed
  have r: "wpO (steps_to X s) no_dangling (doM [MCPS_DATA_indication rxData, upd (\<lambda>s. s\<lparr>rxData := None\<rparr>)] s)" if "rxData s \<noteq> None"
    by (rule wpO_mono [OF MCPS_DATA_indication_ok [OF keeps_refl [OF wf] that] keeps_steps])
  show ?thesis
    unfolding handleIfsTimer_def
    apply (rule wp_doM_Cons, rule wp_assertM, rule wp_one, rule wp_ifM, rule wp_doM_Nil, rule steps_refl [OF wf])
     apply (rule wp_ifM, erule r, rule wp_whenM, rule wp_doM_Cons, rule wp_assertM, rule wp_one, elim conjE, erule F, assumption)
     apply (simp_all add: steps_refl [OF wf])
    done
qed

lemma handleSDTimer_ok: "wpO (calm u) no_dangling (handleSDTimer u)"
  by (simp add: handleSDTimer_def doM.simps upd_def ifM_def PLME_SET_TRX_STATE_request_def calm_simps)

lemma FSM_slot:
  assumes wf: "mac_wf X s" and t: "mcps_data_request (taskP s)" "mcps_data_request_STEP (taskP s) = 1" and g: "txGTS s \<noteq> None"
  shows "wpO (steps_to X s) no_dangling (FSM_MCPS_DATA_request w phy_SUCCESS s)"
proof -
  obtain n where ph: "phase s = Gts 1 n"
    using wf t g by (cases "phase s") (auto simp: mac_wf_def task_wf_def phase_def split: if_splits)
  show ?thesis
    by (rule FSM_ok [OF wf t(1) wf_no_tmp [OF wf] wf_no_timer [OF wf]]) (simp_all add: ph)
qed

lemma steps_seq_calm:
  "steps_to X s u \<Longrightarrow> wpO (calm u) no_dangling (c u) \<Longrightarrow> (\<And>v. steps_to X s v \<Longrightarrow> wpO Q no_dangling (doM cs v)) \<Longrightarrow>
   wpO Q no_dangling (doM (c # cs) u)"
  by (blast intro: wp_seq steps_calm)

lemma slot_of_request:
  assumes k: "keeps X s u" and g: "txGTS u \<noteq> None"
  shows "wpO (steps_to X s) no_dangling (doM [assertM (\<lambda>s. mcps_data_request (taskP s) \<and> mcps_data_request_STEP (taskP s) = 1),
               FSM_MCPS_DATA_request w phy_SUCCESS] u)"
  apply (rule wp_doM_Cons, rule wp_assertM, rule wp_one, elim conjE)
   apply (rule wpO_mono [OF FSM_slot [OF keeps_wf [OF k] _ _ g]], assumption+, erule steps_after [OF k], simp)
  done

lemma coor_gts_starts_ok:
  assumes wf: "mac_wf X s"
  shows "wpO (steps_to X s) no_dangling (coor_gts_starts w s)"
  unfolding coor_gts_starts_def
  apply (rule keeps_seq_upd [OF keeps_refl [OF wf]], simp add: calm_simps)
  apply (rule wp_seq [where P = "steps_to X s"])
   apply (rule wp_valM, rule wp_if_stmt, rule steps_calm, erule keeps_steps, rule calm_set_trx)
    apply (rule wp_ifM, rule slot_of_request, assumption, simp, rule steps_calm, erule keeps_steps, rule calm_set_trx)
   apply (metis gts_at_no_dangling)
  apply (rule wp_one, rule wp_whenM)
   apply (erule steps_seq_calm, rule wp_upd, simp add: calm_simps, rule wp_one, erule steps_calm, rule calm_gtsScheduler)
  apply assumption
  done

lemma device_gts_starts_ok:
  assumes wf: "mac_wf X s"
  shows "wpO (steps_to X s) no_dangling (device_gts_starts w s)"
  unfolding device_gts_starts_def startGtsTimer_def Let_def
  apply (rule wp_seq [where P = "steps_to X s"])
   apply (rule wp_ifM, rule steps_calm [OF steps_refl [OF wf] calm_set_trx])
   apply (rule wp_ifM, rule slot_of_request [OF keeps_refl [OF wf]], simp, rule steps_calm [OF steps_refl [OF wf] calm_set_trx])
  apply (erule steps_seq_calm, rule wp_upd, simp add: calm_simps, rule wp_one, erule steps_calm, rule calm_startTimer, simp)
  done

lemma handleGtsTimer_ok:
  assumes wf: "mac_wf X s"
  shows "wpO (steps_to X s) no_dangling (handleGtsTimer w s)"
  unfolding handleGtsTimer_def
  apply (rule wp_ifM, rule coor_gts_starts_ok [OF wf], rule wp_ifM, rule device_gts_starts_ok [OF wf])
  apply (rule steps_seq_calm [OF steps_refl [OF wf]], rule wp_upd, simp add: calm_simps, rule wp_one, erule steps_calm, rule calm_set_trx)
  done

lemma handleTxAckBoundTimer_ok: "keeps X s u \<Longrightarrow> wpO (keeps X s) no_dangling (handleTxAckBoundTimer u)"
  unfolding handleTxAckBoundTimer_def
  apply (rule wp_keeps_when, assumption, rule wp_seq, erule wp_keeps_core, simp_all add: buffers_def task_core_def)
  apply (rule wp_one, rule wp_valM, erule keeps_sendDown, erule keeps_deref [rotated 2], assumption, simp add: buffers_def)
  done

lemma keeps_none: "keeps X s u \<Longrightarrow> txBcnCmd u = None \<and> txBcnCmdUpper u = None"
  by (simp add: keeps_def mac_wf_def task_wf_def)

lemma handleTxCmdDataBoundTimer_ok: "keeps X s u \<Longrightarrow> wpO (keeps X s) no_dangling (handleTxCmdDataBoundTimer u)"
  unfolding handleTxCmdDataBoundTimer_def
  apply (frule keeps_none, elim conjE)
  apply (rule wp_ifM, simp add: doM.simps upd_def valM_def deref_def)
  apply (rule wp_ifM, simp add: doM.simps upd_def valM_def deref_def)
  apply (rule wp_whenM)
   apply (rule wp_doM_Cons, rule wp_upd, rule wp_one, rule wp_valM)
    apply (rule keeps_sendDown, erule keeps_core, simp add: buffers_def, simp add: buffers_def, simp add: task_core_def)
   apply (drule keeps_wf, erule wf_deref [of X _ "txData u"], simp add: buffers_def)
   apply (subst (asm) deref_frames [of _ u], simp_all)
  done

lemma mac_handleSelfMsg_ok:
  assumes wf: "mac_wf X s" and new: "new_addr w \<notin> dom (frames s)" and t: "timers s t = None"
  shows "wpO (steps_to X s) no_dangling (mac_handleSelfMsg w t s)"
proof -
  note k = keeps_refl [OF wf]
  have m: "wpO (keeps X s) no_dangling m \<Longrightarrow> wpO (steps_to X s) no_dangling m" for m
    by (erule wpO_mono) (rule keeps_steps)
  note c = m [OF wp_calm [OF k]]
  have f: "wpO (calm s) no_dangling (handleFinalCapTimer s)"
    by (simp add: handleFinalCapTimer_def doM.simps assertM_def PLME_SET_TRX_STATE_request_def calm_upd1)
  show ?thesis
    unfolding mac_handleSelfMsg_def
    using m [OF startPANCoor_ok [OF k new]] c [OF calm_backoff] c [OF calm_deferCCA] m [OF handleBcnRxTimer_ok [OF k, of w]]
      m [OF handleBcnTxTimer_ok [OF k new]] handleAckTimeoutTimer_ok [OF wf, of w] m [OF handleTxAckBoundTimer_ok [OF k]]
      m [OF handleTxCmdDataBoundTimer_ok [OF k]] handleIfsTimer_ok [OF wf, of w] c [OF handleSDTimer_ok] c [OF f]
      handleGtsTimer_ok [OF wf, of w] t
    by (cases t) (simp_all add: isScheduled_def)
qed

section \<open>Confirms of the physical layer\<close>

lemma keeps_del_beacon:
  "keeps X s u \<Longrightarrow> (\<And>v. keeps X s v \<Longrightarrow> wpO Q no_dangling (doM cs v)) \<Longrightarrow>
   wpO Q no_dangling (doM (deleteM txBeacon # upd (\<lambda>s. s\<lparr>txBeacon := None\<rparr>) # cs) u)"
  by (rule keeps_deleteM [of X s u 0]) (simp_all add: buffers_def task_core_def)

lemma keeps_not_busy:
  assumes wf: "mac_wf X s"
  shows "keeps X s (s\<lparr>inTransmission := False, backoffStatus := (if backoffStatus s = 1 then 0 else backoffStatus s)\<rparr>)" (is "keeps X s ?u")
proof (cases "backoffStatus s = 1")
  case True
  then have t: "tmpCsmaca s = None" using wf by (auto simp: mac_wf_def csma_wf_def)
  have p: "phase ?u = phase s" by (simp add: phase_def)
  have "task_wf ?u = task_wf s" unfolding task_wf_def p by (simp add: isScheduled_def)
  then show ?thesis using wf t p by (simp add: keeps_def mac_wf_def csma_wf_def own_wf_def buffers_def)
next
  case False
  then show ?thesis by (intro keeps_core [OF keeps_refl [OF wf]]) (simp_all add: buffers_def task_core_def)
qed

lemma handle_PD_DATA_confirm_ok:
  assumes wf: "mac_wf X s"
  shows "wpO (steps_to X s) no_dangling (handle_PD_DATA_confirm w st s)"
proof -
  let ?u = "s\<lparr>inTransmission := False, backoffStatus := (if backoffStatus s = 1 then 0 else backoffStatus s)\<rparr>"
  have k: "keeps X s ?u" by (rule keeps_not_busy [OF wf])
  have d: "wpO (steps_to X s) no_dangling (dispatch w st ''handle_PD_DATA_confirm'' ?u)"
    by (rule wpO_mono [OF dispatch_sent [OF keeps_wf [OF k]] steps_after [OF k]])
  have f: "wpO (keeps X s) no_dangling
    (ifM (\<lambda>s. txPkt s = txBeacon s)
          (doM [upd (\<lambda>s. s\<lparr>beaconWaitingTx := False\<rparr>), deleteM txBeacon, upd (\<lambda>s. s\<lparr>txBeacon := None\<rparr>)])
        (ifM (\<lambda>s. txPkt s = txAck s) (doM [deleteM txAck, upd (\<lambda>s. s\<lparr>txAck := None\<rparr>)])
        (whenM (\<lambda>s. txPkt s = txGTS s) (errorM ''GTS transmission failed''))) ?u)"
    apply (rule wp_ifM, rule keeps_seq_upd [OF k], simp add: calm_simps, erule keeps_del_beacon, erule wp_doM_Nil)
    apply (rule wp_ifM, rule keeps_del_ack [OF k], erule wp_doM_Nil, rule wp_whenM, simp add: errorM_def, rule k)
    done
  show ?thesis
    unfolding handle_PD_DATA_confirm_def
    by (rule wp_doM_Cons, rule wp_upd, rule wp_one, rule wp_if_stmt, rule d, rule wpO_mono [OF f keeps_steps])
qed

lemma csmacaCallBack_ok:
  assumes k: "keeps X s u" and t: "tmpCsmaca u = None"
  shows "wpO (steps_to X s) no_dangling (csmacaCallBack w st u)"
proof -
  let ?u = "u\<lparr>backoffStatus := (if st = phy_IDLE then 1 else 2)\<rparr>"
  have "core ?u = core u" by (simp add: core_def)
  then have k': "keeps X s ?u"
    using k t core_eq_phase [of ?u u] core_eq_task [of ?u u] core_eq_own [of ?u u X] by (simp add: keeps_def mac_wf_def csma_wf_def)
  show ?thesis
    unfolding csmacaCallBack_def
    apply (rule wp_ifM, rule wp_doM_Nil, rule keeps_steps [OF k], rule wp_doM_Cons, rule wp_upd, rule wp_one)
    apply (rule wpO_mono [OF dispatch_csma [OF keeps_wf [OF k']]], simp add: t, erule steps_after [OF k'])
    done
qed

lemma csma_over:
  assumes k: "keeps X s u"
  shows "wpO (steps_to X s) no_dangling (doM [upd (\<lambda>s. s\<lparr>tmpCsmaca := None\<rparr>), csmacaCallBack w st] u)"
proof -
  let ?u = "u\<lparr>tmpCsmaca := None\<rparr>"
  have "core ?u = core u" by (simp add: core_def)
  then have k': "keeps X s ?u"
    using k core_eq_phase [of ?u u] core_eq_task [of ?u u] core_eq_own [of ?u u X] by (simp add: keeps_def mac_wf_def csma_wf_def)
  show ?thesis
    by (rule wp_doM_Cons, rule wp_upd, rule wp_one, rule csmacaCallBack_ok [OF k']) simp
qed

lemma cca_idle_ok:
  assumes k: "keeps X s u"
  shows "wpO (steps_to X s) no_dangling (callM (csmacaCanProceed w 0 True) (\<lambda>ok.
     if ok then doM [upd (\<lambda>s. s\<lparr>tmpCsmaca := None\<rparr>), csmacaCallBack w phy_IDLE]
     else upd (\<lambda>s. s\<lparr>CW := 2, bPeriodsLeft := 0, csmacaWaitNextBeacon := True\<rparr>)) u)"
proof -
  have "wpO (steps_to X s) no_dangling ((if ok then doM [upd (\<lambda>s. s\<lparr>tmpCsmaca := None\<rparr>), csmacaCallBack w phy_IDLE]
     else upd (\<lambda>s. s\<lparr>CW := 2, bPeriodsLeft := 0, csmacaWaitNextBeacon := True\<rparr>)) v)" if kv: "keeps X s v" for ok v
    by (rule wp_if_stmt, rule csma_over [OF kv], rule wp_upd, rule keeps_steps [OF keeps_calm [OF kv]]) (simp add: calm_simps)
  then show ?thesis
    by (intro wp_callM wpO_mono [OF calm_canProceed [OF keeps_live [OF k]]]) (auto dest: keeps_calm [OF k])
qed

lemma cca_busy_ok:
  assumes k: "keeps X s u"
  shows "wpO (steps_to X s) no_dangling (doM
          [upd (\<lambda>s. if beaconEnabled s then s\<lparr>CW := 2\<rparr> else s),
           upd (\<lambda>s. s\<lparr>NB := NB s + 1\<rparr>),
           ifM (\<lambda>s. NB s > macMaxCSMABackoffs (mpib s))
             (doM [upd (\<lambda>s. s\<lparr>tmpCsmaca := None\<rparr>), csmacaCallBack w phy_BUSY])
             (doM [upd (\<lambda>s. s\<lparr>BE := (if BE s + 1 > aMaxBE then aMaxBE else BE s + 1)\<rparr>), csmacaStart w False None False])] u)"
proof -
  have st: "wpO (steps_to X s) no_dangling (csmacaStart w False None False v)" if kv: "keeps X s v" for v
    by (rule wpO_mono [OF started_again [OF keeps_live [OF kv]]]) (rule keeps_steps [OF keeps_started [OF kv]])
  show ?thesis
    apply (rule keeps_seq_upd [OF k], simp add: calm_simps, erule keeps_seq_upd, simp add: calm_simps, rule wp_one)
    apply (rule wp_ifM, erule csma_over, erule keeps_seq_upd, simp add: calm_simps, rule wp_one, erule st)
    done
qed

lemma handle_PLME_CCA_confirm_ok:
  assumes wf: "mac_wf X s"
  shows "wpO (steps_to X s) no_dangling (handle_PLME_CCA_confirm w st s)"
  unfolding handle_PLME_CCA_confirm_def
  apply (rule wp_whenM)
   apply (rule keeps_seq_upd [OF keeps_refl [OF wf]], simp add: calm_simps, rule wp_one, rule wp_if_stmt)
    apply (rule wp_ifM, erule csma_over)
    apply (erule keeps_seq_upd, simp add: calm_simps, rule wp_one, rule wp_ifM, erule cca_idle_ok)
    apply (rule steps_calm, erule keeps_steps, rule calm_backoff)
   apply (erule cca_busy_ok)
  apply (rule steps_refl [OF wf])
  done

lemma wpO_weaken: "wpO Q E m \<Longrightarrow> (\<And>e. E e \<Longrightarrow> E' e) \<Longrightarrow> wpO Q E' m"
  by (auto simp: wpO_def wpR_def split: option.splits sum.splits)

text \<open>
  When the transmitter is on and neither a beacon, an acknowledgement nor a GTS frame is to be sent, the
  frame CSMA/CA was last started for is read: it must not have been deleted.
\<close>

definition transmit_safe :: "Mac \<Rightarrow> bool" where
  "transmit_safe s \<longleftrightarrow> beaconWaitingTx s \<or> txAck s \<noteq> None \<or> txGTS s \<noteq> None \<or> (\<forall>a. txCsmaca s = Some a \<longrightarrow> frames s a \<noteq> None)"

lemma transmit_ok:
  assumes k: "keeps X s u" and safe: "transmit_safe u \<or> E DanglingPointer" and E: "\<And>e. no_dangling e \<Longrightarrow> E e"
  shows "wpO (keeps X s) E (transmit w u)"
proof -
  have ack: "wpO (\<lambda>(x, v). keeps X s v) no_dangling (if macBeaconOrder (mpib u) = 15 \<and> rxBO u = 15 then Some (Inr (0, u))
          else bindO (Some (deref (txAck u) u)) (\<lambda>f.
            if isGTS f then Some (Inr (0, u))
            else bindO (csmacaLocateBoundary w (dstAddr f = macCoordShortAddress (mpib u)) 0 u) (\<lambda>(delay, s).
              if delay < bPeriod s then Some (Inr (delay, s)) else Some (Inl AssertFailed))))"
    apply (rule wpO_if, simp add: k, rule wp_bind_val, rule wpO_if, simp add: k)
     apply (rule wp_bind_call [OF calm_locate], use keeps_calm [OF k] in simp)
    apply (erule keeps_deref [OF k, rotated], simp add: buffers_def)
    done
  have data: "wpO (\<lambda>(x, v). keeps X s v) E (if macBeaconOrder (mpib u) = 15 \<and> rxBO u = 15 then Some (Inr (0, u))
          else bindO (Some (deref (txCsmaca u) u)) (\<lambda>f. csmacaLocateBoundary w (toParent f u) 0 u))"
    if "\<not> beaconWaitingTx u" "txAck u = None" "txGTS u = None"
    apply (rule wpO_if, simp add: k, rule wp_bind_val)
     apply (rule wpO_weaken [OF wpO_mono [OF calm_locate]], clarsimp, erule keeps_calm [OF k], erule E)
    subgoal for e
      using safe that E [of e] by (cases "e = DanglingPointer") (auto simp: transmit_safe_def deref_dangling)
    done
  have tail: "wpO (keeps X s) no_dangling ((if x = 0 then g else startTimer t w x) v)"
    if "keeps X s v" "\<And>v. keeps X s v \<Longrightarrow> wpO (keeps X s) no_dangling (g v)" "t \<noteq> MAC_ACK_TIMEOUT_TIMER" for x v g t
    using that wp_calm [OF that(1) calm_startTimer [OF that(3)]] by simp
  have gts: "wpO (keeps X s) no_dangling (doM [upd (\<lambda>s. s\<lparr>txPkt := txGTS s\<rparr>), valM (\<lambda>s. deref (txGTS s) s) sendDown] u)"
    apply (rule wp_seq [where P = "keeps X s"], rule wp_keeps_core [OF k], simp_all add: buffers_def task_core_def)
    apply (rule wp_one, rule wp_valM, erule keeps_sendDown, erule keeps_deref [rotated 2], assumption, simp add: buffers_def)
    done
  show ?thesis
    unfolding transmit_def startTxAckBoundTimer_def startTxCmdDataBoundTimer_def
    apply (rule wp_ifM, rule wp_doM_Nil, rule k, rule wp_ifM)
     apply (rule wp_callM, rule wpO_weaken [OF wpO_mono [OF ack]])
      apply (rename_tac p, case_tac p, simp only: prod.case)
      apply (rule wpO_weaken [OF tail], assumption, erule handleTxAckBoundTimer_ok, simp, erule E, erule E)
    apply (rule wp_ifM, rule wpO_weaken [OF gts], erule E)
    apply (rule wp_callM, rule wpO_mono [OF data], simp, simp, simp)
    apply (rename_tac p, case_tac p, simp only: prod.case)
    apply (rule wpO_weaken [OF tail], assumption, erule handleTxCmdDataBoundTimer_ok, simp, erule E)
    done
qed

lemma trx_confirm_ok:
  assumes wf: "mac_wf X s" and safe: "transmit_safe s \<or> E DanglingPointer" and E: "\<And>e. no_dangling e \<Longrightarrow> E e"
  shows "wpO (keeps X s) E (handle_PLME_SET_TRX_STATE_confirm w st s)"
proof -
  let ?st = "if st = phy_SUCCESS then trx_state_req s else st"
  let ?c = "whenM (\<lambda>s. backoffStatus s = 99 \<and> trx_state_req s = phy_RX_ON \<and> RX_ON_csmaca (taskP s))
        (doM [upd (\<lambda>s. s\<lparr>taskP := (taskP s)\<lparr>RX_ON_csmaca := False\<rparr>\<rparr>), csmaca_handle_RX_ON_confirm w ?st])"
  note k = keeps_refl [OF wf]
  have 1: "wpO (\<lambda>u. keeps X s u \<and> (?st = phy_TX_ON \<longrightarrow> transmit_safe u = transmit_safe s)) no_dangling (?c s)"
  proof (cases "?st = phy_TX_ON")
    case True
    then show ?thesis
      by (simp add: whenM_def doM.simps upd_def csmaca_handle_RX_ON_confirm_def handleBackoffTimer_def PLME_SET_TRX_STATE_request_def k
          keeps_calm [OF k] calm_simps transmit_safe_def)
  next
    case False
    have "wpO (keeps X s) no_dangling (?c s)"
      apply (rule wp_whenM, rule keeps_seq_upd [OF k], simp add: calm_simps, rule wp_one)
       apply (rule wp_calm, assumption, rule calm_RX_ON_confirm, erule keeps_live, rule k)
      done
    then show ?thesis by (rule wpO_mono) (simp add: False)
  qed
  show ?thesis
    unfolding handle_PLME_SET_TRX_STATE_confirm_def Let_def
    apply (rule wp_doM_Cons, rule wpO_weaken [OF wpO_mono [OF 1]], elim conjE, rule wp_one, rule wp_whenM)
      apply (rule transmit_ok, assumption, use safe in simp, erule E, assumption)
    apply (erule E)
    done
qed

section \<open>Packets of the upper layer\<close>

lemma request_at:
  assumes s: "idle_wf X s" and new: "a \<notin> dom (frames s)"
    and u: "frames u = (frames s)(a \<mapsto> f)" "txBcnCmd u = None" "txBcnCmdUpper u = None" "tmpCsmaca u = None"
      "\<not> waitDataAck u" "\<not> waitGTSAck u" "\<not> isScheduled MAC_ACK_TIMEOUT_TIMER u"
      "mcps_data_request (taskP u)" "mcps_data_request_STEP (taskP u) = 1" "mcps_data_request_TxOption (taskP u) = dataTransMode u"
    and d: "dataTransMode u = DIRECT_TRANS \<and> buffers u = (buffers s)[1 := Some a] \<and>
        mcps_data_request_frFunc (taskP u) = ''csmacaCallBack'' \<and> numDataRetry u = 0 \<or>
      dataTransMode u = GTS_TRANS \<and> buffers u = (buffers s)[2 := Some a] \<and>
        mcps_data_request_frFunc (taskP u) = ''handleGtsTimer'' \<and> numGTSRetry u = 0"
  shows "mac_wf X u \<and> phase u = (if dataTransMode u = DIRECT_TRANS then Direct 1 0 else Gts 1 0)"
proof -
  have none: "txData s = None" "txGTS s = None" and e: "own_wf X s" using s by (simp_all add: idle_iff ending_def)
  then have o: "owns X (frames s) (buffers s)" by (simp add: own_wf_def)
  have "a \<notin> X" using o new unfolding owns_def by blast
  then have st: "owns X ((frames s)(a \<mapsto> f)) ((buffers s)[i := Some a])" if "i < length (buffers s)" "buffers s ! i = None" for i
    using owns_store [OF owns_new [OF o new] that, of a f] by simp
  have ow: "own_wf X u" using d u(1) st [of 1] st [of 2] none by (auto simp: own_wf_def buffers_def)
  have p: "phase u = (if dataTransMode u = DIRECT_TRANS then Direct 1 0 else Gts 1 0)" using u d by (auto simp: phase_def)
  have b: "txData u \<noteq> None \<longleftrightarrow> dataTransMode u = DIRECT_TRANS" "txGTS u \<noteq> None \<longleftrightarrow> dataTransMode u \<noteq> DIRECT_TRANS"
    using d none by (auto simp: buffers_def)
  have "task_wf u" unfolding task_wf_def p using u d b by auto
  then show ?thesis using ow p u by (simp add: mac_wf_def csma_wf_def)
qed

lemma data_frame_no_dangling: "data_frame w sm sp sa dm dp da msdu opt s \<noteq> Inl DanglingPointer"
  by (simp add: data_frame_def calFrmByteLength_def calMHRByteLength_def Let_def bindR_Inl_iff)

definition began :: "nat set \<Rightarrow> Mac \<Rightarrow> bool" where
  "began X u \<longleftrightarrow> mac_wf X u \<and> (phase u = Direct 1 0 \<or> phase u = Gts 1 0 \<or> phase u = Gts 2 0)"

lemma request_at_direct:
  assumes "idle_wf X s" "a \<notin> dom (frames s)"
    "frames u = (frames s)(a \<mapsto> f)" "txBcnCmd u = None" "txBcnCmdUpper u = None" "tmpCsmaca u = None"
      "\<not> waitDataAck u" "\<not> waitGTSAck u" "\<not> isScheduled MAC_ACK_TIMEOUT_TIMER u"
      "mcps_data_request (taskP u)" "mcps_data_request_STEP (taskP u) = 1" "mcps_data_request_TxOption (taskP u) = DIRECT_TRANS"
      "dataTransMode u = DIRECT_TRANS" "buffers u = (buffers s)[1 := Some a]"
      "mcps_data_request_frFunc (taskP u) = ''csmacaCallBack''" "numDataRetry u = 0"
  shows "mac_wf X u \<and> phase u = Direct 1 0"
  using request_at [OF assms(1-11)] assms(12-) by simp

lemma request_at_gts:
  assumes "idle_wf X s" "a \<notin> dom (frames s)"
    "frames u = (frames s)(a \<mapsto> f)" "txBcnCmd u = None" "txBcnCmdUpper u = None" "tmpCsmaca u = None"
      "\<not> waitDataAck u" "\<not> waitGTSAck u" "\<not> isScheduled MAC_ACK_TIMEOUT_TIMER u"
      "mcps_data_request (taskP u)" "mcps_data_request_STEP (taskP u) = 1" "mcps_data_request_TxOption (taskP u) = GTS_TRANS"
      "dataTransMode u = GTS_TRANS" "buffers u = (buffers s)[2 := Some a]"
      "mcps_data_request_frFunc (taskP u) = ''handleGtsTimer''" "numGTSRetry u = 0"
  shows "mac_wf X u \<and> phase u = Gts 1 0"
  using request_at [OF assms(1-11)] assms(12-) by simp

lemma request_direct_ok:
  assumes s: "idle_wf X s" and new: "new_addr w \<notin> dom (frames s)" and m: "dataTransMode s = DIRECT_TRANS"
  shows "wpO (began X) no_dangling
    (doM [upd (\<lambda>s. s\<lparr>mpib := (mpib s)\<lparr>macDSN := macDSN (mpib s) + 1\<rparr>\<rparr>),
       doM [next_step ''csmacaCallBack'', assertM (\<lambda>s. txData s = None), upd (\<lambda>s. s\<lparr>txData := Some (new_addr w)\<rparr>), csmacaEntry w CHR ''d'']]
      (s\<lparr>taskP := (taskP s)\<lparr>mcps_data_request_STEP := 0, mcps_data_request_frFunc := [], mcps_data_request := True,
         mcps_data_request_TxOption := DIRECT_TRANS\<rparr>, frames := (frames s)(new_addr w \<mapsto> f)\<rparr>))"
proof -
  have e: "ending X s" using s by (simp add: idle_iff)
  have r: "wpO (began X) no_dangling (csmacaResume w u)" if "mac_wf X u \<and> phase u = Direct 1 0" for u
    by (rule wpO_mono [OF resume_ok]) (use that in \<open>auto simp: resumes_to_def began_def\<close>)
  show ?thesis
    unfolding step_defs csmacaEntry_def
    apply (rule wp_doM_Cons, rule wp_upd, rule wp_one, rule wp_doM_Cons, rule wp_upd, rule wp_doM_Cons, rule wp_assertM)
     apply (rule wp_doM_Cons, rule wp_upd, rule wp_one, simp, rule wp_doM_Cons, rule wp_upd, rule wp_one, rule r)
     apply (rule request_at_direct [OF s new, of _ f])
                  apply (use e m in \<open>simp_all add: ending_def buffers_def isScheduled_def\<close>)
    done
qed

lemma gtsCanProceed_no_dangling: "gtsCanProceed w s \<noteq> Inl DanglingPointer"
  by (simp add: gtsCanProceed_def assertR_def split: option.split)

lemma request_gts_ok:
  assumes s: "idle_wf X s" and new: "new_addr w \<notin> dom (frames s)" and m: "dataTransMode s = GTS_TRANS"
  shows "wpO (began X) no_dangling
    (doM [upd (\<lambda>s. s\<lparr>mpib := (mpib s)\<lparr>macDSN := macDSN (mpib s) + 1\<rparr>\<rparr>),
       doM [next_step ''handleGtsTimer'', assertM (\<lambda>s. txGTS s = None), upd (\<lambda>s. s\<lparr>txGTS := Some (new_addr w), numGTSRetry := 0\<rparr>),
            whenM (\<lambda>s. \<not> isPANCoor s \<and> index_gtsTimer s = 99) (doM
             [assertM (isScheduled MAC_GTS_TIMER),
              valM (gtsCanProceed w) (\<lambda>ok. whenM (\<lambda>_. ok) (FSM_MCPS_DATA_request w phy_SUCCESS))])]]
      (s\<lparr>taskP := (taskP s)\<lparr>mcps_data_request_STEP := 0, mcps_data_request_frFunc := [], mcps_data_request := True,
         mcps_data_request_TxOption := GTS_TRANS\<rparr>, frames := (frames s)(new_addr w \<mapsto> f)\<rparr>))"
proof -
  have e: "ending X s" using s by (simp add: idle_iff)
  have F: "wpO (began X) no_dangling (FSM_MCPS_DATA_request w phy_SUCCESS u)" if u: "mac_wf X u \<and> phase u = Gts 1 0" for u
  proof -
    have "wpO (steps_to X u) no_dangling (FSM_MCPS_DATA_request w phy_SUCCESS u)"
      by (rule FSM_slot) (use u phase_GtsD [of X u 1 0] in auto)
    then show ?thesis
      by (rule wpO_mono) (use u in \<open>auto simp: steps_to_def began_def elim: task_step.cases\<close>)
  qed
  have tail: "wpO (began X) no_dangling (whenM (\<lambda>s. \<not> isPANCoor s \<and> index_gtsTimer s = 99) (doM
             [assertM (isScheduled MAC_GTS_TIMER),
              valM (gtsCanProceed w) (\<lambda>ok. whenM (\<lambda>_. ok) (FSM_MCPS_DATA_request w phy_SUCCESS))]) u)"
    if u: "mac_wf X u \<and> phase u = Gts 1 0" for u
    apply (rule wp_whenM, rule wp_doM_Cons, rule wp_assertM, rule wp_one, rule wp_valM, rule wp_whenM, rule F [OF u])
       apply (use u in \<open>auto simp: began_def gtsCanProceed_no_dangling\<close>)
    done
  show ?thesis
    unfolding step_defs
    apply (rule wp_doM_Cons, rule wp_upd, rule wp_one, rule wp_doM_Cons, rule wp_upd, rule wp_doM_Cons, rule wp_assertM)
     apply (rule wp_doM_Cons, rule wp_upd, rule wp_one, rule tail)
     apply (rule request_at_gts [OF s new, of _ f])
                  apply (use e m in \<open>simp_all add: ending_def buffers_def isScheduled_def\<close>)
    done
qed

lemma request_data_ok:
  assumes s: "idle_wf X s" and new: "new_addr w \<notin> dom (frames s)"
  shows "wpO (began X) no_dangling (request_data w msg dest s)"
proof -
  have t: "\<not> mcps_data_request (taskP s)" and m: "dataTransMode s = DIRECT_TRANS \<or> dataTransMode s = GTS_TRANS"
    using s by (auto simp: idle_iff ending_def)
  show ?thesis
    unfolding request_data_def MCPS_DATA_request_def checkTaskOverflow_def set_task_def goto_step_def
    apply (rule wp_doM_Cons, rule wp_ifM, simp add: t, rule wp_upd, rule wp_doM_Cons, rule wp_upd, rule wp_doM_Cons, rule wp_upd)
    apply (rule wp_one, rule wp_newM)
    subgoal for f
      using m request_direct_ok [OF s new, of f] request_gts_ok [OF s new, of f] by auto
    apply (metis data_frame_no_dangling)
    done
qed

lemma calm_drop_upper: "wpO (calm u) no_dangling (drop_upper u)"
  by (simp add: drop_upper_def doM.simps upd_def reqtMsgFromIFq_def whenM_def emit_def calm_simps)

lemma keeps_idle: "keeps X s u \<Longrightarrow> phase s = Idle \<Longrightarrow> idle_wf X u"
  by (simp add: keeps_def idle_wf_def)

lemma handleUpperMsg_ok:
  assumes wf: "mac_wf X s" and new: "new_addr w \<notin> dom (frames s)"
  shows "wpO (steps_to X s) no_dangling (handleUpperMsg w msg s)"
proof -
  define G where "G u \<longleftrightarrow> keeps X s u \<and> frames u = frames s" for u
  have drop: "wpO (steps_to X s) no_dangling (drop_upper u)" if "G u" for u
    by (rule steps_calm [OF keeps_steps calm_drop_upper]) (use that in \<open>simp add: G_def\<close>)
  have req: "wpO (steps_to X s) no_dangling (request_data w msg dest u)" if "G u" "phase s = Idle" for u dest
    by (rule wpO_mono [OF request_data_ok [OF keeps_idle]])
      (use that new in \<open>auto simp: G_def began_def steps_to_def intro: request request_gts request_in_slot\<close>)
  have up: "wpO (steps_to X s) no_dangling (upper_to_parent w msg u)" if "G u" "phase s = Idle" for u
    unfolding upper_to_parent_def
    by (rule wp_ifM, rule drop [OF that(1)], rule wp_ifM, rule wp_doM_Cons, rule wp_assertM, rule wp_one, rule wp_ifM,
        rule drop [OF that(1)], rule req [OF that], simp, rule req [OF that])
  have set: "wpO G no_dangling (set_gts i f u)" if "G u" for u i f
    unfolding set_gts_def
    by (rule wp_valM, rule wp_upd) (use that gts_at_no_dangling in \<open>auto simp: G_def calm_simps intro: keeps_calm\<close>)
  have down: "wpO (steps_to X s) no_dangling (upper_to_device w msg u)" if G: "G u" and i: "phase s = Idle" for u
  proof -
    have f: "wpO (steps_to X s) no_dangling (case find_gts d u of
          Some i \<Rightarrow> doM [set_gts (of_nat i) (\<lambda>d. d\<lparr>isTxPending := True\<rparr>), request_data w msg d] u | None \<Rightarrow> drop_upper u)" for d
    proof (cases "find_gts d u")
      case (Some i)
      show ?thesis unfolding Some option.case
        by (rule wp_seq [of G], rule set [OF G], rule wp_one, erule req, rule \<open>phase s = Idle\<close>)
    qed (simp add: drop [OF G])
    show ?thesis
      unfolding upper_to_device_def
      apply (cases "u_dest msg", simp add: errorM_def)
      apply (simp del: not_None_eq, rule wp_ifM, rule drop [OF G], rule wp_ifM, rule wp_doM_Cons, rule wp_assertM, rule wp_one, rule f, simp)
      apply (rule req [OF G i])
      done
  qed
  have G0: "G (s\<lparr>stats := x\<rparr>)" for x
    using keeps_calm [OF keeps_refl [OF wf], of "s\<lparr>stats := x\<rparr>"] by (simp add: G_def calm_simps)
  show ?thesis
    unfolding handleUpperMsg_def
    apply (rule wp_doM_Cons, rule wp_upd, rule wp_one, rule wp_ifM, rule drop [OF G0])
    apply (rule wp_if_stmt, rule wp_doM_Cons, rule wp_confirm, rule wp_one, rule drop [OF G0])
    apply (rule wp_if_stmt, rule up [OF G0], simp add: phase_def, rule down [OF G0], simp add: phase_def)
    done
qed

section \<open>Messages\<close>

text \<open>
  What the simulation guarantees when a message is delivered: the objects created or received now
  are new, and an own timer arrives when it is due.
\<close>

definition env_ok :: "MacEnv \<Rightarrow> macevent \<Rightarrow> Mac \<Rightarrow> bool" where
  "env_ok w e s \<longleftrightarrow> frames s (new_addr w) = None \<and> frames s (msg_addr w) = None \<and> new_addr w \<noteq> msg_addr w \<and>
     (case e of SelfTimer t \<Rightarrow> timers s t = Some (simTime w) | _ \<Rightarrow> True)"

lemma wf_timer_fired:
  assumes wf: "mac_wf X s"
  shows "keeps X s (s\<lparr>timers := (timers s)(t := None)\<rparr>)"
proof -
  have p: "phase (s\<lparr>timers := (timers s)(t := None)\<rparr>) = phase s" by (simp add: phase_def)
  have "task_wf (s\<lparr>timers := (timers s)(t := None)\<rparr>)" using wf unfolding mac_wf_def task_wf_def p
    by (auto simp: isScheduled_def)
  then show ?thesis using wf p by (simp add: keeps_def mac_wf_def csma_wf_def own_wf_def buffers_def)
qed

lemma wf_arrival:
  assumes wf: "mac_wf {} s" and a: "frames s a = None"
  shows "keeps {a} s (s\<lparr>frames := (frames s)(a \<mapsto> f)\<rparr>)"
proof -
  let ?u = "s\<lparr>frames := (frames s)(a \<mapsto> f)\<rparr>"
  have "task_core ?u = task_core s" by (simp add: task_core_def)
  moreover have "own_wf {a} ?u" using wf owns_new [of "{}" "frames s" "buffers s" a f] a
    by (simp add: mac_wf_def own_wf_def buffers_def domIff)
  ultimately show ?thesis using wf task_core_wf [of ?u s] task_core_phase [of ?u s] by (simp add: keeps_def mac_wf_def)
qed

lemma primitive_ok:
  assumes wf: "mac_wf X s" and safe: "k = PLME_SET_TRX_STATE_CONFIRM \<Longrightarrow> transmit_safe s \<or> E DanglingPointer"
    and E: "\<And>e. no_dangling e \<Longrightarrow> E e"
  shows "wpO (steps_to X s) E (handleMacPhyPrimitive w k st s)"
proof -
  have 1: "wpO (steps_to X s) E (handle_PD_DATA_confirm w st s)" by (rule wpO_weaken [OF handle_PD_DATA_confirm_ok [OF wf] E])
  have 2: "wpO (steps_to X s) E (handle_PLME_CCA_confirm w st s)" by (rule wpO_weaken [OF handle_PLME_CCA_confirm_ok [OF wf] E])
  have 3: "k = PLME_SET_TRX_STATE_CONFIRM \<Longrightarrow> wpO (steps_to X s) E (handle_PLME_SET_TRX_STATE_confirm w st s)"
    by (rule wpO_mono [OF trx_confirm_ok [of X s E, OF wf safe]], assumption, erule E, erule keeps_steps)
  have 4: "wpO (steps_to X s) E (doM [] s)" by (rule wp_doM_Nil) (rule steps_refl [OF wf])
  have 5: "wpO (steps_to X s) E (errorM x s)" for x by (simp add: errorM_def E)
  show ?thesis
    unfolding handleMacPhyPrimitive_def using 1 2 3 4 5 by (cases k) simp_all
qed

lemma mac_handleMessage_ok:
  assumes wf: "mac_wf {} s" and env: "env_ok w e s"
    and safe: "\<And>st. e = Primitive PLME_SET_TRX_STATE_CONFIRM st \<Longrightarrow> transmit_safe s \<or> E DanglingPointer"
    and E: "\<And>e. no_dangling e \<Longrightarrow> E e"
  shows "wpO (\<lambda>(c, v). steps_to {} s v) E (mac_handleMessage w e c s)"
proof -
  have new: "new_addr w \<notin> dom (frames s)" using env by (auto simp: env_ok_def)
  have keep: "wpO (\<lambda>(c, v). steps_to {} s v) E (bindO m (\<lambda>s. Some (Inr (c, s))))" if "wpO (steps_to {} s) E m" for m
    using that by (rule wp_bind) simp
  note w = wpO_weaken [of _ no_dangling _ E, OF _ E]
  show ?thesis
  proof (cases e)
    case (Primitive k st)
    have "wpO (steps_to {} s) E (handleMacPhyPrimitive w k st s)"
      by (rule primitive_ok [OF wf]) (use safe E Primitive in auto)
    then show ?thesis using keep Primitive by simp
  next
    case (LowerFrame f)
    have "wpO (\<lambda>(c, v). steps_to {} s v) no_dangling
        (handleLowerMsg w (Some (msg_addr w)) c (s\<lparr>frames := (frames s)(msg_addr w \<mapsto> f)\<rparr>))"
      by (rule handleLowerMsg_ok [OF wf_arrival [OF wf]]) (use env in \<open>auto simp: env_ok_def\<close>)
    then show ?thesis using w LowerFrame by simp
  next
    case (SelfTimer t)
    let ?u = "s\<lparr>timers := (timers s)(t := None)\<rparr>"
    note k = wf_timer_fired [OF wf, of t]
    have "wpO (steps_to {} s) no_dangling (mac_handleSelfMsg w t ?u)"
      by (rule wpO_mono [OF mac_handleSelfMsg_ok [OF keeps_wf [OF k]] steps_after [OF k]]) (use new in simp_all)
    then show ?thesis using keep [OF w] SelfTimer by simp
  next
    case (Upper msg)
    then show ?thesis using keep [OF w [OF handleUpperMsg_ok [OF wf new]]] by simp
  next
    case (ChannelChanged ch)
    have "calm s (s\<lparr>phyCurrentChannel := ch, phy_bitrate := a, phy_symbolrate := b, bPeriod := d\<rparr>)" for a b d by (simp add: calm_simps)
    then have "steps_to {} s (s\<lparr>phyCurrentChannel := ch, phy_bitrate := a, phy_symbolrate := b, bPeriod := d\<rparr>)" for a b d
      by (rule steps_keeps [OF steps_refl [OF wf]])
    then show ?thesis using ChannelChanged by (simp add: receiveChangeNotification_def upd_def Let_def)
  qed (simp add: steps_refl [OF wf])
qed

section \<open>Reachable states\<close>

text \<open>
  A step of the module: a message, or a call by another MAC module, for which this one is the PAN coordinator.
\<close>

inductive mac_step :: "Mac \<Rightarrow> Mac \<Rightarrow> bool" where
  message: "env_ok w e s \<Longrightarrow> mac_handleMessage w e c s = Some (Inr (c', s')) \<Longrightarrow> mac_step s s'"
| association: "associate_request_cmd a cap s = (x, s') \<Longrightarrow> mac_step s s'"
| gts_request: "gts_request_cmd a n r s = Inr (slot, s') \<Longrightarrow> mac_step s s'"

definition mac_init :: "Mac \<Rightarrow> bool" where
  "mac_init s \<longleftrightarrow> (\<exists>par w addrCount bsn dsn junk. mac_initialize par w addrCount bsn dsn junk = Some (Inr s))"

lemma calm_gts_request: "gts_request_cmd a n r s = Inr (slot, s') \<Longrightarrow> calm s s'"
  by (auto simp: gts_request_cmd_def assertR_def Let_def calm_simps split: if_splits)

lemma mac_step_ok: "mac_wf {} s \<Longrightarrow> mac_step s s' \<Longrightarrow> steps_to {} s s'"
proof (erule mac_step.cases)
  fix w e c c' u v
  assume wf: "mac_wf {} s" and u: "s = u" "s' = v" and env: "env_ok w e u" and r: "mac_handleMessage w e c u = Some (Inr (c', v))"
  show "steps_to {} s s'"
    using wpO_D(1) [OF mac_handleMessage_ok [OF wf, of w e "\<lambda>_. True" c]] env r u by auto
next
  fix a cap u x v
  assume wf: "mac_wf {} s" and u: "s = u" "s' = v" and r: "associate_request_cmd a cap u = (x, v)"
  show "steps_to {} s s'"
    by (rule steps_keeps [OF steps_refl [OF wf]]) (use u r in \<open>auto simp: associate_request_cmd_def calm_simps\<close>)
next
  fix a n r u slot v
  assume wf: "mac_wf {} s" and u: "s = u" "s' = v" and r: "gts_request_cmd a n r u = Inr (slot, v)"
  show "steps_to {} s s'" by (rule steps_keeps [OF steps_refl [OF wf]]) (use u calm_gts_request [OF r] in simp)
qed

definition fresh_mac :: "Mac \<Rightarrow> bool" where
  "fresh_mac u \<longleftrightarrow> \<not> mcps_data_request (taskP u) \<and> (dataTransMode u = DIRECT_TRANS \<or> dataTransMode u = GTS_TRANS) \<and>
      frames u = Map.empty \<and> buffers u = [None, None, None, None, None, None] \<and> txBcnCmd u = None \<and> txBcnCmdUpper u = None \<and> tmpCsmaca u = None \<and>
      \<not> waitDataAck u \<and> \<not> waitGTSAck u \<and> timers u MAC_ACK_TIMEOUT_TIMER = None"

lemma stage0_fresh: "wpO fresh_mac (\<lambda>_. True) (initialize_stage0 par bsn dsn (newMac addrCount junk))"
  by (simp add: initialize_stage0_def initializeQueueModule_def newMac_def doM.simps upd_def whenM_def emit_def errorM_def transMode_def
      buffers_def fresh_mac_def)

lemma stage2_fresh: "fresh_mac u \<Longrightarrow> wpO fresh_mac (\<lambda>_. True) (initialize_stage2 par w u)"
  by (simp add: initialize_stage2_def startDevice_def doM.simps upd_def ifM_def errorM_def startTimer_def PLME_SET_TRX_STATE_request_def
      buffers_def fresh_mac_def)

lemma fresh_idle: "fresh_mac u \<Longrightarrow> idle_wf {} u"
  by (auto simp: fresh_mac_def idle_iff ending_def own_wf_def owns_def buffers_def isScheduled_def)

lemma mac_init_ok: "mac_init s \<Longrightarrow> idle_wf {} s"
proof -
  assume "mac_init s"
  then obtain par w addrCount bsn dsn junk where i: "mac_initialize par w addrCount bsn dsn junk = Some (Inr s)"
    by (auto simp: mac_init_def)
  have "wpO fresh_mac (\<lambda>_. True) (mac_initialize par w addrCount bsn dsn junk)"
    unfolding mac_initialize_def
    by (rule wp_seq [of fresh_mac], rule stage0_fresh, rule wp_one, erule stage2_fresh)
  then show ?thesis using i fresh_idle by simp
qed

interpretation mac: invariant_system mac_init mac_step "mac_wf {}"
  using mac_init_ok mac_step_ok by unfold_locales (auto simp: idle_wf_def steps_to_def)

end
