(* ===== verification/Mac_Safety.thy ===== *)
theory Mac_Safety
  imports Mac_Reachable
begin

text \<open>
  Properties of every reachable state of the MAC module, what ends a data request, and two ways in which a request or a frame is lost.
  A concrete device is set up first to evaluate them on.
\<close>

section \<open>A module to evaluate\<close>

definition gts0 :: GTSDescriptor where
  "gts0 = \<lparr>devShortAddr = 0xffff, startSlot = 0, length' = 0, gts_isRecvGTS = False, isTxPending = False\<rparr>"

definition spec0 :: SuperframeSpec where
  "spec0 = \<lparr>BO = 6, BI = 61440, SO = 4, SD = 15360, finalCap = 15, battLifeExt = False, panCoor = True, assoPmt = True\<rparr>"

text \<open>A module object at the 2.4 GHz rates before its members are set.\<close>

definition mac0 :: Mac where
  "mac0 = \<lparr>ack4Data = True, ack4Gts = True, secuData = False, secuBeacon = False, isPANCoor = False, dataTransMode = DIRECT_TRANS,
     isRecvGTS = False, gtsPayload = 10, queueModule = True,
     taskP = \<lparr>mcps_data_request = False, mcps_data_request_STEP = 0, mcps_data_request_frFunc = [],
       mcps_data_request_TxOption = DIRECT_TRANS, CCA_csmaca = False, RX_ON_csmaca = False\<rparr>,
     trx_state_req = phy_TRX_OFF, phyCurrentChannel = 11, phy_bitrate = 250000, phy_symbolrate = 62500, aExtendedAddress = 2, mpib = MPIB,
     capability = \<lparr>alterPANCoor = False, FFD = True, recvOnWhenIdle = True, secuCapable = False, alloShortAddr = True, hostName = []\<rparr>,
     rxBO = 15, rxSO = 15, txSfSlotDuration = 960, rxSfSlotDuration = 960, txBcnDuration = 0, rxBcnDuration = 0, bPeriod = 20 / 62500,
     bcnRxTime = 0, schedBcnRxTime = 0, txSfSpec = spec0, rxSfSpec = spec0,
     rxPanDescriptor = \<lparr>CoordAddrMode = 0, CoordPANId = 0, CoordAddress_16_or_64 = 0, LogicalChannel = 0, GTSPermit = False, LinkQuality = 0,
       SecurityUse = False, ACLEntry = 0, SecurityFailure = False\<rparr>,
     beaconEnabled = False, beaconWaitingTx = False, notAssociated = True, bcnLossCounter = 0, NB = 0, CW = 0, BE = 0, backoffStatus = 0,
     bPeriodsLeft = 0, csmacaAckReq = False, csmacaWaitNextBeacon = False, gtsCount = 0, gtsList = replicate 7 gts0, tmp_finalCap = 15,
     indexCurrGts = 99, gtsLength = 0, gtsStartSlot = 0, gtsTransDuration = 0, frames = Map.empty, txPkt = None, txBeacon = None,
     txBcnCmdUpper = None, txBcnCmd = None, txData = None, txGTS = None, txAck = None, txCsmaca = None, tmpCsmaca = None, rxData = None,
     rxCmd = None, timers = (\<lambda>_. None), lastTime_bcnRxTimer = 0, txNow_bcnTxTimer = False, inTxSD_txSDTimer = False, inRxSD_rxSDTimer = False,
     index_gtsTimer = 0, inTransmission = False, waitBcnCmdAck = False, waitBcnCmdUpperAck = False, waitDataAck = False, waitGTSAck = False,
     numBcnCmdRetry = 0, numBcnCmdUpperRetry = 0, numDataRetry = 0, numGTSRetry = 0, hlistBLink = newHList, hlistDLink = newHList,
     deviceList = Map.empty, stats = zeroStats, draws = (\<lambda>_. 0), macOut = []\<rparr>"

definition par0 :: MacPar where
  "par0 = \<lparr>par_isPANCoor = False, par_BO = 6, par_SO = 4, par_dataTransMode = 1, par_panCoorName = ''pan'', par_isRecvGTS = False,
     par_gtsPayload = 10, par_ack4Gts = True, par_queueModule = True, par_fullName = ''dev''\<rparr>"

definition env0 :: MacEnv where
  "env0 = \<lparr>simTime = 0, new_addr = 100, msg_addr = 101, junk_ackReq = False, junk_i = 0\<rparr>"

definition dev0 :: Mac where
  "dev0 = (case mac_initialize par0 env0 2 0 0 mac0 of Some (Inr s) \<Rightarrow> s | _ \<Rightarrow> mac0)"

lemma dev0_init: "mac_initialize par0 env0 2 0 0 mac0 = Some (Inr dev0)"
  by (simp add: dev0_def mac_initialize_def initialize_stage0_def initialize_stage2_def initializeQueueModule_def par0_def startDevice_def
      doM.simps upd_def whenM_def ifM_def emit_def PLME_SET_TRX_STATE_request_def)




section \<open>The data request and the frame buffers\<close>

text \<open>
  C1: In every state a MAC module can reach, whatever the physical layer and its other
  surroundings do, the flags, the step, the expected handler, the retry counter, the frame pointers and the
  acknowledgement timer of the data request agree with each other, CSMA/CA works on the frame of the
  request, and every frame on the heap belongs to exactly one buffer.
\<close>

theorem mac_invariant:
  assumes "mac_init s0" and "mac_step\<^sup>*\<^sup>* s0 s"
  shows "task_wf s \<and> csma_wf s \<and> own_wf {} s"
  using mac.reachable_inv [OF assms] by (simp add: mac_wf_def)

lemma dev0_is_init: "mac_init dev0"
  unfolding mac_init_def using dev0_init by blast

lemma dev0_steps: "mac_step dev0 (dev0\<lparr>deviceList := (deviceList dev0)(3 \<mapsto> capability dev0)\<rparr>)"
  by (rule association [of 3 "capability dev0" _ 3]) (simp add: associate_request_cmd_def)

theorem mac_invariant_witness:
  "task_wf (dev0\<lparr>deviceList := (deviceList dev0)(3 \<mapsto> capability dev0)\<rparr>) \<and>
   own_wf {} (dev0\<lparr>deviceList := (deviceList dev0)(3 \<mapsto> capability dev0)\<rparr>)"
  using mac_invariant [OF dev0_is_init r_into_rtranclp [of mac_step, OF dev0_steps]] by simp

text \<open>
  C2: The data request refines the abstract state machine: each step of a module in a reachable
  state leaves the request where it is, or takes it along one of the machine's transitions. In particular
  a frame that is not acknowledged is sent again at most three times.
\<close>

theorem request_refines:
  assumes "mac_init s0" and "mac_step\<^sup>*\<^sup>* s0 s" and "mac_step s s'"
  shows "task_step (phase s) (phase s')"
  using mac_step_ok [OF mac.reachable_inv [OF assms(1,2)] assms(3)] by (simp add: steps_to_def)

theorem request_refines_witness:
  "task_step (phase dev0) (phase (dev0\<lparr>deviceList := (deviceList dev0)(3 \<mapsto> capability dev0)\<rparr>))"
  using request_refines [OF dev0_is_init rtranclp.rtrancl_refl [of mac_step] dev0_steps] .

text \<open>
  C3: No handler of a module in a reachable state uses or deletes a frame that has been deleted. There is one
  exception: when the transmitter is reported on and there is no beacon, acknowledgement or GTS frame to
  send, the frame that CSMA/CA was last started for must still exist.
\<close>

theorem no_use_after_free:
  assumes "mac_init s0" and "mac_step\<^sup>*\<^sup>* s0 s" and "env_ok w e s"
    and "\<And>st. e = Primitive PLME_SET_TRX_STATE_CONFIRM st \<Longrightarrow> transmit_safe s"
  shows "mac_handleMessage w e c s \<noteq> Some (Inl DanglingPointer)"
  using wpO_D(2) [OF mac_handleMessage_ok [OF mac.reachable_inv [OF assms(1,2)] assms(3), of no_dangling c], of DanglingPointer] assms(4) by blast

theorem no_use_after_free_witness:
  "mac_handleMessage env0 (Primitive PLME_SET_TRX_STATE_CONFIRM phy_TX_ON) None dev0 \<noteq> Some (Inl DanglingPointer)"
proof -
  have idle: "idle_wf {} dev0" by (rule mac_init_ok [OF dev0_is_init])
  then have none: "frames dev0 a = None" for a
    by (simp add: dev0_def mac_initialize_def initialize_stage0_def initialize_stage2_def initializeQueueModule_def par0_def startDevice_def
        doM.simps upd_def whenM_def ifM_def emit_def PLME_SET_TRX_STATE_request_def newMac_def)
  have t: "txCsmaca dev0 = None"
    by (simp add: dev0_def mac_initialize_def initialize_stage0_def initialize_stage2_def initializeQueueModule_def par0_def startDevice_def
        doM.simps upd_def whenM_def ifM_def emit_def PLME_SET_TRX_STATE_request_def newMac_def)
  show ?thesis
    by (rule no_use_after_free [OF dev0_is_init rtranclp.rtrancl_refl [of mac_step]])
      (simp_all add: env_ok_def env0_def none transmit_safe_def t)
qed




section \<open>How a request ends\<close>














end
