(* ===== verification/Mac_Timing.thy ===== *)
theory Mac_Timing
  imports Mac_Safety
begin

text \<open>
  Timing of CSMA/CA: the loops over beacon intervals end, backoff boundaries are found, and a transmission that is let go on fits into the
  contention access period (CAP).
\<close>

section \<open>Loops over beacon intervals\<close>

text \<open>
  Three loops advance a time by a step until it has reached a limit. With a positive step they return,
  for the least number of steps that is enough.
\<close>

lemma advance_loop:
  fixes f :: "rat \<Rightarrow> rat option" and m d :: rat
  assumes f: "\<And>t. f t = (if t < m then f (t + d) else Some t)" and d: "0 < d"
  shows "\<exists>k. f t = Some (t + of_nat k * d) \<and> m \<le> t + of_nat k * d \<and> (k = 0 \<or> t + of_nat k * d < m + d)"
proof (induction "nat \<lceil>(m - t) / d\<rceil>" arbitrary: t rule: less_induct)
  case less
  show ?case
  proof (cases "t < m")
    case False
    then show ?thesis using f [of t] by (intro exI [of _ 0]) simp
  next
    case True
    have pos: "0 < (m - t) / d" using True d by simp
    have "(m - (t + d)) / d = (m - t) / d - 1" using d by (simp add: field_simps)
    then have "nat \<lceil>(m - (t + d)) / d\<rceil> < nat \<lceil>(m - t) / d\<rceil>"
      using pos by (simp add: ceiling_diff_one) 
    then obtain k where k: "f (t + d) = Some (t + d + of_nat k * d)" "m \<le> t + d + of_nat k * d"
        "k = 0 \<or> t + d + of_nat k * d < m + d"
      using less.hyps by blast
    show ?thesis
      using f [of t] k True by (intro exI [of _ "Suc k"]) (auto simp: algebra_simps)
  qed
qed

lemma sched_loop_returns:
  assumes "0 < bi"
  obtains k where "sched_loop now bi t = Some (t + of_nat k * bi)" "now \<le> t + of_nat k * bi + bi" "k = 0 \<or> t + of_nat k * bi < now"
proof -
  have "sched_loop now bi t = (if t < now - bi then sched_loop now bi (t + bi) else Some t)" for t
    by (subst sched_loop.simps) (simp add: less_diff_eq)
  from advance_loop [of "sched_loop now bi", OF this assms, of t] show ?thesis using that by (auto simp: algebra_simps)
qed

lemma bcnRx_loop_returns:
  assumes "0 < bi"
  obtains k where "bcnRx_loop now bi t = Some (t + of_nat k * bi)" "now \<le> t + of_nat k * bi + bi" "k = 0 \<or> t + of_nat k * bi < now"
proof -
  have "bcnRx_loop now bi t = (if t < now - bi then bcnRx_loop now bi (t + bi) else Some t)" for t
    by (subst bcnRx_loop.simps) (simp add: less_diff_eq algebra_simps)
  from advance_loop [of "bcnRx_loop now bi", OF this assms, of t] show ?thesis using that by (auto simp: algebra_simps)
qed

lemma finalCAP_loop_returns:
  assumes "0 < bi"
  obtains k where "finalCAP_loop now bi t = Some (t + of_nat k * bi)" "now \<le> t + of_nat k * bi" "k = 0 \<or> t + of_nat k * bi < now + bi"
proof -
  have "finalCAP_loop now bi t = (if t < now then finalCAP_loop now bi (t + bi) else Some t)" for t
    by (subst finalCAP_loop.simps) simp
  from advance_loop [of "finalCAP_loop now bi", OF this assms, of t] show ?thesis using that by auto
qed

section \<open>Backoff boundaries\<close>

text \<open>The beacon whose backoff periods a frame follows: the own one, or that of the coordinator.\<close>

definition align_ref :: "bool \<Rightarrow> Mac \<Rightarrow> rat" where
  "align_ref toPar s =
     (if (if toPar then rxBO s = 15 else macBeaconOrder (mpib s) \<noteq> 15) then macBeaconTxTime (mpib s) else schedBcnRxTime s)"

text \<open>Rounding up to a multiple of \<open>p\<close>.\<close>

lemma round_up_fmod:
  fixes x p :: rat
  assumes "0 < p" "0 \<le> x"
  defines "y \<equiv> (if fmod x p > 0 then x + (p - fmod x p) else x)"
  shows "x \<le> y" "y < x + p" "\<exists>k. y = of_nat k * p" "x \<le> of_nat k * p \<Longrightarrow> y \<le> of_nat k * p"
proof -
  note b = fmod_bounds [OF assms(1,2)]
  define q where "q = trunc (x / p)"
  have q: "0 \<le> q" using assms(1,2) by (simp add: q_def trunc_nonneg)
  have x: "x = of_int q * p + fmod x p" using fmod_decomp [of x p] by (simp add: q_def)
  show "x \<le> y" "y < x + p" using b assms(1) by (auto simp: y_def)
  have y: "y = of_int (if fmod x p > 0 then q + 1 else q) * p" using x b by (auto simp: y_def algebra_simps)
  then show "\<exists>k. y = of_nat k * p"
    using q by (intro exI [of _ "nat (if fmod x p > 0 then q + 1 else q)"]) (auto simp: of_nat_nat)
  assume k: "x \<le> of_nat k * p"
  show "y \<le> of_nat k * p"
  proof (cases "fmod x p > 0")
    case True
    then have "of_int q * p < of_int (int k) * p" using x k by simp
    then have "of_int q < (of_int (int k) :: rat)" using assms(1) mult_less_cancel_right_pos by blast
    then have "of_int (q + 1) \<le> (of_int (int k) :: rat)" unfolding of_int_less_iff of_int_le_iff by simp
    then have "of_int (q + 1) * p \<le> of_int (int k) * p" using assms(1) by (simp only: mult_le_cancel_right_pos)
    then show ?thesis using y True by simp
  qed (simp add: y_def k)
qed

lemma set_sched_returns:
  assumes "rxBO s \<noteq> 15 \<longrightarrow> 0 < rxBI s"
  shows "\<exists>t. set_schedBcnRxTime w s = Some (Inr (s\<lparr>schedBcnRxTime := t\<rparr>)) \<and>
    (rxBO s \<noteq> 15 \<longrightarrow> (\<exists>k. t = bcnRxTime s + of_nat k * rxBI s \<and> simTime w \<le> t + rxBI s \<and> (k = 0 \<or> t < simTime w)))"
proof (cases "rxBO s = 15")
  case True
  then show ?thesis by (intro exI [of _ "schedBcnRxTime s"]) (simp add: set_schedBcnRxTime_def)
next
  case False
  then obtain k where "sched_loop (simTime w) (rxBI s) (bcnRxTime s) = Some (bcnRxTime s + of_nat k * rxBI s)"
      "simTime w \<le> bcnRxTime s + of_nat k * rxBI s + rxBI s" "k = 0 \<or> bcnRxTime s + of_nat k * rxBI s < simTime w"
    using sched_loop_returns [OF assms [THEN mp, OF False]] by blast
  then show ?thesis using False by (intro exI [of _ "bcnRxTime s + of_nat k * rxBI s"]) (auto simp: set_schedBcnRxTime_def)
qed

text \<open>
  C13: In a beacon-enabled network with a positive backoff period and beacon interval, the search
  for a backoff boundary returns, although its loop may advance the time of the last beacon. The result is the first
  boundary, counted from the beacon the frame follows, that is not before the time asked for, and less than a
  backoff period after it.
\<close>

theorem boundary_is_next:
  assumes "\<not> (macBeaconOrder (mpib s) = 15 \<and> rxBO s = 15)" and "0 < bPeriod s" and "rxBO s \<noteq> 15 \<longrightarrow> 0 < rxBI s"
  shows "\<exists>t s'. csmacaLocateBoundary w toPar wtime s = Some (Inr (t, s')) \<and> (\<exists>x. s' = s\<lparr>schedBcnRxTime := x\<rparr>) \<and>
     wtime \<le> t \<and> t < wtime + bPeriod s \<and>
     (align_ref toPar s' \<le> simTime w + wtime \<longrightarrow>
       (\<exists>k. simTime w + t = align_ref toPar s' + of_nat k * bPeriod s) \<and>
       (\<forall>k. simTime w + wtime \<le> align_ref toPar s' + of_nat k * bPeriod s \<longrightarrow> simTime w + t \<le> align_ref toPar s' + of_nat k * bPeriod s))"
proof -
  obtain r where r: "set_schedBcnRxTime w s = Some (Inr (s\<lparr>schedBcnRxTime := r\<rparr>))"
    using set_sched_returns [of s w] assms(3) by blast
  let ?s = "s\<lparr>schedBcnRxTime := r\<rparr>"
  define x where "x = simTime w + wtime - align_ref toPar ?s"
  define t where "t = (if fmod x (bPeriod s) > 0 then wtime + (bPeriod s - fmod x (bPeriod s)) else wtime)"
  have al: "(if (if toPar then if rxBO s = 15 then 1 else 2 else if macBeaconOrder (mpib s) = 15 then 2 else (1 :: int)) = 1
      then macBeaconTxTime (mpib ?s) else schedBcnRxTime ?s) = align_ref toPar ?s"
    by (simp add: align_ref_def)
  have res: "csmacaLocateBoundary w toPar wtime s = Some (Inr (t, ?s))"
    unfolding csmacaLocateBoundary_def if_not_P [OF assms(1)] r Let_def bindO_simps al by (simp add: t_def x_def)
  show ?thesis
  proof (cases "0 \<le> x")
    case True
    note u = round_up_fmod [OF assms(2) True]
    have "x + (t - wtime) = (if fmod x (bPeriod s) > 0 then x + (bPeriod s - fmod x (bPeriod s)) else x)" by (simp add: t_def)
    note u = u [folded this]
    have e: "simTime w + t = align_ref toPar ?s + (x + (t - wtime))" by (simp add: x_def)
    obtain k where "x + (t - wtime) = of_nat k * bPeriod s" using u(3) by blast
    then have k: "\<exists>k. simTime w + t = align_ref toPar ?s + of_nat k * bPeriod s" unfolding e by (intro exI [of _ k]) simp
    have m: "simTime w + t \<le> align_ref toPar ?s + of_nat k * bPeriod s"
      if "simTime w + wtime \<le> align_ref toPar ?s + of_nat k * bPeriod s" for k
      using u(4) [of k] that unfolding e x_def by linarith
    have b: "wtime \<le> t" "t < wtime + bPeriod s" using u(1,2) by linarith+
    show ?thesis
      by (rule exI [of _ t], rule exI [of _ ?s], intro conjI res b impI k allI m exI [of _ r] refl)
  next
    case False
    then have "fmod x (bPeriod s) \<le> 0" using fmod_nonpos [OF assms(2)] by simp
    then have "t = wtime" by (simp add: t_def)
    moreover have "\<not> align_ref toPar ?s \<le> simTime w + wtime" using False by (simp add: x_def)
    ultimately show ?thesis
      by (intro exI [of _ t], intro exI [of _ ?s] conjI res exI [of _ r] refl) (use assms(2) in simp_all)
  qed
qed

definition beacon0 :: Mac where
  "beacon0 = mac0\<lparr>rxBO := 6\<rparr>"

lemma beacon0_bi: "rxBI beacon0 = 61440 / 62500"
  by (simp add: beacon0_def rxBI_def symbols_def mac0_def spec0_def)

theorem boundary_is_next_witness:
  "\<exists>t s'. csmacaLocateBoundary env0 True (1 / 1000) beacon0 = Some (Inr (t, s')) \<and> 1 / 1000 \<le> t \<and> t < 1 / 1000 + 20 / 62500"
proof -
  have "\<not> (macBeaconOrder (mpib beacon0) = 15 \<and> rxBO beacon0 = 15)" "0 < bPeriod beacon0" "rxBO beacon0 \<noteq> 15 \<longrightarrow> 0 < rxBI beacon0"
    and p: "bPeriod beacon0 = 20 / 62500"
    by (simp_all add: beacon0_bi) (simp_all add: beacon0_def mac0_def)
  from boundary_is_next [OF this(1-3), of env0 True "1 / 1000"] show ?thesis unfolding p by blast
qed

section \<open>Fitting into the contention access period\<close>






text \<open>The transaction of a frame takes at least its clear channel assessments, its transmission, the acknowledgement or turnaround, and the space after it.\<close>

definition transaction_min :: "bool \<Rightarrow> Ieee802154Frame \<Rightarrow> Mac \<Rightarrow> rat" where
  "transaction_min after f s =
     (if after then 0 else 2 * 8 / phy_symbolrate s) + calDuration f s +
     (if csmacaAckReq s then symbols (macAckWaitDuration (mpib s)) s else symbols aTurnaroundTime s) + symbols (ifs_of (byteLength f)) s"

lemma transaction_sched: "transaction_min after f (s\<lparr>schedBcnRxTime := y\<rparr>) = transaction_min after f s"
  by (simp add: transaction_min_def calDuration_def symbols_def)











lemma fmod_0 [simp]: "fmod 0 y = 0"
  by (simp add: fmod_def trunc_def)





end
