(* ===== verification/Air_Frame.thy ===== *)
theory Air_Frame
  imports Ieee802154 Std_Map
begin

text \<open>
  What the channel control and the physical layer share: sets of pointers, positions
  (\<open>Coord.h\<close>), the frames on the air (\<open>AirFrame.msg\<close>), the C library's mathematical functions as a
  parameter, and the path loss model. Distances, powers and times, which the code keeps as
  \<open>double\<close> and \<open>simtime_t\<close>, are exact rational numbers; \<open>sqrt\<close> and \<open>pow\<close> round their results, so
  they are any functions on these numbers.
\<close>

section \<open>Sets of pointers\<close>

text \<open>
  A \<open>std::set\<close> is the list of its elements in iteration order; a \<open>std::map\<close> can drop a key.
\<close>

definition os_wf :: "'a::linorder list \<Rightarrow> bool" where
  "os_wf xs \<longleftrightarrow> sorted xs \<and> distinct xs"

definition os_insert :: "'a::linorder \<Rightarrow> 'a list \<Rightarrow> 'a list" where
  "os_insert x xs = (if x \<in> set xs then xs else insort x xs)"

definition os_erase :: "'a \<Rightarrow> 'a list \<Rightarrow> 'a list" where
  "os_erase x xs = filter (\<lambda>y. y \<noteq> x) xs"

definition om_erase :: "'k \<Rightarrow> ('k, 'v) omap \<Rightarrow> ('k, 'v) omap" where
  "om_erase k m = filter (\<lambda>p. fst p \<noteq> k) m"

lemma os_wf_Nil [simp]: "os_wf []"
  by (simp add: os_wf_def)

lemma os_insert_set [simp]: "set (os_insert x xs) = insert x (set xs)"
  by (auto simp: os_insert_def set_insort_key)

lemma os_erase_set [simp]: "set (os_erase x xs) = set xs - {x}"
  by (auto simp: os_erase_def)

lemma os_wf_insert: "os_wf xs \<Longrightarrow> os_wf (os_insert x xs)"
  by (simp add: os_wf_def os_insert_def sorted_insort distinct_insort)

lemma os_wf_erase: "os_wf xs \<Longrightarrow> os_wf (os_erase x xs)"
  using sorted_filter [of "\<lambda>x. x" xs] by (simp add: os_wf_def os_erase_def)

lemma os_insert_absorb: "x \<in> set xs \<Longrightarrow> os_insert x xs = xs"
  by (simp add: os_insert_def)

lemma om_wf_erase: "om_wf m \<Longrightarrow> om_wf (om_erase k m)"
  unfolding om_wf_def om_erase_def by (induction m) auto

lemma om_erase_mem: "p \<in> set (om_erase k m) \<longleftrightarrow> p \<in> set m \<and> fst p \<noteq> k"
  by (auto simp: om_erase_def)

lemma om_find_erase: "om_find (om_erase k m) k' = (if k' = k then None else om_find m k')"
  unfolding om_find_def om_erase_def by (induction m) auto

section \<open>Sums over a map\<close>

text \<open>The sum of the values of a map, and what an update and an erasure do to it.\<close>

definition om_sum :: "('k, rat) omap \<Rightarrow> rat" where
  "om_sum m = (\<Sum>p\<leftarrow>m. snd p)"

lemma om_sum_Nil [simp]: "om_sum [] = 0"
  by (simp add: om_sum_def)

lemma om_sum_set:
  "om_wf m \<Longrightarrow> om_find m k = None \<Longrightarrow> om_sum (om_set k v m) = om_sum m + v"
proof (induction k v m rule: om_set.induct)
  case (2 k v k' v' m)
  then show ?case by (auto simp: om_sum_def om_wf_def om_find_def split: if_splits)
qed (simp add: om_sum_def)

lemma om_sum_erase:
  "om_wf m \<Longrightarrow> om_find m k = Some v \<Longrightarrow> om_sum (om_erase k m) = om_sum m - v"
proof (induction m)
  case (Cons p m)
  obtain k' v' where p: "p = (k', v')" by (cases p)
  have wf: "om_wf m" and above: "\<forall>q \<in> set m. k' < fst q"
    using Cons.prems(1) by (auto simp: om_wf_def p)
  show ?case
  proof (cases "k' = k")
    case True
    have "om_erase k m = m"
      unfolding om_erase_def using above True by (intro filter_True) auto
    then show ?thesis using Cons.prems True
      by (simp add: om_sum_def om_erase_def om_find_def p)
  next
    case False
    then have "om_find m k = Some v" using Cons.prems(2) by (simp add: om_find_def p)
    then show ?thesis using Cons.IH wf False
      by (simp add: om_sum_def om_erase_def p)
  qed
qed simp

definition om_nonneg :: "('k, rat) omap \<Rightarrow> bool" where
  "om_nonneg m \<longleftrightarrow> (\<forall>p \<in> set m. 0 \<le> snd p)"

lemma om_nonneg_Nil [simp]: "om_nonneg []"
  by (simp add: om_nonneg_def)

lemma om_nonneg_set: "om_wf m \<Longrightarrow> om_nonneg m \<Longrightarrow> 0 \<le> v \<Longrightarrow> om_nonneg (om_set k v m)"
  by (auto simp: om_nonneg_def om_set_mem)

lemma om_nonneg_erase: "om_nonneg m \<Longrightarrow> om_nonneg (om_erase k m)"
  by (auto simp: om_nonneg_def om_erase_def)

lemma om_nonneg_find: "om_nonneg m \<Longrightarrow> om_find m k = Some v \<Longrightarrow> 0 \<le> v"
  by (force simp: om_nonneg_def om_find_def dest: map_of_SomeD)

lemma om_sum_nonneg: "om_nonneg m \<Longrightarrow> 0 \<le> om_sum m"
  unfolding om_sum_def om_nonneg_def by (intro sum_list_nonneg) auto

lemma om_sum_ge:
  assumes "om_wf m" and "om_find m k = Some v" and "om_nonneg m"
  shows "v \<le> om_sum m"
  using om_sum_nonneg [OF om_nonneg_erase [OF assms(3)], of k] om_sum_erase [OF assms(1,2)] by simp

section \<open>Positions and frames\<close>

record Coord =
  coord_x :: rat
  coord_y :: rat

definition sqrdist :: "Coord \<Rightarrow> Coord \<Rightarrow> rat" where
  "sqrdist p a = (let dx = coord_x p - coord_x a; dy = coord_y p - coord_y a in dx * dx + dy * dy)"

lemma sqrdist_commute: "sqrdist p a = sqrdist a p"
  by (simp add: sqrdist_def Let_def algebra_simps)

lemma sqrdist_nonneg: "0 \<le> sqrdist p a"
  by (simp add: sqrdist_def Let_def)

record Libm =
  sqrtL :: "rat \<Rightarrow> rat"
  powL :: "rat \<Rightarrow> rat \<Rightarrow> rat"

definition distance :: "Libm \<Rightarrow> Coord \<Rightarrow> Coord \<Rightarrow> rat" where
  "distance lm p a = sqrtL lm (sqrdist p a)"

definition M_PI :: rat where
  "M_PI = 314159265358979323846 / 10 ^ 20"

definition dBm2mW :: "Libm \<Rightarrow> rat \<Rightarrow> rat" where
  "dBm2mW lm dBm = powL lm 10 (dBm / 10)"

text \<open>
  A frame on the air. \<open>carrier\<close> is the member of the derived class \<open>AirFrameExtended\<close> (\<open>None\<close> for an
  object of the base class); \<open>timestamp\<close>, \<open>arrivalTime\<close> and \<open>airKind\<close> are members every
  message has.
\<close>

record AirFrame =
  pSend :: rat
  channelNumber :: int
  duration :: rat
  bitrate :: rat
  senderPos :: Coord
  carrier :: "rat option"
  timestamp :: rat
  arrivalTime :: rat
  airKind :: Ieee802154PktErrorType
  encapsulated :: Ieee802154Frame

text \<open>\<open>PathLossReceptionModel\<close>: the received power falls with the distance to the power \<open>alpha\<close>.\<close>

definition calculateReceivedPower :: "Libm \<Rightarrow> rat \<Rightarrow> rat \<Rightarrow> rat \<Rightarrow> rat \<Rightarrow> rat" where
  "calculateReceivedPower lm pathLossAlpha p_send carrierFrequency d =
     (let waveLength = 300000000 / carrierFrequency in
      p_send * waveLength * waveLength / (16 * M_PI * M_PI * powL lm d pathLossAlpha))"

definition dB2fraction :: "Libm \<Rightarrow> rat \<Rightarrow> rat" where
  "dB2fraction lm dB = powL lm 10 (dB / 10)"

end
