(* ===== verification/Channel_Control.thy ===== *)
theory Channel_Control
  imports Air_Frame
begin

text \<open>
  The channel control module (\<open>ChannelControl.h\<close>, \<open>ChannelControl.cc\<close>): which hosts are in range of
  each other, the channels they listen on, the transmissions on the air, and the delivery of a
  frame to the hosts that can hear it.

  A \<open>HostRef\<close> is the address of an element of the \<open>std::list\<close> of hosts, which does not change while
  the element is in the list; the list is kept with these addresses. The address of a new element
  is an argument. Hosts hold each other in sets ordered by address.
\<close>

section \<open>State\<close>

type_synonym HostRef = nat

record HostEntry =
  host :: nat
  radioInGate :: nat
  host_channel :: int
  pos :: Coord
  neighbors :: "HostRef list"
  isNeighborListValid :: bool
  neighborList :: "HostRef list"

record ChannelControl =
  hosts :: "(HostRef \<times> HostEntry) list"
  transmissions :: "AirFrame list list"
  lastOngoingTransmissionsUpdate :: rat
  playgroundSize :: Coord
  maxInterferenceDistance :: rat
  numChannels :: int

definition LIGHT_SPEED :: rat where
  "LIGHT_SPEED = 300000000"

definition TRANSMISSION_PURGE_INTERVAL :: rat where
  "TRANSMISSION_PURGE_INTERVAL = 1"

record CCPar =
  par_playgroundSizeX :: rat
  par_playgroundSizeY :: rat
  par_numChannels :: int
  par_carrierFrequency :: rat
  par_pMax :: rat
  par_sat :: rat
  par_alpha :: rat

section \<open>Initialisation\<close>

definition calcInterfDist :: "Libm \<Rightarrow> CCPar \<Rightarrow> rat" where
  "calcInterfDist lm par =
     (let waveLength = 300000000 / par_carrierFrequency par;
          minReceivePower = powL lm 10 (par_sat par / 10)
      in powL lm (waveLength * waveLength * par_pMax par / (16 * M_PI * M_PI * minReceivePower)) (1 / par_alpha par))"

text \<open>A negative number of channels, converted to \<open>size_t\<close>, is more than a vector can hold.\<close>

definition cc_initialize :: "Libm \<Rightarrow> CCPar \<Rightarrow> ChannelControl res" where
  "cc_initialize lm par =
     (if par_numChannels par < 0 then Inl (RuntimeError ''vector::resize'')
      else Inr \<lparr>hosts = [], transmissions = replicate (nat (par_numChannels par)) [],
        lastOngoingTransmissionsUpdate = 0,
        playgroundSize = \<lparr>coord_x = par_playgroundSizeX par, coord_y = par_playgroundSizeY par\<rparr>,
        maxInterferenceDistance = calcInterfDist lm par, numChannels = par_numChannels par\<rparr>)"

section \<open>Hosts\<close>

definition host_at :: "HostRef \<Rightarrow> ChannelControl \<Rightarrow> HostEntry res" where
  "host_at h cc = (case map_of (hosts cc) h of None \<Rightarrow> Inl DanglingPointer | Some e \<Rightarrow> Inr e)"

definition mod_host :: "HostRef \<Rightarrow> (HostEntry \<Rightarrow> HostEntry) \<Rightarrow> ChannelControl \<Rightarrow> ChannelControl" where
  "mod_host h f cc = cc\<lparr>hosts := map (\<lambda>(a, e). (a, if a = h then f e else e)) (hosts cc)\<rparr>"

definition lookupHost :: "nat \<Rightarrow> ChannelControl \<Rightarrow> HostRef option" where
  "lookupHost m cc = map_option fst (find (\<lambda>(a, e). host e = m) (hosts cc))"

text \<open>
  \<open>gate_radioIn\<close> is the host's gate \<open>radioIn\<close>, used when no gate is given; a host without it is an
  error of the kernel.
\<close>

definition registerHost ::
  "HostRef \<Rightarrow> nat \<Rightarrow> Coord \<Rightarrow> nat option \<Rightarrow> nat option \<Rightarrow> ChannelControl \<Rightarrow> (HostRef \<times> ChannelControl) res" where
  "registerHost new m initialPos gate_arg gate_radioIn cc =
     (if lookupHost m cc \<noteq> None then Inl (RuntimeError ''registerHost: host already registered'')
      else case (if gate_arg = None then gate_radioIn else gate_arg) of
        None \<Rightarrow> Inl (KernelError ''no such gate'')
      | Some g \<Rightarrow> Inr (new, cc\<lparr>hosts := hosts cc @
          [(new, \<lparr>host = m, radioInGate = g, host_channel = 0, pos = initialPos, neighbors = [],
                  isNeighborListValid = False, neighborList = []\<rparr>)]\<rparr>))"

definition unregisterHost :: "nat \<Rightarrow> ChannelControl \<Rightarrow> ChannelControl res" where
  "unregisterHost m cc =
     (case lookupHost m cc of
        None \<Rightarrow> Inl (RuntimeError ''unregisterHost failed: no such host'')
      | Some h \<Rightarrow> Inr (cc\<lparr>hosts := filter (\<lambda>(a, e). a \<noteq> h)
          (map (\<lambda>(a, e). (a, e\<lparr>neighbors := os_erase h (neighbors e), isNeighborListValid := False\<rparr>)) (hosts cc))\<rparr>))"

definition getNeighbors :: "HostRef \<Rightarrow> ChannelControl \<Rightarrow> (HostRef list \<times> ChannelControl) res" where
  "getNeighbors h cc = bindR (host_at h cc) (\<lambda>e.
     if isNeighborListValid e then Inr (neighborList e, cc)
     else Inr (neighbors e, mod_host h (\<lambda>e. e\<lparr>neighborList := neighbors e, isNeighborListValid := True\<rparr>) cc))"

text \<open>The body of the loop of \<open>updateConnections\<close>, for the host \<open>h\<close> and the element \<open>hi\<close> of the list.\<close>

definition in_range :: "Coord \<Rightarrow> Coord \<Rightarrow> ChannelControl \<Rightarrow> bool" where
  "in_range p q cc \<longleftrightarrow> sqrdist p q < maxInterferenceDistance cc * maxInterferenceDistance cc"

definition connect_host :: "HostRef \<Rightarrow> HostRef \<Rightarrow> ChannelControl \<Rightarrow> ChannelControl" where
  "connect_host h hi = mod_host h (\<lambda>e. e\<lparr>neighbors := os_insert hi (neighbors e), isNeighborListValid := False\<rparr>)"

definition disconnect_host :: "HostRef \<Rightarrow> HostRef \<Rightarrow> ChannelControl \<Rightarrow> ChannelControl" where
  "disconnect_host h hi = mod_host h (\<lambda>e. e\<lparr>neighbors := os_erase hi (neighbors e), isNeighborListValid := False\<rparr>)"

definition updateConnection :: "HostRef \<Rightarrow> HostRef \<Rightarrow> ChannelControl \<Rightarrow> ChannelControl res" where
  "updateConnection h hi cc =
     (if hi = h then Inr cc
      else bindR (host_at h cc) (\<lambda>e. bindR (host_at hi cc) (\<lambda>ei.
        if in_range (pos e) (pos ei) cc then
          (if hi \<notin> set (neighbors e) then Inr (connect_host h hi (connect_host hi h cc)) else Inr cc)
        else
          (if hi \<in> set (neighbors e) then Inr (disconnect_host h hi (disconnect_host hi h cc)) else Inr cc))))"

definition updateConnections :: "HostRef \<Rightarrow> ChannelControl \<Rightarrow> ChannelControl res" where
  "updateConnections h cc = foldR (updateConnection h) (map fst (hosts cc)) cc"

definition checkChannel :: "int \<Rightarrow> ChannelControl \<Rightarrow> ChannelControl res" where
  "checkChannel channel = checkR (\<lambda>cc. \<not> (channel \<ge> numChannels cc \<or> channel < 0)) (RuntimeError ''Invalid channel'')"

definition updateHostPosition :: "HostRef \<Rightarrow> Coord \<Rightarrow> ChannelControl \<Rightarrow> ChannelControl res" where
  "updateHostPosition h p cc = bindR (host_at h cc) (\<lambda>_. updateConnections h (mod_host h (\<lambda>e. e\<lparr>pos := p\<rparr>) cc))"

definition updateHostChannel :: "HostRef \<Rightarrow> int \<Rightarrow> ChannelControl \<Rightarrow> ChannelControl res" where
  "updateHostChannel h channel cc = bindR (checkChannel channel cc) (\<lambda>cc. bindR (host_at h cc) (\<lambda>_.
     Inr (mod_host h (\<lambda>e. e\<lparr>host_channel := channel\<rparr>) cc)))"

section \<open>Transmissions\<close>

definition purgeOngoingTransmissions :: "rat \<Rightarrow> ChannelControl \<Rightarrow> ChannelControl" where
  "purgeOngoingTransmissions now cc = cc\<lparr>transmissions :=
     map (filter (\<lambda>f. \<not> (timestamp f + duration f + TRANSMISSION_PURGE_INTERVAL < now))) (transmissions cc)\<rparr>"

definition getOngoingTransmissions :: "rat \<Rightarrow> int \<Rightarrow> ChannelControl \<Rightarrow> (AirFrame list \<times> ChannelControl) res" where
  "getOngoingTransmissions now channel cc = bindR (checkChannel channel cc) (\<lambda>cc.
     let cc = purgeOngoingTransmissions now cc in Inr (transmissions cc ! nat channel, cc))"

text \<open>A channel number that is not an index of the vector is an access out of its bounds.\<close>

definition addOngoingTransmission :: "rat \<Rightarrow> AirFrame \<Rightarrow> ChannelControl \<Rightarrow> ChannelControl res" where
  "addOngoingTransmission now frame cc =
     (if numChannels cc = 1 then Inr cc
      else
        (let cc = (if now - lastOngoingTransmissionsUpdate cc > TRANSMISSION_PURGE_INTERVAL
                   then (purgeOngoingTransmissions now cc)\<lparr>lastOngoingTransmissionsUpdate := now\<rparr> else cc);
             ch = channelNumber frame
         in if ch < 0 \<or> int (length (transmissions cc)) \<le> ch then Inl UndefinedBehaviour
            else Inr (cc\<lparr>transmissions := (transmissions cc)[nat ch := transmissions cc ! nat ch @ [frame\<lparr>timestamp := now\<rparr>]]\<rparr>)))"

text \<open>A copy of the frame goes to the gate of each neighbour on its channel, with the propagation delay.\<close>

type_synonym delivery = "nat \<times> rat \<times> AirFrame"

definition delivers :: "Libm \<Rightarrow> HostEntry \<Rightarrow> AirFrame \<Rightarrow> ChannelControl \<Rightarrow> HostRef \<Rightarrow> delivery list \<Rightarrow> delivery list res" where
  "delivers lm src airFrame cc h out = bindR (host_at h cc) (\<lambda>e.
     if host_channel e = channelNumber airFrame
     then Inr (out @ [(radioInGate e, distance lm (pos src) (pos e) / LIGHT_SPEED, airFrame)])
     else Inr out)"

definition cc_sendToChannel ::
  "Libm \<Rightarrow> rat \<Rightarrow> HostRef \<Rightarrow> AirFrame \<Rightarrow> ChannelControl \<Rightarrow> (delivery list \<times> ChannelControl) res" where
  "cc_sendToChannel lm now srcHost airFrame cc =
     bindR (getNeighbors srcHost cc) (\<lambda>(nbs, cc). bindR (host_at srcHost cc) (\<lambda>src.
       bindR (foldR (delivers lm src airFrame cc) nbs []) (\<lambda>out.
         bindR (addOngoingTransmission now airFrame cc) (\<lambda>cc. Inr (out, cc)))))"

section \<open>The neighbour graph\<close>

text \<open>
  The hosts as a map from references to entries, the relation the neighbour sets hold, and the
  part of a host no change of the graph touches.
\<close>

abbreviation entry :: "ChannelControl \<Rightarrow> HostRef \<rightharpoonup> HostEntry" where
  "entry cc \<equiv> map_of (hosts cc)"

definition linked :: "ChannelControl \<Rightarrow> HostRef \<Rightarrow> HostRef \<Rightarrow> bool" where
  "linked cc a b \<longleftrightarrow> (\<exists>e. entry cc a = Some e \<and> b \<in> set (neighbors e))"

definition site :: "ChannelControl \<Rightarrow> HostRef \<Rightarrow> (nat \<times> nat \<times> int \<times> Coord) option" where
  "site cc a = map_option (\<lambda>e. (host e, radioInGate e, host_channel e, pos e)) (entry cc a)"

definition near :: "ChannelControl \<Rightarrow> HostRef \<Rightarrow> HostRef \<Rightarrow> bool" where
  "near cc a b \<longleftrightarrow> a \<noteq> b \<and> (\<exists>e e'. entry cc a = Some e \<and> entry cc b = Some e' \<and> in_range (pos e) (pos e') cc)"

text \<open>Two states that differ in neighbour sets and their caches only.\<close>

definition same_sites :: "ChannelControl \<Rightarrow> ChannelControl \<Rightarrow> bool" where
  "same_sites cc cc' \<longleftrightarrow> site cc' = site cc \<and> map fst (hosts cc') = map fst (hosts cc) \<and> cc'\<lparr>hosts := hosts cc\<rparr> = cc"

definition entry_wf :: "HostRef \<Rightarrow> HostEntry \<Rightarrow> bool" where
  "entry_wf a e \<longleftrightarrow> os_wf (neighbors e) \<and> a \<notin> set (neighbors e) \<and>
     (isNeighborListValid e \<longrightarrow> neighborList e = neighbors e)"

definition graph_wf :: "ChannelControl \<Rightarrow> bool" where
  "graph_wf cc \<longleftrightarrow> distinct (map fst (hosts cc)) \<and> (\<forall>a e. entry cc a = Some e \<longrightarrow> entry_wf a e) \<and>
     (\<forall>a b. linked cc a b \<longrightarrow> linked cc b a)"

lemma entry_mod_host: "entry (mod_host h f cc) = (entry cc)(h := map_option f (entry cc h))"
proof -
  have "map_of (map (\<lambda>(a, e). (a, if a = h then f e else e)) xs) = (map_of xs)(h := map_option f (map_of xs h))" for xs
    by (induction xs) (auto simp: fun_eq_iff)
  then show ?thesis by (simp add: mod_host_def)
qed

lemma mod_host_keeps [simp]:
  "map fst (hosts (mod_host h f cc)) = map fst (hosts cc)"
  "transmissions (mod_host h f cc) = transmissions cc"
  "numChannels (mod_host h f cc) = numChannels cc"
  "maxInterferenceDistance (mod_host h f cc) = maxInterferenceDistance cc"
  "(mod_host h f cc)\<lparr>hosts := hosts cc\<rparr> = cc"
  by (auto simp: mod_host_def)

lemma host_at_Inr: "host_at h cc = Inr e \<longleftrightarrow> entry cc h = Some e"
  by (simp add: host_at_def split: option.splits)

lemma same_sites_refl [simp]: "same_sites cc cc"
  by (simp add: same_sites_def)

lemma same_sites_trans: "same_sites cc cc' \<Longrightarrow> same_sites cc' cc'' \<Longrightarrow> same_sites cc cc''"
  unfolding same_sites_def by (metis ChannelControl.update_convs(1) ChannelControl.surjective ChannelControl.ext_inject)

lemma same_sites_max: "same_sites cc cc' \<Longrightarrow> maxInterferenceDistance cc' = maxInterferenceDistance cc"
  unfolding same_sites_def by (metis ChannelControl.simps(5) ChannelControl.select_convs(5) ChannelControl.surjective ChannelControl.update_convs(1))

lemma near_commute: "near cc a b \<longleftrightarrow> near cc b a"
  by (auto simp: near_def in_range_def sqrdist_commute)

lemma near_sites: "near cc a b \<longleftrightarrow> a \<noteq> b \<and> (\<exists>m g c p m' g' c' p'. site cc a = Some (m, g, c, p) \<and>
    site cc b = Some (m', g', c', p') \<and> in_range p p' cc)"
  by (auto simp: near_def site_def)

lemma near_same_sites: "same_sites cc cc' \<Longrightarrow> near cc' = near cc"
  using same_sites_max [of cc cc']
  by (simp add: fun_eq_iff near_sites in_range_def same_sites_def)

lemma dom_same_sites: "same_sites cc cc' \<Longrightarrow> dom (entry cc') = dom (entry cc)"
  by (metis dom_map_of_conv_image_fst list.set_map same_sites_def)

lemma graph_wfI:
  assumes "distinct (map fst (hosts cc))" and "\<And>a e. entry cc a = Some e \<Longrightarrow> entry_wf a e"
    and "\<And>a b. linked cc a b \<Longrightarrow> linked cc b a"
  shows "graph_wf cc"
  using assms unfolding graph_wf_def by blast

lemma graph_wf_D:
  assumes "graph_wf cc"
  shows "distinct (map fst (hosts cc))" and "entry cc a = Some e \<Longrightarrow> entry_wf a e" and "linked cc a b \<Longrightarrow> linked cc b a"
  using assms unfolding graph_wf_def by blast+

lemma linked_D: "graph_wf cc \<Longrightarrow> linked cc a b \<Longrightarrow> a \<noteq> b \<and> a \<in> dom (entry cc) \<and> b \<in> dom (entry cc)"
  unfolding graph_wf_def linked_def entry_wf_def by (metis domI)

text \<open>Both ends of a pair of hosts get or lose each other.\<close>

definition set_link :: "bool \<Rightarrow> HostRef \<Rightarrow> HostRef \<Rightarrow> ChannelControl \<Rightarrow> ChannelControl" where
  "set_link v h hi cc = (if v then connect_host h hi (connect_host hi h cc) else disconnect_host h hi (disconnect_host hi h cc))"

lemma linked_set_link:
  assumes "h \<noteq> hi" and "h \<in> dom (entry cc)" and "hi \<in> dom (entry cc)"
  shows "linked (set_link v h hi cc) a b \<longleftrightarrow> (if {a, b} = {h, hi} then v else linked cc a b)"
  using assms
  by (auto simp: linked_def set_link_def connect_host_def disconnect_host_def entry_mod_host doubleton_eq_iff)

lemma same_sites_mod_host:
  assumes "\<And>e. host (f e) = host e \<and> radioInGate (f e) = radioInGate e \<and> host_channel (f e) = host_channel e \<and> pos (f e) = pos e"
  shows "same_sites cc (mod_host h f cc)"
  using assms by (auto simp: same_sites_def site_def fun_eq_iff entry_mod_host option.map_comp comp_def)

lemma same_sites_set_link: "same_sites cc (set_link v h hi cc)"
  unfolding set_link_def connect_host_def disconnect_host_def
  by (auto intro!: same_sites_trans [OF same_sites_mod_host same_sites_mod_host])

lemma graph_wf_set_link:
  assumes wf: "graph_wf cc" and ne: "h \<noteq> hi" and dom: "h \<in> dom (entry cc)" "hi \<in> dom (entry cc)"
  shows "graph_wf (set_link v h hi cc)"
proof -
  note old = graph_wf_D(2) [OF wf]
  have "entry_wf a e" if "entry (set_link v h hi cc) a = Some e" for a e
    using that old ne
    by (auto simp: set_link_def connect_host_def disconnect_host_def entry_mod_host entry_wf_def
        os_wf_insert os_wf_erase split: if_splits)
  moreover have "linked (set_link v h hi cc) b a" if "linked (set_link v h hi cc) a b" for a b
    using that wf by (auto simp: linked_set_link [OF ne dom] graph_wf_def insert_commute split: if_splits)
  moreover have "distinct (map fst (hosts (set_link v h hi cc)))"
    using wf same_sites_set_link [of cc v h hi] by (simp add: graph_wf_def same_sites_def)
  ultimately show ?thesis unfolding graph_wf_def by blast
qed

text \<open>One iteration of the loop makes the link of the pair what their positions say.\<close>

lemma updateConnection_eq:
  assumes wf: "graph_wf cc" and dom: "h \<in> dom (entry cc)" "hi \<in> dom (entry cc)"
  obtains cc' where "updateConnection h hi cc = Inr cc'" and "graph_wf cc'" and "same_sites cc cc'"
    and "\<And>a b. linked cc' a b \<longleftrightarrow> (if h \<noteq> hi \<and> {a, b} = {h, hi} then near cc h hi else linked cc a b)"
proof (cases "hi = h")
  case True
  then show ?thesis using that [of cc] wf by (simp add: updateConnection_def)
next
  case False
  obtain e ei where e: "entry cc h = Some e" "entry cc hi = Some ei" using dom by auto
  have near: "near cc h hi \<longleftrightarrow> in_range (pos e) (pos ei) cc" using e False by (simp add: near_def)
  have old: "hi \<in> set (neighbors e) \<longleftrightarrow> linked cc h hi" using e by (simp add: linked_def)
  have sym: "linked cc hi h \<longleftrightarrow> linked cc h hi" using wf by (auto simp: graph_wf_def)
  let ?cc = "if near cc h hi = linked cc h hi then cc else set_link (near cc h hi) h hi cc"
  have "updateConnection h hi cc = Inr ?cc"
    using False e near old by (auto simp: updateConnection_def set_link_def host_at_def)
  moreover have "graph_wf ?cc" "same_sites cc ?cc"
    using graph_wf_set_link [OF wf _ dom] same_sites_set_link wf False by auto
  moreover have "linked ?cc a b \<longleftrightarrow> (if h \<noteq> hi \<and> {a, b} = {h, hi} then near cc h hi else linked cc a b)" for a b
    using False sym linked_set_link [OF _ dom, of "near cc h hi"] by (auto simp: doubleton_eq_iff)
  ultimately show ?thesis using that by blast
qed

lemma updateConnections_loop:
  assumes "graph_wf cc" and "h \<in> dom (entry cc)" and "set hs \<subseteq> dom (entry cc)"
  shows "\<exists>cc'. foldR (updateConnection h) hs cc = Inr cc' \<and> graph_wf cc' \<and> same_sites cc cc' \<and>
    (\<forall>a b. linked cc' a b \<longleftrightarrow> (if a \<noteq> b \<and> (a = h \<and> b \<in> set hs \<or> b = h \<and> a \<in> set hs) then near cc a b else linked cc a b))"
  using assms
proof (induction hs arbitrary: cc)
  case (Cons x hs)
  obtain cc1 where 1: "updateConnection h x cc = Inr cc1" "graph_wf cc1" "same_sites cc cc1"
    and l1: "\<And>a b. linked cc1 a b \<longleftrightarrow> (if h \<noteq> x \<and> {a, b} = {h, x} then near cc h x else linked cc a b)"
    using updateConnection_eq [of cc h x] Cons.prems by auto
  have "h \<in> dom (entry cc1)" "set hs \<subseteq> dom (entry cc1)"
    using Cons.prems dom_same_sites [OF 1(3)] by auto
  then obtain cc2 where 2: "foldR (updateConnection h) hs cc1 = Inr cc2" "graph_wf cc2" "same_sites cc1 cc2"
    and l2: "\<And>a b. linked cc2 a b \<longleftrightarrow>
      (if a \<noteq> b \<and> (a = h \<and> b \<in> set hs \<or> b = h \<and> a \<in> set hs) then near cc1 a b else linked cc1 a b)"
    using Cons.IH [OF 1(2)] by blast
  have "same_sites cc cc2" using 1(3) 2(3) by (rule same_sites_trans)
  moreover have "linked cc2 a b \<longleftrightarrow> (if a \<noteq> b \<and> (a = h \<and> b \<in> set (x # hs) \<or> b = h \<and> a \<in> set (x # hs))
      then near cc a b else linked cc a b)" for a b
    using near_same_sites [OF 1(3)] near_commute [of cc h x]
    by (auto simp: l2 l1 doubleton_eq_iff)
  ultimately show ?case using 1 2 by auto
qed auto

lemma updateConnections_eq:
  assumes "graph_wf cc" and "h \<in> dom (entry cc)"
  obtains cc' where "updateConnections h cc = Inr cc'" and "graph_wf cc'" and "same_sites cc cc'"
    and "\<And>a b. linked cc' a b \<longleftrightarrow> (if a = h \<or> b = h then near cc a b else linked cc a b)"
proof -
  have keys: "set (map fst (hosts cc)) = dom (entry cc)" by (simp add: dom_map_of_conv_image_fst)
  obtain cc' where cc': "updateConnections h cc = Inr cc'" "graph_wf cc'" "same_sites cc cc'"
    and l: "\<And>a b. linked cc' a b \<longleftrightarrow> (if a \<noteq> b \<and> (a = h \<and> b \<in> dom (entry cc) \<or> b = h \<and> a \<in> dom (entry cc))
      then near cc a b else linked cc a b)"
    using updateConnections_loop [OF assms, of "map fst (hosts cc)"] keys
    unfolding updateConnections_def by (metis subset_refl)
  have "linked cc' a b \<longleftrightarrow> near cc a b" if "a = h \<or> b = h" for a b
    using that assms(2) linked_D [OF assms(1), of a b]
    by (auto simp: l near_def)
  then show ?thesis using that cc' l by metis
qed

section \<open>Runs of the module\<close>

text \<open>
  The calls other modules make, and a run of them together with the set of hosts whose position
  was updated since the last registration (\<open>registerHost\<close> does not compare the new host with the
  others: its mobility module does so by the first \<open>updateHostPosition\<close>).
\<close>

datatype cc_call =
    CcRegister HostRef nat Coord "nat option" "nat option"
  | CcUnregister nat
  | CcMove HostRef Coord
  | CcTune HostRef int
  | CcSend Libm rat HostRef AirFrame
  | CcOngoing rat int

definition cc_exec :: "cc_call \<Rightarrow> ChannelControl \<Rightarrow> ChannelControl res" where
  "cc_exec c cc = (case c of
     CcRegister a m p g g' \<Rightarrow> bindR (registerHost a m p g g' cc) (\<lambda>r. Inr (snd r))
   | CcUnregister m \<Rightarrow> unregisterHost m cc
   | CcMove h p \<Rightarrow> updateHostPosition h p cc
   | CcTune h ch \<Rightarrow> updateHostChannel h ch cc
   | CcSend lm now h f \<Rightarrow> bindR (cc_sendToChannel lm now h f cc) (\<lambda>r. Inr (snd r))
   | CcOngoing now ch \<Rightarrow> bindR (getOngoingTransmissions now ch cc) (\<lambda>r. Inr (snd r)))"

definition placed_by :: "cc_call \<Rightarrow> ChannelControl \<Rightarrow> HostRef set \<Rightarrow> HostRef set" where
  "placed_by c cc' S = (case c of CcRegister _ _ _ _ _ \<Rightarrow> {} | CcMove h _ \<Rightarrow> insert h S | _ \<Rightarrow> S \<inter> dom (entry cc'))"

definition fresh_ref :: "cc_call \<Rightarrow> ChannelControl \<Rightarrow> bool" where
  "fresh_ref c cc \<longleftrightarrow> (case c of CcRegister a _ _ _ _ \<Rightarrow> a \<notin> dom (entry cc) | _ \<Rightarrow> True)"

definition cc_step :: "ChannelControl \<times> HostRef set \<Rightarrow> ChannelControl \<times> HostRef set \<Rightarrow> bool" where
  "cc_step s s' \<longleftrightarrow> (\<exists>c. fresh_ref c (fst s) \<and> cc_exec c (fst s) = Inr (fst s') \<and> snd s' = placed_by c (fst s') (snd s))"

definition cc_init :: "ChannelControl \<times> HostRef set \<Rightarrow> bool" where
  "cc_init s \<longleftrightarrow> (\<exists>lm par. cc_initialize lm par = Inr (fst s)) \<and> snd s = {}"

definition graph_exact :: "HostRef set \<Rightarrow> ChannelControl \<Rightarrow> bool" where
  "graph_exact S cc \<longleftrightarrow> (\<forall>a b. linked cc a b \<longrightarrow> near cc a b) \<and>
     (\<forall>a b. near cc a b \<longrightarrow> a \<in> S \<or> b \<in> S \<longrightarrow> linked cc a b)"

definition cc_wf :: "ChannelControl \<times> HostRef set \<Rightarrow> bool" where
  "cc_wf s \<longleftrightarrow> (case s of (cc, S) \<Rightarrow> graph_wf cc \<and> graph_exact S cc \<and> S \<subseteq> dom (entry cc) \<and>
     int (length (transmissions cc)) = numChannels cc)"

text \<open>Changes that leave the graph alone.\<close>

lemma mod_host_graph:
  assumes f: "\<And>e. neighbors (f e) = neighbors e" "\<And>e. pos (f e) = pos e"
    "\<And>e. isNeighborListValid (f e) \<Longrightarrow> entry cc h = Some e \<Longrightarrow> neighborList (f e) = neighbors e \<or> isNeighborListValid e \<and> neighborList (f e) = neighborList e"
    and wf: "graph_wf cc"
  shows "graph_wf (mod_host h f cc)" and "linked (mod_host h f cc) = linked cc"
    and "near (mod_host h f cc) = near cc" and "dom (entry (mod_host h f cc)) = dom (entry cc)"
proof -
  show l: "linked (mod_host h f cc) = linked cc"
    by (auto simp: linked_def fun_eq_iff entry_mod_host f)
  show "near (mod_host h f cc) = near cc"
    by (auto simp: near_def fun_eq_iff entry_mod_host f in_range_def)
  show "dom (entry (mod_host h f cc)) = dom (entry cc)"
    by (auto simp: entry_mod_host split: if_splits)
  note old = graph_wf_D(2) [OF wf]
  have "entry_wf a e" if "entry (mod_host h f cc) a = Some e" for a e
    using that old f(1,3) by (fastforce simp: entry_mod_host entry_wf_def split: if_splits)
  then show "graph_wf (mod_host h f cc)"
    using wf l unfolding graph_wf_def by (metis mod_host_keeps(1))
qed

lemma hosts_graph:
  assumes "hosts cc' = hosts cc" and "maxInterferenceDistance cc' = maxInterferenceDistance cc"
  shows "graph_wf cc' = graph_wf cc" and "linked cc' = linked cc" and "near cc' = near cc"
  using assms by (auto simp: graph_wf_def linked_def near_def in_range_def fun_eq_iff)

lemma purge_keeps [simp]:
  "hosts (purgeOngoingTransmissions now cc) = hosts cc"
  "maxInterferenceDistance (purgeOngoingTransmissions now cc) = maxInterferenceDistance cc"
  "numChannels (purgeOngoingTransmissions now cc) = numChannels cc"
  "length (transmissions (purgeOngoingTransmissions now cc)) = length (transmissions cc)"
  by (simp_all add: purgeOngoingTransmissions_def)

lemma addOngoing_keeps:
  "addOngoingTransmission now f cc = Inr cc' \<Longrightarrow> hosts cc' = hosts cc \<and> numChannels cc' = numChannels cc \<and>
     maxInterferenceDistance cc' = maxInterferenceDistance cc \<and> length (transmissions cc') = length (transmissions cc)"
  by (auto simp: addOngoingTransmission_def Let_def split: if_splits)

lemma getNeighbors_eq:
  assumes "graph_wf cc" and "getNeighbors h cc = Inr (nbs, cc')"
  shows "graph_wf cc'" and "linked cc' = linked cc" and "near cc' = near cc" and "dom (entry cc') = dom (entry cc)"
    and "numChannels cc' = numChannels cc" and "transmissions cc' = transmissions cc"
    and "os_wf nbs" and "set nbs = {b. linked cc h b}" and "h \<in> dom (entry cc)" and "site cc' = site cc"
proof -
  obtain e where e: "entry cc h = Some e" using assms(2)
    by (auto simp: getNeighbors_def bindR_Inr_iff host_at_Inr)
  have ewf: "entry_wf h e" using assms(1) e unfolding graph_wf_def by blast
  let ?f = "\<lambda>e. e\<lparr>neighborList := neighbors e, isNeighborListValid := True\<rparr>"
  have cases: "nbs = neighbors e \<and> (cc' = cc \<or> cc' = mod_host h ?f cc)"
    using assms(2) e ewf by (auto simp: getNeighbors_def host_at_def entry_wf_def split: if_splits)
  note g = mod_host_graph [of ?f cc h, OF _ _ _ assms(1)]
  show "graph_wf cc'" "linked cc' = linked cc" "near cc' = near cc" "dom (entry cc') = dom (entry cc)"
    using cases g assms(1) by auto
  show "numChannels cc' = numChannels cc" "transmissions cc' = transmissions cc" using cases by auto
  show "os_wf nbs" using cases ewf by (simp add: entry_wf_def)
  show "set nbs = {b. linked cc h b}" using cases e by (auto simp: linked_def)
  show "h \<in> dom (entry cc)" using e by auto
  show "site cc' = site cc" using cases by (auto simp: site_def fun_eq_iff entry_mod_host option.map_comp comp_def)
qed

section \<open>The invariant\<close>

lemma cc_wf_D:
  assumes "cc_wf (cc, S)"
  shows "graph_wf cc" and "graph_exact S cc" and "S \<subseteq> dom (entry cc)" and "int (length (transmissions cc)) = numChannels cc"
  using assms unfolding cc_wf_def by blast+

lemma cc_wfI:
  "graph_wf cc \<Longrightarrow> graph_exact S cc \<Longrightarrow> S \<subseteq> dom (entry cc) \<Longrightarrow> int (length (transmissions cc)) = numChannels cc \<Longrightarrow> cc_wf (cc, S)"
  unfolding cc_wf_def by blast

lemma register_wf:
  assumes wf: "cc_wf (cc, S)" and new: "a \<notin> dom (entry cc)" and r: "registerHost a m p g g' cc = Inr (r, cc')"
  shows "cc_wf (cc', {})"
proof (rule cc_wfI)
  note old = cc_wf_D [OF wf] and g = graph_wf_D [OF cc_wf_D(1) [OF wf]]
  obtain e where cc': "cc' = cc\<lparr>hosts := hosts cc @ [(a, e)]\<rparr>" and e: "neighbors e = []" "\<not> isNeighborListValid e"
    using r by (auto simp: registerHost_def split: if_splits option.splits)
  have en: "entry cc' = (entry cc)(a \<mapsto> e)"
    using new by (auto simp: cc' map_of_append fun_eq_iff map_add_def split: option.splits)
  have l: "linked cc' = linked cc" using new e by (auto simp: linked_def en fun_eq_iff)
  have n: "near cc a b \<Longrightarrow> near cc' a b" for a b using new by (auto simp: near_def en in_range_def cc')
  show "graph_wf cc'"
  proof (rule graph_wfI)
    show "entry_wf b x" if "entry cc' b = Some x" for b x
      using that g(2) e by (auto simp: en entry_wf_def split: if_splits)
    show "distinct (map fst (hosts cc'))" using g(1) new by (simp add: cc' dom_map_of_conv_image_fst)
  qed (unfold l, rule g(3))
  show "graph_exact {} cc'" using old(2) n unfolding graph_exact_def l by blast
  show "int (length (transmissions cc')) = numChannels cc'" using old(4) by (simp add: cc')
qed simp

lemma unregister_wf:
  assumes wf: "cc_wf (cc, S)" and r: "unregisterHost m cc = Inr cc'"
  shows "cc_wf (cc', S \<inter> dom (entry cc'))"
proof (rule cc_wfI)
  note old = cc_wf_D [OF wf] and g = graph_wf_D [OF cc_wf_D(1) [OF wf]]
  let ?f = "\<lambda>h e. e\<lparr>neighbors := os_erase h (neighbors e), isNeighborListValid := False\<rparr>"
  obtain h where cc': "cc' = cc\<lparr>hosts := filter (\<lambda>(a, e). a \<noteq> h) (map (\<lambda>(a, e). (a, ?f h e)) (hosts cc))\<rparr>"
    using r by (auto simp: unregisterHost_def split: option.splits)
  have "map_of (filter (\<lambda>(a, e). a \<noteq> h) (map (\<lambda>(a, e). (a, ?f h e)) xs)) = (map_option (?f h) \<circ> map_of xs)(h := None)" for xs
    by (induction xs) (auto simp: fun_eq_iff)
  then have en: "entry cc' = (map_option (?f h) \<circ> entry cc)(h := None)" by (simp add: cc')
  have l: "linked cc' a b \<longleftrightarrow> a \<noteq> h \<and> b \<noteq> h \<and> linked cc a b" for a b by (auto simp: linked_def en)
  have "maxInterferenceDistance cc' = maxInterferenceDistance cc" by (simp add: cc')
  then have n: "near cc' a b \<longleftrightarrow> a \<noteq> h \<and> b \<noteq> h \<and> near cc a b" for a b by (auto simp: near_def en in_range_def)
  show "graph_wf cc'"
  proof (rule graph_wfI)
    show "entry_wf b x" if "entry cc' b = Some x" for b x
      using that g(2) by (auto simp: en entry_wf_def os_wf_erase split: if_splits)
    have "map fst (hosts cc') = filter (\<lambda>a. a \<noteq> h) (map fst (hosts cc))"
      by (simp add: cc' filter_map comp_def case_prod_beta)
    then show "distinct (map fst (hosts cc'))" using g(1) by simp
  qed (use l g(3) in blast)
  show "graph_exact (S \<inter> dom (entry cc')) cc'" using old(2) l n unfolding graph_exact_def by blast
  show "int (length (transmissions cc')) = numChannels cc'" using old(4) by (simp add: cc')
qed simp

lemma move_wf:
  assumes wf: "cc_wf (cc, S)" and r: "updateHostPosition h p cc = Inr cc'"
  shows "cc_wf (cc', insert h S)"
proof (rule cc_wfI)
  note old = cc_wf_D [OF wf] and g = graph_wf_D [OF cc_wf_D(1) [OF wf]]
  let ?m = "mod_host h (\<lambda>e. e\<lparr>pos := p\<rparr>) cc"
  have h: "h \<in> dom (entry cc)" and r: "updateConnections h ?m = Inr cc'"
    using r by (auto simp: updateHostPosition_def bindR_Inr_iff host_at_Inr)
  have l1: "linked ?m = linked cc" by (auto simp: linked_def fun_eq_iff entry_mod_host)
  have d1: "dom (entry ?m) = dom (entry cc)" by (auto simp: entry_mod_host split: if_splits)
  have gm: "graph_wf ?m"
  proof (rule graph_wfI)
    show "entry_wf a e" if "entry ?m a = Some e" for a e
      using that g(2) by (auto simp: entry_mod_host entry_wf_def split: if_splits)
  qed (use g(1) in simp, unfold l1, rule g(3))
  have n1: "near ?m a b \<longleftrightarrow> near cc a b" if "a \<noteq> h" "b \<noteq> h" for a b
    using that by (simp add: near_def entry_mod_host in_range_def)
  obtain c where "updateConnections h ?m = Inr c" "graph_wf c" "same_sites ?m c"
    "\<And>a b. linked c a b \<longleftrightarrow> (if a = h \<or> b = h then near ?m a b else linked ?m a b)"
    using updateConnections_eq [OF gm] h d1 by auto
  then have c: "graph_wf cc'" "same_sites ?m cc'"
    "\<And>a b. linked cc' a b \<longleftrightarrow> (if a = h \<or> b = h then near ?m a b else linked cc a b)"
    using r l1 by auto
  show "graph_wf cc'" by (rule c(1))
  show "graph_exact (insert h S) cc'"
    using old(2) c(3) n1 unfolding graph_exact_def near_same_sites [OF c(2)] by (metis insert_iff)
  show "insert h S \<subseteq> dom (entry cc')" using old(3) h unfolding dom_same_sites [OF c(2)] d1 by blast
  have "transmissions cc' = transmissions ?m \<and> numChannels cc' = numChannels ?m"
    using c(2) unfolding same_sites_def by (metis ChannelControl.select_convs(2,6) ChannelControl.surjective ChannelControl.update_convs(1))
  then show "int (length (transmissions cc')) = numChannels cc'" using old(4) by simp
qed

text \<open>What leaves the graph alone keeps the invariant.\<close>

lemma graph_same_wf:
  assumes wf: "cc_wf (cc, S)" and "graph_wf cc'" and same: "linked cc' = linked cc" "near cc' = near cc"
    and "dom (entry cc') = dom (entry cc)" and "int (length (transmissions cc')) = numChannels cc'"
  shows "cc_wf (cc', S \<inter> dom (entry cc'))"
proof (rule cc_wfI)
  show "graph_exact (S \<inter> dom (entry cc')) cc'"
    using cc_wf_D(2) [OF wf] unfolding graph_exact_def same by blast
qed (use assms in simp_all)

lemma tune_wf:
  assumes wf: "cc_wf (cc, S)" and r: "updateHostChannel h ch cc = Inr cc'"
  shows "cc_wf (cc', S \<inter> dom (entry cc'))"
proof -
  have cc': "cc' = mod_host h (\<lambda>e. e\<lparr>host_channel := ch\<rparr>) cc"
    using r by (auto simp: updateHostChannel_def bindR_Inr_iff checkChannel_def checkR_def split: if_splits)
  note g = cc_wf_D(1) [OF wf]
  note m = mod_host_graph [of "\<lambda>e. e\<lparr>host_channel := ch\<rparr>" cc h, OF _ _ _ g]
  show ?thesis using cc_wf_D(4) [OF wf] unfolding cc' by (intro graph_same_wf [OF wf] m) simp_all
qed

lemma send_wf:
  assumes wf: "cc_wf (cc, S)" and r: "cc_sendToChannel lm now h f cc = Inr (out, cc')"
  shows "cc_wf (cc', S \<inter> dom (entry cc'))"
proof -
  obtain nbs c where c: "getNeighbors h cc = Inr (nbs, c)" "addOngoingTransmission now f c = Inr cc'"
    using r by (auto simp: cc_sendToChannel_def bindR_Inr_iff)
  note n = getNeighbors_eq [OF cc_wf_D(1) [OF wf] c(1)] and a = addOngoing_keeps [OF c(2)]
  have h: "hosts cc' = hosts c" "maxInterferenceDistance cc' = maxInterferenceDistance c" using a by auto
  show ?thesis
    using cc_wf_D(4) [OF wf] a n(5,6) unfolding hosts_graph(1) [OF h, symmetric]
    by (intro graph_same_wf [OF wf]) (simp_all only: hosts_graph [OF h] n(1-4) h)
qed

lemma ongoing_wf:
  assumes wf: "cc_wf (cc, S)" and r: "getOngoingTransmissions now ch cc = Inr (fs, cc')"
  shows "cc_wf (cc', S \<inter> dom (entry cc'))"
proof -
  have cc': "cc' = purgeOngoingTransmissions now cc"
    using r by (auto simp: getOngoingTransmissions_def bindR_Inr_iff checkChannel_def checkR_def Let_def split: if_splits)
  have h: "hosts cc' = hosts cc" "maxInterferenceDistance cc' = maxInterferenceDistance cc" by (simp_all add: cc')
  show ?thesis
    using cc_wf_D(1,4) [OF wf]
    by (intro graph_same_wf [OF wf]) (simp_all only: hosts_graph [OF h] h, simp add: cc')
qed

lemma cc_exec_wf:
  assumes "cc_wf (cc, S)" and "fresh_ref c cc" and "cc_exec c cc = Inr cc'"
  shows "cc_wf (cc', placed_by c cc' S)"
proof (cases c)
  case (CcRegister a m p g g')
  then obtain r where "registerHost a m p g g' cc = Inr (r, cc')" using assms(3) by (auto simp: cc_exec_def bindR_Inr_iff)
  then show ?thesis using register_wf assms CcRegister by (simp add: placed_by_def fresh_ref_def)
next
  case (CcSend lm now h f)
  then obtain r where "cc_sendToChannel lm now h f cc = Inr (r, cc')" using assms(3) by (auto simp: cc_exec_def bindR_Inr_iff)
  then show ?thesis using send_wf assms CcSend by (simp add: placed_by_def)
next
  case (CcOngoing now ch)
  then obtain r where "getOngoingTransmissions now ch cc = Inr (r, cc')" using assms(3) by (auto simp: cc_exec_def bindR_Inr_iff)
  then show ?thesis using ongoing_wf assms CcOngoing by (simp add: placed_by_def)
qed (use assms unregister_wf move_wf tune_wf in \<open>simp_all add: placed_by_def cc_exec_def\<close>)

interpretation chan: invariant_system cc_init cc_step cc_wf
proof
  show "cc_wf s" if "cc_init s" for s
    using that by (cases s) (auto simp: cc_init_def cc_initialize_def cc_wf_def graph_wf_def graph_exact_def
        linked_def near_def split: if_splits)
  show "cc_wf s'" if "cc_wf s" "cc_step s s'" for s s'
    using that cc_exec_wf by (cases s; cases s') (auto simp: cc_step_def)
qed

section \<open>Delivery\<close>

lemma settled_linked:
  assumes "cc_wf (cc, S)" and "\<forall>a b. near cc a b \<longrightarrow> a \<in> S \<or> b \<in> S"
  shows "linked cc = near cc"
  using cc_wf_D(2) [OF assms(1)] assms(2) unfolding graph_exact_def fun_eq_iff by blast

lemma delivers_loop:
  assumes "set nbs \<subseteq> dom (entry cc)"
  shows "foldR (delivers lm src f cc) nbs out = Inr (out @ map (\<lambda>b. (radioInGate (the (entry cc b)),
    distance lm (pos src) (pos (the (entry cc b))) / LIGHT_SPEED, f))
    (filter (\<lambda>b. host_channel (the (entry cc b)) = channelNumber f) nbs))"
  using assms
proof (induction nbs arbitrary: out)
  case (Cons b nbs)
  then obtain e where "entry cc b = Some e" by auto
  with Cons show ?case by (simp add: delivers_def host_at_def)
qed simp

lemma addOngoing_returns:
  assumes "int (length (transmissions cc)) = numChannels cc" and "0 \<le> channelNumber f" and "channelNumber f < numChannels cc"
  shows "\<exists>cc'. addOngoingTransmission now f cc = Inr cc'"
  using assms by (simp add: addOngoingTransmission_def Let_def)

lemma send_returns:
  assumes wf: "cc_wf (cc, S)" and h: "entry cc h = Some src"
    and ch: "0 \<le> channelNumber f" "channelNumber f < numChannels cc"
  shows "\<exists>nbs cc'. cc_sendToChannel lm now h f cc = Inr (map (\<lambda>b. (radioInGate (the (entry cc b)),
      distance lm (pos src) (pos (the (entry cc b))) / LIGHT_SPEED, f)) nbs, cc') \<and>
    os_wf nbs \<and> set nbs = {b. linked cc h b \<and> host_channel (the (entry cc b)) = channelNumber f}"
proof -
  note g = cc_wf_D(1) [OF wf]
  obtain nbs c where c: "getNeighbors h cc = Inr (nbs, c)"
    using h by (cases "isNeighborListValid src") (auto simp: getNeighbors_def host_at_def)
  note n = getNeighbors_eq [OF g c]
  let ?key = "\<lambda>e. (host e, radioInGate e, host_channel e, pos e)"
  have same: "map_option ?key (entry c b) = map_option ?key (entry cc b)" for b
    using n(10) by (simp add: site_def fun_eq_iff)
  have dom: "set nbs \<subseteq> dom (entry c)" using linked_D [OF g] n(4,8) by blast
  have at: "radioInGate (the (entry c b)) = radioInGate (the (entry cc b)) \<and> pos (the (entry c b)) = pos (the (entry cc b)) \<and>
      host_channel (the (entry c b)) = host_channel (the (entry cc b))" if "b \<in> set nbs" for b
    using subsetD [OF dom that] same [of b] by (cases "entry c b"; cases "entry cc b") auto
  obtain src' where src': "entry c h = Some src'" "pos src' = pos src" using same [of h] h by auto
  let ?nbs = "filter (\<lambda>b. host_channel (the (entry cc b)) = channelNumber f) nbs"
  have "foldR (delivers lm src' f c) nbs [] = Inr (map (\<lambda>b. (radioInGate (the (entry cc b)),
      distance lm (pos src) (pos (the (entry cc b))) / LIGHT_SPEED, f)) ?nbs)"
    using at src' by (auto simp: delivers_loop [OF dom] intro!: map_cong filter_cong cong: filter_cong)
  moreover obtain cc' where "addOngoingTransmission now f c = Inr cc'"
    using addOngoing_returns [of c f now] cc_wf_D(4) [OF wf] n(5,6) ch by auto
  moreover have "os_wf ?nbs" using n(7) sorted_filter [of "\<lambda>x. x" nbs] by (simp add: os_wf_def)
  moreover have "set ?nbs = {b. linked cc h b \<and> host_channel (the (entry cc b)) = channelNumber f}" using n(8) by auto
  ultimately show ?thesis using c src' by (auto simp: cc_sendToChannel_def host_at_def)
qed

text \<open>
  C5: A frame sent on a valid channel reaches exactly the hosts within interference distance of the
  sender that listen on the frame's channel, each of them once and after the propagation delay,
  once every host that is in range of another had its position updated since the last
  registration (one of the two suffices). The call does not fault.
\<close>

theorem frame_reaches_neighbours:
  assumes "cc_init s" and "cc_step\<^sup>*\<^sup>* s (cc, S)" and "\<forall>a b. near cc a b \<longrightarrow> a \<in> S \<or> b \<in> S"
    and "entry cc h = Some src" and "0 \<le> channelNumber f" and "channelNumber f < numChannels cc"
  shows "\<exists>nbs cc'. cc_sendToChannel lm now h f cc = Inr (map (\<lambda>b. (radioInGate (the (entry cc b)),
      distance lm (pos src) (pos (the (entry cc b))) / LIGHT_SPEED, f)) nbs, cc') \<and>
    distinct nbs \<and> set nbs = {b. near cc h b \<and> host_channel (the (entry cc b)) = channelNumber f}"
proof -
  have wf: "cc_wf (cc, S)" using chan.reachable_inv assms(1,2) by blast
  show ?thesis using send_returns [OF wf assms(4-6), of lm now] settled_linked [OF wf assms(3)]
    by (auto simp: os_wf_def)
qed

section \<open>A network of three hosts\<close>

text \<open>Three hosts on a line, the first in range of the second and the second of the third.\<close>

definition lm0 :: Libm where
  "lm0 = \<lparr>sqrtL = (\<lambda>x. if x = 9 then 3 else x), powL = (\<lambda>x y. if y = 1 / 2 then 4 else 1)\<rparr>"

definition ccpar0 :: CCPar where
  "ccpar0 = \<lparr>par_playgroundSizeX = 600, par_playgroundSizeY = 500, par_numChannels = 27, par_carrierFrequency = 2400000000,
     par_pMax = 2, par_sat = - 80, par_alpha = 2\<rparr>"

definition cc0 :: ChannelControl where
  "cc0 = \<lparr>hosts = [], transmissions = replicate 27 [], lastOngoingTransmissionsUpdate = 0,
     playgroundSize = \<lparr>coord_x = 600, coord_y = 500\<rparr>, maxInterferenceDistance = 4, numChannels = 27\<rparr>"

primrec cc_run :: "cc_call list \<Rightarrow> ChannelControl \<times> HostRef set \<Rightarrow> (ChannelControl \<times> HostRef set) res" where
  "cc_run [] s = Inr s"
| "cc_run (c # cs) s = (if fresh_ref c (fst s) then bindR (cc_exec c (fst s)) (\<lambda>cc. cc_run cs (cc, placed_by c cc (snd s)))
     else Inl UndefinedBehaviour)"

lemma cc_run_steps: "cc_run cs s = Inr s' \<Longrightarrow> cc_step\<^sup>*\<^sup>* s s'"
proof (induction cs arbitrary: s)
  case (Cons c cs)
  then obtain cc where cc: "fresh_ref c (fst s)" "cc_exec c (fst s) = Inr cc" "cc_run cs (cc, placed_by c cc (snd s)) = Inr s'"
    by (auto simp: bindR_Inr_iff split: if_splits)
  then have "cc_step s (cc, placed_by c cc (snd s))" by (auto simp: cc_step_def)
  then show ?case using Cons.IH [OF cc(3)] by (rule converse_rtranclp_into_rtranclp)
qed simp

definition at_x :: "rat \<Rightarrow> Coord" where
  "at_x r = \<lparr>coord_x = r, coord_y = 0\<rparr>"

definition calls0 :: "cc_call list" where
  "calls0 = [CcRegister 1 100 (at_x 0) None (Some 7), CcRegister 2 200 (at_x 3) None (Some 8), CcRegister 3 300 (at_x 6) None (Some 9),
     CcMove 1 (at_x 0), CcMove 2 (at_x 3), CcMove 3 (at_x 6), CcTune 1 11, CcTune 2 11, CcTune 3 11]"

definition entry0 :: "nat \<Rightarrow> nat \<Rightarrow> rat \<Rightarrow> HostRef list \<Rightarrow> HostEntry" where
  "entry0 m g r ns = \<lparr>host = m, radioInGate = g, host_channel = 11, pos = at_x r, neighbors = ns,
     isNeighborListValid = False, neighborList = []\<rparr>"

definition line0 :: ChannelControl where
  "line0 = cc0\<lparr>hosts := [(1, entry0 100 7 0 [2]), (2, entry0 200 8 3 [1, 3]), (3, entry0 300 9 6 [2])]\<rparr>"

lemma line0_reached: "cc_run calls0 (cc0, {}) = Inr (line0, {1, 2, 3})"
  by (simp add: calls0_def cc_exec_def registerHost_def lookupHost_def cc0_def line0_def entry0_def fresh_ref_def placed_by_def
      updateHostPosition_def updateConnections_def updateConnection_def connect_host_def disconnect_host_def host_at_def mod_host_def
      updateHostChannel_def checkChannel_def checkR_def in_range_def sqrdist_def at_x_def os_insert_def insert_commute)


definition frame1 :: Ieee802154Frame where
  "frame1 = \<lparr>frame_class = DataFrame (Some 0), frmCtrl = \<lparr>frmType = Ieee802154_DATA, secu = False, frmPending = False, ackReq = True,
     intraPan = False, dstAddrMode = 2, srcAddrMode = 2\<rparr>, bdsn = 1, dstPanId = 0, dstAddr = 2, srcPanId = 0, srcAddr = 1,
     isGTS = False, errKind = NO_ERROR, byteLength = 14\<rparr>"

definition air0 :: AirFrame where
  "air0 = \<lparr>pSend = 1, channelNumber = 11, duration = 1 / 1000, bitrate = 250000, senderPos = at_x 3, carrier = Some 2400000000,
     timestamp = 0, arrivalTime = 0, airKind = NO_ERROR, encapsulated = frame1\<rparr>"

lemma line0_near: "near line0 a b \<longleftrightarrow> {a, b} = {1, 2} \<or> {a, b} = {2, 3}"
  by (auto simp: near_def line0_def cc0_def entry0_def at_x_def in_range_def sqrdist_def doubleton_eq_iff split: if_splits)

theorem frame_reaches_neighbours_witness:
  "\<exists>nbs cc'. cc_sendToChannel lm0 5 2 air0 line0 = Inr (map (\<lambda>b. (radioInGate (the (entry line0 b)),
      distance lm0 (at_x 3) (pos (the (entry line0 b))) / LIGHT_SPEED, air0)) nbs, cc') \<and>
    distinct nbs \<and> set nbs = {1, 3}"
proof -
  have init: "cc_init (cc0, {})"
    unfolding cc_init_def by (intro conjI exI [of _ lm0] exI [of _ ccpar0])
      (simp_all add: cc_initialize_def ccpar0_def cc0_def lm0_def calcInterfDist_def)
  have run: "cc_step\<^sup>*\<^sup>* (cc0, {}) (line0, {1, 2, 3})" by (rule cc_run_steps [OF line0_reached])
  have src: "entry line0 2 = Some (entry0 200 8 3 [1, 3])" by (simp add: line0_def)
  have ch: "host_channel (the (entry line0 b)) = 11" if "b = 1 \<or> b = 3" for b
    using that by (auto simp: line0_def entry0_def)
  have receivers: "{b. near line0 2 b \<and> host_channel (the (entry line0 b)) = channelNumber air0} = {1, 3}"
    using ch by (auto simp: line0_near doubleton_eq_iff air0_def)
  have "near line0 a b \<longrightarrow> a \<in> {1, 2, 3} \<or> b \<in> {1, 2, 3}" for a b
    by (auto simp: line0_near doubleton_eq_iff)
  then show ?thesis
    using frame_reaches_neighbours [OF init run _ src, of air0 lm0 5] unfolding receivers
    by (simp add: air0_def line0_def cc0_def entry0_def)
qed

end
