(* ===== verification/Radio_State.thy ===== *)
theory Radio_State
  imports Complex_Main
begin

text \<open>
  The state of a radio as it is announced on the notification board (\<open>RadioState.h\<close>). The radio
  identifier, which tells apart the radios of one host, is left out: a host has one.
\<close>

datatype State = IDLE | RECV | TRANSMIT | SLEEP

record RadioState =
  radio_state :: State
  rs_channelNumber :: int
  rs_bitrate :: rat

end
