(* ===== verification/Phy.thy ===== *)
theory Phy
  imports Channel_Control Radio_State
begin

text \<open>
  The physical layer (\<open>Ieee802154Phy.h\<close>, \<open>Ieee802154Phy.cc\<close>) with its radio model
  (\<open>Ieee802154RadioModel.cc\<close>) and the base class that reaches the channel
  (\<open>ChannelAccessExtended.cc\<close>, whose pointer to an extended channel control is null in a network
  with a \<open>ChannelControl\<close>).

  Frames being received are objects on a heap; each has a timer that marks the end of its
  reception. The shared channel control module is part of the state a handler works on.
\<close>

section \<open>State\<close>

record SnrListEntry =
  snr_time :: rat
  snr :: rat

record SnrStruct =
  ptr :: "nat option"
  rcvdPower :: rat
  sList :: "SnrListEntry list"

datatype PhyTimer = PHY_CCA_TIMER | PHY_ED_TIMER | PHY_TRX_TIMER | PHY_TX_OVER_TIMER

text \<open>
  What the module hands to its upper gate, to the notification board, and to the radio gates of
  other hosts (and, after a change of channel, of its own host).
\<close>

datatype phyoutput =
    PdDataConfirm PHYenum
  | CcaConfirm PHYenum
  | EdConfirm PHYenum u8
  | SetTrxStateConfirm PHYenum
  | SetConfirm PHYenum PHYPIBenum
  | FrameUp Ieee802154Frame
  | RadioStateChanged RadioState
  | ChannelChanged RadioState
  | OnAir "delivery list"
  | OwnGate rat AirFrame

record Phy =
  carrierFrequency :: rat
  sensitivity :: rat
  thermalNoise :: rat
  transmitterPower :: rat
  noiseLevel :: rat
  snrInfo :: SnrStruct
  recvBuff :: "(nat, rat) omap"
  txPktCopy :: "AirFrame option"
  rxPower :: "rat list"
  rxPeakPower :: rat
  rs :: RadioState
  phyRadioState :: PHYenum
  newState :: PHYenum
  newState_turnaround :: PHYenum
  isCCAStartIdle :: bool
  phyTimers :: "PhyTimer \<Rightarrow> rat option"
  airframes :: "nat \<rightharpoonup> AirFrame"
  endRx :: "nat \<rightharpoonup> rat"
  cc :: ChannelControl
  phyOut :: "phyoutput list"

text \<open>
  What an event finds in its surroundings: the time, the C library, the position of the host and its
  reference in the channel control, the parameters of the reception and radio models, the number of
  radio gates of the host, and the addresses the kernel gives to objects created now.
\<close>

record PhyEnv =
  now :: rat
  libm :: Libm
  myPosition :: Coord
  myHostRef :: HostRef
  pathLossAlpha :: rat
  snirThreshold :: rat
  radioGates :: nat
  new_air :: "nat \<Rightarrow> nat"

type_synonym pstmt = "Phy \<Rightarrow> Phy res"

section \<open>Basic operations\<close>

definition outP :: "phyoutput \<Rightarrow> pstmt" where
  "outP out p = Inr (p\<lparr>phyOut := phyOut p @ [out]\<rparr>)"

definition air_at :: "nat \<Rightarrow> Phy \<Rightarrow> AirFrame res" where
  "air_at a p = (case airframes p a of None \<Rightarrow> Inl DanglingPointer | Some f \<Rightarrow> Inr f)"

definition deleteAir :: "nat \<Rightarrow> pstmt" where
  "deleteAir a p = (if airframes p a = None then Inl DanglingPointer else Inr (p\<lparr>airframes := (airframes p)(a := None)\<rparr>))"

text \<open>The kernel refuses a time in the past and a message that is already scheduled.\<close>

definition scheduleP :: "PhyEnv \<Rightarrow> PhyTimer \<Rightarrow> rat \<Rightarrow> pstmt" where
  "scheduleP w t t_at p =
     (if t_at < now w then Inl (KernelError ''scheduleAt: cannot schedule to the past'')
      else if phyTimers p t \<noteq> None then Inl (KernelError ''scheduleAt: message already scheduled'')
      else Inr (p\<lparr>phyTimers := (phyTimers p)(t := Some t_at)\<rparr>))"

definition cancelP :: "PhyTimer \<Rightarrow> pstmt" where
  "cancelP t p = Inr (p\<lparr>phyTimers := (phyTimers p)(t := None)\<rparr>)"

definition getChannelNumber :: "Phy \<Rightarrow> int" where
  "getChannelNumber p = rs_channelNumber (rs p)"

definition phy_getRate :: "bool \<Rightarrow> Phy \<Rightarrow> rat res" where
  "phy_getRate bits p =
     (let ch = getChannelNumber p in
      if ch = 0 then Inr ((if bits then BR_868M else SR_868M) * 1000)
      else if ch \<le> 10 then Inr ((if bits then BR_915M else SR_915M) * 1000)
      else if ch \<le> 26 then Inr ((if bits then BR_2_4G else SR_2_4G) * 1000)
      else Inl (RuntimeError ''channel number is not supported''))"

definition setRadioState :: "State \<Rightarrow> pstmt" where
  "setRadioState st p = (let p = p\<lparr>rs := (rs p)\<lparr>radio_state := st\<rparr>\<rparr> in outP (RadioStateChanged (rs p)) p)"

definition addNewSnr :: "PhyEnv \<Rightarrow> Phy \<Rightarrow> Phy" where
  "addNewSnr w p = p\<lparr>snrInfo := (snrInfo p)\<lparr>sList := sList (snrInfo p) @
     [\<lparr>snr_time = now w, snr = rcvdPower (snrInfo p) / noiseLevel p\<rparr>]\<rparr>\<rparr>"

text \<open>The accumulator of the current channel; a channel number outside the array is undefined behaviour.\<close>

definition getRxPower :: "Phy \<Rightarrow> rat res" where
  "getRxPower p = (let ch = getChannelNumber p in
     if ch < 0 \<or> int (length (rxPower p)) \<le> ch then Inl UndefinedBehaviour else Inr (rxPower p ! nat ch))"

definition setRxPower :: "int \<Rightarrow> rat \<Rightarrow> pstmt" where
  "setRxPower ch r p =
     (if ch < 0 \<or> int (length (rxPower p)) \<le> ch then Inl UndefinedBehaviour else Inr (p\<lparr>rxPower := (rxPower p)[nat ch := r]\<rparr>))"

definition addRxPower :: "rat \<Rightarrow> pstmt" where
  "addRxPower r = letR getRxPower (\<lambda>old p. setRxPower (getChannelNumber p) (old + r) p)"

section \<open>Radio model\<close>

definition calculateDuration :: "AirFrame \<Rightarrow> rat" where
  "calculateDuration airframe = of_int (def_phyHeaderLength * 8 + byteLength (encapsulated airframe) * 8) / bitrate airframe"

text \<open>The least signal to noise ratio decides; \<open>begin()\<close> of an empty list must not be dereferenced.\<close>

fun snirMin :: "rat \<Rightarrow> SnrListEntry list \<Rightarrow> rat" where
  "snirMin m [] = m"
| "snirMin m (x # xs) = snirMin (if snr x < m then snr x else m) xs"

definition isReceivedCorrectly :: "rat \<Rightarrow> SnrListEntry list \<Rightarrow> bool res" where
  "isReceivedCorrectly threshold receivedList =
     (case receivedList of [] \<Rightarrow> Inl UndefinedBehaviour
      | x # _ \<Rightarrow> Inr (\<not> snirMin (snr x) receivedList \<le> threshold))"

section \<open>Primitives to the MAC\<close>

definition PD_DATA_confirm :: "PHYenum \<Rightarrow> pstmt" where
  "PD_DATA_confirm status = outP (PdDataConfirm status)"

definition PLME_CCA_confirm :: "PHYenum \<Rightarrow> pstmt" where
  "PLME_CCA_confirm status = outP (CcaConfirm status)"

definition PLME_ED_confirm :: "PHYenum \<Rightarrow> u8 \<Rightarrow> pstmt" where
  "PLME_ED_confirm status energyLevel = outP (EdConfirm status energyLevel)"

definition PLME_SET_TRX_STATE_confirm :: "PHYenum \<Rightarrow> pstmt" where
  "PLME_SET_TRX_STATE_confirm status = outP (SetTrxStateConfirm status)"

definition PLME_SET_confirm :: "PHYenum \<Rightarrow> PHYPIBenum \<Rightarrow> pstmt" where
  "PLME_SET_confirm status attribute = outP (SetConfirm status attribute)"

text \<open>The conversion to \<open>int\<close> is undefined for values that do not fit, the one to \<open>UINT_8\<close> wraps.\<close>

definition calculateEnergyLevel :: "Phy \<Rightarrow> u8 res" where
  "calculateEnergyLevel p =
     (let energy = trunc (rxPeakPower p / sensitivity p * 128) in
      if energy < - (2 ^ 31) \<or> 2 ^ 31 \<le> energy then Inl UndefinedBehaviour
      else Inr (if energy > 255 then 255 else word_of_int energy))"

section \<open>Sending\<close>

definition encapsulatePacket :: "PhyEnv \<Rightarrow> Ieee802154Frame \<Rightarrow> Phy \<Rightarrow> AirFrame" where
  "encapsulatePacket w frame p =
     (let airframe = \<lparr>pSend = transmitterPower p, channelNumber = getChannelNumber p, duration = 0, bitrate = rs_bitrate (rs p),
            senderPos = myPosition w, carrier = Some (carrierFrequency p), timestamp = 0, arrivalTime = 0, airKind = NO_ERROR,
            encapsulated = frame\<rparr>
      in airframe\<lparr>duration := calculateDuration airframe\<rparr>)"

definition phy_sendDown :: "PhyEnv \<Rightarrow> AirFrame \<Rightarrow> pstmt" where
  "phy_sendDown w airframe = letR (\<lambda>p. cc_sendToChannel (libm w) (now w) (myHostRef w) airframe (cc p))
     (\<lambda>(out, c). doR [updR (\<lambda>p. p\<lparr>cc := c\<rparr>), outP (OnAir out)])"

definition phy_handleUpperMsg :: "PhyEnv \<Rightarrow> AirFrame \<Rightarrow> pstmt" where
  "phy_handleUpperMsg w airframe =
     ifR (\<lambda>p. phyRadioState p = phy_TX_ON)
      (doR
        [checkR (\<lambda>p. radio_state (rs p) \<noteq> TRANSMIT) AssertFailed,
         setRadioState TRANSMIT,
         checkR (\<lambda>p. txPktCopy p = None) AssertFailed,
         updR (\<lambda>p. p\<lparr>txPktCopy := Some airframe\<rparr>),
         checkR (\<lambda>p. phyTimers p PHY_TX_OVER_TIMER = None) (RuntimeError ''try to transmit a pkt while radio is Txing''),
         scheduleP w PHY_TX_OVER_TIMER (now w + duration airframe),
         phy_sendDown w airframe])
      (\<lambda>p. Inl (RuntimeError ''transmitter is not ON while trying to send a msg to channel''))"

section \<open>Receiving\<close>

definition bufferMsg :: "PhyEnv \<Rightarrow> nat \<Rightarrow> pstmt" where
  "bufferMsg w a = letR (air_at a) (\<lambda>f p.
     let t = arrivalTime f + duration f in
     if t < now w then Inl (KernelError ''scheduleAt: cannot schedule to the past'')
     else Inr (p\<lparr>endRx := (endRx p)(a \<mapsto> t)\<rparr>))"

definition received_power :: "PhyEnv \<Rightarrow> AirFrame \<Rightarrow> Phy \<Rightarrow> rat" where
  "received_power w f p =
     (let dst = distance (libm w) (myPosition w) (senderPos f);
          frequency = (case carrier f of None \<Rightarrow> carrierFrequency p | Some c \<Rightarrow> if c > 0 then c else carrierFrequency p)
      in calculateReceivedPower (libm w) (pathLossAlpha w) (pSend f) frequency dst)"

definition start_reception :: "PhyEnv \<Rightarrow> nat \<Rightarrow> rat \<Rightarrow> pstmt" where
  "start_reception w a r = doR
     [updR (\<lambda>p. p\<lparr>snrInfo := \<lparr>ptr = Some a, rcvdPower = r, sList = []\<rparr>\<rparr>),
      updR (addNewSnr w),
      setRadioState RECV]"

definition start_noise :: "PhyEnv \<Rightarrow> rat \<Rightarrow> pstmt" where
  "start_noise w r = doR
     [updR (\<lambda>p. p\<lparr>noiseLevel := noiseLevel p + r\<rparr>),
      whenR (\<lambda>p. ptr (snrInfo p) \<noteq> None) (updR (addNewSnr w)),
      whenR (\<lambda>p. noiseLevel p \<ge> sensitivity p \<and> radio_state (rs p) = IDLE) (setRadioState RECV)]"

definition handleLowerMsgStart :: "PhyEnv \<Rightarrow> nat \<Rightarrow> pstmt" where
  "handleLowerMsgStart w a = letR (air_at a) (\<lambda>f. letR (\<lambda>p. Inr (received_power w f p)) (\<lambda>r. doR
     [addRxPower r,
      updR (\<lambda>p. p\<lparr>recvBuff := om_set a r (recvBuff p)\<rparr>),
      whenR (\<lambda>p. phyTimers p PHY_ED_TIMER \<noteq> None)
        (letR getRxPower (\<lambda>q. whenR (\<lambda>p. rxPeakPower p < q) (updR (\<lambda>p. p\<lparr>rxPeakPower := q\<rparr>)))),
      ifR (\<lambda>p. arrivalTime f = now w \<and> r \<ge> sensitivity p \<and> ptr (snrInfo p) = None)
        (start_reception w a r) (start_noise w r)]))"

text \<open>\<open>operator[]\<close> of the receive buffer inserts 0 for a frame that is not in it.\<close>

definition buffered :: "nat \<Rightarrow> (rat \<Rightarrow> pstmt) \<Rightarrow> pstmt" where
  "buffered a k p = (let (r, rb) = om_index 0 a (recvBuff p) in k r (p\<lparr>recvBuff := rb\<rparr>))"

definition lower_noise :: "nat \<Rightarrow> pstmt" where
  "lower_noise a = buffered a (\<lambda>r. updR (\<lambda>p. p\<lparr>noiseLevel := noiseLevel p - r\<rparr>))"

definition clear_snr :: "Phy \<Rightarrow> Phy" where
  "clear_snr p = p\<lparr>snrInfo := (snrInfo p)\<lparr>ptr := None, sList := []\<rparr>\<rparr>"

definition erase_frame :: "nat \<Rightarrow> Phy \<Rightarrow> Phy" where
  "erase_frame a p = p\<lparr>recvBuff := om_erase a (recvBuff p)\<rparr>"

definition deliver_frame :: "PhyEnv \<Rightarrow> nat \<Rightarrow> AirFrame \<Rightarrow> bool \<Rightarrow> pstmt" where
  "deliver_frame w a f ok = doR
     [deleteAir a,
      (\<lambda>p. outP (FrameUp ((encapsulated f)\<lparr>errKind :=
          if \<not> ok then COLLISION else if phyTimers p PHY_CCA_TIMER \<noteq> None then RX_DURING_CCA else errKind (encapsulated f)\<rparr>)) p),
      updR clear_snr,
      updR (erase_frame a)]"

definition end_reception :: "PhyEnv \<Rightarrow> nat \<Rightarrow> pstmt" where
  "end_reception w a = letR (air_at a) (\<lambda>f.
     if airKind f = BITERROR_FORCE_TRX_OFF then
       doR [lower_noise a, updR clear_snr, updR (erase_frame a), deleteAir a]
     else if errKind (encapsulated f) = BITERROR_FORCE_TRX_OFF then
       doR [updR clear_snr, updR (erase_frame a), deleteAir a]
     else letR (\<lambda>p. isReceivedCorrectly (snirThreshold w) (sList (snrInfo p))) (deliver_frame w a f))"

definition end_noise :: "PhyEnv \<Rightarrow> nat \<Rightarrow> pstmt" where
  "end_noise w a = doR
     [lower_noise a,
      updR (erase_frame a),
      whenR (\<lambda>p. ptr (snrInfo p) \<noteq> None) (updR (addNewSnr w)),
      deleteAir a]"

section \<open>Transceiver states\<close>

definition startTrxTimer :: "PhyEnv \<Rightarrow> pstmt" where
  "startTrxTimer w = letR (phy_getRate False) (\<lambda>r. scheduleP w PHY_TRX_TIMER (now w + of_int (uint aTurnaroundTime) / r))"

text \<open>
  The state asked for while the radio was busy: the same statements follow the end of a reception
  and the end of a transmission.
\<close>

definition apply_newState :: "PhyEnv \<Rightarrow> pstmt" where
  "apply_newState w = whenR (\<lambda>p. newState p \<noteq> phy_IDLE) (doR
     [updR (\<lambda>p. p\<lparr>newState_turnaround := newState p, newState := phy_IDLE\<rparr>),
      ifR (\<lambda>p. newState_turnaround p = phy_TRX_OFF)
        (doR
          [updR (\<lambda>p. p\<lparr>phyRadioState := phy_TRX_OFF\<rparr>), setRadioState SLEEP, PLME_SET_TRX_STATE_confirm phy_TRX_OFF])
        (doR
          [updR (\<lambda>p. p\<lparr>phyRadioState := phy_TRX_OFF\<rparr>), setRadioState SLEEP,
           whenR (\<lambda>p. phyTimers p PHY_TRX_TIMER \<noteq> None) (cancelP PHY_TRX_TIMER),
           startTrxTimer w])])"

definition handleLowerMsgEnd :: "PhyEnv \<Rightarrow> nat \<Rightarrow> pstmt" where
  "handleLowerMsgEnd w a = doR
     [buffered a (\<lambda>r. addRxPower (- r)),
      ifR (\<lambda>p. ptr (snrInfo p) = Some a) (end_reception w a) (end_noise w a),
      whenR (\<lambda>p. noiseLevel p < sensitivity p \<and> phyRadioState p = phy_RX_ON \<and> radio_state (rs p) = RECV \<and> ptr (snrInfo p) = None)
        (doR [setRadioState IDLE, apply_newState w])]"

text \<open>
  A forced switch-off. The radio state is SLEEP when the second condition is evaluated; what the
  branch would do to the packet shared with the receivers is left out.
\<close>

definition force_trx_off :: pstmt where
  "force_trx_off = doR
     [updR (\<lambda>p. p\<lparr>phyRadioState := phy_TRX_OFF\<rparr>),
      setRadioState SLEEP,
      whenR (\<lambda>p. ptr (snrInfo p) \<noteq> None)
        (letR (\<lambda>p. Inr (the (ptr (snrInfo p)))) (\<lambda>a. letR (air_at a) (\<lambda>f. updR (\<lambda>p.
           p\<lparr>airframes := (airframes p)(a \<mapsto> f\<lparr>airKind := BITERROR_FORCE_TRX_OFF\<rparr>), noiseLevel := noiseLevel p + rcvdPower (snrInfo p)\<rparr>)))),
      whenR (\<lambda>p. radio_state (rs p) = TRANSMIT \<and> phyTimers p PHY_TX_OVER_TIMER \<noteq> None)
        (doR
          [checkR (\<lambda>p. txPktCopy p \<noteq> None) AssertFailed, cancelP PHY_TX_OVER_TIMER,
           updR (\<lambda>p. p\<lparr>txPktCopy := None\<rparr>), PD_DATA_confirm phy_TRX_OFF])]"

text \<open>The cases A (the state asked for is another one, A1 to A4) and B of the request.\<close>

definition switch_trx :: "PhyEnv \<Rightarrow> PHYenum \<Rightarrow> pstmt" where
  "switch_trx w setState p =
     (let curr_state = phyRadioState p; radio = radio_state (rs p) in
      if setState = curr_state then PLME_SET_TRX_STATE_confirm curr_state p
      else if (setState = phy_RX_ON \<or> setState = phy_TRX_OFF) \<and> radio = TRANSMIT then
        doR [updR (\<lambda>p. p\<lparr>newState := setState\<rparr>), PLME_SET_TRX_STATE_confirm phy_BUSY_TX] p
      else if (setState = phy_TX_ON \<or> setState = phy_TRX_OFF) \<and> radio = RECV then
        doR [updR (\<lambda>p. p\<lparr>newState := setState\<rparr>), PLME_SET_TRX_STATE_confirm phy_BUSY_RX] p
      else if setState = phy_FORCE_TRX_OFF then force_trx_off p
      else if setState = phy_RX_ON \<and> curr_state = phy_TX_ON \<or> setState = phy_TX_ON \<and> curr_state = phy_RX_ON then
        doR [updR (\<lambda>p. p\<lparr>newState_turnaround := setState, phyRadioState := phy_TRX_OFF\<rparr>), setRadioState SLEEP, startTrxTimer w] p
      else
        doR [updR (\<lambda>p. p\<lparr>phyRadioState := setState\<rparr>), setRadioState (if setState = phy_TRX_OFF then SLEEP else IDLE),
             PLME_SET_TRX_STATE_confirm phy_SUCCESS] p)"

definition handle_PLME_SET_TRX_STATE_request :: "PhyEnv \<Rightarrow> PHYenum \<Rightarrow> pstmt" where
  "handle_PLME_SET_TRX_STATE_request w setState = doR
     [ifR (\<lambda>p. newState p \<noteq> phy_IDLE)
        (updR (\<lambda>p. p\<lparr>newState := phy_IDLE\<rparr>))
        (whenR (\<lambda>p. phyTimers p PHY_TRX_TIMER \<noteq> None) (cancelP PHY_TRX_TIMER)),
      switch_trx w setState]"

section \<open>Changing the channel\<close>

definition channelSupported :: "int \<Rightarrow> bool" where
  "channelSupported channel \<longleftrightarrow> and (0x07ffffff :: u32) (push_bit (nat channel) 1) \<noteq> 0"

definition drop_frame :: "nat \<Rightarrow> pstmt" where
  "drop_frame a = doR [deleteAir a, updR (\<lambda>p. p\<lparr>endRx := (endRx p)(a := None)\<rparr>)]"

text \<open>The \<open>i\<close>-th transmission on the new channel; the copy of a frame already on the air is noise.\<close>

definition pick_up :: "PhyEnv \<Rightarrow> int \<Rightarrow> nat \<times> AirFrame \<Rightarrow> pstmt" where
  "pick_up w newChannel = (\<lambda>(i, f). letR (\<lambda>p. host_at (myHostRef w) (cc p)) (\<lambda>me.
     let propagationDelay = distance (libm w) (pos me) (senderPos f) / LIGHT_SPEED in
     if newChannel \<noteq> channelNumber f then doR []
     else if timestamp f + propagationDelay \<ge> now w then
       doR (replicate (radioGates w) (outP (OwnGate (timestamp f + propagationDelay - now w) f)))
     else if timestamp f + duration f + propagationDelay > now w then
       doR [updR (\<lambda>p. p\<lparr>airframes := (airframes p)(new_air w i \<mapsto> f\<lparr>arrivalTime := timestamp f + propagationDelay\<rparr>)\<rparr>),
            handleLowerMsgStart w (new_air w i), bufferMsg w (new_air w i)]
     else doR []))"

definition changeChannel :: "PhyEnv \<Rightarrow> int \<Rightarrow> pstmt" where
  "changeChannel w newChannel = doR
     [(\<lambda>p. foldR drop_frame (map fst (recvBuff p)) p),
      updR (\<lambda>p. p\<lparr>recvBuff := []\<rparr>),
      whenR (\<lambda>p. ptr (snrInfo p) \<noteq> None) (updR clear_snr),
      checkR (\<lambda>p. radio_state (rs p) \<noteq> TRANSMIT) (RuntimeError ''changing channel while txing is not supported''),
      setRadioState IDLE,
      (\<lambda>p. setRxPower (getChannelNumber p) 0 p),
      setRxPower newChannel 0,
      updR (\<lambda>p. p\<lparr>noiseLevel := thermalNoise p, rs := (rs p)\<lparr>rs_channelNumber := newChannel\<rparr>\<rparr>),
      letR (phy_getRate True) (\<lambda>r. updR (\<lambda>p. p\<lparr>rs := (rs p)\<lparr>rs_bitrate := r\<rparr>\<rparr>)),
      letR (\<lambda>p. updateHostChannel (myHostRef w) newChannel (cc p)) (\<lambda>c. updR (\<lambda>p. p\<lparr>cc := c\<rparr>)),
      letR (\<lambda>p. getOngoingTransmissions (now w) newChannel (cc p)) (\<lambda>(tl, c). doR
        [updR (\<lambda>p. p\<lparr>cc := c\<rparr>), foldR (pick_up w newChannel) (enumerate 0 tl)])]"

definition handle_PLME_SET_request :: "PhyEnv \<Rightarrow> PHYPIBenum \<Rightarrow> int \<Rightarrow> pstmt" where
  "handle_PLME_SET_request w attribute channel =
     (case attribute of
        PHY_CURRENT_CHANNEL \<Rightarrow>
          (if channel < 0 \<or> channel > 26 then (\<lambda>p. Inl (RuntimeError ''channel not supported by IEEE802.15.4''))
           else if \<not> channelSupported channel then PLME_SET_confirm phy_INVALID_PARAMETER attribute
           else doR
             [whenR (\<lambda>p. channel \<noteq> getChannelNumber p)
                (doR [changeChannel w channel, (\<lambda>p. outP (ChannelChanged (rs p)) p)]),
              PLME_SET_confirm phy_SUCCESS attribute])
      | _ \<Rightarrow> PLME_SET_confirm phy_UNSUPPORT_ATTRIBUTE attribute)"

section \<open>Messages\<close>

text \<open>
  A message from the MAC: a primitive (\<open>None\<close> is the kind 0) or a frame, which the module takes for a
  primitive when its length is zero.
\<close>

datatype uppermsg = UpperPrimitive "Ieee802154MacPhyPrimitiveType option" PHYenum PHYPIBenum int | UpperFrame Ieee802154Frame

datatype phyevent = FromMac uppermsg | FromAir AirFrame | PhyTimeout PhyTimer | RxOver nat

definition phy_handlePrimitive :: "PhyEnv \<Rightarrow> Ieee802154MacPhyPrimitiveType \<Rightarrow> PHYenum \<Rightarrow> PHYPIBenum \<Rightarrow> int \<Rightarrow> pstmt" where
  "phy_handlePrimitive w kind status attribute channel =
     (case kind of
        PLME_CCA_REQUEST \<Rightarrow>
          ifR (\<lambda>p. phyRadioState p = phy_RX_ON)
            (doR
              [checkR (\<lambda>p. phyTimers p PHY_CCA_TIMER = None) (RuntimeError ''received a PLME_CCA_REQUEST while CCA is running''),
               updR (\<lambda>p. p\<lparr>isCCAStartIdle := (radio_state (rs p) = IDLE)\<rparr>),
               letR (phy_getRate False) (\<lambda>r. scheduleP w PHY_CCA_TIMER (now w + 8 / r))])
            (\<lambda>p. PLME_CCA_confirm (phyRadioState p) p)
      | PLME_ED_REQUEST \<Rightarrow>
          ifR (\<lambda>p. phyRadioState p = phy_RX_ON)
            (doR
              [letR getRxPower (\<lambda>r. updR (\<lambda>p. p\<lparr>rxPeakPower := r\<rparr>)),
               checkR (\<lambda>p. phyTimers p PHY_ED_TIMER = None) AssertFailed,
               letR (phy_getRate False) (\<lambda>r. scheduleP w PHY_ED_TIMER (now w + 8 / r))])
            (\<lambda>p. PLME_ED_confirm (phyRadioState p) 0 p)
      | PLME_SET_TRX_STATE_REQUEST \<Rightarrow> handle_PLME_SET_TRX_STATE_request w status
      | PLME_SET_REQUEST \<Rightarrow> handle_PLME_SET_request w attribute channel
      | _ \<Rightarrow> (\<lambda>p. Inl (RuntimeError ''unknown primitive received'')))"

text \<open>A timer that fires is no longer scheduled.\<close>

definition phy_handleSelfMsg :: "PhyEnv \<Rightarrow> PhyTimer \<Rightarrow> pstmt" where
  "phy_handleSelfMsg w t = doR
     [cancelP t,
      (case t of
         PHY_TX_OVER_TIMER \<Rightarrow> doR
           [checkR (\<lambda>p. txPktCopy p \<noteq> None) NullDeref,
            setRadioState IDLE,
            updR (\<lambda>p. p\<lparr>txPktCopy := None\<rparr>),
            PD_DATA_confirm phy_SUCCESS,
            apply_newState w]
       | PHY_CCA_TIMER \<Rightarrow>
           ifR (\<lambda>p. radio_state (rs p) = IDLE \<and> isCCAStartIdle p) (PLME_CCA_confirm phy_IDLE) (PLME_CCA_confirm phy_BUSY)
       | PHY_ED_TIMER \<Rightarrow> letR calculateEnergyLevel (PLME_ED_confirm phy_SUCCESS)
       | PHY_TRX_TIMER \<Rightarrow> doR
           [updR (\<lambda>p. p\<lparr>phyRadioState := newState_turnaround p\<rparr>),
            setRadioState IDLE,
            (\<lambda>p. PLME_SET_TRX_STATE_confirm (phyRadioState p) p)])]"

definition handleRxOver :: "PhyEnv \<Rightarrow> nat \<Rightarrow> pstmt" where
  "handleRxOver w a = doR [updR (\<lambda>p. p\<lparr>endRx := (endRx p)(a := None)\<rparr>), handleLowerMsgEnd w a]"

definition processAirFrame :: "AirFrame \<Rightarrow> Phy \<Rightarrow> bool" where
  "processAirFrame f p \<longleftrightarrow> channelNumber f = getChannelNumber p"

definition phy_handleMessage :: "PhyEnv \<Rightarrow> phyevent \<Rightarrow> pstmt" where
  "phy_handleMessage w e =
     (case e of
        FromMac (UpperPrimitive kind status attribute channel) \<Rightarrow>
          (case kind of None \<Rightarrow> (\<lambda>p. Inl (RuntimeError ''a primitive with message kind zero''))
           | Some k \<Rightarrow> phy_handlePrimitive w k status attribute channel)
      | FromMac (UpperFrame frame) \<Rightarrow>
          (if byteLength frame = 0 then
             (\<lambda>p. Inl (RuntimeError (if errKind frame = NO_ERROR then ''a primitive with message kind zero'' else ''check_and_cast'')))
           else (\<lambda>p. phy_handleUpperMsg w (encapsulatePacket w frame p) p))
      | PhyTimeout t \<Rightarrow> phy_handleSelfMsg w t
      | RxOver a \<Rightarrow> handleRxOver w a
      | FromAir f \<Rightarrow>
          whenR (\<lambda>p. processAirFrame f p \<and> phyRadioState p = phy_RX_ON)
            (doR
              [updR (\<lambda>p. p\<lparr>airframes := (airframes p)(new_air w 0 \<mapsto> f\<lparr>arrivalTime := now w\<rparr>)\<rparr>),
               handleLowerMsgStart w (new_air w 0), bufferMsg w (new_air w 0)]))"

section \<open>Initialisation\<close>

record PhyPar =
  par_channelNumber :: int
  par_carrier :: rat
  par_sensitivity :: rat
  par_thermalNoise :: rat
  par_transmitterPower :: rat
  par_cc_pMax :: rat
  par_pathLossAlpha :: rat
  par_cc_alpha :: rat
  par_host :: nat

text \<open>
  The three stages: members and models, notifications, and the registration of the channel, for which the
  base class has looked up the host.
\<close>

definition phy_initialize :: "PhyEnv \<Rightarrow> PhyPar \<Rightarrow> ChannelControl \<Rightarrow> Phy res" where
  "phy_initialize w par c =
     (let p = \<lparr>carrierFrequency = par_carrier par, sensitivity = dBm2mW (libm w) (par_sensitivity par),
            thermalNoise = dBm2mW (libm w) (par_thermalNoise par), transmitterPower = par_transmitterPower par,
            noiseLevel = dBm2mW (libm w) (par_thermalNoise par), snrInfo = \<lparr>ptr = None, rcvdPower = 0, sList = []\<rparr>, recvBuff = [],
            txPktCopy = None, rxPower = replicate 27 0, rxPeakPower = 0,
            rs = \<lparr>radio_state = IDLE, rs_channelNumber = par_channelNumber par, rs_bitrate = - 1\<rparr>,
            phyRadioState = phy_RX_ON, newState = phy_IDLE, newState_turnaround = phy_IDLE, isCCAStartIdle = False,
            phyTimers = (\<lambda>_. None), airframes = (\<lambda>_. None), endRx = (\<lambda>_. None), cc = c, phyOut = []\<rparr>
      in if par_transmitterPower par > par_cc_pMax par then Inl (RuntimeError ''transmitterPower cannot be bigger than pMax'')
         else doR
           [letR (phy_getRate True) (\<lambda>r. updR (\<lambda>p. p\<lparr>rs := (rs p)\<lparr>rs_bitrate := r\<rparr>\<rparr>)),
            checkR (\<lambda>_. \<not> par_pathLossAlpha par < par_cc_alpha par) (RuntimeError ''pathLossAlpha can't be smaller than in ChannelControl''),
            (\<lambda>p. outP (RadioStateChanged (rs p)) p),
            (\<lambda>p. outP (ChannelChanged (rs p)) p),
            (case lookupHost (par_host par) c of
               None \<Rightarrow> (\<lambda>p. Inl (RuntimeError ''host not registered yet in ChannelControl''))
             | Some h \<Rightarrow> letR (\<lambda>p. updateHostChannel h (getChannelNumber p) (cc p)) (\<lambda>c. updR (\<lambda>p. p\<lparr>cc := c\<rparr>)))] p)"

end
