(* ===== verification/Phy_Invariant.thy ===== *)
theory Phy_Invariant
  imports Phy
begin

text \<open>
  The invariant of the physical layer and the steps that keep it: the powers of the frames on the air
  are accounted for in the noise level and in the accumulators of the channels, the frames in the
  receive buffer are the ones alive, and the transceiver's states, pending requests and timers agree.
\<close>

section \<open>Invariant\<close>

text \<open>
  The accounts of the receiver. The frame being received is forced when the MAC switched the radio
  off during its reception: its power is then part of the noise. \<open>leak\<close> is what further forced
  switch-offs during the same reception have added to the noise.
\<close>

abbreviation keys :: "Phy \<Rightarrow> nat set" where
  "keys p \<equiv> fst ` set (recvBuff p)"

definition forced :: "Phy \<Rightarrow> bool" where
  "forced p \<longleftrightarrow> (\<exists>a f. ptr (snrInfo p) = Some a \<and> airframes p a = Some f \<and> airKind f = BITERROR_FORCE_TRX_OFF)"

definition signal :: "Phy \<Rightarrow> rat" where
  "signal p = (if ptr (snrInfo p) \<noteq> None \<and> \<not> forced p then rcvdPower (snrInfo p) else 0)"

definition power_wf :: "Phy \<Rightarrow> bool" where
  "power_wf p \<longleftrightarrow> om_wf (recvBuff p) \<and> om_nonneg (recvBuff p) \<and> 0 \<le> getChannelNumber p \<and> getChannelNumber p \<le> 26 \<and>
     rxPower p = (replicate 27 0)[nat (getChannelNumber p) := om_sum (recvBuff p)]"

definition noise_wf :: "rat \<Rightarrow> Phy \<Rightarrow> bool" where
  "noise_wf leak p \<longleftrightarrow> noiseLevel p = thermalNoise p + (om_sum (recvBuff p) - signal p) + leak"

definition snr_wf :: "Phy \<Rightarrow> bool" where
  "snr_wf p \<longleftrightarrow> (\<forall>a. ptr (snrInfo p) = Some a \<longrightarrow> om_find (recvBuff p) a = Some (rcvdPower (snrInfo p)) \<and> sList (snrInfo p) \<noteq> [])"

definition heap_wf :: "Phy \<Rightarrow> bool" where
  "heap_wf p \<longleftrightarrow> dom (airframes p) = keys p \<and> dom (endRx p) = keys p"

definition recv_wf :: "rat \<Rightarrow> Phy \<Rightarrow> bool" where
  "recv_wf leak p \<longleftrightarrow> power_wf p \<and> noise_wf leak p \<and> snr_wf p \<and> heap_wf p"

text \<open>The transceiver: which states, pending requests and timers go together.\<close>

definition trx_wf :: "Phy \<Rightarrow> bool" where
  "trx_wf p \<longleftrightarrow>
     phyRadioState p \<in> {phy_RX_ON, phy_TX_ON, phy_TRX_OFF} \<and>
     newState p \<in> {phy_IDLE, phy_RX_ON, phy_TX_ON, phy_TRX_OFF} \<and>
     (phyTimers p PHY_TRX_TIMER \<noteq> None \<longrightarrow> phyRadioState p = phy_TRX_OFF \<and> newState p = phy_IDLE \<and>
        newState_turnaround p \<in> {phy_RX_ON, phy_TX_ON}) \<and>
     (radio_state (rs p) = TRANSMIT \<longrightarrow> phyRadioState p = phy_TX_ON \<and> phyTimers p PHY_TX_OVER_TIMER \<noteq> None) \<and>
     (phyTimers p PHY_TX_OVER_TIMER \<noteq> None \<longleftrightarrow> txPktCopy p \<noteq> None) \<and>
     (radio_state (rs p) = RECV \<longrightarrow> phyRadioState p = phy_RX_ON) \<and>
     (newState p \<noteq> phy_IDLE \<longrightarrow> radio_state (rs p) = TRANSMIT \<or> radio_state (rs p) = RECV)"

definition busy_wf :: "Phy \<Rightarrow> bool" where
  "busy_wf p \<longleftrightarrow> (radio_state (rs p) = RECV \<longrightarrow> ptr (snrInfo p) \<noteq> None \<or> noiseLevel p \<ge> sensitivity p)"

text \<open>The faults of the module that are errors it reports, and what the kernel refuses as a time in the past.\<close>

definition reported :: "fault \<Rightarrow> bool" where
  "reported e \<longleftrightarrow> e = AssertFailed \<or> (\<exists>s. e = RuntimeError s) \<or> e = KernelError ''scheduleAt: cannot schedule to the past''"

lemmas phy_stmts = doR.simps stmt_defs bindR_simps outP_def setRadioState_def cancelP_def Let_def

text \<open>What the parts of the invariant do not depend on.\<close>

lemma forced_irrelevant [simp]:
  "forced (p\<lparr>phyOut := x0\<rparr>) = forced p"
  "forced (p\<lparr>cc := x1\<rparr>) = forced p"
  "forced (p\<lparr>txPktCopy := x2\<rparr>) = forced p"
  "forced (p\<lparr>isCCAStartIdle := x3\<rparr>) = forced p"
  "forced (p\<lparr>newState := x4\<rparr>) = forced p"
  "forced (p\<lparr>newState_turnaround := x5\<rparr>) = forced p"
  "forced (p\<lparr>phyRadioState := x6\<rparr>) = forced p"
  "forced (p\<lparr>phyTimers := x7\<rparr>) = forced p"
  "forced (p\<lparr>endRx := x8\<rparr>) = forced p"
  "forced (p\<lparr>rxPeakPower := x9\<rparr>) = forced p"
  by (simp_all add: forced_def)

lemma signal_irrelevant [simp]:
  "signal (p\<lparr>phyOut := x0\<rparr>) = signal p"
  "signal (p\<lparr>cc := x1\<rparr>) = signal p"
  "signal (p\<lparr>txPktCopy := x2\<rparr>) = signal p"
  "signal (p\<lparr>isCCAStartIdle := x3\<rparr>) = signal p"
  "signal (p\<lparr>newState := x4\<rparr>) = signal p"
  "signal (p\<lparr>newState_turnaround := x5\<rparr>) = signal p"
  "signal (p\<lparr>phyRadioState := x6\<rparr>) = signal p"
  "signal (p\<lparr>phyTimers := x7\<rparr>) = signal p"
  "signal (p\<lparr>endRx := x8\<rparr>) = signal p"
  "signal (p\<lparr>rxPeakPower := x9\<rparr>) = signal p"
  by (simp_all add: signal_def)

lemma recv_wf_irrelevant [simp]:
  "recv_wf leak (p\<lparr>phyOut := x0\<rparr>) = recv_wf leak p"
  "recv_wf leak (p\<lparr>cc := x1\<rparr>) = recv_wf leak p"
  "recv_wf leak (p\<lparr>txPktCopy := x2\<rparr>) = recv_wf leak p"
  "recv_wf leak (p\<lparr>isCCAStartIdle := x3\<rparr>) = recv_wf leak p"
  "recv_wf leak (p\<lparr>newState := x4\<rparr>) = recv_wf leak p"
  "recv_wf leak (p\<lparr>newState_turnaround := x5\<rparr>) = recv_wf leak p"
  "recv_wf leak (p\<lparr>phyRadioState := x6\<rparr>) = recv_wf leak p"
  "recv_wf leak (p\<lparr>phyTimers := x7\<rparr>) = recv_wf leak p"
  by (simp_all add: recv_wf_def power_wf_def snr_wf_def heap_wf_def noise_wf_def getChannelNumber_def)

lemma busy_wf_irrelevant [simp]:
  "busy_wf (p\<lparr>phyOut := x0\<rparr>) = busy_wf p"
  "busy_wf (p\<lparr>cc := x1\<rparr>) = busy_wf p"
  "busy_wf (p\<lparr>txPktCopy := x2\<rparr>) = busy_wf p"
  "busy_wf (p\<lparr>isCCAStartIdle := x3\<rparr>) = busy_wf p"
  "busy_wf (p\<lparr>newState := x4\<rparr>) = busy_wf p"
  "busy_wf (p\<lparr>newState_turnaround := x5\<rparr>) = busy_wf p"
  "busy_wf (p\<lparr>phyRadioState := x6\<rparr>) = busy_wf p"
  "busy_wf (p\<lparr>phyTimers := x7\<rparr>) = busy_wf p"
  "busy_wf (p\<lparr>airframes := x8\<rparr>) = busy_wf p"
  "busy_wf (p\<lparr>endRx := x9\<rparr>) = busy_wf p"
  "busy_wf (p\<lparr>recvBuff := x10\<rparr>) = busy_wf p"
  by (simp_all add: busy_wf_def)

lemma trx_wf_irrelevant [simp]:
  "trx_wf (p\<lparr>phyOut := x0\<rparr>) = trx_wf p"
  "trx_wf (p\<lparr>cc := x1\<rparr>) = trx_wf p"
  "trx_wf (p\<lparr>isCCAStartIdle := x2\<rparr>) = trx_wf p"
  "trx_wf (p\<lparr>airframes := x3\<rparr>) = trx_wf p"
  "trx_wf (p\<lparr>endRx := x4\<rparr>) = trx_wf p"
  "trx_wf (p\<lparr>recvBuff := x5\<rparr>) = trx_wf p"
  by (simp_all add: trx_wf_def)

lemma start_irrelevant [simp]:
  "power_wf (p\<lparr>airframes := x0\<rparr>) = power_wf p"
  "power_wf (p\<lparr>endRx := x1\<rparr>) = power_wf p"
  "snr_wf (p\<lparr>airframes := x2\<rparr>) = snr_wf p"
  "snr_wf (p\<lparr>endRx := x3\<rparr>) = snr_wf p"
  by (simp_all add: power_wf_def snr_wf_def getChannelNumber_def)

lemma noise_wf_endRx [simp]: "noise_wf leak (p\<lparr>endRx := x\<rparr>) = noise_wf leak p"
  by (simp add: noise_wf_def)

lemma addRxPower_eq:
  assumes "power_wf p"
  shows "addRxPower r p = Inr (p\<lparr>rxPower := (replicate 27 0)[nat (getChannelNumber p) := om_sum (recvBuff p) + r]\<rparr>)"
proof -
  have "nat (getChannelNumber p) < 27" using assms by (auto simp: power_wf_def)
  then show ?thesis
    using assms by (simp add: power_wf_def addRxPower_def letR_def getRxPower_def setRxPower_def Let_def)
qed

lemma getRxPower_eq: "power_wf p \<Longrightarrow> getRxPower p = Inr (om_sum (recvBuff p))"
  by (auto simp: power_wf_def getRxPower_def Let_def nat_less_iff)

lemma power_wf_set:
  assumes "power_wf p" and "a \<notin> keys p" and "0 \<le> r"
  shows "power_wf (p\<lparr>rxPower := (replicate 27 0)[nat (getChannelNumber p) := om_sum (recvBuff p) + r], recvBuff := om_set a r (recvBuff p)\<rparr>)"
  using assms by (simp add: power_wf_def getChannelNumber_def om_wf_set om_sum_set om_find_None om_nonneg_set)

text \<open>Two views of the state, for what an operation leaves alone.\<close>

definition accounts :: "Phy \<Rightarrow> (nat, rat) omap \<times> (nat \<rightharpoonup> AirFrame) \<times> (nat \<rightharpoonup> rat) \<times> rat \<times> rat list \<times> int" where
  "accounts p = (recvBuff p, airframes p, endRx p, thermalNoise p, rxPower p, getChannelNumber p)"

definition trx :: "Phy \<Rightarrow> PHYenum \<times> PHYenum \<times> PHYenum \<times> (PhyTimer \<Rightarrow> rat option) \<times> AirFrame option \<times> rat" where
  "trx p = (phyRadioState p, newState p, newState_turnaround p, phyTimers p, txPktCopy p, sensitivity p)"

lemmas views = accounts_def trx_def getChannelNumber_def

lemma start_noise_eq:
  obtains p' where "start_noise w r p = Inr p'" and "accounts p' = accounts p" and "trx p' = trx p" and "cc p' = cc p"
    and "noiseLevel p' = noiseLevel p + r" and "ptr (snrInfo p') = ptr (snrInfo p)" and "rcvdPower (snrInfo p') = rcvdPower (snrInfo p)"
    and "sList (snrInfo p) \<noteq> [] \<longrightarrow> sList (snrInfo p') \<noteq> []"
    and "radio_state (rs p') = (if noiseLevel p + r \<ge> sensitivity p \<and> radio_state (rs p) = IDLE then RECV else radio_state (rs p))"
  by (cases "ptr (snrInfo p) \<noteq> None"; cases "noiseLevel p + r \<ge> sensitivity p \<and> radio_state (rs p) = IDLE")
    (auto simp: start_noise_def phy_stmts addNewSnr_def views)

lemma start_reception_eq:
  obtains p' where "start_reception w a r p = Inr p'" and "accounts p' = accounts p" and "trx p' = trx p" and "cc p' = cc p"
    and "noiseLevel p' = noiseLevel p" and "ptr (snrInfo p') = Some a" and "rcvdPower (snrInfo p') = r"
    and "sList (snrInfo p') \<noteq> []" and "radio_state (rs p') = RECV"
  by (auto simp: start_reception_def phy_stmts addNewSnr_def views)

lemma handleLowerMsgStart_eq:
  assumes pw: "power_wf p" and a: "a \<notin> keys p" and f: "airframes p a = Some f" and r: "r = received_power w f p" and pos: "0 \<le> r"
  obtains p2 where "handleLowerMsgStart w a p = (if arrivalTime f = now w \<and> r \<ge> sensitivity p \<and> ptr (snrInfo p) = None
      then start_reception w a r p2 else start_noise w r p2)"
    and "power_wf p2" and "recvBuff p2 = om_set a r (recvBuff p)" and "trx p2 = trx p" and "cc p2 = cc p"
    and "airframes p2 = airframes p" and "endRx p2 = endRx p" and "thermalNoise p2 = thermalNoise p"
    and "getChannelNumber p2 = getChannelNumber p" and "noiseLevel p2 = noiseLevel p" and "snrInfo p2 = snrInfo p" and "rs p2 = rs p"
proof -
  define p1 where "p1 = p\<lparr>rxPower := (replicate 27 0)[nat (getChannelNumber p) := om_sum (recvBuff p) + r], recvBuff := om_set a r (recvBuff p)\<rparr>"
  have t1: "phyTimers p1 = phyTimers p" by (simp add: p1_def)
  have pw1: "power_wf p1" unfolding p1_def by (rule power_wf_set [OF pw a pos])
  define p2 where "p2 = (if phyTimers p1 PHY_ED_TIMER \<noteq> None \<and> rxPeakPower p1 < om_sum (recvBuff p1)
     then p1\<lparr>rxPeakPower := om_sum (recvBuff p1)\<rparr> else p1)"
  have p2: "recvBuff p2 = om_set a r (recvBuff p)" "trx p2 = trx p" "cc p2 = cc p" "airframes p2 = airframes p" "endRx p2 = endRx p"
    "thermalNoise p2 = thermalNoise p" "getChannelNumber p2 = getChannelNumber p" "noiseLevel p2 = noiseLevel p"
    "snrInfo p2 = snrInfo p" "rs p2 = rs p" "sensitivity p2 = sensitivity p"
    by (simp_all add: p2_def p1_def views)
  have pw2: "power_wf p2" using pw1 by (simp add: p2_def power_wf_def getChannelNumber_def)
  have "handleLowerMsgStart w a p = (if arrivalTime f = now w \<and> r \<ge> sensitivity p2 \<and> ptr (snrInfo p2) = None
      then start_reception w a r p2 else start_noise w r p2)"
    unfolding handleLowerMsgStart_def p2_def
    by (simp add: air_at_def f letR_def addRxPower_eq [OF pw] r [symmetric] updR_def whenR_def ifR_def
        p1_def [symmetric] getRxPower_eq [OF pw1] t1)
  then show ?thesis using that pw2 p2 by simp
qed

lemma power_wf_accounts: "accounts p' = accounts p \<Longrightarrow> power_wf p' = power_wf p"
  by (simp add: power_wf_def accounts_def)

lemma start_ok:
  assumes wf: "power_wf p" "noise_wf leak p" "snr_wf p" and a: "a \<notin> keys p" and f: "airframes p a = Some f"
    and kind: "arrivalTime f = now w \<longrightarrow> airKind f \<noteq> BITERROR_FORCE_TRX_OFF"
    and t: "trx_wf p" "busy_wf p" "phyRadioState p = phy_RX_ON" and pos: "0 \<le> received_power w f p"
  shows "succR (\<lambda>p'. power_wf p' \<and> noise_wf leak p' \<and> snr_wf p' \<and> trx_wf p' \<and> busy_wf p' \<and> keys p' = insert a (keys p) \<and>
     airframes p' = airframes p \<and> endRx p' = endRx p \<and> phyRadioState p' = phy_RX_ON \<and> cc p' = cc p \<and> forced p' = forced p \<and>
     sensitivity p' = sensitivity p \<and> thermalNoise p' = thermalNoise p \<and> newState p' = newState p) (handleLowerMsgStart w a p)"
proof -
  have fresh: "om_find (recvBuff p) a = None" using a by (simp add: om_find_None)
  define r where "r = received_power w f p"
  have sum: "om_sum (om_set a r (recvBuff p)) = om_sum (recvBuff p) + r"
    using wf(1) fresh by (simp add: om_sum_set power_wf_def)
  obtain p2 where eq: "handleLowerMsgStart w a p = (if arrivalTime f = now w \<and> r \<ge> sensitivity p \<and> ptr (snrInfo p) = None
      then start_reception w a r p2 else start_noise w r p2)"
    and p2: "power_wf p2" "recvBuff p2 = om_set a r (recvBuff p)" "trx p2 = trx p" "cc p2 = cc p" "airframes p2 = airframes p"
      "endRx p2 = endRx p" "thermalNoise p2 = thermalNoise p" "getChannelNumber p2 = getChannelNumber p"
      "noiseLevel p2 = noiseLevel p" "snrInfo p2 = snrInfo p" "rs p2 = rs p"
    by (rule handleLowerMsgStart_eq [OF wf(1) a f r_def]) (use pos r_def in simp)
  show ?thesis
  proof (cases "arrivalTime f = now w \<and> r \<ge> sensitivity p \<and> ptr (snrInfo p) = None")
    case True
    obtain p' where p': "start_reception w a r p2 = Inr p'" "accounts p' = accounts p2" "trx p' = trx p2" "cc p' = cc p2"
      "noiseLevel p' = noiseLevel p2" "ptr (snrInfo p') = Some a" "rcvdPower (snrInfo p') = r" "sList (snrInfo p') \<noteq> []" "radio_state (rs p') = RECV"
      by (rule start_reception_eq)
    have "power_wf p'" using p' p2(1) power_wf_accounts by blast
    moreover have "noise_wf leak p'" "snr_wf p'" "trx_wf p'" "busy_wf p'" "\<not> forced p'" "\<not> forced p"
      using True wf(2,3) kind t f p'(2-) p2(2-) sum
      by (simp_all add: noise_wf_def signal_def forced_def snr_wf_def trx_wf_def busy_wf_def accounts_def trx_def om_find_set)
    ultimately show ?thesis using True eq p' p2 t(3) by (simp add: accounts_def trx_def om_keys_set)
  next
    case False
    obtain p' where p': "start_noise w r p2 = Inr p'" "accounts p' = accounts p2" "trx p' = trx p2" "cc p' = cc p2"
      "noiseLevel p' = noiseLevel p2 + r" "ptr (snrInfo p') = ptr (snrInfo p2)" "rcvdPower (snrInfo p') = rcvdPower (snrInfo p2)"
      "sList (snrInfo p2) \<noteq> [] \<longrightarrow> sList (snrInfo p') \<noteq> []"
      "radio_state (rs p') = (if noiseLevel p2 + r \<ge> sensitivity p2 \<and> radio_state (rs p2) = IDLE then RECV else radio_state (rs p2))"
      by (rule start_noise_eq)
    have "power_wf p'" using p' p2(1) power_wf_accounts by blast
    moreover have fo: "forced p' = forced p" using p' p2 by (simp add: forced_def accounts_def)
    moreover have "noise_wf leak p'" using wf(2) fo p'(2-) p2(2-) sum by (simp add: noise_wf_def signal_def accounts_def)
    moreover have "snr_wf p'" using wf(3) p'(2-) p2(2-) fresh by (auto simp: snr_wf_def accounts_def om_find_set)
    moreover have "trx_wf p'" using t p'(2-) p2(2-) by (auto simp: trx_wf_def trx_def)
    moreover have "busy_wf p'" using t pos p'(2-) p2(2-) by (auto simp: busy_wf_def trx_def r_def)
    ultimately show ?thesis using p' p2 t(3) unfolding eq if_not_P [OF False] by (simp add: accounts_def trx_def om_keys_set)
  qed
qed


text \<open>What the C library promises: roots are not negative, and neither are powers of such a number.\<close>

definition libm_ok :: "Libm \<Rightarrow> bool" where
  "libm_ok lm \<longleftrightarrow> (\<forall>x. 0 \<le> sqrtL lm x) \<and> (\<forall>x y. 0 \<le> x \<longrightarrow> 0 \<le> powL lm x y)"

lemma received_power_nonneg: "libm_ok (libm w) \<Longrightarrow> 0 \<le> pSend f \<Longrightarrow> 0 \<le> received_power w f p"
  by (simp add: received_power_def calculateReceivedPower_def libm_ok_def distance_def M_PI_def Let_def)

lemma arrival_ok:
  assumes wf: "recv_wf leak p" and t: "trx_wf p" "busy_wf p" "phyRadioState p = phy_RX_ON" and a: "airframes p a = None"
    and f: "arrivalTime f = now w \<longrightarrow> airKind f \<noteq> BITERROR_FORCE_TRX_OFF" "libm_ok (libm w)" "0 \<le> pSend f"
  shows "wpR (\<lambda>p'. recv_wf leak p' \<and> trx_wf p' \<and> busy_wf p' \<and> phyRadioState p' = phy_RX_ON \<and> cc p' = cc p \<and>
     airframes p' = (airframes p)(a \<mapsto> f) \<and> forced p' = forced p \<and> newState p' = newState p \<and>
     sensitivity p' = sensitivity p \<and> thermalNoise p' = thermalNoise p) reported
   (doR [updR (\<lambda>p. p\<lparr>airframes := (airframes p)(a \<mapsto> f)\<rparr>), handleLowerMsgStart w a, bufferMsg w a] p)"
proof -
  let ?p = "p\<lparr>airframes := (airframes p)(a \<mapsto> f)\<rparr>"
  have a': "a \<notin> keys p" using wf a by (auto simp: recv_wf_def heap_wf_def)
  have notptr: "ptr (snrInfo p) \<noteq> Some a"
    using wf a' by (auto simp: recv_wf_def snr_wf_def om_find_None [symmetric])
  have fo: "forced ?p = forced p" using notptr by (auto simp: forced_def)
  have "power_wf ?p" "noise_wf leak ?p" "snr_wf ?p" "trx_wf ?p" "busy_wf ?p"
    using wf t fo by (simp_all add: recv_wf_def noise_wf_def signal_def)
  then obtain p' where p': "handleLowerMsgStart w a ?p = Inr p'" "power_wf p'" "noise_wf leak p'" "snr_wf p'" "trx_wf p'" "busy_wf p'"
    "keys p' = insert a (keys p)" "airframes p' = (airframes p)(a \<mapsto> f)" "endRx p' = endRx p" "phyRadioState p' = phy_RX_ON" "cc p' = cc p"
    "forced p' = forced p" "sensitivity p' = sensitivity p" "thermalNoise p' = thermalNoise p" "newState p' = newState p"
    using start_ok [of ?p leak a f w] a' f t(3) received_power_nonneg [OF f(2,3)] fo by (auto simp: succR_iff)
  have "heap_wf (p'\<lparr>endRx := (endRx p)(a \<mapsto> arrivalTime f + duration f)\<rparr>)"
    using wf p' by (simp add: heap_wf_def recv_wf_def)
  then show ?thesis
    using p' by (simp add: updR_def bufferMsg_def letR_def air_at_def Let_def reported_def recv_wf_def)
qed

section \<open>The end of a frame\<close>

lemma buffered_eq: "om_find (recvBuff p) a = Some r \<Longrightarrow> buffered a k p = k r p"
  by (simp add: buffered_def om_index_def)

lemma received_correctly_eq:
  "xs \<noteq> [] \<Longrightarrow> \<exists>ok. isReceivedCorrectly t xs = Inr ok"
  by (cases xs) (simp_all add: isReceivedCorrectly_def)

lemma end_reception_eq:
  assumes "ptr (snrInfo p) = Some a" and "sList (snrInfo p) \<noteq> []" and f: "airframes p a = Some f" and r: "om_find (recvBuff p) a = Some r"
  obtains p' where "end_reception w a p = Inr p'" and "recvBuff p' = om_erase a (recvBuff p)" and "airframes p' = (airframes p)(a := None)"
    and "endRx p' = endRx p" and "thermalNoise p' = thermalNoise p" and "rxPower p' = rxPower p" and "rs p' = rs p" and "trx p' = trx p"
    and "cc p' = cc p" and "noiseLevel p' = noiseLevel p - (if forced p then r else 0)" and "ptr (snrInfo p') = None"
proof -
  obtain ok where ok: "isReceivedCorrectly (snirThreshold w) (sList (snrInfo p)) = Inr ok"
    using received_correctly_eq assms(2) by blast
  have fo: "forced p \<longleftrightarrow> airKind f = BITERROR_FORCE_TRX_OFF" using assms(1) f by (simp add: forced_def)
  show ?thesis
    using that f r ok fo
    by (cases "airKind f = BITERROR_FORCE_TRX_OFF"; cases "errKind (encapsulated f) = BITERROR_FORCE_TRX_OFF")
      (auto simp: end_reception_def phy_stmts air_at_def lower_noise_def buffered_eq clear_snr_def erase_frame_def deleteAir_def
        deliver_frame_def trx_def)
qed

lemma end_noise_eq:
  assumes "airframes p a = Some f" and r: "om_find (recvBuff p) a = Some r"
  obtains p' where "end_noise w a p = Inr p'" and "recvBuff p' = om_erase a (recvBuff p)" and "airframes p' = (airframes p)(a := None)"
    and "endRx p' = endRx p" and "thermalNoise p' = thermalNoise p" and "rxPower p' = rxPower p" and "rs p' = rs p" and "trx p' = trx p"
    and "cc p' = cc p" and "noiseLevel p' = noiseLevel p - r" and "ptr (snrInfo p') = ptr (snrInfo p)"
    and "rcvdPower (snrInfo p') = rcvdPower (snrInfo p)" and "sList (snrInfo p) \<noteq> [] \<longrightarrow> sList (snrInfo p') \<noteq> []"
  using assms by (cases "ptr (snrInfo p)") (auto simp: end_noise_def phy_stmts lower_noise_def buffered_eq erase_frame_def deleteAir_def
      addNewSnr_def trx_def)

text \<open>The accounts after a frame has left.\<close>

lemma frame_left:
  assumes wf: "recv_wf leak p" and r: "om_find (recvBuff p) a = Some r"
    and p': "recvBuff p' = om_erase a (recvBuff p)" "airframes p' = (airframes p)(a := None)" "endRx p' = (endRx p)(a := None)"
      "thermalNoise p' = thermalNoise p" "rxPower p' = (replicate 27 0)[nat (getChannelNumber p) := om_sum (recvBuff p) - r]"
      "getChannelNumber p' = getChannelNumber p"
    and snr: "if ptr (snrInfo p) = Some a
      then noiseLevel p' = noiseLevel p - (if forced p then r else 0) \<and> ptr (snrInfo p') = None
      else noiseLevel p' = noiseLevel p - r \<and> ptr (snrInfo p') = ptr (snrInfo p) \<and> rcvdPower (snrInfo p') = rcvdPower (snrInfo p) \<and>
        (sList (snrInfo p) \<noteq> [] \<longrightarrow> sList (snrInfo p') \<noteq> [])"
  shows "recv_wf leak p'"
proof -
  have om: "om_wf (recvBuff p)" using wf by (simp add: recv_wf_def power_wf_def)
  have sum: "om_sum (recvBuff p') = om_sum (recvBuff p) - r" using om r by (simp add: p' om_sum_erase)
  have "power_wf p'" using wf sum p' by (simp add: recv_wf_def power_wf_def om_wf_erase om_nonneg_erase)
  moreover have "heap_wf p'" using wf p' by (auto simp: recv_wf_def heap_wf_def om_erase_def)
  moreover have "snr_wf p'" using wf snr p'(1) by (auto simp: recv_wf_def snr_wf_def om_find_erase split: if_splits)
  moreover have "noise_wf leak p'"
  proof (cases "ptr (snrInfo p) = Some a")
    case True
    then have "rcvdPower (snrInfo p) = r" using wf r by (simp add: recv_wf_def snr_wf_def)
    then show ?thesis using True wf snr sum p'(4) by (simp add: recv_wf_def noise_wf_def signal_def)
  next
    case False
    then have "forced p' = forced p" using snr p'(2) by (auto simp: forced_def)
    then show ?thesis using False wf snr sum p'(4) by (simp add: recv_wf_def noise_wf_def signal_def)
  qed
  ultimately show ?thesis by (simp add: recv_wf_def)
qed

section \<open>Pending requests\<close>

lemma rate_ok:
  "0 \<le> getChannelNumber p \<Longrightarrow> getChannelNumber p \<le> 26 \<Longrightarrow> \<exists>r. phy_getRate b p = Inr r \<and> 0 < r"
  by (simp add: phy_getRate_def Let_def BR_868M_def SR_868M_def BR_915M_def SR_915M_def BR_2_4G_def SR_2_4G_def)

lemma rate_cong: "getChannelNumber p' = getChannelNumber p \<Longrightarrow> phy_getRate b p' = phy_getRate b p"
  by (simp add: phy_getRate_def)

lemma turnaround_pos: "0 < r \<Longrightarrow> now w \<le> now w + of_int (uint aTurnaroundTime) / r"
  by (simp add: aTurnaroundTime_def)

text \<open>What is left alone while the transceiver changes its state.\<close>

definition same_recv :: "Phy \<Rightarrow> Phy \<Rightarrow> bool" where
  "same_recv p p' \<longleftrightarrow> accounts p' = accounts p \<and> snrInfo p' = snrInfo p \<and> noiseLevel p' = noiseLevel p \<and> cc p' = cc p \<and>
     sensitivity p' = sensitivity p"

lemma same_recv_wf: "same_recv p p' \<Longrightarrow> recv_wf leak p' = recv_wf leak p \<and> forced p' = forced p"
  by (auto simp: same_recv_def recv_wf_def power_wf_def noise_wf_def snr_wf_def heap_wf_def signal_def forced_def accounts_def)

lemma same_recv_refl [simp]: "same_recv p p"
  by (simp add: same_recv_def)

lemma apply_newState_eq:
  assumes rate: "phy_getRate False p = Inr r" "0 < r"
  shows "succR (\<lambda>p'. same_recv p p' \<and> newState p' = phy_IDLE \<and> txPktCopy p' = txPktCopy p \<and>
    (if newState p = phy_IDLE then p' = p
     else phyRadioState p' = phy_TRX_OFF \<and> radio_state (rs p') = SLEEP \<and> newState_turnaround p' = newState p \<and>
       (if newState p = phy_TRX_OFF then phyTimers p' = phyTimers p \<and> (\<exists>out. phyOut p' = out @ [SetTrxStateConfirm phy_TRX_OFF])
        else phyTimers p' = (phyTimers p)(PHY_TRX_TIMER \<mapsto> now w + of_int (uint aTurnaroundTime) / r)))) (apply_newState w p)"
proof (cases "newState p = phy_IDLE")
  case True
  then show ?thesis by (simp add: apply_newState_def whenR_def)
next
  case False
  define q where "q = p\<lparr>newState_turnaround := newState p, newState := phy_IDLE, phyRadioState := phy_TRX_OFF,
    rs := (rs p)\<lparr>radio_state := SLEEP\<rparr>\<rparr>"
  have "phy_getRate False (q\<lparr>phyOut := x, phyTimers := y\<rparr>) = Inr r" "phy_getRate False (q\<lparr>phyOut := x\<rparr>) = Inr r" for x y
    using rate(1) rate_cong [of "q\<lparr>phyOut := x, phyTimers := y\<rparr>" p] rate_cong [of "q\<lparr>phyOut := x\<rparr>" p]
    by (simp_all add: q_def getChannelNumber_def)
  then show ?thesis
    using False rate(2) turnaround_pos [OF rate(2), of w]
    by (auto simp: apply_newState_def phy_stmts PLME_SET_TRX_STATE_confirm_def startTrxTimer_def scheduleP_def same_recv_def views q_def)
qed

lemma key_frame:
  assumes "recv_wf leak p" and "om_find (recvBuff p) a = Some r"
  shows "\<exists>f. airframes p a = Some f"
proof -
  have "a \<in> keys p" using om_find_None [of "recvBuff p" a] assms(2) by simp
  then show ?thesis using assms(1) by (auto simp: recv_wf_def heap_wf_def)
qed

lemma rxOver_body:
  assumes wf: "recv_wf leak p" and t: "trx_wf p" and r: "om_find (recvBuff p) a = Some r"
  obtains p' where "handleRxOver w a p = whenR (\<lambda>p. noiseLevel p < sensitivity p \<and> phyRadioState p = phy_RX_ON \<and>
        radio_state (rs p) = RECV \<and> ptr (snrInfo p) = None) (doR [setRadioState IDLE, apply_newState w]) p'"
    and "recv_wf leak p'" and "trx p' = trx p" and "cc p' = cc p" and "rs p' = rs p" and "recvBuff p' = om_erase a (recvBuff p)"
    and "ptr (snrInfo p') \<noteq> None \<longrightarrow> ptr (snrInfo p') = ptr (snrInfo p)" and "thermalNoise p' = thermalNoise p"
    and "airframes p' = (airframes p)(a := None)"
proof -
  have pw: "power_wf p" using wf by (simp add: recv_wf_def)
  obtain f where f: "airframes p a = Some f" using key_frame [OF wf r] by blast
  let ?q = "p\<lparr>endRx := (endRx p)(a := None), rxPower := (replicate 27 0)[nat (getChannelNumber p) := om_sum (recvBuff p) - r]\<rparr>"
  have 1: "doR [updR (\<lambda>p. p\<lparr>endRx := (endRx p)(a := None)\<rparr>), buffered a (\<lambda>r. addRxPower (- r))] p = Inr ?q"
    using r pw by (simp add: updR_def buffered_eq addRxPower_eq getChannelNumber_def)
  have q: "om_find (recvBuff ?q) a = Some r" "airframes ?q a = Some f" using r f by simp_all
  have "\<exists>p'. ifR (\<lambda>p. ptr (snrInfo p) = Some a) (end_reception w a) (end_noise w a) ?q = Inr p' \<and> recv_wf leak p' \<and> trx p' = trx p \<and>
    cc p' = cc p \<and> rs p' = rs p \<and> recvBuff p' = om_erase a (recvBuff p) \<and> (ptr (snrInfo p') \<noteq> None \<longrightarrow> ptr (snrInfo p') = ptr (snrInfo p)) \<and>
    thermalNoise p' = thermalNoise p \<and> airframes p' = (airframes p)(a := None)"
  proof (cases "ptr (snrInfo p) = Some a")
    case True
    then have s: "ptr (snrInfo ?q) = Some a" "sList (snrInfo ?q) \<noteq> []" using wf by (simp_all add: recv_wf_def snr_wf_def)
    obtain p' where p': "end_reception w a ?q = Inr p'" "recvBuff p' = om_erase a (recvBuff p)" "airframes p' = (airframes p)(a := None)"
      "endRx p' = (endRx p)(a := None)" "thermalNoise p' = thermalNoise p" "rxPower p' = rxPower ?q" "rs p' = rs p" "trx p' = trx ?q"
      "cc p' = cc p" "noiseLevel p' = noiseLevel p - (if forced ?q then r else 0)" "ptr (snrInfo p') = None"
      using end_reception_eq [OF s q(2,1), of w] by auto
    have "forced ?q = forced p" by (simp add: forced_def)
    then have "recv_wf leak p'" using p' True by (intro frame_left [OF wf r]) (simp_all add: getChannelNumber_def)
    then show ?thesis using p' True by (simp add: ifR_def trx_def)
  next
    case False
    obtain p' where p': "end_noise w a ?q = Inr p'" "recvBuff p' = om_erase a (recvBuff p)" "airframes p' = (airframes p)(a := None)"
      "endRx p' = (endRx p)(a := None)" "thermalNoise p' = thermalNoise p" "rxPower p' = rxPower ?q" "rs p' = rs p" "trx p' = trx ?q"
      "cc p' = cc p" "noiseLevel p' = noiseLevel p - r" "ptr (snrInfo p') = ptr (snrInfo p)"
      "rcvdPower (snrInfo p') = rcvdPower (snrInfo p)" "sList (snrInfo p) \<noteq> [] \<longrightarrow> sList (snrInfo p') \<noteq> []"
      using end_noise_eq [OF q(2,1), of w] by auto
    then have "recv_wf leak p'" using False by (intro frame_left [OF wf r]) (simp_all add: getChannelNumber_def)
    then show ?thesis using p' False by (simp add: ifR_def trx_def)
  qed
  then obtain p' where p': "ifR (\<lambda>p. ptr (snrInfo p) = Some a) (end_reception w a) (end_noise w a) ?q = Inr p'" "recv_wf leak p'"
    "trx p' = trx p" "cc p' = cc p" "rs p' = rs p" "recvBuff p' = om_erase a (recvBuff p)"
    "ptr (snrInfo p') \<noteq> None \<longrightarrow> ptr (snrInfo p') = ptr (snrInfo p)" "thermalNoise p' = thermalNoise p" "airframes p' = (airframes p)(a := None)"
    by blast
  have "handleRxOver w a p = whenR (\<lambda>p. noiseLevel p < sensitivity p \<and> phyRadioState p = phy_RX_ON \<and>
        radio_state (rs p) = RECV \<and> ptr (snrInfo p) = None) (doR [setRadioState IDLE, apply_newState w]) p'"
    using 1 p'(1) by (simp add: handleRxOver_def handleLowerMsgEnd_def updR_def)
  then show ?thesis using that p' by blast
qed

lemma trx_wf_cong: "trx p' = trx p \<Longrightarrow> radio_state (rs p') = radio_state (rs p) \<Longrightarrow> trx_wf p' = trx_wf p"
  by (simp add: trx_wf_def trx_def)

text \<open>A pending request has been carried out: either it was to switch off, or the turnaround timer runs.\<close>

definition carried_out :: "PhyEnv \<Rightarrow> PHYenum \<Rightarrow> Phy \<Rightarrow> bool" where
  "carried_out w st p \<longleftrightarrow> newState p = phy_IDLE \<and> phyRadioState p = phy_TRX_OFF \<and>
     (if st = phy_TRX_OFF then \<exists>out. phyOut p = out @ [SetTrxStateConfirm phy_TRX_OFF]
      else newState_turnaround p = st \<and>
        (\<exists>r. phy_getRate False p = Inr r \<and> phyTimers p PHY_TRX_TIMER = Some (now w + of_int (uint aTurnaroundTime) / r)))"

lemma apply_newState_ok:
  assumes wf: "recv_wf leak p" and t: "phyRadioState p \<in> {phy_RX_ON, phy_TX_ON, phy_TRX_OFF}"
    "newState p \<in> {phy_IDLE, phy_RX_ON, phy_TX_ON, phy_TRX_OFF}" "radio_state (rs p) = IDLE"
    "phyTimers p PHY_TRX_TIMER \<noteq> None \<longrightarrow> phyRadioState p = phy_TRX_OFF \<and> newState p = phy_IDLE \<and> newState_turnaround p \<in> {phy_RX_ON, phy_TX_ON}"
    "phyTimers p PHY_TX_OVER_TIMER \<noteq> None \<longleftrightarrow> txPktCopy p \<noteq> None"
  shows "succR (\<lambda>p'. recv_wf leak p' \<and> forced p' = forced p \<and> trx_wf p' \<and> busy_wf p' \<and> cc p' = cc p \<and> same_recv p p' \<and>
    txPktCopy p' = txPktCopy p \<and> (if newState p = phy_IDLE then p' = p else carried_out w (newState p) p')) (apply_newState w p)"
proof -
  obtain r where r: "phy_getRate False p = Inr r" "0 < r" using wf rate_ok by (auto simp: recv_wf_def power_wf_def)
  obtain p' where p': "apply_newState w p = Inr p'" "same_recv p p'" "newState p' = phy_IDLE" "txPktCopy p' = txPktCopy p"
    "if newState p = phy_IDLE then p' = p
     else phyRadioState p' = phy_TRX_OFF \<and> radio_state (rs p') = SLEEP \<and> newState_turnaround p' = newState p \<and>
       (if newState p = phy_TRX_OFF then phyTimers p' = phyTimers p \<and> (\<exists>out. phyOut p' = out @ [SetTrxStateConfirm phy_TRX_OFF])
        else phyTimers p' = (phyTimers p)(PHY_TRX_TIMER \<mapsto> now w + of_int (uint aTurnaroundTime) / r))"
    using apply_newState_eq [OF r, of w] by (auto simp: succR_iff)
  have "recv_wf leak p'" "forced p' = forced p" using same_recv_wf [OF p'(2)] wf by simp_all
  moreover have "trx_wf p'" "busy_wf p'" using p'(3-) t by (auto simp: trx_wf_def busy_wf_def split: if_splits)
  moreover have "cc p' = cc p" using p'(2) by (simp add: same_recv_def)
  moreover have "phy_getRate False p' = Inr r" using p'(2) r(1) rate_cong [of p' p] by (simp add: same_recv_def accounts_def)
  then have "if newState p = phy_IDLE then p' = p else carried_out w (newState p) p'"
    using p'(3-) by (auto simp: carried_out_def split: if_splits)
  ultimately show ?thesis using p'(1,2,4) by simp
qed

lemma rxOver_ok:
  assumes wf: "recv_wf leak p" and t: "trx_wf p" "busy_wf p" and r: "om_find (recvBuff p) a = Some r"
  shows "succR (\<lambda>p'. recv_wf leak p' \<and> trx_wf p' \<and> busy_wf p' \<and> cc p' = cc p \<and> recvBuff p' = om_erase a (recvBuff p) \<and>
    sensitivity p' = sensitivity p \<and> thermalNoise p' = thermalNoise p \<and>
    (newState p = phy_IDLE \<or> newState p' = newState p \<and> radio_state (rs p') = radio_state (rs p) \<or> carried_out w (newState p) p'))
    (handleRxOver w a p)"
proof -
  obtain q where q: "handleRxOver w a p = whenR (\<lambda>p. noiseLevel p < sensitivity p \<and> phyRadioState p = phy_RX_ON \<and>
        radio_state (rs p) = RECV \<and> ptr (snrInfo p) = None) (doR [setRadioState IDLE, apply_newState w]) q"
    "recv_wf leak q" "trx q = trx p" "cc q = cc p" "rs q = rs p" "recvBuff q = om_erase a (recvBuff p)"
    "ptr (snrInfo q) \<noteq> None \<longrightarrow> ptr (snrInfo q) = ptr (snrInfo p)" "thermalNoise q = thermalNoise p" "airframes q = (airframes p)(a := None)"
    by (rule rxOver_body [OF wf t(1) r])
  have tq: "trx_wf q" using t(1) q(3,5) trx_wf_cong [of q p] by simp
  show ?thesis
  proof (cases "noiseLevel q < sensitivity q \<and> phyRadioState q = phy_RX_ON \<and> radio_state (rs q) = RECV \<and> ptr (snrInfo q) = None")
    case False
    have "busy_wf q" using False tq by (auto simp: busy_wf_def trx_wf_def)
    moreover have "handleRxOver w a p = Inr q" unfolding q(1) whenR_def by (rule if_not_P [OF False])
    ultimately show ?thesis using q(2-) tq by (simp add: trx_def)
  next
    case True
    let ?i = "q\<lparr>rs := (rs q)\<lparr>radio_state := IDLE\<rparr>, phyOut := phyOut q @ [RadioStateChanged ((rs q)\<lparr>radio_state := IDLE\<rparr>)]\<rparr>"
    have "same_recv q ?i" by (simp add: same_recv_def accounts_def getChannelNumber_def)
    then have "recv_wf leak ?i" using q(2) same_recv_wf by blast
    then have "succR (\<lambda>p'. recv_wf leak p' \<and> forced p' = forced ?i \<and> trx_wf p' \<and> busy_wf p' \<and> cc p' = cc ?i \<and> same_recv ?i p' \<and>
      txPktCopy p' = txPktCopy ?i \<and> (if newState ?i = phy_IDLE then p' = ?i else carried_out w (newState ?i) p')) (apply_newState w ?i)"
      using tq True by (intro apply_newState_ok) (auto simp: trx_wf_def)
    then show ?thesis using True q by (auto simp: whenR_def phy_stmts succR_iff same_recv_def accounts_def trx_def split: if_splits)
  qed
qed

section \<open>Timers and requests\<close>

definition phy_wf :: "rat \<Rightarrow> Phy \<Rightarrow> bool" where
  "phy_wf leak p \<longleftrightarrow> recv_wf leak p \<and> trx_wf p \<and> busy_wf p"

text \<open>The faults an event may end in: what the module or the kernel reports, and an energy that is no \<open>int\<close>.\<close>

definition tolerated :: "phyevent \<Rightarrow> fault \<Rightarrow> bool" where
  "tolerated e flt \<longleftrightarrow> reported flt \<or> e = PhyTimeout PHY_ED_TIMER \<and> flt = UndefinedBehaviour"

lemma txOver_ok:
  assumes wf: "phy_wf leak p" and t: "phyTimers p PHY_TX_OVER_TIMER \<noteq> None"
  shows "succR (\<lambda>p'. phy_wf leak p' \<and> txPktCopy p' = None \<and> same_recv p p' \<and>
    (newState p = phy_IDLE \<or> carried_out w (newState p) p')) (phy_handleSelfMsg w PHY_TX_OVER_TIMER p)"
proof -
  have tr: "trx_wf p" using wf by (simp add: phy_wf_def)
  define q where "q = p\<lparr>phyTimers := (phyTimers p)(PHY_TX_OVER_TIMER := None), rs := (rs p)\<lparr>radio_state := IDLE\<rparr>, txPktCopy := None,
    phyOut := phyOut p @ [RadioStateChanged ((rs p)\<lparr>radio_state := IDLE\<rparr>), PdDataConfirm phy_SUCCESS]\<rparr>"
  have eq: "phy_handleSelfMsg w PHY_TX_OVER_TIMER p = apply_newState w q"
    using tr t by (simp add: q_def phy_handleSelfMsg_def phy_stmts PD_DATA_confirm_def trx_wf_def)
  have s: "same_recv p q" by (simp add: q_def same_recv_def accounts_def getChannelNumber_def)
  then have "recv_wf leak q" using wf same_recv_wf unfolding phy_wf_def by blast
  then have "succR (\<lambda>p'. recv_wf leak p' \<and> forced p' = forced q \<and> trx_wf p' \<and> busy_wf p' \<and> cc p' = cc q \<and> same_recv q p' \<and>
      txPktCopy p' = txPktCopy q \<and> (if newState q = phy_IDLE then p' = q else carried_out w (newState q) p')) (apply_newState w q)"
    using tr by (intro apply_newState_ok) (auto simp: trx_wf_def q_def)
  moreover have "newState q = newState p" "txPktCopy q = None" by (simp_all add: q_def)
  ultimately show ?thesis using s eq by (auto simp: succR_iff phy_wf_def same_recv_def split: if_splits)
qed

lemma trxTimer_ok:
  assumes wf: "phy_wf leak p" and t: "phyTimers p PHY_TRX_TIMER \<noteq> None"
  shows "succR (\<lambda>p'. phy_wf leak p' \<and> phyRadioState p' = newState_turnaround p \<and> same_recv p p' \<and>
    phyOut p' = phyOut p @ [RadioStateChanged (rs p'), SetTrxStateConfirm (newState_turnaround p)]) (phy_handleSelfMsg w PHY_TRX_TIMER p)"
proof -
  have tr: "trx_wf p" using wf by (simp add: phy_wf_def)
  let ?q = "p\<lparr>phyTimers := (phyTimers p)(PHY_TRX_TIMER := None), phyRadioState := newState_turnaround p, rs := (rs p)\<lparr>radio_state := IDLE\<rparr>,
    phyOut := phyOut p @ [RadioStateChanged ((rs p)\<lparr>radio_state := IDLE\<rparr>), SetTrxStateConfirm (newState_turnaround p)]\<rparr>"
  have eq: "phy_handleSelfMsg w PHY_TRX_TIMER p = Inr ?q"
    by (simp add: phy_handleSelfMsg_def phy_stmts PLME_SET_TRX_STATE_confirm_def)
  have s: "same_recv p ?q" by (simp add: same_recv_def accounts_def getChannelNumber_def)
  then have "recv_wf leak ?q" using wf same_recv_wf unfolding phy_wf_def by blast
  moreover have "trx_wf ?q" "busy_wf ?q" using tr t by (auto simp: trx_wf_def busy_wf_def)
  ultimately show ?thesis using eq s by (simp add: phy_wf_def)
qed

lemma phy_wf_timer:
  assumes "phy_wf leak p" and "t \<noteq> PHY_TRX_TIMER" "t \<noteq> PHY_TX_OVER_TIMER"
  shows "phy_wf leak (p\<lparr>phyTimers := (phyTimers p)(t := x), phyOut := out\<rparr>)"
  using assms by (auto simp: phy_wf_def trx_wf_def)

lemma selfMsg_ok:
  assumes wf: "phy_wf leak p" and t: "phyTimers p t \<noteq> None"
  shows "wpR (phy_wf leak) (tolerated (PhyTimeout t)) (phy_handleSelfMsg w t p)"
proof (cases t)
  case PHY_CCA_TIMER
  then show ?thesis using phy_wf_timer [where t = PHY_CCA_TIMER and x = None, OF wf]
    by (simp add: phy_handleSelfMsg_def phy_stmts PLME_CCA_confirm_def)
next
  case PHY_ED_TIMER
  then show ?thesis using phy_wf_timer [where t = PHY_ED_TIMER and x = None, OF wf]
    by (simp add: phy_handleSelfMsg_def phy_stmts PLME_ED_confirm_def calculateEnergyLevel_def tolerated_def)
next
  case PHY_TRX_TIMER
  then show ?thesis using trxTimer_ok [OF wf, of w] t by (auto simp: succR_iff)
next
  case PHY_TX_OVER_TIMER
  then show ?thesis using txOver_ok [OF wf, of w] t by (auto simp: succR_iff)
qed

lemma force_ok:
  assumes wf: "phy_wf leak p" and st: "newState p = phy_IDLE" "phyTimers p PHY_TRX_TIMER = None"
  shows "succR (\<lambda>p'. phy_wf (if forced p then leak + rcvdPower (snrInfo p) else leak) p' \<and> phyRadioState p' = phy_TRX_OFF \<and>
    phyTimers p' = phyTimers p \<and> txPktCopy p' = txPktCopy p \<and> radio_state (rs p') = SLEEP \<and> recvBuff p' = recvBuff p \<and>
    thermalNoise p' = thermalNoise p \<and> sensitivity p' = sensitivity p) (force_trx_off p)"
proof (cases "ptr (snrInfo p)")
  case None
  let ?q = "p\<lparr>phyRadioState := phy_TRX_OFF, rs := (rs p)\<lparr>radio_state := SLEEP\<rparr>, phyOut := phyOut p @ [RadioStateChanged ((rs p)\<lparr>radio_state := SLEEP\<rparr>)]\<rparr>"
  have eq: "force_trx_off p = Inr ?q" using None by (simp add: force_trx_off_def phy_stmts)
  have "same_recv p ?q" by (simp add: same_recv_def accounts_def getChannelNumber_def)
  then have "recv_wf leak ?q" using wf same_recv_wf unfolding phy_wf_def by blast
  moreover have "trx_wf ?q" "busy_wf ?q" using wf st by (auto simp: phy_wf_def trx_wf_def busy_wf_def)
  moreover have "\<not> forced p" using None by (simp add: forced_def)
  ultimately show ?thesis using eq by (simp add: phy_wf_def)
next
  case (Some a)
  have rw: "recv_wf leak p" using wf by (simp add: phy_wf_def)
  have snr: "om_find (recvBuff p) a = Some (rcvdPower (snrInfo p))" using rw Some by (simp add: recv_wf_def snr_wf_def)
  obtain f where f: "airframes p a = Some f" using key_frame [OF rw snr] by blast
  let ?q = "p\<lparr>phyRadioState := phy_TRX_OFF, rs := (rs p)\<lparr>radio_state := SLEEP\<rparr>, phyOut := phyOut p @ [RadioStateChanged ((rs p)\<lparr>radio_state := SLEEP\<rparr>)],
    airframes := (airframes p)(a \<mapsto> f\<lparr>airKind := BITERROR_FORCE_TRX_OFF\<rparr>), noiseLevel := noiseLevel p + rcvdPower (snrInfo p)\<rparr>"
  let ?leak = "if forced p then leak + rcvdPower (snrInfo p) else leak"
  have eq: "force_trx_off p = Inr ?q" using Some f by (simp add: force_trx_off_def phy_stmts air_at_def)
  have "forced ?q" using Some by (simp add: forced_def)
  then have "noise_wf ?leak ?q" using rw Some by (simp add: recv_wf_def noise_wf_def signal_def)
  moreover have "power_wf ?q" "snr_wf ?q" using rw by (simp_all add: recv_wf_def power_wf_def snr_wf_def getChannelNumber_def)
  moreover have "heap_wf ?q" using rw f by (auto simp: recv_wf_def heap_wf_def)
  moreover have "trx_wf ?q" "busy_wf ?q" using wf st by (auto simp: phy_wf_def trx_wf_def busy_wf_def)
  ultimately show ?thesis using eq by (simp add: phy_wf_def recv_wf_def)
qed

text \<open>The first statement of a request forgets what is pending.\<close>

lemma forget_pending:
  assumes wf: "phy_wf leak p"
  obtains q where "handle_PLME_SET_TRX_STATE_request w st p = switch_trx w st q"
    and "phy_wf leak q" and "newState q = phy_IDLE" and "phyTimers q = (phyTimers p)(PHY_TRX_TIMER := None)"
    and "same_recv p q" and "rs q = rs p" and "phyRadioState q = phyRadioState p" and "txPktCopy q = txPktCopy p" and "phyOut q = phyOut p"
proof -
  have tr: "trx_wf p" and rest: "recv_wf leak p" "busy_wf p" using wf by (simp_all add: phy_wf_def)
  have req: "handle_PLME_SET_TRX_STATE_request w st p = switch_trx w st (if newState p \<noteq> phy_IDLE then p\<lparr>newState := phy_IDLE\<rparr>
    else if phyTimers p PHY_TRX_TIMER \<noteq> None then p\<lparr>phyTimers := (phyTimers p)(PHY_TRX_TIMER := None)\<rparr> else p)"
    by (simp add: handle_PLME_SET_TRX_STATE_request_def ifR_def whenR_def updR_def cancelP_def)
  consider "newState p \<noteq> phy_IDLE" | "newState p = phy_IDLE" "phyTimers p PHY_TRX_TIMER \<noteq> None"
    | "newState p = phy_IDLE" "phyTimers p PHY_TRX_TIMER = None" by blast
  then show ?thesis
  proof cases
    case 1
    have "trx_wf (p\<lparr>newState := phy_IDLE\<rparr>)" using tr by (auto simp: trx_wf_def)
    moreover have "phyTimers p PHY_TRX_TIMER = None" using tr 1 by (auto simp: trx_wf_def)
    ultimately show ?thesis using that [of "p\<lparr>newState := phy_IDLE\<rparr>"] req 1 rest
      by (simp add: phy_wf_def same_recv_def accounts_def getChannelNumber_def fun_upd_idem)
  next
    case 2
    have "trx_wf (p\<lparr>phyTimers := (phyTimers p)(PHY_TRX_TIMER := None)\<rparr>)" using tr by (auto simp: trx_wf_def)
    then show ?thesis using that [of "p\<lparr>phyTimers := (phyTimers p)(PHY_TRX_TIMER := None)\<rparr>"] req 2 rest
      by (simp add: phy_wf_def same_recv_def accounts_def getChannelNumber_def)
  next
    case 3
    then show ?thesis using that [of p] req wf by (simp add: fun_upd_idem)
  qed
qed

definition trx_request :: "PHYenum \<Rightarrow> bool" where
  "trx_request st \<longleftrightarrow> st \<in> {phy_RX_ON, phy_TX_ON, phy_TRX_OFF, phy_FORCE_TRX_OFF}"

lemma startTrxTimer_eq:
  assumes "recv_wf leak p" and "phyTimers p PHY_TRX_TIMER = None"
  obtains r where "phy_getRate False p = Inr r" and "0 < r"
    and "startTrxTimer w p = Inr (p\<lparr>phyTimers := (phyTimers p)(PHY_TRX_TIMER \<mapsto> now w + of_int (uint aTurnaroundTime) / r)\<rparr>)"
proof -
  obtain r where r: "phy_getRate False p = Inr r" "0 < r" using rate_ok assms(1) by (auto simp: recv_wf_def power_wf_def)
  then show ?thesis using that assms(2) turnaround_pos [OF r(2), of w] by (auto simp: startTrxTimer_def letR_def scheduleP_def)
qed

lemma switch_ok:
  assumes wf: "phy_wf leak p" and st: "trx_request st" and idle: "newState p = phy_IDLE" "phyTimers p PHY_TRX_TIMER = None"
  shows "succR (phy_wf (if st = phy_FORCE_TRX_OFF \<and> forced p then leak + rcvdPower (snrInfo p) else leak)) (switch_trx w st p)"
proof -
  have tr: "trx_wf p" and rw: "recv_wf leak p" using wf by (simp_all add: phy_wf_def)
  have out: "phy_wf leak (p\<lparr>phyOut := x\<rparr>)" for x using wf by (simp add: phy_wf_def)
  let ?s = "p\<lparr>newState_turnaround := st, phyRadioState := phy_TRX_OFF, rs := (rs p)\<lparr>radio_state := SLEEP\<rparr>,
    phyOut := phyOut p @ [RadioStateChanged ((rs p)\<lparr>radio_state := SLEEP\<rparr>)]\<rparr>"
  consider "st = phyRadioState p" | "st \<noteq> phyRadioState p" "(st = phy_RX_ON \<or> st = phy_TRX_OFF) \<and> radio_state (rs p) = TRANSMIT"
    | "st \<noteq> phyRadioState p" "(st = phy_TX_ON \<or> st = phy_TRX_OFF) \<and> radio_state (rs p) = RECV" | "st = phy_FORCE_TRX_OFF"
    | "st = phy_RX_ON \<and> phyRadioState p = phy_TX_ON \<and> radio_state (rs p) \<noteq> TRANSMIT \<or>
       st = phy_TX_ON \<and> phyRadioState p = phy_RX_ON \<and> radio_state (rs p) \<noteq> RECV"
    | "st \<noteq> phyRadioState p" "\<not> ((st = phy_RX_ON \<or> st = phy_TRX_OFF) \<and> radio_state (rs p) = TRANSMIT)"
       "\<not> ((st = phy_TX_ON \<or> st = phy_TRX_OFF) \<and> radio_state (rs p) = RECV)" "st \<noteq> phy_FORCE_TRX_OFF"
       "\<not> (st = phy_RX_ON \<and> phyRadioState p = phy_TX_ON \<or> st = phy_TX_ON \<and> phyRadioState p = phy_RX_ON)"
    by blast
  then show ?thesis
  proof cases
    case 1
    have "switch_trx w st p = Inr (p\<lparr>phyOut := phyOut p @ [SetTrxStateConfirm st]\<rparr>)"
      using 1 by (simp add: switch_trx_def PLME_SET_TRX_STATE_confirm_def outP_def)
    moreover have "st \<noteq> phy_FORCE_TRX_OFF" using tr 1 by (auto simp: trx_wf_def)
    ultimately show ?thesis using out by simp
  next
    case 2
    let ?n = "p\<lparr>newState := st, phyOut := phyOut p @ [SetTrxStateConfirm phy_BUSY_TX]\<rparr>"
    have "switch_trx w st p = Inr ?n"
      using 2(2) unfolding switch_trx_def Let_def if_not_P [OF 2(1)] by (auto simp: phy_stmts PLME_SET_TRX_STATE_confirm_def)
    moreover have "trx_wf ?n" using tr idle 2(2) by (auto simp: trx_wf_def)
    ultimately show ?thesis using wf 2(2) by (auto simp: phy_wf_def)
  next
    case 3
    let ?n = "p\<lparr>newState := st, phyOut := phyOut p @ [SetTrxStateConfirm phy_BUSY_RX]\<rparr>"
    have "switch_trx w st p = Inr ?n"
      using 3(2) unfolding switch_trx_def Let_def if_not_P [OF 3(1)] by (auto simp: phy_stmts PLME_SET_TRX_STATE_confirm_def)
    moreover have "trx_wf ?n" using tr idle 3(2) by (auto simp: trx_wf_def)
    ultimately show ?thesis using wf 3(2) by (auto simp: phy_wf_def)
  next
    case 4
    moreover have "phyRadioState p \<noteq> phy_FORCE_TRX_OFF" using tr by (auto simp: trx_wf_def)
    ultimately have "switch_trx w st p = force_trx_off p" by (simp add: switch_trx_def)
    moreover have "(st = phy_FORCE_TRX_OFF \<and> forced p) = forced p" using 4 by simp
    ultimately show ?thesis using succR_mono [OF force_ok [OF wf idle]] by presburger
  next
    case 5
    have "same_recv p ?s" by (simp add: same_recv_def accounts_def getChannelNumber_def)
    then have rs: "recv_wf leak ?s" using rw same_recv_wf by blast
    obtain r where "startTrxTimer w ?s = Inr (?s\<lparr>phyTimers := (phyTimers ?s)(PHY_TRX_TIMER \<mapsto> now w + of_int (uint aTurnaroundTime) / r)\<rparr>)"
      using startTrxTimer_eq [OF rs] idle by auto
    moreover have "switch_trx w st p = startTrxTimer w ?s" using 5 by (elim disjE) (simp_all add: switch_trx_def phy_stmts)
    moreover have "trx_wf (?s\<lparr>phyTimers := (phyTimers ?s)(PHY_TRX_TIMER \<mapsto> x)\<rparr>)" for x
      using tr idle 5 by (auto simp: trx_wf_def)
    moreover have "st \<noteq> phy_FORCE_TRX_OFF" using 5 by auto
    ultimately show ?thesis using rs by (simp add: phy_wf_def busy_wf_def)
  next
    case 6
    let ?t = "p\<lparr>phyRadioState := st, rs := (rs p)\<lparr>radio_state := if st = phy_TRX_OFF then SLEEP else IDLE\<rparr>,
      phyOut := phyOut p @ [RadioStateChanged ((rs p)\<lparr>radio_state := if st = phy_TRX_OFF then SLEEP else IDLE\<rparr>), SetTrxStateConfirm phy_SUCCESS]\<rparr>"
    have "same_recv p ?t" by (simp add: same_recv_def accounts_def getChannelNumber_def)
    then have "recv_wf leak ?t" using rw same_recv_wf by blast
    moreover have "switch_trx w st p = Inr ?t"
      unfolding switch_trx_def Let_def if_not_P [OF 6(1)] if_not_P [OF 6(2)] if_not_P [OF 6(3)] if_not_P [OF 6(4)] if_not_P [OF 6(5)]
      by (simp add: phy_stmts PLME_SET_TRX_STATE_confirm_def)
    moreover have "trx_wf ?t" "busy_wf ?t" using tr idle st 6 by (auto simp: trx_wf_def busy_wf_def trx_request_def)
    ultimately show ?thesis using 6 by (simp add: phy_wf_def)
  qed
qed

lemma request_ok:
  assumes wf: "phy_wf leak p" and st: "trx_request st"
  shows "succR (phy_wf (if st = phy_FORCE_TRX_OFF \<and> forced p then leak + rcvdPower (snrInfo p) else leak))
    (handle_PLME_SET_TRX_STATE_request w st p)"
proof -
  obtain q where q: "handle_PLME_SET_TRX_STATE_request w st p = switch_trx w st q" "phy_wf leak q" "newState q = phy_IDLE"
    "phyTimers q = (phyTimers p)(PHY_TRX_TIMER := None)" "same_recv p q"
    using forget_pending [OF wf] by metis
  have eqs: "forced q = forced p" "snrInfo q = snrInfo p" using q(5) same_recv_wf [OF q(5)] by (simp_all add: same_recv_def)
  have "phyTimers q PHY_TRX_TIMER = None" using q(4) by simp
  from switch_ok [OF q(2) st q(3) this, of w] show ?thesis unfolding eqs q(1) .
qed

end
