(* ===== verification/Phy_Reachable.thy ===== *)
theory Phy_Reachable
  imports Phy_Invariant
begin

text \<open>
  The remaining operations of the physical layer (sending, changing the channel, primitives) keep the
  invariant, so every event does; with it the properties of the module over its reachable states.
\<close>

section \<open>Sending and changing the channel\<close>

text \<open>
  What a handler relies on of the channel control: its invariant, that this host is registered, that
  there are the 27 channels of the standard, and that no transmission has a negative power.
\<close>

definition cc_ok :: "PhyEnv \<Rightarrow> ChannelControl \<Rightarrow> bool" where
  "cc_ok w c \<longleftrightarrow> (\<exists>S. cc_wf (c, S)) \<and> myHostRef w \<in> dom (entry c) \<and> numChannels c = 27 \<and>
     (\<forall>fs \<in> set (transmissions c). \<forall>f \<in> set fs. 0 \<le> pSend f)"

lemma upperMsg_ok:
  assumes wf: "phy_wf leak p" and c: "cc_ok w (cc p)"
  shows "wpR (phy_wf leak) reported (phy_handleUpperMsg w (encapsulatePacket w frame p) p)"
proof -
  define a where "a = encapsulatePacket w frame p"
  have tr: "trx_wf p" and rw: "recv_wf leak p" using wf by (simp_all add: phy_wf_def)
  have ch: "0 \<le> channelNumber a" "channelNumber a < numChannels (cc p)"
    using rw c by (auto simp: a_def encapsulatePacket_def Let_def cc_ok_def recv_wf_def power_wf_def)
  obtain S src where S: "cc_wf (cc p, S)" "entry (cc p) (myHostRef w) = Some src" using c by (auto simp: cc_ok_def)
  obtain out c' where send: "cc_sendToChannel (libm w) (now w) (myHostRef w) a (cc p) = Inr (out, c')"
    using send_returns [OF S ch, of "libm w" "now w"] by blast
  let ?q = "p\<lparr>rs := (rs p)\<lparr>radio_state := TRANSMIT\<rparr>, txPktCopy := Some a, phyTimers := (phyTimers p)(PHY_TX_OVER_TIMER \<mapsto> now w + duration a),
    cc := c', phyOut := phyOut p @ [RadioStateChanged ((rs p)\<lparr>radio_state := TRANSMIT\<rparr>), OnAir out]\<rparr>"
  have sent: "phy_wf leak ?q" if "phyRadioState p = phy_TX_ON" "radio_state (rs p) \<noteq> TRANSMIT"
  proof -
    have "same_recv p (?q\<lparr>cc := cc p\<rparr>)" by (simp add: same_recv_def accounts_def getChannelNumber_def)
    then have "recv_wf leak (?q\<lparr>cc := cc p\<rparr>)" using rw same_recv_wf by blast
    moreover have "trx_wf ?q" using tr that by (auto simp: trx_wf_def)
    ultimately show ?thesis by (simp add: phy_wf_def busy_wf_def)
  qed
  show ?thesis
    unfolding a_def [symmetric] phy_handleUpperMsg_def
    using sent send by (auto simp: phy_stmts scheduleP_def phy_sendDown_def reported_def)
qed

lemma set_radio_idle:
  assumes "recv_wf leak p"
  shows "recv_wf leak (p\<lparr>rs := (rs p)\<lparr>radio_state := x\<rparr>, phyOut := out\<rparr>)"
proof -
  have "same_recv p (p\<lparr>rs := (rs p)\<lparr>radio_state := x\<rparr>, phyOut := out\<rparr>)"
    by (simp add: same_recv_def accounts_def getChannelNumber_def)
  then show ?thesis using assms same_recv_wf by blast
qed

text \<open>Dropping all frames empties the heap.\<close>

lemma drop_frames:
  assumes "dom (airframes p) = set ks" and "dom (endRx p) = set ks" and "distinct ks"
  shows "foldR drop_frame ks p = Inr (p\<lparr>airframes := Map.empty, endRx := Map.empty\<rparr>)"
  using assms
proof (induction ks arbitrary: p)
  case Nil
  then show ?case by simp
next
  case (Cons k ks)
  let ?p = "p\<lparr>airframes := (airframes p)(k := None), endRx := (endRx p)(k := None)\<rparr>"
  have "airframes ?p = (airframes p)(k := None)" "endRx ?p = (endRx p)(k := None)" by simp_all
  then have d: "dom (airframes ?p) = set ks" "dom (endRx ?p) = set ks"
    using Cons.prems by (simp_all only: dom_fun_upd) auto
  have "airframes p k \<noteq> None" using Cons.prems by auto
  then have "drop_frame k p = Inr ?p" by (simp add: drop_frame_def deleteAir_def updR_def)
  moreover have "foldR drop_frame ks ?p = Inr (?p\<lparr>airframes := Map.empty, endRx := Map.empty\<rparr>)"
    using Cons.prems(3) by (intro Cons.IH d) simp
  ultimately show ?case by simp
qed
definition fresh_air :: "PhyEnv \<Rightarrow> Phy \<Rightarrow> bool" where
  "fresh_air w p \<longleftrightarrow> inj (new_air w) \<and> (\<forall>i. airframes p (new_air w i) = None)"

text \<open>The loop that picks up the transmissions of the new channel.\<close>

definition picking :: "PhyEnv \<Rightarrow> nat \<Rightarrow> Phy \<Rightarrow> bool" where
  "picking w n p \<longleftrightarrow> phy_wf 0 p \<and> phyRadioState p = phy_RX_ON \<and> newState p = phy_IDLE \<and> myHostRef w \<in> dom (entry (cc p)) \<and>
     (\<forall>i \<ge> n. airframes p (new_air w i) = None)"

lemma pick_up_ok:
  assumes q: "picking w n p" and w: "libm_ok (libm w)" "inj (new_air w)" and f: "0 \<le> pSend f"
  shows "wpR (picking w (Suc n)) reported (pick_up w ch (n, f) p)"
proof -
  obtain me where me: "host_at (myHostRef w) (cc p) = Inr me" using q by (auto simp: picking_def host_at_def)
  let ?d = "distance (libm w) (pos me) (senderPos f) / LIGHT_SPEED"
  have out: "doR (replicate k (outP x)) p = Inr (p\<lparr>phyOut := phyOut p @ replicate k x\<rparr>)" for k x p
    by (induction k arbitrary: p) (simp_all add: outP_def)
  have skip: "picking w (Suc n) p" "picking w (Suc n) (p\<lparr>phyOut := y\<rparr>)" for y
    using q by (auto simp: picking_def phy_wf_def)
  have late: "wpR (picking w (Suc n)) reported (doR [updR (\<lambda>p. p\<lparr>airframes := (airframes p)(new_air w n \<mapsto> f\<lparr>arrivalTime := timestamp f + ?d\<rparr>)\<rparr>),
            handleLowerMsgStart w (new_air w n), bufferMsg w (new_air w n)] p)" if "timestamp f + ?d < now w"
  proof -
    have "airframes p (new_air w n) = None" using q by (simp add: picking_def)
    then have "wpR (\<lambda>p'. recv_wf 0 p' \<and> trx_wf p' \<and> busy_wf p' \<and> phyRadioState p' = phy_RX_ON \<and> cc p' = cc p \<and>
       airframes p' = (airframes p)(new_air w n \<mapsto> f\<lparr>arrivalTime := timestamp f + ?d\<rparr>) \<and> forced p' = forced p \<and> newState p' = newState p \<and>
       sensitivity p' = sensitivity p \<and> thermalNoise p' = thermalNoise p) reported
      (doR [updR (\<lambda>p. p\<lparr>airframes := (airframes p)(new_air w n \<mapsto> f\<lparr>arrivalTime := timestamp f + ?d\<rparr>)\<rparr>),
            handleLowerMsgStart w (new_air w n), bufferMsg w (new_air w n)] p)"
      using q that w f by (intro arrival_ok) (auto simp: picking_def phy_wf_def)
    then show ?thesis using q w(2) by (elim wpR_mono) (auto simp: picking_def phy_wf_def inj_eq)
  qed
  show ?thesis
    using me skip out late by (auto simp: pick_up_def letR_def Let_def not_le)
qed

lemma pick_ups_ok:
  assumes "picking w n p" and "libm_ok (libm w)" "inj (new_air w)" and "\<forall>f \<in> set fs. 0 \<le> pSend f"
  shows "wpR (phy_wf 0) reported (foldR (pick_up w ch) (enumerate n fs) p)"
  using assms
proof (induction fs arbitrary: n p)
  case Nil
  then show ?case by (simp add: picking_def)
next
  case (Cons f fs)
  have "wpR (picking w (Suc n)) reported (pick_up w ch (n, f) p)" using Cons.prems by (intro pick_up_ok) auto
  then have "wpR (\<lambda>p. wpR (phy_wf 0) reported (foldR (pick_up w ch) (enumerate (Suc n) fs) p)) reported (pick_up w ch (n, f) p)"
    using Cons.IH Cons.prems by (elim wpR_mono) auto
  then show ?case by (simp add: wpR_bindR)
qed

lemma channel_tables:
  assumes c: "cc_ok w c" and ch: "0 \<le> ch" "ch \<le> 26"
  obtains c1 fs c2 where "updateHostChannel (myHostRef w) ch c = Inr c1" and "getOngoingTransmissions (now w) ch c1 = Inr (fs, c2)"
    and "\<forall>f \<in> set fs. 0 \<le> pSend f" and "myHostRef w \<in> dom (entry c2)"
proof -
  obtain e where e: "entry c (myHostRef w) = Some e" using c by (auto simp: cc_ok_def)
  define c1 where "c1 = mod_host (myHostRef w) (\<lambda>e. e\<lparr>host_channel := ch\<rparr>) c"
  have 1: "updateHostChannel (myHostRef w) ch c = Inr c1"
    using c ch e by (simp add: updateHostChannel_def checkChannel_def checkR_def cc_ok_def host_at_def c1_def)
  have n: "numChannels c1 = 27" "transmissions c1 = transmissions c" using c by (simp_all add: c1_def cc_ok_def)
  have len: "length (transmissions c) = 27" using c cc_wf_D(4) by (fastforce simp: cc_ok_def)
  let ?fs = "transmissions (purgeOngoingTransmissions (now w) c1) ! nat ch"
  have 2: "getOngoingTransmissions (now w) ch c1 = Inr (?fs, purgeOngoingTransmissions (now w) c1)"
    using ch n by (simp add: getOngoingTransmissions_def checkChannel_def checkR_def Let_def)
  have lt: "nat ch < 27" using ch by linarith
  then have "transmissions c ! nat ch \<in> set (transmissions c)" using len by simp
  moreover have "set ?fs \<subseteq> set (transmissions c ! nat ch)" using lt n len by (simp add: purgeOngoingTransmissions_def)
  ultimately have "\<forall>f \<in> set ?fs. 0 \<le> pSend f" using c by (auto simp: cc_ok_def)
  moreover have "myHostRef w \<in> dom (entry (purgeOngoingTransmissions (now w) c1))"
    using e by (simp add: c1_def entry_mod_host)
  ultimately show ?thesis using that 1 2 by blast
qed

lemma replicate_update [simp]: "(replicate n x)[i := x] = replicate n x"
  by (induction n arbitrary: i) (simp_all split: nat.split)

lemma changeChannel_ok:
  assumes wf: "phy_wf leak p" and c: "cc_ok w (cc p)" and on: "phyRadioState p = phy_RX_ON" "newState p = phy_IDLE"
    and ch: "0 \<le> ch" "ch \<le> 26" and w: "libm_ok (libm w)" "inj (new_air w)"
  shows "wpR (phy_wf 0) reported (changeChannel w ch p)"
proof -
  have tr: "trx_wf p" and rw: "recv_wf leak p" using wf by (simp_all add: phy_wf_def)
  have heap: "dom (airframes p) = set (map fst (recvBuff p))" "dom (endRx p) = set (map fst (recvBuff p))" "distinct (map fst (recvBuff p))"
    using rw om_wf_distinct by (auto simp: recv_wf_def heap_wf_def power_wf_def)
  define p0 where "p0 = p\<lparr>airframes := Map.empty, endRx := Map.empty, recvBuff := []\<rparr>"
  define p1 where "p1 = (if ptr (snrInfo p0) \<noteq> None then clear_snr p0 else p0)"
  have p1: "ptr (snrInfo p1) = None" "recvBuff p1 = []" "airframes p1 = Map.empty" "endRx p1 = Map.empty" "rs p1 = rs p" "rxPower p1 = rxPower p"
    "thermalNoise p1 = thermalNoise p" "trx p1 = trx p" "cc p1 = cc p"
    by (auto simp: p1_def p0_def clear_snr_def trx_def)
  have busy: "radio_state (rs p) \<noteq> TRANSMIT" using tr on by (auto simp: trx_wf_def)
  have cur: "0 \<le> getChannelNumber p" "getChannelNumber p \<le> 26"
    and rxp: "rxPower p = (replicate 27 0)[nat (getChannelNumber p) := om_sum (recvBuff p)]"
    using rw by (simp_all add: recv_wf_def power_wf_def)
  obtain r where r: "phy_getRate True (p1\<lparr>rs := (rs p)\<lparr>radio_state := IDLE, rs_channelNumber := ch\<rparr>\<rparr>) = Inr r"
    using rate_ok [of "p1\<lparr>rs := (rs p)\<lparr>radio_state := IDLE, rs_channelNumber := ch\<rparr>\<rparr>" True] ch by (auto simp: getChannelNumber_def)
  define q where "q = p1\<lparr>phyOut := phyOut p1 @ [RadioStateChanged ((rs p)\<lparr>radio_state := IDLE\<rparr>)], rxPower := replicate 27 0,
    noiseLevel := thermalNoise p, rs := (rs p)\<lparr>radio_state := IDLE, rs_channelNumber := ch, rs_bitrate := r\<rparr>\<rparr>"
  obtain c1 fs c2 where t: "updateHostChannel (myHostRef w) ch (cc p) = Inr c1" "getOngoingTransmissions (now w) ch c1 = Inr (fs, c2)"
    "\<forall>f \<in> set fs. 0 \<le> pSend f" "myHostRef w \<in> dom (entry c2)"
    by (rule channel_tables [OF c ch])
  have rate: "phy_getRate True (p1\<lparr>phyOut := x, rxPower := y, noiseLevel := z, rs := (rs p)\<lparr>radio_state := IDLE, rs_channelNumber := ch\<rparr>\<rparr>) = Inr r" for x y z
    using r rate_cong [of "p1\<lparr>phyOut := x, rxPower := y, noiseLevel := z, rs := (rs p)\<lparr>radio_state := IDLE, rs_channelNumber := ch\<rparr>\<rparr>"
        "p1\<lparr>rs := (rs p)\<lparr>radio_state := IDLE, rs_channelNumber := ch\<rparr>\<rparr>"] by (simp add: getChannelNumber_def)
  have "changeChannel w ch p = foldR (pick_up w ch) (enumerate 0 fs) (q\<lparr>cc := c2\<rparr>)"
  proof -
    have first: "doR [\<lambda>p. foldR drop_frame (map fst (recvBuff p)) p, updR (\<lambda>p. p\<lparr>recvBuff := []\<rparr>), whenR (\<lambda>p. ptr (snrInfo p) \<noteq> None) (updR clear_snr)] p = Inr p1"
      by (simp add: drop_frames [OF heap] updR_def whenR_def p1_def p0_def)
    have split: "doR (a # b # c # ds) p = bindR (doR [a, b, c] p) (doR ds)" for a b c :: pstmt and ds p
      using doR_append [of "[a, b, c]" ds p] by simp
    show ?thesis
      unfolding changeChannel_def
      by (subst split, unfold first bindR_simps)
        (use busy cur ch rate t p1 in \<open>simp add: phy_stmts setRxPower_def rxp q_def getChannelNumber_def\<close>)
  qed
  moreover have "recv_wf 0 q"
    using p1 ch by (simp add: q_def recv_wf_def power_wf_def noise_wf_def snr_wf_def heap_wf_def signal_def getChannelNumber_def)
  moreover have "trx_wf q" "busy_wf q" "phyRadioState q = phy_RX_ON" "newState q = phy_IDLE" "airframes q = Map.empty"
    using p1 tr on by (auto simp: q_def trx_wf_def busy_wf_def trx_def)
  then have "picking w 0 (q\<lparr>cc := c2\<rparr>)" using \<open>recv_wf 0 q\<close> t(4) by (simp add: picking_def phy_wf_def)
  ultimately show ?thesis using pick_ups_ok [OF _ w t(3)] by simp
qed

section \<open>Events\<close>

text \<open>
  The events the module meets: the MAC asks for one of four transceiver states and changes the channel
  only while the receiver is on and nothing is pending, frames arrive unmarked and with a power that
  is not negative, and timers fire when they are due.
\<close>

definition phy_event_ok :: "PhyEnv \<Rightarrow> phyevent \<Rightarrow> Phy \<Rightarrow> bool" where
  "phy_event_ok w e p \<longleftrightarrow> (case e of
     FromMac (UpperPrimitive kind st attr ch) \<Rightarrow>
       (kind = Some PLME_SET_TRX_STATE_REQUEST \<longrightarrow> trx_request st) \<and>
       (kind = Some PLME_SET_REQUEST \<longrightarrow> phyRadioState p = phy_RX_ON \<and> newState p = phy_IDLE)
   | FromMac (UpperFrame _) \<Rightarrow> True
   | FromAir f \<Rightarrow> airKind f \<noteq> BITERROR_FORCE_TRX_OFF \<and> 0 \<le> pSend f
   | PhyTimeout t \<Rightarrow> phyTimers p t = Some (now w)
   | RxOver a \<Rightarrow> endRx p a = Some (now w))"

definition phy_env_ok :: "PhyEnv \<Rightarrow> Phy \<Rightarrow> bool" where
  "phy_env_ok w p \<longleftrightarrow> libm_ok (libm w) \<and> fresh_air w p \<and> cc_ok w (cc p)"

text \<open>What an event adds to the noise for good, and the change of channel that forgets it.\<close>

definition changes_channel :: "phyevent \<Rightarrow> Phy \<Rightarrow> bool" where
  "changes_channel e p \<longleftrightarrow> (case e of
     FromMac (UpperPrimitive (Some PLME_SET_REQUEST) _ PHY_CURRENT_CHANNEL ch) \<Rightarrow>
       0 \<le> ch \<and> ch \<le> 26 \<and> channelSupported ch \<and> ch \<noteq> getChannelNumber p
   | _ \<Rightarrow> False)"

definition forces_off :: "phyevent \<Rightarrow> bool" where
  "forces_off e \<longleftrightarrow> (case e of
     FromMac (UpperPrimitive (Some PLME_SET_TRX_STATE_REQUEST) phy_FORCE_TRX_OFF _ _) \<Rightarrow> True | _ \<Rightarrow> False)"

definition leak_by :: "phyevent \<Rightarrow> Phy \<Rightarrow> rat \<Rightarrow> rat" where
  "leak_by e p leak = (if changes_channel e p then 0 else if forces_off e \<and> forced p then leak + rcvdPower (snrInfo p) else leak)"

lemma setRequest_ok:
  assumes wf: "phy_wf leak p" and c: "cc_ok w (cc p)" and on: "phyRadioState p = phy_RX_ON" "newState p = phy_IDLE"
    and w: "libm_ok (libm w)" "inj (new_air w)"
  shows "wpR (phy_wf (if changes_channel (FromMac (UpperPrimitive (Some PLME_SET_REQUEST) st attr ch)) p then 0 else leak)) reported
    (handle_PLME_SET_request w attr ch p)"
proof -
  have out: "phy_wf l (q\<lparr>phyOut := x\<rparr>) = phy_wf l q" for l q x by (simp add: phy_wf_def)
  have "wpR (\<lambda>q. phy_wf 0 q) reported (changeChannel w ch p)" if "0 \<le> ch" "ch \<le> 26"
    using changeChannel_ok [OF wf c on that w] .
  then have "wpR (\<lambda>q. wpR (phy_wf 0) reported (doR [\<lambda>p. outP (ChannelChanged (rs p)) p, PLME_SET_confirm phy_SUCCESS PHY_CURRENT_CHANNEL] q)) reported
      (changeChannel w ch p)" if "0 \<le> ch" "ch \<le> 26"
    using that by (auto simp: outP_def PLME_SET_confirm_def out elim!: wpR_mono)
  then show ?thesis
    using wf by (cases attr) (auto simp: handle_PLME_SET_request_def changes_channel_def reported_def PLME_SET_confirm_def outP_def whenR_def out
        bindR_assoc not_less not_le intro!: wpR_bindR)
qed

lemma recv_wf_peak [simp]: "recv_wf leak (p\<lparr>rxPeakPower := x\<rparr>) = recv_wf leak p"
  by (simp add: recv_wf_def power_wf_def noise_wf_def snr_wf_def heap_wf_def getChannelNumber_def)

lemma phy_wf_measure:
  assumes "phy_wf leak p" and "t \<noteq> PHY_TRX_TIMER" "t \<noteq> PHY_TX_OVER_TIMER"
  shows "phy_wf leak (p\<lparr>isCCAStartIdle := b, phyTimers := (phyTimers p)(t := x)\<rparr>)"
    and "phy_wf leak (p\<lparr>rxPeakPower := r, phyTimers := (phyTimers p)(t := x)\<rparr>)" and "phy_wf leak (p\<lparr>phyOut := y\<rparr>)"
proof -
  have "trx_wf (p\<lparr>phyTimers := (phyTimers p)(t := x)\<rparr>)" using assms by (auto simp: phy_wf_def trx_wf_def)
  then have "trx_wf (p\<lparr>rxPeakPower := r, phyTimers := (phyTimers p)(t := x)\<rparr>)"
    "trx_wf (p\<lparr>isCCAStartIdle := b, phyTimers := (phyTimers p)(t := x)\<rparr>)"
    by (auto simp: trx_def elim: trx_wf_cong [THEN iffD1, rotated 2])
  moreover have "busy_wf (p\<lparr>rxPeakPower := r\<rparr>)" using assms by (simp add: phy_wf_def busy_wf_def)
  ultimately show "phy_wf leak (p\<lparr>isCCAStartIdle := b, phyTimers := (phyTimers p)(t := x)\<rparr>)"
    "phy_wf leak (p\<lparr>rxPeakPower := r, phyTimers := (phyTimers p)(t := x)\<rparr>)" "phy_wf leak (p\<lparr>phyOut := y\<rparr>)"
    using assms(1) by (simp_all add: phy_wf_def)
qed

lemma measure_time: "0 < r \<Longrightarrow> \<not> now w + 8 / r < now w"
  by simp

lemma cca_request_ok:
  assumes wf: "phy_wf leak p"
  shows "wpR (phy_wf leak) reported (phy_handlePrimitive w PLME_CCA_REQUEST st attr ch p)"
proof -
  obtain r where r: "phy_getRate False p = Inr r" "0 < r" using rate_ok wf by (auto simp: phy_wf_def recv_wf_def power_wf_def)
  have rate: "phy_getRate False (p\<lparr>isCCAStartIdle := y\<rparr>) = Inr r" for y
    using r(1) rate_cong [of "p\<lparr>isCCAStartIdle := y\<rparr>" p] by (simp add: getChannelNumber_def)
  show ?thesis
    using rate measure_time [OF r(2), of w] phy_wf_measure [OF wf, of PHY_CCA_TIMER]
    by (simp add: phy_handlePrimitive_def phy_stmts scheduleP_def PLME_CCA_confirm_def reported_def)
qed

lemma ed_request_ok:
  assumes wf: "phy_wf leak p"
  shows "wpR (phy_wf leak) reported (phy_handlePrimitive w PLME_ED_REQUEST st attr ch p)"
proof -
  have pw: "power_wf p" using wf by (simp add: phy_wf_def recv_wf_def)
  obtain r where r: "phy_getRate False p = Inr r" "0 < r" using rate_ok pw by (auto simp: power_wf_def)
  have rate: "phy_getRate False (p\<lparr>rxPeakPower := y\<rparr>) = Inr r" for y
    using r(1) rate_cong [of "p\<lparr>rxPeakPower := y\<rparr>" p] by (simp add: getChannelNumber_def)
  show ?thesis
    using rate measure_time [OF r(2), of w] phy_wf_measure [OF wf, of PHY_ED_TIMER]
    by (simp add: phy_handlePrimitive_def phy_stmts scheduleP_def PLME_ED_confirm_def reported_def getRxPower_eq [OF pw])
qed

lemma phy_primitive_ok:
  assumes wf: "phy_wf leak p" and env: "phy_env_ok w p" and e: "phy_event_ok w (FromMac (UpperPrimitive (Some k) st attr ch)) p"
  shows "wpR (phy_wf (leak_by (FromMac (UpperPrimitive (Some k) st attr ch)) p leak)) reported (phy_handlePrimitive w k st attr ch p)"
proof (cases k)
  case PLME_CCA_REQUEST
  then show ?thesis using cca_request_ok [OF wf] by (simp add: leak_by_def changes_channel_def forces_off_def)
next
  case PLME_ED_REQUEST
  then show ?thesis using ed_request_ok [OF wf] by (simp add: leak_by_def changes_channel_def forces_off_def)
next
  case PLME_SET_TRX_STATE_REQUEST
  have "leak_by (FromMac (UpperPrimitive (Some k) st attr ch)) p leak =
      (if st = phy_FORCE_TRX_OFF \<and> forced p then leak + rcvdPower (snrInfo p) else leak)"
    using PLME_SET_TRX_STATE_REQUEST by (cases st) (simp_all add: leak_by_def changes_channel_def forces_off_def)
  moreover have "trx_request st" using e PLME_SET_TRX_STATE_REQUEST by (simp add: phy_event_ok_def)
  ultimately show ?thesis using PLME_SET_TRX_STATE_REQUEST request_ok [OF wf, of st w]
    by (auto simp: phy_handlePrimitive_def succR_iff)
next
  case PLME_SET_REQUEST
  have "leak_by (FromMac (UpperPrimitive (Some k) st attr ch)) p leak =
      (if changes_channel (FromMac (UpperPrimitive (Some PLME_SET_REQUEST) st attr ch)) p then 0 else leak)"
    using PLME_SET_REQUEST by (simp add: leak_by_def forces_off_def)
  then show ?thesis using PLME_SET_REQUEST e env setRequest_ok [OF wf, of w st attr ch]
    by (simp add: phy_handlePrimitive_def phy_event_ok_def phy_env_ok_def fresh_air_def)
qed (simp_all add: phy_handlePrimitive_def reported_def)

text \<open>Every event keeps the invariant, and the faults it may end in are the tolerated ones.\<close>

lemma phy_handleMessage_ok:
  assumes wf: "phy_wf leak p" and env: "phy_env_ok w p" and e: "phy_event_ok w e p"
  shows "wpR (phy_wf (leak_by e p leak)) (tolerated e) (phy_handleMessage w e p)"
proof -
  have tol: "wpR Q reported m \<Longrightarrow> wpR Q (tolerated e) m" for Q m by (cases m) (auto simp: tolerated_def)
  show ?thesis
  proof (cases e)
    case (FromMac m)
    show ?thesis
    proof (cases m)
      case (UpperPrimitive kind st attr ch)
      show ?thesis
      proof (cases kind)
        case None
        then show ?thesis using FromMac UpperPrimitive by (simp add: phy_handleMessage_def tolerated_def reported_def)
      next
        case (Some k)
        have "e = FromMac (UpperPrimitive (Some k) st attr ch)" using FromMac UpperPrimitive Some by simp
        moreover from this have "phy_handleMessage w e p = phy_handlePrimitive w k st attr ch p" by (simp add: phy_handleMessage_def)
        ultimately show ?thesis using tol [OF phy_primitive_ok [OF wf env]] e by metis
      qed
    next
      case (UpperFrame frame)
      have "leak_by e p leak = leak" using FromMac UpperFrame by (simp add: leak_by_def changes_channel_def forces_off_def)
      then show ?thesis using FromMac UpperFrame tol [OF upperMsg_ok [OF wf, of w frame]] env
        by (simp add: phy_handleMessage_def tolerated_def reported_def phy_env_ok_def)
    qed
  next
    case (FromAir f)
    have l: "leak_by e p leak = leak" using FromAir by (simp add: leak_by_def changes_channel_def forces_off_def)
    let ?f = "f\<lparr>arrivalTime := now w\<rparr>"
    have "wpR (phy_wf leak) reported (doR [updR (\<lambda>p. p\<lparr>airframes := (airframes p)(new_air w 0 \<mapsto> ?f)\<rparr>),
        handleLowerMsgStart w (new_air w 0), bufferMsg w (new_air w 0)] p)" if "phyRadioState p = phy_RX_ON"
      using wf env e FromAir that
      by (intro wpR_mono [OF arrival_ok [of leak p "new_air w 0" ?f w]])
        (auto simp: phy_wf_def phy_env_ok_def fresh_air_def phy_event_ok_def)
    from tol [OF this] show ?thesis using FromAir wf l by (simp add: phy_handleMessage_def whenR_def)
  next
    case (PhyTimeout t)
    then show ?thesis using selfMsg_ok [OF wf, of t w] e
      by (simp add: phy_handleMessage_def phy_event_ok_def leak_by_def changes_channel_def forces_off_def)
  next
    case (RxOver a)
    have rw: "recv_wf leak p" "trx_wf p" "busy_wf p" using wf by (simp_all add: phy_wf_def)
    have "a \<in> keys p" using RxOver e rw(1) by (auto simp: phy_event_ok_def recv_wf_def heap_wf_def)
    then obtain r where r: "om_find (recvBuff p) a = Some r" using om_find_None [of "recvBuff p" a] by (cases "om_find (recvBuff p) a") auto
    show ?thesis using RxOver rxOver_ok [OF rw r, of w]
      by (auto simp: phy_handleMessage_def succR_iff phy_wf_def leak_by_def changes_channel_def forces_off_def)
  qed
qed

end
