(* ===== verification/Phy_Safety.thy ===== *)
theory Phy_Safety
  imports Phy_Reachable
begin

text \<open>
  The properties of the physical layer over its reachable states: the accounts of noise and power, the states of
  the transceiver, the faults it can end in, the service of pending requests, and what forced switch-offs and a
  turnaround do to the noise level, a transmission and a clear channel assessment.
\<close>

section \<open>Reachable states\<close>

text \<open>
  A state of the module with what forced switch-offs have added to its noise level. Between two events
  of the module the modules of other hosts work on the channel control.
\<close>

definition phy_init :: "Phy \<times> rat \<Rightarrow> bool" where
  "phy_init s \<longleftrightarrow> (\<exists>w par c. numChannels c = 27 \<and> phy_initialize w par c = Inr (fst s)) \<and> snd s = 0"

inductive phy_step :: "Phy \<times> rat \<Rightarrow> Phy \<times> rat \<Rightarrow> bool" where
  event: "phy_env_ok w p \<Longrightarrow> phy_event_ok w e p \<Longrightarrow> phy_handleMessage w e p = Inr p' \<Longrightarrow> phy_step (p, leak) (p', leak_by e p leak)"
| other: "phy_step (p, leak) (p\<lparr>cc := c\<rparr>, leak)"

inductive_cases phy_stepE: "phy_step (p, leak) (p', leak')"

definition phy_inv :: "Phy \<times> rat \<Rightarrow> bool" where
  "phy_inv s \<longleftrightarrow> phy_wf (snd s) (fst s) \<and> 0 \<le> snd s"

lemma phy_wf_cc [simp]: "phy_wf leak (p\<lparr>cc := c\<rparr>) = phy_wf leak p"
  by (simp add: phy_wf_def)

lemma forced_power:
  assumes "phy_wf leak p" and "ptr (snrInfo p) \<noteq> None"
  shows "0 \<le> rcvdPower (snrInfo p)"
  using assms om_nonneg_find by (fastforce simp: phy_wf_def recv_wf_def power_wf_def snr_wf_def)

lemma leak_by_nonneg: "phy_wf leak p \<Longrightarrow> 0 \<le> leak \<Longrightarrow> 0 \<le> leak_by e p leak"
  using forced_power by (fastforce simp: leak_by_def forced_def)

lemma initialize_wf:
  assumes c: "numChannels c = 27" and i: "phy_initialize w par c = Inr p"
  shows "phy_wf 0 p"
proof -
  obtain r h c' where p: "p = \<lparr>carrierFrequency = par_carrier par, sensitivity = dBm2mW (libm w) (par_sensitivity par),
      thermalNoise = dBm2mW (libm w) (par_thermalNoise par), transmitterPower = par_transmitterPower par,
      noiseLevel = dBm2mW (libm w) (par_thermalNoise par), snrInfo = \<lparr>ptr = None, rcvdPower = 0, sList = []\<rparr>, recvBuff = [],
      txPktCopy = None, rxPower = replicate 27 0, rxPeakPower = 0,
      rs = \<lparr>radio_state = IDLE, rs_channelNumber = par_channelNumber par, rs_bitrate = r\<rparr>,
      phyRadioState = phy_RX_ON, newState = phy_IDLE, newState_turnaround = phy_IDLE, isCCAStartIdle = False,
      phyTimers = (\<lambda>_. None), airframes = (\<lambda>_. None), endRx = (\<lambda>_. None), cc = c', phyOut = phyOut p\<rparr>"
    and u: "updateHostChannel h (par_channelNumber par) c = Inr c'"
    using i by (auto simp: phy_initialize_def Let_def phy_stmts bindR_Inr_iff getChannelNumber_def split: if_splits option.splits)
  have "0 \<le> par_channelNumber par" "par_channelNumber par \<le> 26"
    using u c by (auto simp: updateHostChannel_def checkChannel_def checkR_def split: if_splits)
  then show ?thesis
    by (subst p) (simp add: phy_wf_def recv_wf_def power_wf_def noise_wf_def snr_wf_def heap_wf_def trx_wf_def busy_wf_def
        signal_def getChannelNumber_def)
qed

interpretation phy: invariant_system phy_init phy_step phy_inv
proof
  show "phy_inv s" if "phy_init s" for s
    using that initialize_wf by (auto simp: phy_init_def phy_inv_def)
  show "phy_inv s'" if "phy_inv s" "phy_step s s'" for s s'
    using that(2)
  proof cases
    case (event w p e p' leak)
    have wf: "phy_wf leak p" "0 \<le> leak" using that(1) event(1) by (simp_all add: phy_inv_def)
    then show ?thesis using event phy_handleMessage_ok [OF wf(1) event(3,4)] leak_by_nonneg by (simp add: phy_inv_def)
  next
    case (other p leak c)
    then show ?thesis using that(1) by (simp add: phy_inv_def)
  qed
qed

section \<open>Accounts of the receiver\<close>

lemma reachable_phy_wf: "phy_init s \<Longrightarrow> phy_step\<^sup>*\<^sup>* s (p, leak) \<Longrightarrow> phy_wf leak p \<and> 0 \<le> leak"
  using phy.reachable_inv by (fastforce simp: phy_inv_def)

text \<open>
  C4: In every reachable state of the physical layer the noise level is the thermal noise plus the power of
  every frame on the air other than the one being received (and of that one too once a forced switch-off spoilt
  it), plus what repeated forced switch-offs left behind; the accumulator of the current channel is the sum of
  the powers of all frames and those of the other channels are zero; and the frames alive, the frames in the
  receive buffer and the frames with an end-of-reception timer are the same ones.
\<close>

theorem noise_accounted:
  assumes "phy_init s" and "phy_step\<^sup>*\<^sup>* s (p, leak)"
  shows "noiseLevel p = thermalNoise p + (om_sum (recvBuff p) - signal p) + leak \<and>
    rxPower p = (replicate 27 0)[nat (getChannelNumber p) := om_sum (recvBuff p)] \<and>
    dom (airframes p) = fst ` set (recvBuff p) \<and> dom (endRx p) = fst ` set (recvBuff p)"
  using reachable_phy_wf [OF assms]
  by (simp add: phy_wf_def recv_wf_def noise_wf_def power_wf_def heap_wf_def)


section \<open>States, faults and requests\<close>

text \<open>
  C10: In every reachable state the radio state the standard knows is one of RX_ON, TX_ON and TRX_OFF, a pending
  request is for one of these (or there is none), the channel is one of the 27 channels with an accumulator for
  each; the radio transmits only with the transmitter on and senses a busy channel only with the receiver on; a
  copy of the outgoing frame is kept exactly while the timer for its end runs; and while the transceiver turns
  around it is off, with the state to come to being RX_ON or TX_ON.
\<close>

theorem radio_states_typed:
  assumes "phy_init s" and "phy_step\<^sup>*\<^sup>* s (p, leak)"
  shows "phyRadioState p \<in> {phy_RX_ON, phy_TX_ON, phy_TRX_OFF} \<and> newState p \<in> {phy_IDLE, phy_RX_ON, phy_TX_ON, phy_TRX_OFF} \<and>
    getChannelNumber p \<in> {0..26} \<and> length (rxPower p) = 27 \<and>
    (radio_state (rs p) = TRANSMIT \<longrightarrow> phyRadioState p = phy_TX_ON) \<and> (radio_state (rs p) = RECV \<longrightarrow> phyRadioState p = phy_RX_ON) \<and>
    (txPktCopy p \<noteq> None \<longleftrightarrow> phyTimers p PHY_TX_OVER_TIMER \<noteq> None) \<and>
    (phyTimers p PHY_TRX_TIMER \<noteq> None \<longrightarrow> phyRadioState p = phy_TRX_OFF \<and> newState_turnaround p \<in> {phy_RX_ON, phy_TX_ON})"
  using reachable_phy_wf [OF assms] by (auto simp: phy_wf_def recv_wf_def power_wf_def trx_wf_def)

text \<open>
  C9: No event the module meets in a reachable state makes it use a deleted frame, dereference a null pointer,
  index the accumulators out of bounds or schedule a timer twice: it ends in a new state, in an error the module
  reports, or in a time in the past refused by the kernel; only the energy measured may be too large for its
  integer type.
\<close>

theorem phy_faults_reported:
  assumes "phy_init s" and "phy_step\<^sup>*\<^sup>* s (p, leak)" and "phy_env_ok w p" and "phy_event_ok w e p"
    and "phy_handleMessage w e p = Inl flt"
  shows "flt = AssertFailed \<or> (\<exists>msg. flt = RuntimeError msg) \<or> flt = KernelError ''scheduleAt: cannot schedule to the past'' \<or>
    e = PhyTimeout PHY_ED_TIMER \<and> flt = UndefinedBehaviour"
  using phy_handleMessage_ok [of leak p w e] reachable_phy_wf [OF assms(1,2)] assms(3-)
  by (simp add: tolerated_def reported_def)

text \<open>
  C24: A state asked for during a transmission is served: the timer for the end of the transmission runs; when it
  fires the radio is switched off and, if this was the state asked for, confirmed; otherwise the turnaround timer is
  started, and when that fires the transceiver is in the state asked for and confirms it.
\<close>

theorem pending_request_served:
  assumes "phy_init s" and "phy_step\<^sup>*\<^sup>* s (p, leak)" and "radio_state (rs p) = TRANSMIT" and "newState p = st" and "st \<noteq> phy_IDLE"
  shows "phyTimers p PHY_TX_OVER_TIMER \<noteq> None \<and>
    (\<exists>p'. phy_handleMessage w (PhyTimeout PHY_TX_OVER_TIMER) p = Inr p' \<and> phyRadioState p' = phy_TRX_OFF \<and>
      (if st = phy_TRX_OFF then last (phyOut p') = SetTrxStateConfirm phy_TRX_OFF
       else phyTimers p' PHY_TRX_TIMER \<noteq> None \<and>
         (\<exists>p''. phy_handleMessage w' (PhyTimeout PHY_TRX_TIMER) p' = Inr p'' \<and> phyRadioState p'' = st \<and>
           last (phyOut p'') = SetTrxStateConfirm st)))"
proof -
  have wf: "phy_wf leak p" using reachable_phy_wf [OF assms(1,2)] by simp
  have t: "phyTimers p PHY_TX_OVER_TIMER \<noteq> None" using wf assms(3) by (simp add: phy_wf_def trx_wf_def)
  obtain p' where p': "phy_handleSelfMsg w PHY_TX_OVER_TIMER p = Inr p'" "phy_wf leak p'" "carried_out w st p'"
    using txOver_ok [OF wf t, of w] assms(4,5) by (auto simp: succR_iff)
  show ?thesis
  proof (cases "st = phy_TRX_OFF")
    case True
    then show ?thesis using t p' by (auto simp: phy_handleMessage_def carried_out_def)
  next
    case False
    then have c: "phyRadioState p' = phy_TRX_OFF" "newState_turnaround p' = st" "phyTimers p' PHY_TRX_TIMER \<noteq> None"
      using p'(3) by (auto simp: carried_out_def)
    obtain p'' where "phy_handleSelfMsg w' PHY_TRX_TIMER p' = Inr p''" "phyRadioState p'' = st"
      "phyOut p'' = phyOut p' @ [RadioStateChanged (rs p''), SetTrxStateConfirm st]"
      using trxTimer_ok [OF p'(2) c(3), of w'] c(2) by (auto simp: succR_iff)
    then show ?thesis using t p'(1) c False by (simp add: phy_handleMessage_def)
  qed
qed

lemma snirMin_less: "snirMin m xs \<le> t \<longleftrightarrow> m \<le> t \<or> (\<exists>x \<in> set xs. snr x \<le> t)"
  by (induction m xs rule: snirMin.induct) auto

text \<open>
  C27: The radio model accepts a frame exactly if its signal to noise ratio was above the threshold at every point of
  its reception.
\<close>

theorem received_correctly_iff:
  assumes "xs \<noteq> []"
  shows "isReceivedCorrectly t xs = Inr (\<forall>x \<in> set xs. t < snr x)"
  using assms by (cases xs) (auto simp: isReceivedCorrectly_def snirMin_less not_le)


section \<open>Forced switch-offs\<close>

abbreviation trx_msg :: "PHYenum \<Rightarrow> phyevent" where
  "trx_msg st \<equiv> FromMac (UpperPrimitive (Some PLME_SET_TRX_STATE_REQUEST) st PHY_CURRENT_CHANNEL 0)"

lemma trx_msg_eq: "phy_handleMessage w (trx_msg st) = handle_PLME_SET_TRX_STATE_request w st"
  by (simp add: phy_handleMessage_def phy_handlePrimitive_def)

text \<open>A forced switch-off forgets what is pending and then switches off.\<close>

lemma forced_request:
  assumes wf: "phy_wf leak p"
  shows "succR (\<lambda>p'. phy_wf (if forced p then leak + rcvdPower (snrInfo p) else leak) p' \<and> phyRadioState p' = phy_TRX_OFF \<and>
    phyTimers p' = (phyTimers p)(PHY_TRX_TIMER := None) \<and> txPktCopy p' = txPktCopy p \<and> radio_state (rs p') = SLEEP)
    (phy_handleMessage w (trx_msg phy_FORCE_TRX_OFF) p)"
proof -
  obtain q where q: "handle_PLME_SET_TRX_STATE_request w phy_FORCE_TRX_OFF p = switch_trx w phy_FORCE_TRX_OFF q" "phy_wf leak q"
    "newState q = phy_IDLE" "phyTimers q = (phyTimers p)(PHY_TRX_TIMER := None)" "same_recv p q" "txPktCopy q = txPktCopy p"
    using forget_pending [OF wf] by metis
  have eqs: "forced q = forced p" "snrInfo q = snrInfo p" using q(5) same_recv_wf [OF q(5)] by (simp_all add: same_recv_def)
  have "phyRadioState q \<noteq> phy_FORCE_TRX_OFF" using q(2) by (auto simp: phy_wf_def trx_wf_def)
  then have "switch_trx w phy_FORCE_TRX_OFF q = force_trx_off q" by (simp add: switch_trx_def)
  moreover have "phyTimers q PHY_TRX_TIMER = None" using q(4) by simp
  ultimately have "succR (\<lambda>p'. phy_wf (if forced p then leak + rcvdPower (snrInfo p) else leak) p' \<and> phyRadioState p' = phy_TRX_OFF \<and>
    phyTimers p' = phyTimers q \<and> txPktCopy p' = txPktCopy q \<and> radio_state (rs p') = SLEEP \<and> recvBuff p' = recvBuff q \<and>
    thermalNoise p' = thermalNoise q \<and> sensitivity p' = sensitivity q) (switch_trx w phy_FORCE_TRX_OFF q)"
    using force_ok [OF q(2,3)] unfolding eqs by metis
  then show ?thesis unfolding trx_msg_eq q(1,4,6) by (rule succR_mono) blast
qed

text \<open>
  C25: A forced switch-off during a transmission does not end it: the branch that would is guarded by a radio state that
  the statement before has overwritten. The timer for the end of the transmission keeps running, and when it fires the
  MAC is told that the transmission succeeded. A MAC that switches the transmitter on again before that and sends a frame
  stops the simulation by a failed assertion.
\<close>

theorem forced_off_transmission_goes_on:
  assumes "phy_init s" and "phy_step\<^sup>*\<^sup>* s (p, leak)" and "radio_state (rs p) = TRANSMIT"
  shows "\<exists>p'. phy_handleMessage w (trx_msg phy_FORCE_TRX_OFF) p = Inr p' \<and> phyRadioState p' = phy_TRX_OFF \<and>
    phyTimers p' PHY_TX_OVER_TIMER \<noteq> None \<and>
    (\<exists>p''. phy_handleMessage w' (PhyTimeout PHY_TX_OVER_TIMER) p' = Inr p'' \<and> (\<exists>r. phyOut p'' = phyOut p' @ [RadioStateChanged r, PdDataConfirm phy_SUCCESS])) \<and>
    (\<exists>q. phy_handleMessage w' (trx_msg phy_TX_ON) p' = Inr q \<and>
      (byteLength frame \<noteq> 0 \<longrightarrow> phy_handleMessage w'' (FromMac (UpperFrame frame)) q = Inl AssertFailed))"
proof -
  have wf: "phy_wf leak p" using reachable_phy_wf [OF assms(1,2)] by simp
  have t: "phyTimers p PHY_TX_OVER_TIMER \<noteq> None" using wf assms(3) by (simp add: phy_wf_def trx_wf_def)
  obtain p' where p': "phy_handleMessage w (trx_msg phy_FORCE_TRX_OFF) p = Inr p'"
    "phy_wf (if forced p then leak + rcvdPower (snrInfo p) else leak) p'" "phyRadioState p' = phy_TRX_OFF"
    "phyTimers p' = (phyTimers p)(PHY_TRX_TIMER := None)" "txPktCopy p' = txPktCopy p" "radio_state (rs p') = SLEEP"
    using forced_request [OF wf, of w] by (auto simp: succR_iff)
  have tx: "phyTimers p' PHY_TX_OVER_TIMER \<noteq> None" "txPktCopy p' \<noteq> None" "newState p' = phy_IDLE"
    using t wf p'(2,4,5,6) by (auto simp: phy_wf_def trx_wf_def)
  have over: "\<exists>p''. phy_handleMessage w' (PhyTimeout PHY_TX_OVER_TIMER) p' = Inr p'' \<and> (\<exists>r. phyOut p'' = phyOut p' @ [RadioStateChanged r, PdDataConfirm phy_SUCCESS])"
    using tx by (simp add: phy_handleMessage_def phy_handleSelfMsg_def phy_stmts PD_DATA_confirm_def apply_newState_def)
  obtain q where q: "handle_PLME_SET_TRX_STATE_request w' phy_TX_ON p' = switch_trx w' phy_TX_ON q"
    "rs q = rs p'" "phyRadioState q = phyRadioState p'" "txPktCopy q = txPktCopy p'"
    using forget_pending [OF p'(2)] by metis
  let ?q = "q\<lparr>phyRadioState := phy_TX_ON, rs := (rs q)\<lparr>radio_state := IDLE\<rparr>,
    phyOut := phyOut q @ [RadioStateChanged ((rs q)\<lparr>radio_state := IDLE\<rparr>), SetTrxStateConfirm phy_SUCCESS]\<rparr>"
  have "phy_handleMessage w' (trx_msg phy_TX_ON) p' = Inr ?q"
    using q p'(3,6) unfolding trx_msg_eq by (simp add: switch_trx_def phy_stmts PLME_SET_TRX_STATE_confirm_def)
  moreover obtain f where "txPktCopy q = Some f" using q(4) tx(2) by auto
  then have "byteLength frame \<noteq> 0 \<longrightarrow> phy_handleMessage w'' (FromMac (UpperFrame frame)) ?q = Inl AssertFailed"
    by (simp add: phy_handleMessage_def phy_handleUpperMsg_def phy_stmts)
  ultimately show ?thesis using p'(1,3) tx(1) over by blast
qed


text \<open>Steps that do not change the channel.\<close>

inductive phy_stay :: "Phy \<times> rat \<Rightarrow> Phy \<times> rat \<Rightarrow> bool" where
  event: "phy_env_ok w p \<Longrightarrow> phy_event_ok w e p \<Longrightarrow> \<not> changes_channel e p \<Longrightarrow> phy_handleMessage w e p = Inr p' \<Longrightarrow>
    phy_stay (p, leak) (p', leak_by e p leak)"
| other: "phy_stay (p, leak) (p\<lparr>cc := c\<rparr>, leak)"

lemma phy_stay_step: "phy_stay s s' \<Longrightarrow> phy_step s s'"
  by (induction rule: phy_stay.induct) (blast intro: phy_step.intros)+

lemma leak_by_mono:
  assumes "phy_wf leak p" and "\<not> changes_channel e p"
  shows "leak \<le> leak_by e p leak"
proof (cases "forced p")
  case True
  then have "0 \<le> rcvdPower (snrInfo p)" by (intro forced_power [OF assms(1)]) (auto simp: forced_def)
  then show ?thesis using assms(2) by (simp add: leak_by_def)
qed (use assms(2) in \<open>simp add: leak_by_def\<close>)

lemma phy_stay_leak: "phy_stay s s' \<Longrightarrow> phy_inv s \<Longrightarrow> snd s \<le> snd s'"
  by (induction rule: phy_stay.induct) (simp_all add: phy_inv_def leak_by_mono)

lemma phy_stays_leak:
  assumes "phy_stay\<^sup>*\<^sup>* s s'" and "phy_inv s"
  shows "phy_inv s' \<and> snd s \<le> snd s'"
  using assms
proof (induction rule: rtranclp_induct)
  case (step t u)
  then have "phy_inv t" "snd s \<le> snd t" by simp_all
  moreover have "phy_inv u" by (rule phy.step_inv [OF \<open>phy_inv t\<close> phy_stay_step [OF step.hyps(2)]])
  moreover have "snd t \<le> snd u" by (rule phy_stay_leak [OF step.hyps(2) \<open>phy_inv t\<close>])
  ultimately show ?case by simp
qed simp

text \<open>
  C26: A forced switch-off while the frame being received is already spoilt by an earlier one adds the power of that frame
  to the noise level once more, and nothing takes it away again before the channel is changed: when all frames have left,
  the noise level is above the thermal noise by at least this power.
\<close>

theorem noise_floor_raised:
  assumes "phy_init s" and "phy_step\<^sup>*\<^sup>* s (p, leak)" and "forced p" and "phy_env_ok w p"
    and "phy_handleMessage w (trx_msg phy_FORCE_TRX_OFF) p = Inr p'"
    and "phy_stay\<^sup>*\<^sup>* (p', leak + rcvdPower (snrInfo p)) (q, leak')" and "recvBuff q = []"
  shows "noiseLevel q \<ge> thermalNoise q + rcvdPower (snrInfo p)"
proof -
  have wf: "phy_wf leak p" "0 \<le> leak" using reachable_phy_wf [OF assms(1,2)] by simp_all
  have pos: "0 \<le> rcvdPower (snrInfo p)" using forced_power [OF wf(1)] assms(3) by (auto simp: forced_def)
  have "phy_wf (leak + rcvdPower (snrInfo p)) p'" using forced_request [OF wf(1), of w] assms(3,5) by simp
  then have "phy_inv (p', leak + rcvdPower (snrInfo p))" using wf(2) pos by (simp add: phy_inv_def)
  then have q: "phy_wf leak' q" "leak + rcvdPower (snrInfo p) \<le> leak'"
    using phy_stays_leak [OF assms(6)] by (simp_all add: phy_inv_def)
  have "ptr (snrInfo q) = None" using q(1) assms(7) by (auto simp: phy_wf_def recv_wf_def snr_wf_def)
  then have "noiseLevel q = thermalNoise q + leak'"
    using q(1) assms(7) by (simp add: phy_wf_def recv_wf_def noise_wf_def signal_def)
  then show ?thesis using q(2) wf(2) by simp
qed

section \<open>Clear channel assessment\<close>

text \<open>
  When the transceiver has turned around to the receiver, it takes the channel for idle whatever the noise level is:
  a clear channel assessment made then reports an idle channel, even with a noise level above the sensitivity.
\<close>

theorem cca_after_turnaround_idle:
  assumes "phy_init s" and "phy_step\<^sup>*\<^sup>* s (p, leak)" and "phyTimers p PHY_TRX_TIMER \<noteq> None" and "newState_turnaround p = phy_RX_ON"
    and "phyTimers p PHY_CCA_TIMER = None"
  shows "\<exists>p1 p2 p3. phy_handleMessage w (PhyTimeout PHY_TRX_TIMER) p = Inr p1 \<and>
    phy_handleMessage w (FromMac (UpperPrimitive (Some PLME_CCA_REQUEST) st attr ch)) p1 = Inr p2 \<and>
    phy_handleMessage w' (PhyTimeout PHY_CCA_TIMER) p2 = Inr p3 \<and>
    last (phyOut p3) = CcaConfirm phy_IDLE \<and> noiseLevel p3 = noiseLevel p \<and> recvBuff p3 = recvBuff p"
proof -
  have wf: "phy_wf leak p" using reachable_phy_wf [OF assms(1,2)] by simp
  obtain r where r: "phy_getRate False p = Inr r" "0 < r" using rate_ok wf by (auto simp: phy_wf_def recv_wf_def power_wf_def)
  let ?p1 = "p\<lparr>phyTimers := (phyTimers p)(PHY_TRX_TIMER := None), phyRadioState := phy_RX_ON, rs := (rs p)\<lparr>radio_state := IDLE\<rparr>,
    phyOut := phyOut p @ [RadioStateChanged ((rs p)\<lparr>radio_state := IDLE\<rparr>), SetTrxStateConfirm phy_RX_ON]\<rparr>"
  have 1: "phy_handleMessage w (PhyTimeout PHY_TRX_TIMER) p = Inr ?p1"
    using assms(4) by (simp add: phy_handleMessage_def phy_handleSelfMsg_def phy_stmts PLME_SET_TRX_STATE_confirm_def)
  let ?p2 = "?p1\<lparr>isCCAStartIdle := True, phyTimers := (phyTimers ?p1)(PHY_CCA_TIMER \<mapsto> now w + 8 / r)\<rparr>"
  have "phy_getRate False (?p1\<lparr>isCCAStartIdle := True\<rparr>) = Inr r"
    using r(1) rate_cong [of "?p1\<lparr>isCCAStartIdle := True\<rparr>" p] by (simp add: getChannelNumber_def)
  then have 2: "phy_handleMessage w (FromMac (UpperPrimitive (Some PLME_CCA_REQUEST) st attr ch)) ?p1 = Inr ?p2"
    using r(2) assms(5) by (simp add: phy_handleMessage_def phy_handlePrimitive_def phy_stmts scheduleP_def)
  have "\<exists>p3. phy_handleMessage w' (PhyTimeout PHY_CCA_TIMER) ?p2 = Inr p3 \<and>
    last (phyOut p3) = CcaConfirm phy_IDLE \<and> noiseLevel p3 = noiseLevel p \<and> recvBuff p3 = recvBuff p"
    by (simp add: phy_handleMessage_def phy_handleSelfMsg_def phy_stmts PLME_CCA_confirm_def)
  then show ?thesis using 1 2 by blast
qed


section \<open>A reception that is forced off twice\<close>

text \<open>
  The second host of the line, a strong frame from the first host, and a C library that rounds the values needed.
\<close>

definition lm1 :: Libm where
  "lm1 = \<lparr>sqrtL = (\<lambda>x. if x = 9 then 3 else 1),
     powL = (\<lambda>x y. if y = - 11 then 1 / 1000000 else if y = - 17 / 2 then 1 / 1000 else 1)\<rparr>"

definition phyenv0 :: "nat \<Rightarrow> rat \<Rightarrow> PhyEnv" where
  "phyenv0 k t = \<lparr>now = t, libm = lm1, myPosition = at_x 3, myHostRef = 2, pathLossAlpha = 2, snirThreshold = 2, radioGates = 1,
     new_air = (\<lambda>i. i + k)\<rparr>"

definition phypar0 :: PhyPar where
  "phypar0 = \<lparr>par_channelNumber = 11, par_carrier = 2400000000, par_sensitivity = - 85, par_thermalNoise = - 110,
     par_transmitterPower = 1, par_cc_pMax = 2, par_pathLossAlpha = 2, par_cc_alpha = 2, par_host = 200\<rparr>"

definition rs0 :: RadioState where
  "rs0 = \<lparr>radio_state = IDLE, rs_channelNumber = 11, rs_bitrate = 250000\<rparr>"

definition phy0 :: Phy where
  "phy0 = \<lparr>carrierFrequency = 2400000000, sensitivity = 1 / 1000, thermalNoise = 1 / 1000000, transmitterPower = 1,
     noiseLevel = 1 / 1000000, snrInfo = \<lparr>ptr = None, rcvdPower = 0, sList = []\<rparr>, recvBuff = [], txPktCopy = None,
     rxPower = replicate 27 0, rxPeakPower = 0, rs = rs0, phyRadioState = phy_RX_ON, newState = phy_IDLE,
     newState_turnaround = phy_IDLE, isCCAStartIdle = False, phyTimers = (\<lambda>_. None), airframes = (\<lambda>_. None), endRx = (\<lambda>_. None),
     cc = line0, phyOut = [RadioStateChanged rs0, ChannelChanged rs0]\<rparr>"

definition air1 :: AirFrame where
  "air1 = air0\<lparr>pSend := 100, senderPos := at_x 0\<rparr>"

definition power1 :: rat where
  "power1 = 100 * (1 / 8) * (1 / 8) / (16 * M_PI * M_PI)"

lemma power1_strong: "1 / 1000 \<le> power1" "0 \<le> power1"
  by (simp_all add: power1_def M_PI_def)

definition phy1 :: Phy where
  "phy1 = phy0\<lparr>airframes := [0 \<mapsto> air1], endRx := [0 \<mapsto> 1 / 1000], recvBuff := [(0, power1)],
     rxPower := (replicate 27 0)[11 := power1], snrInfo := \<lparr>ptr = Some 0, rcvdPower = power1, sList = [\<lparr>snr_time = 0, snr = power1 * 1000000\<rparr>]\<rparr>,
     rs := rs0\<lparr>radio_state := RECV\<rparr>, phyOut := phyOut phy0 @ [RadioStateChanged (rs0\<lparr>radio_state := RECV\<rparr>)]\<rparr>"

definition force1 :: "Phy \<Rightarrow> Phy" where
  "force1 p = p\<lparr>phyRadioState := phy_TRX_OFF, rs := rs0\<lparr>radio_state := SLEEP\<rparr>,
     phyOut := phyOut p @ [RadioStateChanged (rs0\<lparr>radio_state := SLEEP\<rparr>)],
     airframes := [0 \<mapsto> air1\<lparr>airKind := BITERROR_FORCE_TRX_OFF\<rparr>], noiseLevel := noiseLevel p + power1\<rparr>"

definition phy4 :: Phy where
  "phy4 = (force1 (force1 phy1))\<lparr>airframes := Map.empty, endRx := Map.empty, recvBuff := [], rxPower := replicate 27 0,
     noiseLevel := 1 / 1000000 + power1, snrInfo := \<lparr>ptr = None, rcvdPower = power1, sList = []\<rparr>\<rparr>"

lemma phy0_init: "phy_init (phy0, 0)"
proof -
  have "phy_initialize (phyenv0 0 0) phypar0 line0 = Inr phy0"
    by (simp add: phy_initialize_def phypar0_def phyenv0_def lm1_def dBm2mW_def phy_stmts phy_getRate_def getChannelNumber_def BR_2_4G_def
        updateHostChannel_def checkChannel_def host_at_def line0_def cc0_def entry0_def mod_host_def lookupHost_def phy0_def rs0_def)
  moreover have "numChannels line0 = 27" by (simp add: line0_def cc0_def)
  ultimately show ?thesis unfolding phy_init_def by auto
qed

lemma lm1_ok: "libm_ok lm1"
  by (simp add: libm_ok_def lm1_def)

lemma line0_ok: "cc_ok (phyenv0 k t) line0"
proof -
  have "cc_init (cc0, {})"
    unfolding cc_init_def by (intro conjI exI [of _ lm0] exI [of _ ccpar0])
      (simp_all add: cc_initialize_def ccpar0_def cc0_def lm0_def calcInterfDist_def)
  then have "cc_wf (line0, {1, 2, 3})" using chan.reachable_inv cc_run_steps [OF line0_reached] by blast
  then show ?thesis by (auto simp: cc_ok_def phyenv0_def line0_def cc0_def)
qed

lemma env0_ok: "cc p = line0 \<Longrightarrow> \<forall>a \<in> dom (airframes p). a < k \<Longrightarrow> phy_env_ok (phyenv0 k t) p"
  using lm1_ok line0_ok [of k t] by (force simp: phy_env_ok_def fresh_air_def phyenv0_def inj_def)

lemma env0_sel [simp]: "now (phyenv0 k t) = t" "new_air (phyenv0 k t) i = i + k" "snirThreshold (phyenv0 k t) = 2"
  by (simp_all add: phyenv0_def)

lemma air1_sel [simp]: "channelNumber air1 = 11" "duration air1 = 1 / 1000" "arrivalTime air1 = 0" "airKind air1 = NO_ERROR"
  "air1\<lparr>arrivalTime := 0\<rparr> = air1" "pSend air1 = 100"
  by (simp_all add: air1_def air0_def)

lemma power_air1: "carrierFrequency p = 2400000000 \<Longrightarrow> received_power (phyenv0 0 0) air1 p = power1"
  by (simp add: received_power_def phyenv0_def distance_def sqrdist_def at_x_def air1_def air0_def lm1_def
      calculateReceivedPower_def power1_def)

lemma phy1_reached: "phy_handleMessage (phyenv0 0 0) (FromAir air1) phy0 = Inr phy1"
  using power1_strong(1)
  by (simp add: phy_handleMessage_def phy_stmts processAirFrame_def handleLowerMsgStart_def air_at_def addRxPower_def getRxPower_def
      setRxPower_def bufferMsg_def start_reception_def addNewSnr_def getChannelNumber_def phy0_def phy1_def rs0_def power_air1)

lemma force1_reached:
  assumes "p = phy1 \<or> p = force1 phy1"
  shows "phy_handleMessage (phyenv0 k t) (trx_msg phy_FORCE_TRX_OFF) p = Inr (force1 p)"
proof -
  obtain f where f: "airframes p = [0 \<mapsto> f]" "f\<lparr>airKind := BITERROR_FORCE_TRX_OFF\<rparr> = air1\<lparr>airKind := BITERROR_FORCE_TRX_OFF\<rparr>"
    using assms by (auto simp: phy1_def force1_def)
  have "newState p = phy_IDLE" "phyTimers p = (\<lambda>_. None)" "ptr (snrInfo p) = Some 0" "rcvdPower (snrInfo p) = power1"
    "(rs p)\<lparr>radio_state := SLEEP\<rparr> = rs0\<lparr>radio_state := SLEEP\<rparr>" "phyRadioState p \<noteq> phy_FORCE_TRX_OFF"
    using assms by (auto simp: phy1_def phy0_def force1_def)
  then show ?thesis
    using f unfolding trx_msg_eq
    by (simp add: handle_PLME_SET_TRX_STATE_request_def switch_trx_def force_trx_off_def phy_stmts air_at_def force1_def)
qed

lemma phy4_reached: "phy_handleMessage (phyenv0 1 (1 / 1000)) (RxOver 0) (force1 (force1 phy1)) = Inr phy4"
  by (simp add: phy_handleMessage_def handleRxOver_def handleLowerMsgEnd_def buffered_def om_index_def om_find_def phy_stmts addRxPower_def
      getRxPower_def setRxPower_def getChannelNumber_def end_reception_def air_at_def lower_noise_def clear_snr_def erase_frame_def om_erase_def
      deleteAir_def force1_def phy1_def phy0_def phy4_def rs0_def)

lemma phy1_steps: "phy_step\<^sup>*\<^sup>* (phy0, 0) (phy1, 0)"
proof -
  have "phy_env_ok (phyenv0 0 0) phy0" by (rule env0_ok) (simp_all add: phy0_def)
  moreover have "phy_event_ok (phyenv0 0 0) (FromAir air1) phy0" by (simp add: phy_event_ok_def)
  ultimately have "phy_step (phy0, 0) (phy1, leak_by (FromAir air1) phy0 0)" using phy1_reached by (rule phy_step.event)
  then show ?thesis by (simp add: leak_by_def changes_channel_def forces_off_def)
qed

lemma force1_step:
  assumes "p = phy1 \<or> p = force1 phy1"
  shows "phy_stay (p, leak) (force1 p, if p = phy1 then leak else leak + power1)"
proof -
  have p: "airframes p = [0 \<mapsto> if p = phy1 then air1 else air1\<lparr>airKind := BITERROR_FORCE_TRX_OFF\<rparr>]" "cc p = line0"
    "ptr (snrInfo p) = Some 0" "rcvdPower (snrInfo p) = power1"
    using assms by (auto simp: phy1_def phy0_def force1_def)
  have "phy_env_ok (phyenv0 1 0) p" using p by (intro env0_ok) auto
  moreover have "phy_event_ok (phyenv0 1 0) (trx_msg phy_FORCE_TRX_OFF) p" by (simp add: phy_event_ok_def trx_request_def)
  moreover have "\<not> changes_channel (trx_msg phy_FORCE_TRX_OFF) p" by (simp add: changes_channel_def)
  ultimately have "phy_stay (p, leak) (force1 p, leak_by (trx_msg phy_FORCE_TRX_OFF) p leak)"
    using force1_reached [OF assms] by (rule phy_stay.event)
  moreover have "leak_by (trx_msg phy_FORCE_TRX_OFF) p leak = (if p = phy1 then leak else leak + power1)"
    using p by (simp add: leak_by_def changes_channel_def forces_off_def forced_def)
  ultimately show ?thesis by simp
qed

lemma phy4_step: "phy_stay (force1 (force1 phy1), leak) (phy4, leak)"
proof -
  let ?p = "force1 (force1 phy1)"
  have "phy_env_ok (phyenv0 1 (1 / 1000)) ?p" by (rule env0_ok) (simp_all add: force1_def phy1_def phy0_def)
  moreover have "phy_event_ok (phyenv0 1 (1 / 1000)) (RxOver 0) ?p" by (simp add: phy_event_ok_def force1_def phy1_def)
  moreover have "\<not> changes_channel (RxOver 0) ?p" by (simp add: changes_channel_def)
  ultimately have "phy_stay (?p, leak) (phy4, leak_by (RxOver 0) ?p leak)" using phy4_reached by (rule phy_stay.event)
  then show ?thesis by (simp add: leak_by_def changes_channel_def forces_off_def)
qed

theorem noise_accounted_witness:
  "noiseLevel phy1 = thermalNoise phy1 + (om_sum (recvBuff phy1) - signal phy1) \<and> rxPower phy1 ! 11 = power1"
  using noise_accounted [OF phy0_init phy1_steps] by (simp add: phy1_def phy0_def)

theorem radio_states_typed_witness:
  "phyRadioState phy1 \<in> {phy_RX_ON, phy_TX_ON, phy_TRX_OFF} \<and> radio_state (rs phy1) = RECV \<and> getChannelNumber phy1 \<in> {0..26}"
  using radio_states_typed [OF phy0_init phy1_steps] by (simp add: phy1_def)

theorem phy_faults_reported_witness:
  "\<exists>flt. phy_handleMessage (phyenv0 1 0) (FromMac (UpperFrame frame1)) phy1 = Inl flt \<and> (flt = AssertFailed \<or> (\<exists>msg. flt = RuntimeError msg) \<or>
     flt = KernelError ''scheduleAt: cannot schedule to the past'')"
proof -
  have "phy_handleMessage (phyenv0 1 0) (FromMac (UpperFrame frame1)) phy1 = Inl (RuntimeError ''transmitter is not ON while trying to send a msg to channel'')"
    by (simp add: phy_handleMessage_def phy_handleUpperMsg_def ifR_def phy1_def phy0_def frame1_def)
  moreover have "phy_env_ok (phyenv0 1 0) phy1" by (rule env0_ok) (simp_all add: phy1_def phy0_def)
  moreover have "phy_event_ok (phyenv0 1 0) (FromMac (UpperFrame frame1)) phy1" by (simp add: phy_event_ok_def)
  ultimately show ?thesis using phy_faults_reported [OF phy0_init phy1_steps] by blast
qed

theorem received_correctly_iff_witness:
  "isReceivedCorrectly 2 [\<lparr>snr_time = 0, snr = 5\<rparr>, \<lparr>snr_time = 1, snr = 2\<rparr>] = Inr False"
  using received_correctly_iff [of "[\<lparr>snr_time = 0, snr = 5\<rparr>, \<lparr>snr_time = 1, snr = 2\<rparr>]" 2] by simp

theorem noise_floor_raised_witness:
  "noiseLevel phy4 \<ge> thermalNoise phy4 + power1 \<and> recvBuff phy4 = [] \<and> thermalNoise phy4 = 1 / 1000000 \<and> 1 / 1000 \<le> power1"
proof -
  have "phy_step (phy1, 0) (force1 phy1, 0)" using phy_stay_step [OF force1_step [of phy1 0]] by simp
  then have run: "phy_step\<^sup>*\<^sup>* (phy0, 0) (force1 phy1, 0)" using phy1_steps by (rule rtranclp.rtrancl_into_rtrancl [rotated])
  have f: "forced (force1 phy1)" by (simp add: forced_def force1_def phy1_def)
  have env: "phy_env_ok (phyenv0 1 0) (force1 phy1)" by (rule env0_ok) (simp_all add: force1_def phy1_def phy0_def)
  have r: "rcvdPower (snrInfo (force1 phy1)) = power1" by (simp add: force1_def phy1_def)
  have "phy_stay\<^sup>*\<^sup>* (force1 (force1 phy1), 0 + rcvdPower (snrInfo (force1 phy1))) (phy4, power1)" using phy4_step [of power1] r by simp
  then show ?thesis
    using noise_floor_raised [OF phy0_init run f env force1_reached] r power1_strong(1) by (simp add: phy4_def force1_def phy1_def phy0_def)
qed


section \<open>A transmission\<close>

text \<open>The transmitter is switched on, a frame is sent, and the radio is to be switched off meanwhile.\<close>

definition turning0 :: "PHYenum \<Rightarrow> Phy \<Rightarrow> Phy" where
  "turning0 st p = p\<lparr>newState_turnaround := st, phyRadioState := phy_TRX_OFF, rs := rs0\<lparr>radio_state := SLEEP\<rparr>,
     phyOut := phyOut p @ [RadioStateChanged (rs0\<lparr>radio_state := SLEEP\<rparr>)], phyTimers := [PHY_TRX_TIMER \<mapsto> 12 / 62500]\<rparr>"

definition ready0 :: Phy where
  "ready0 = (turning0 phy_TX_ON phy0)\<lparr>phyTimers := Map.empty, phyRadioState := phy_TX_ON, rs := rs0,
     phyOut := phyOut (turning0 phy_TX_ON phy0) @ [RadioStateChanged rs0, SetTrxStateConfirm phy_TX_ON]\<rparr>"

text \<open>The reception was forced off, and the transmitter is switched on while the frame is still on the air.\<close>

definition busy0 :: Phy where
  "busy0 = (force1 phy1)\<lparr>phyRadioState := phy_TX_ON, rs := rs0,
     phyOut := phyOut (force1 phy1) @ [RadioStateChanged rs0, SetTrxStateConfirm phy_SUCCESS]\<rparr>"

definition sent0 :: AirFrame where
  "sent0 = encapsulatePacket (phyenv0 0 (12 / 62500)) frame1 ready0"

lemma phy_step_quiet:
  assumes "phy_env_ok w p" and "phy_event_ok w e p" and "phy_handleMessage w e p = Inr p'" and "\<not> forces_off e" and "\<not> changes_channel e p"
  shows "phy_step (p, leak) (p', leak)"
  using phy_step.event [OF assms(1-3), of leak] assms(4,5) by (simp add: leak_by_def)

lemma turn0_reached:
  assumes "p = phy0 \<and> st = phy_TX_ON \<or> p = ready0 \<and> st = phy_RX_ON \<or> p = busy0 \<and> st = phy_RX_ON"
  shows "phy_step (p, 0) (turning0 st p, 0)"
proof (rule phy_step_quiet [where w = "phyenv0 1 0" and e = "trx_msg st"])
  have p: "newState p = phy_IDLE" "phyTimers p = (\<lambda>_. None)" "rs p = rs0" "\<forall>a \<in> dom (airframes p). a < 1" "cc p = line0"
    using assms by (auto simp: ready0_def turning0_def phy0_def busy0_def force1_def phy1_def split: if_splits)
  show "phy_handleMessage (phyenv0 1 0) (trx_msg st) p = Inr (turning0 st p)"
    using assms p unfolding trx_msg_eq
    by (auto simp: handle_PLME_SET_TRX_STATE_request_def switch_trx_def phy_stmts startTrxTimer_def scheduleP_def phy_getRate_def getChannelNumber_def
        rs0_def SR_2_4G_def aTurnaroundTime_def turning0_def ready0_def phy0_def busy0_def force1_def phy1_def)
  show "phy_env_ok (phyenv0 1 0) p" using p by (intro env0_ok)
  show "phy_event_ok (phyenv0 1 0) (trx_msg st) p" "\<not> forces_off (trx_msg st)" using assms by (auto simp: phy_event_ok_def trx_request_def forces_off_def)
qed (simp add: changes_channel_def)

lemma ready0_steps: "phy_step\<^sup>*\<^sup>* (phy0, 0) (ready0, 0)"
proof -
  let ?w = "phyenv0 0 (12 / 62500)" and ?p = "turning0 phy_TX_ON phy0"
  have "phy_step (?p, 0) (ready0, 0)"
  proof (rule phy_step_quiet)
    show "phy_handleMessage ?w (PhyTimeout PHY_TRX_TIMER) ?p = Inr ready0"
      by (simp add: phy_handleMessage_def phy_handleSelfMsg_def phy_stmts PLME_SET_TRX_STATE_confirm_def ready0_def turning0_def phy0_def rs0_def)
    show "phy_env_ok ?w ?p" by (rule env0_ok) (simp_all add: turning0_def phy0_def)
  qed (simp_all add: phy_event_ok_def turning0_def phy0_def forces_off_def changes_channel_def)
  moreover have "phy_step (phy0, 0) (?p, 0)" by (rule turn0_reached) simp
  ultimately show ?thesis by (meson r_into_rtranclp rtranclp_trans)
qed

lemma sending0: "\<exists>p. phy_step\<^sup>*\<^sup>* (phy0, 0) (p, 0) \<and> radio_state (rs p) = TRANSMIT \<and> phyRadioState p = phy_TX_ON \<and> newState p = phy_IDLE \<and>
  airframes p = Map.empty \<and> phyTimers p PHY_TRX_TIMER = None \<and> ptr (snrInfo p) = None"
proof -
  let ?w = "phyenv0 0 (12 / 62500)"
  have env: "phy_env_ok ?w ready0" by (rule env0_ok) (simp_all add: ready0_def turning0_def phy0_def)
  have ch: "0 \<le> channelNumber sent0" "channelNumber sent0 < numChannels line0"
    by (simp_all add: sent0_def encapsulatePacket_def Let_def getChannelNumber_def ready0_def rs0_def line0_def cc0_def)
  obtain S where S: "cc_wf (line0, S)" using line0_ok unfolding cc_ok_def by blast
  have src: "entry line0 2 = Some (entry0 200 8 3 [1, 3])" by (simp add: line0_def)
  obtain out c where c: "cc_sendToChannel lm1 (12 / 62500) 2 sent0 line0 = Inr (out, c)"
    using send_returns [OF S src ch, of lm1 "12 / 62500"] by blast
  have d: "0 \<le> duration sent0"
    by (simp add: sent0_def encapsulatePacket_def Let_def calculateDuration_def ready0_def rs0_def def_phyHeaderLength_def frame1_def)
  have r: "phyRadioState ready0 = phy_TX_ON" "rs ready0 = rs0" "txPktCopy ready0 = None" "phyTimers ready0 = Map.empty" "cc ready0 = line0"
    "airframes ready0 = Map.empty" "ptr (snrInfo ready0) = None" "newState ready0 = phy_IDLE"
    by (simp_all add: ready0_def turning0_def phy0_def)
  have w: "libm ?w = lm1" "myHostRef ?w = 2" by (simp_all add: phyenv0_def)
  obtain p where p: "phy_handleMessage ?w (FromMac (UpperFrame frame1)) ready0 = Inr p" "radio_state (rs p) = TRANSMIT" "phyRadioState p = phy_TX_ON"
    "newState p = phy_IDLE" "airframes p = Map.empty" "phyTimers p PHY_TRX_TIMER = None" "ptr (snrInfo p) = None"
    using c d r w sent0_def
    by (simp add: phy_handleMessage_def phy_handleUpperMsg_def phy_stmts scheduleP_def phy_sendDown_def frame1_def rs0_def)
  have "phy_step (ready0, 0) (p, 0)"
    by (rule phy_step_quiet [OF env _ p(1)]) (use r in \<open>simp_all add: phy_event_ok_def forces_off_def changes_channel_def\<close>)
  then show ?thesis using p(2-) ready0_steps by (meson rtranclp.rtrancl_into_rtrancl)
qed


lemma pending0: "\<exists>p. phy_step\<^sup>*\<^sup>* (phy0, 0) (p, 0) \<and> radio_state (rs p) = TRANSMIT \<and> newState p = phy_RX_ON"
proof -
  obtain p where p: "phy_step\<^sup>*\<^sup>* (phy0, 0) (p, 0)" "radio_state (rs p) = TRANSMIT" "phyRadioState p = phy_TX_ON" "newState p = phy_IDLE"
    "airframes p = Map.empty" "phyTimers p PHY_TRX_TIMER = None" "ptr (snrInfo p) = None" using sending0 by blast
  let ?p = "p\<lparr>cc := line0\<rparr>" and ?w = "phyenv0 0 (12 / 62500)"
  have other: "phy_step (p, 0) (?p, 0)" by (rule phy_step.other)
  let ?q = "?p\<lparr>newState := phy_RX_ON, phyOut := phyOut p @ [SetTrxStateConfirm phy_BUSY_TX]\<rparr>"
  have "phy_handleMessage ?w (trx_msg phy_RX_ON) ?p = Inr ?q"
    using p(2-) unfolding trx_msg_eq
    by (simp add: handle_PLME_SET_TRX_STATE_request_def switch_trx_def phy_stmts PLME_SET_TRX_STATE_confirm_def)
  moreover have "phy_env_ok ?w ?p" by (rule env0_ok) (use p in simp_all)
  moreover have "phy_event_ok ?w (trx_msg phy_RX_ON) ?p" "\<not> forces_off (trx_msg phy_RX_ON)" "\<not> changes_channel (trx_msg phy_RX_ON) ?p"
    by (simp_all add: phy_event_ok_def trx_request_def forces_off_def changes_channel_def)
  ultimately have "phy_step (?p, 0) (?q, 0)" by (intro phy_step_quiet)
  then have "phy_step\<^sup>*\<^sup>* (phy0, 0) (?q, 0)" using p(1) other by (meson rtranclp.rtrancl_into_rtrancl)
  moreover have "radio_state (rs ?q) = TRANSMIT" "newState ?q = phy_RX_ON" using p(2) by simp_all
  ultimately show ?thesis by blast
qed

theorem pending_request_served_witness:
  "\<exists>p p' p''. radio_state (rs p) = TRANSMIT \<and> newState p = phy_RX_ON \<and>
    phy_handleMessage (phyenv0 0 1) (PhyTimeout PHY_TX_OVER_TIMER) p = Inr p' \<and>
    phy_handleMessage (phyenv0 0 2) (PhyTimeout PHY_TRX_TIMER) p' = Inr p'' \<and> phyRadioState p'' = phy_RX_ON \<and>
    last (phyOut p'') = SetTrxStateConfirm phy_RX_ON"
proof -
  obtain p where "phy_step\<^sup>*\<^sup>* (phy0, 0) (p, 0)" "radio_state (rs p) = TRANSMIT" "newState p = phy_RX_ON" using pending0 by blast
  then show ?thesis using pending_request_served [OF phy0_init, of p 0 phy_RX_ON "phyenv0 0 1" "phyenv0 0 2"] by auto
qed

theorem forced_off_transmission_goes_on_witness:
  "\<exists>p p' q. radio_state (rs p) = TRANSMIT \<and> phy_handleMessage (phyenv0 0 1) (trx_msg phy_FORCE_TRX_OFF) p = Inr p' \<and>
    phy_handleMessage (phyenv0 0 1) (trx_msg phy_TX_ON) p' = Inr q \<and>
    phy_handleMessage (phyenv0 0 1) (FromMac (UpperFrame frame1)) q = Inl AssertFailed"
proof -
  obtain p where p: "phy_step\<^sup>*\<^sup>* (phy0, 0) (p, 0)" "radio_state (rs p) = TRANSMIT" using pending0 by blast
  have "byteLength frame1 \<noteq> 0" by (simp add: frame1_def)
  then show ?thesis
    using forced_off_transmission_goes_on [OF phy0_init p, of "phyenv0 0 1" "phyenv0 0 1" frame1 "phyenv0 0 1"] p(2) by blast
qed

lemma busy0_steps: "phy_step\<^sup>*\<^sup>* (phy0, 0) (turning0 phy_RX_ON busy0, 0)"
proof -
  have "phy_step (phy1, 0) (force1 phy1, 0)" using phy_stay_step [OF force1_step [of phy1 0]] by simp
  moreover have "phy_step (force1 phy1, 0) (busy0, 0)"
  proof (rule phy_step_quiet [where w = "phyenv0 1 0" and e = "trx_msg phy_TX_ON"])
    show "phy_handleMessage (phyenv0 1 0) (trx_msg phy_TX_ON) (force1 phy1) = Inr busy0"
      unfolding trx_msg_eq
      by (simp add: handle_PLME_SET_TRX_STATE_request_def switch_trx_def phy_stmts PLME_SET_TRX_STATE_confirm_def busy0_def force1_def
          phy1_def phy0_def rs0_def)
    show "phy_env_ok (phyenv0 1 0) (force1 phy1)" by (rule env0_ok) (simp_all add: force1_def phy1_def phy0_def)
  qed (simp_all add: phy_event_ok_def trx_request_def forces_off_def changes_channel_def)
  moreover have "phy_step (busy0, 0) (turning0 phy_RX_ON busy0, 0)" by (rule turn0_reached) simp
  ultimately show ?thesis using phy1_steps by (meson rtranclp.rtrancl_into_rtrancl)
qed

theorem cca_after_turnaround_idle_witness:
  "\<exists>p1 p2 p3. phy_handleMessage (phyenv0 1 (12 / 62500)) (PhyTimeout PHY_TRX_TIMER) (turning0 phy_RX_ON busy0) = Inr p1 \<and>
    phy_handleMessage (phyenv0 1 (12 / 62500)) (FromMac (UpperPrimitive (Some PLME_CCA_REQUEST) phy_IDLE PHY_CURRENT_CHANNEL 0)) p1 = Inr p2 \<and>
    phy_handleMessage (phyenv0 1 (20 / 62500)) (PhyTimeout PHY_CCA_TIMER) p2 = Inr p3 \<and> last (phyOut p3) = CcaConfirm phy_IDLE \<and>
    sensitivity busy0 < noiseLevel p3"
proof -
  have "sensitivity busy0 < noiseLevel busy0" using power1_strong(1) by (simp add: busy0_def force1_def phy1_def phy0_def)
  moreover have "noiseLevel (turning0 phy_RX_ON busy0) = noiseLevel busy0" by (simp add: turning0_def)
  ultimately show ?thesis
    using cca_after_turnaround_idle [OF phy0_init busy0_steps, of "phyenv0 1 (12 / 62500)" phy_IDLE PHY_CURRENT_CHANNEL 0 "phyenv0 1 (20 / 62500)"]
    by (simp add: turning0_def) metis
qed

end
