(* ===== verification/Wlan_Frame.thy ===== *)
theory Wlan_Frame
  imports Mac_Address Radio_State
begin

text \<open>
  The frames of the IEEE 802.11 ad hoc network card the sensor nodes use (\<open>Ieee80211Frame.msg\<close>,
  \<open>Ieee80211MgmtFrames.msg\<close>, \<open>PhyControlInfo.msg\<close>), its constants (\<open>Ieee80211Consts.h\<close>) and the timing and
  frame length functions of \<open>Ieee80211Mac.cc\<close>. Times and bit rates are exact rational numbers. A
  frame is a value: each object has one owner, and the code copies it with \<open>dup\<close> before it sends it.
  The type of the packets a data frame carries is a parameter.
\<close>

section \<open>Frames\<close>

datatype Ieee80211FrameType =
    ST_ASSOCIATIONREQUEST | ST_ASSOCIATIONRESPONSE | ST_REASSOCIATIONREQUEST | ST_REASSOCIATIONRESPONSE
  | ST_PROBEREQUEST | ST_PROBERESPONSE | ST_BEACON | ST_ATIM | ST_DISASSOCIATION | ST_AUTHENTICATION
  | ST_DEAUTHENTICATION | ST_PSPOLL | ST_RTS | ST_CTS | ST_ACK | ST_DATA | ST_LBMS_REQUEST | ST_LBMS_REPORT

text \<open>
  The class of a frame object; a management frame is of the subclass whose \<open>type\<close> field has the given value
  by default. The \<open>type\<close> field itself can be set.
\<close>

datatype frameclass = ACKFrame | RTSFrame | CTSFrame | DataFrame | ManagementFrame Ieee80211FrameType

record PhyControlInfo =
  channelNumber :: int
  ctrl_bitrate :: rat

record 'p Ieee80211Frame =
  frameClass :: frameclass
  frameType :: Ieee80211FrameType
  retry :: bool
  moreFragments :: bool
  duration :: rat
  receiverAddress :: mac
  transmitterAddress :: mac
  address3 :: mac
  frameSequence :: int
  byteLength :: int
  msgKind :: int
  frameControl :: "PhyControlInfo option"
  payload :: "'p option"

definition isDataOrMgmtFrame :: "'p Ieee80211Frame \<Rightarrow> bool" where
  "isDataOrMgmtFrame f \<longleftrightarrow> (case frameClass f of DataFrame \<Rightarrow> True | ManagementFrame _ \<Rightarrow> True | _ \<Rightarrow> False)"

definition isTwoAddressFrame :: "'p Ieee80211Frame \<Rightarrow> bool" where
  "isTwoAddressFrame f \<longleftrightarrow> isDataOrMgmtFrame f \<or> frameClass f = RTSFrame"

definition newFrame :: "frameclass \<Rightarrow> Ieee80211FrameType \<Rightarrow> int \<Rightarrow> 'p Ieee80211Frame" where
  "newFrame c t n = \<lparr>frameClass = c, frameType = t, retry = False, moreFragments = False, duration = -1,
     receiverAddress = UNSPECIFIED_ADDRESS, transmitterAddress = UNSPECIFIED_ADDRESS, address3 = UNSPECIFIED_ADDRESS,
     frameSequence = 0, byteLength = n, msgKind = 0, frameControl = None, payload = None\<rparr>"

definition newACKFrame :: "'p Ieee80211Frame" where "newACKFrame = newFrame ACKFrame ST_ACK 14"
definition newCTSFrame :: "'p Ieee80211Frame" where "newCTSFrame = newFrame CTSFrame ST_CTS 14"
definition newRTSFrame :: "'p Ieee80211Frame" where "newRTSFrame = newFrame RTSFrame ST_RTS 20"
definition newDataFrame :: "'p Ieee80211Frame" where "newDataFrame = newFrame DataFrame ST_DATA 34"

section \<open>Constants and timing\<close>

definition BITERROR :: int where "BITERROR = -1"
definition COLLISION :: int where "COLLISION = 9"
definition LENGTH_RTS :: int where "LENGTH_RTS = 160"
definition LENGTH_CTS :: int where "LENGTH_CTS = 112"
definition LENGTH_ACK :: int where "LENGTH_ACK = 112"
definition ST :: rat where "ST = 20 / 10 ^ 6"
definition SIFS :: rat where "SIFS = 10 / 10 ^ 6"
definition MAX_PROPAGATION_DELAY :: rat where "MAX_PROPAGATION_DELAY = 2 / 10 ^ 6"
definition CW_MIN :: int where "CW_MIN = 31"
definition CW_MAX :: int where "CW_MAX = 1023"
definition PHY_HEADER_LENGTH :: int where "PHY_HEADER_LENGTH = 192"
definition BITRATE_HEADER :: rat where "BITRATE_HEADER = 10 ^ 6"
definition fragmentationThreshold :: int where "fragmentationThreshold = 2346"

definition getSIFS :: rat where "getSIFS = SIFS"
definition getSlotTime :: rat where "getSlotTime = ST"
definition getPIFS :: rat where "getPIFS = getSIFS + getSlotTime"
definition getDIFS :: rat where "getDIFS = getSIFS + 2 * getSlotTime"

definition getEIFS :: rat where
  "getEIFS = getSIFS + getDIFS + of_int (8 * LENGTH_ACK + PHY_HEADER_LENGTH) / 10 ^ 6"

lemmas wlan_times = ST_def SIFS_def MAX_PROPAGATION_DELAY_def getSIFS_def getSlotTime_def getPIFS_def getDIFS_def getEIFS_def
  LENGTH_RTS_def LENGTH_CTS_def LENGTH_ACK_def PHY_HEADER_LENGTH_def BITRATE_HEADER_def

text \<open>
  The duration of a frame of some bits. The quotient by a zero bit rate is infinite, which every
  use converts to \<open>simtime_t\<close> and so makes an error.
\<close>

definition computeFrameDuration :: "int \<Rightarrow> rat \<Rightarrow> rat res" where
  "computeFrameDuration bits bitrate =
     (if bitrate = 0 then Inl (KernelError ''simtime_t: out of range'')
      else Inr (of_int bits / bitrate + of_int PHY_HEADER_LENGTH / BITRATE_HEADER))"

definition frameDuration :: "'p Ieee80211Frame \<Rightarrow> rat \<Rightarrow> rat res" where
  "frameDuration f bitrate = computeFrameDuration (8 * byteLength f) bitrate"

end
