(* ===== verification/Wlan_Mac.thy ===== *)
theory Wlan_Mac
  imports Wlan_Frame
begin

text \<open>
  The medium access control of the 802.11 network card (\<open>Ieee80211Mac.h\<close>, \<open>Ieee80211Mac.cc\<close>,
  \<open>WirelessMacBase.cc\<close>) and the macros of its state machine (\<open>FSMA.h\<close>). The kernel's bound on the
  number of transitions of one event, \<open>FSM_MAXT\<close>, is part of the environment of an event. Only the
  recording of output vectors and of trace lines is left out.
\<close>

section \<open>State\<close>

datatype FState = MAC_IDLE | DEFER | WAITDIFS | BACKOFF | WAITACK | WAITBROADCAST | WAITCTS | WAITSIFS | RECEIVE

datatype wtimer = endSIFS | endDIFS | endBackoff | endTimeout | endReserve | mediumStateChange

text \<open>
  What the module hands to its gates, to the queue module, to the notification board and to the interface table.
\<close>

datatype 'p wmacoutput =
    SendDown "'p Ieee80211Frame"
  | SendUp "'p Ieee80211Frame"
  | ConfigureRadio PhyControlInfo
  | RequestPacket
  | LinkBreak "'p Ieee80211Frame"
  | Promiscuous "'p Ieee80211Frame"
  | FullPromiscuous "'p Ieee80211Frame"
  | AddInterface string mac

record WStats =
  numRetry :: int
  numSentWithoutRetry :: int
  numGivenUp :: int
  numCollision :: int
  numSent :: int
  numReceived :: int
  numSentBroadcast :: int
  numReceivedBroadcast :: int
  numReceivedOther :: int
  numAckSend :: int

text \<open>
  The pointers to the timers are fixed; a timer maps to the time it is scheduled for. \<open>sifsFrame\<close> is the
  context pointer of \<open>endSIFS\<close>, \<open>backoffSent\<close> the sending time of \<open>endBackoff\<close>.
\<close>

record 'p WMac =
  myAddress :: mac
  bitrate :: rat
  basicBitrate :: rat
  maxQueueSize :: int
  rtsThreshold :: int
  transmissionLimit :: int
  cwMinData :: int
  cwMinBroadcast :: int
  fixFSM :: bool
  fsm :: FState
  sequenceNumber :: int
  lastReceiveFailed :: bool
  backoff :: bool
  nav :: bool
  backoffPeriod :: rat
  retryCounter :: int
  radioState :: State
  transmissionQueue :: "'p Ieee80211Frame list"
  queueModule :: bool
  pendingRadioConfigMsg :: "PhyControlInfo option"
  noFrame :: bool
  wtimers :: "wtimer \<Rightarrow> rat option"
  sifsFrame :: "'p Ieee80211Frame option"
  backoffSent :: rat
  wstats :: WStats
  wdraws :: rng
  wout :: "'p wmacoutput list"

record WEnv =
  now :: rat
  FSM_MAXT :: nat

text \<open>A message as the state machine sees it, and the statements.\<close>

datatype 'p wmsg = UpperMsg "'p Ieee80211Frame" | LowerMsg "'p Ieee80211Frame" | SelfMsg wtimer

type_synonym 'p wstmt = "'p WMac \<Rightarrow> 'p WMac res"

definition outW :: "'p wmacoutput \<Rightarrow> 'p wstmt" where
  "outW x s = Inr (s\<lparr>wout := wout s @ [x]\<rparr>)"

definition scheduleW :: "rat \<Rightarrow> wtimer \<Rightarrow> rat \<Rightarrow> 'p wstmt" where
  "scheduleW t timer at_time s =
     (if wtimers s timer \<noteq> None then Inl (KernelError ''scheduleAt: message is already scheduled'')
      else if at_time < t then Inl (KernelError ''scheduleAt: time is in the past'')
      else Inr (s\<lparr>wtimers := (wtimers s)(timer \<mapsto> at_time)\<rparr>))"

definition cancelW :: "wtimer \<Rightarrow> 'p wstmt" where
  "cancelW timer s = Inr (s\<lparr>wtimers := (wtimers s)(timer := None)\<rparr>)"

fun msgFrame :: "'p wmsg \<Rightarrow> 'p Ieee80211Frame option" where
  "msgFrame (UpperMsg f) = Some f"
| "msgFrame (LowerMsg f) = Some f"
| "msgFrame (SelfMsg _) = None"

fun isUpperMsg :: "'p wmsg \<Rightarrow> bool" where
  "isUpperMsg (UpperMsg _) = True"
| "isUpperMsg _ = False"

fun isLowerMsg :: "'p wmsg \<Rightarrow> bool" where
  "isLowerMsg (LowerMsg _) = True"
| "isLowerMsg _ = False"

section \<open>Helper functions\<close>

definition getCurrentTransmission :: "'p WMac \<Rightarrow> 'p Ieee80211Frame option" where
  "getCurrentTransmission s = (case transmissionQueue s of [] \<Rightarrow> None | f # _ \<Rightarrow> Some f)"

definition isMediumFree :: "'p WMac \<Rightarrow> bool" where
  "isMediumFree s \<longleftrightarrow> radioState s = IDLE \<and> wtimers s endReserve = None"

definition isMediumStateChange :: "'p wmsg \<Rightarrow> 'p WMac \<Rightarrow> bool" where
  "isMediumStateChange msg s \<longleftrightarrow>
     (case msg of SelfMsg t \<Rightarrow> t = mediumStateChange \<or> t = endReserve \<and> radioState s = IDLE | _ \<Rightarrow> False)"

definition isBroadcastFrame :: "'p Ieee80211Frame option \<Rightarrow> bool" where
  "isBroadcastFrame frame \<longleftrightarrow> (case frame of None \<Rightarrow> False | Some f \<Rightarrow> isBroadcast (receiverAddress f))"

definition isForUs :: "'p Ieee80211Frame option \<Rightarrow> 'p WMac \<Rightarrow> bool" where
  "isForUs frame s \<longleftrightarrow> (case frame of None \<Rightarrow> False | Some f \<Rightarrow> receiverAddress f = myAddress s)"

definition derefFrame :: "'p Ieee80211Frame option \<Rightarrow> 'p Ieee80211Frame res" where
  "derefFrame frame = (case frame of None \<Rightarrow> Inl NullDeref | Some f \<Rightarrow> Inr f)"

definition setCurrentRetry :: "bool \<Rightarrow> 'p wstmt" where
  "setCurrentRetry r s =
     (case transmissionQueue s of [] \<Rightarrow> Inl NullDeref | f # fs \<Rightarrow> Inr (s\<lparr>transmissionQueue := f\<lparr>retry := r\<rparr> # fs\<rparr>))"

definition resetStateVariables :: "'p wstmt" where
  "resetStateVariables = doR
     [updR (\<lambda>s. s\<lparr>backoffPeriod := 0, retryCounter := 0\<rparr>),
      ifR (\<lambda>s. transmissionQueue s \<noteq> [])
        (doR [updR (\<lambda>s. s\<lparr>backoff := True\<rparr>), setCurrentRetry False])
        (updR (\<lambda>s. s\<lparr>backoff := False, noFrame := False\<rparr>))]"

definition finishReception :: "'p wstmt" where
  "finishReception =
     ifR (\<lambda>s. transmissionQueue s \<noteq> [])
       (updR (\<lambda>s. s\<lparr>backoff := True\<rparr>))
       (updR (\<lambda>s. s\<lparr>backoffPeriod := 0, retryCounter := 0, backoff := False, noFrame := False\<rparr>))"

text \<open>
  \<open>front\<close> and \<open>pop_front\<close> of an empty list are undefined.
\<close>

definition popTransmissionQueue :: "'p wstmt" where
  "popTransmissionQueue = doR
     [checkR (\<lambda>s. transmissionQueue s \<noteq> []) UndefinedBehaviour,
      updR (\<lambda>s. s\<lparr>transmissionQueue := tl (transmissionQueue s)\<rparr>),
      whenR queueModule (outW RequestPacket)]"

definition finishCurrentTransmission :: "'p wstmt" where
  "finishCurrentTransmission = doR [popTransmissionQueue, resetStateVariables]"

definition giveUpCurrentTransmission :: "'p wstmt" where
  "giveUpCurrentTransmission = doR
     [(\<lambda>s. case transmissionQueue s of [] \<Rightarrow> Inl UndefinedBehaviour | f # _ \<Rightarrow> outW (LinkBreak f) s),
      popTransmissionQueue,
      resetStateVariables,
      updR (\<lambda>s. s\<lparr>wstats := (wstats s)\<lparr>numGivenUp := numGivenUp (wstats s) + 1\<rparr>\<rparr>)]"

definition sendDownPendingRadioConfigMsg :: "'p wstmt" where
  "sendDownPendingRadioConfigMsg s =
     (case pendingRadioConfigMsg s of None \<Rightarrow> Inr s
      | Some c \<Rightarrow> doR [outW (ConfigureRadio c), updR (\<lambda>s. s\<lparr>pendingRadioConfigMsg := None\<rparr>)] s)"

section \<open>Backoff\<close>

text \<open>
  The contention window: the shift is undefined from 31 on and the product may overflow.
\<close>

definition contentionWindow :: "'p Ieee80211Frame option \<Rightarrow> int \<Rightarrow> 'p WMac \<Rightarrow> int res" where
  "contentionWindow msg r s =
     (if isBroadcastFrame msg then Inr (cwMinBroadcast s)
      else assertR (0 \<le> r \<and> r < transmissionLimit s)
        (if 31 \<le> r then Inl UndefinedBehaviour
         else if INT_MAX < (cwMinData s + 1) * 2 ^ nat r then Inl SignedOverflow
         else Inr (min ((cwMinData s + 1) * 2 ^ nat r - 1) CW_MAX)))"

definition computeBackoffPeriod :: "'p Ieee80211Frame option \<Rightarrow> int \<Rightarrow> 'p WMac \<Rightarrow> (rat \<times> 'p WMac) res" where
  "computeBackoffPeriod msg r s =
     bindR (contentionWindow msg r s) (\<lambda>cw.
       if cw = INT_MAX then Inl SignedOverflow
       else Inr (of_int (int (rand_value (wdraws s)) mod (cw + 1)) * getSlotTime, s\<lparr>wdraws := rand_next (wdraws s)\<rparr>))"

definition invalidateBackoffPeriod :: "'p WMac \<Rightarrow> 'p WMac" where
  "invalidateBackoffPeriod s = s\<lparr>backoffPeriod := -1\<rparr>"

definition isInvalidBackoffPeriod :: "'p WMac \<Rightarrow> bool" where
  "isInvalidBackoffPeriod s \<longleftrightarrow> backoffPeriod s = -1"

definition generateBackoffPeriod :: "'p wstmt" where
  "generateBackoffPeriod s =
     bindR (computeBackoffPeriod (getCurrentTransmission s) (retryCounter s) s) (\<lambda>(b, s).
       checkR (\<lambda>s. backoffPeriod s \<ge> 0) AssertFailed (s\<lparr>backoffPeriod := b\<rparr>))"

definition decreaseBackoffPeriod :: "WEnv \<Rightarrow> 'p wstmt" where
  "decreaseBackoffPeriod w = doR
     [updR (\<lambda>s. s\<lparr>backoffPeriod := backoffPeriod s - of_int (trunc ((now w - backoffSent s) / getSlotTime)) * getSlotTime\<rparr>),
      checkR (\<lambda>s. backoffPeriod s \<ge> 0) AssertFailed]"

definition scheduleBackoffPeriod :: "WEnv \<Rightarrow> 'p wstmt" where
  "scheduleBackoffPeriod w = doR
     [(\<lambda>s. scheduleW (now w) endBackoff (now w + backoffPeriod s) s),
      updR (\<lambda>s. s\<lparr>backoffSent := now w\<rparr>)]"

definition retryCurrentTransmission :: "'p wstmt" where
  "retryCurrentTransmission = doR
     [checkR (\<lambda>s. retryCounter s < transmissionLimit s - 1) AssertFailed,
      setCurrentRetry True,
      updR (\<lambda>s. s\<lparr>retryCounter := retryCounter s + 1, wstats := (wstats s)\<lparr>numRetry := numRetry (wstats s) + 1\<rparr>, backoff := True\<rparr>),
      generateBackoffPeriod]"

section \<open>Timers\<close>

definition scheduleSIFSPeriod :: "WEnv \<Rightarrow> 'p Ieee80211Frame option \<Rightarrow> 'p wstmt" where
  "scheduleSIFSPeriod w frame = doR
     [letR (\<lambda>s. derefFrame frame) (\<lambda>f. updR (\<lambda>s. s\<lparr>sifsFrame := Some f\<rparr>)),
      scheduleW (now w) endSIFS (now w + getSIFS)]"

definition scheduleDIFSPeriod :: "WEnv \<Rightarrow> 'p wstmt" where
  "scheduleDIFSPeriod w =
     ifR lastReceiveFailed
       (scheduleW (now w) endDIFS (now w + getEIFS))
       (scheduleW (now w) endDIFS (now w + getDIFS))"

definition scheduleDataTimeoutPeriod :: "WEnv \<Rightarrow> 'p Ieee80211Frame option \<Rightarrow> 'p wstmt" where
  "scheduleDataTimeoutPeriod w frameToSend s =
     bindR (derefFrame frameToSend) (\<lambda>f. bindR (frameDuration f (bitrate s)) (\<lambda>d.
     bindR (computeFrameDuration LENGTH_ACK (basicBitrate s)) (\<lambda>a.
       scheduleW (now w) endTimeout (now w + d + getSIFS + a + MAX_PROPAGATION_DELAY * 2) s)))"

definition scheduleBroadcastTimeoutPeriod :: "WEnv \<Rightarrow> 'p Ieee80211Frame option \<Rightarrow> 'p wstmt" where
  "scheduleBroadcastTimeoutPeriod w frameToSend s =
     bindR (derefFrame frameToSend) (\<lambda>f. bindR (frameDuration f (bitrate s)) (\<lambda>d.
       scheduleW (now w) endTimeout (now w + d) s))"

definition scheduleCTSTimeoutPeriod :: "WEnv \<Rightarrow> 'p wstmt" where
  "scheduleCTSTimeoutPeriod w s =
     bindR (computeFrameDuration LENGTH_RTS (basicBitrate s)) (\<lambda>r. bindR (computeFrameDuration LENGTH_CTS (basicBitrate s)) (\<lambda>c.
       scheduleW (now w) endTimeout (now w + r + getSIFS + c + MAX_PROPAGATION_DELAY * 2) s))"

text \<open>The network allocation period, which also reads the duration of a damaged frame.\<close>

definition reserve_medium :: "WEnv \<Rightarrow> rat \<Rightarrow> 'p wstmt" where
  "reserve_medium w reserve = doR
     [checkR (\<lambda>_. reserve > 0) AssertFailed,
      updR (\<lambda>s. s\<lparr>nav := True\<rparr>),
      scheduleW (now w) endReserve (now w + reserve)]"

definition scheduleReservePeriod :: "WEnv \<Rightarrow> 'p Ieee80211Frame \<Rightarrow> 'p wstmt" where
  "scheduleReservePeriod w frame s =
     (let reserve = duration frame in
      if \<not> isForUs (Some frame) s \<and> reserve \<noteq> 0 \<and> reserve < 32768 then
        (case wtimers s endReserve of
           Some t \<Rightarrow>
             let oldReserve = t - now w in
             if oldReserve > reserve then Inr s
             else doR [cancelW endReserve, reserve_medium w (max reserve oldReserve)] s
         | None \<Rightarrow>
             doR [whenR (\<lambda>s. radioState s = IDLE) (scheduleW (now w) mediumStateChange (now w)), reserve_medium w reserve] s)
      else Inr s)"

section \<open>Building and sending frames\<close>

definition setBasicBitrate :: "'p Ieee80211Frame \<Rightarrow> 'p WMac \<Rightarrow> 'p Ieee80211Frame res" where
  "setBasicBitrate frame s =
     assertR (frameControl frame = None)
       (Inr (frame\<lparr>frameControl := Some \<lparr>channelNumber = -1, ctrl_bitrate = basicBitrate s\<rparr>\<rparr>))"

definition buildDataFrame :: "'p Ieee80211Frame \<Rightarrow> 'p WMac \<Rightarrow> 'p Ieee80211Frame res" where
  "buildDataFrame f s =
     bindR
      (if isBroadcastFrame (Some f) then Inr 0
       else bindR (computeFrameDuration LENGTH_ACK (basicBitrate s)) (\<lambda>a.
         if \<not> moreFragments f then Inr (getSIFS + a)
         else bindR (frameDuration f (bitrate s)) (\<lambda>d. Inr (3 * getSIFS + 2 * a + d))))
      (\<lambda>d. Inr (f\<lparr>duration := d, frameControl := None\<rparr>))"

definition buildACKFrame :: "'p Ieee80211Frame \<Rightarrow> 'p WMac \<Rightarrow> 'p Ieee80211Frame res" where
  "buildACKFrame f s =
     bindR
      (if \<not> moreFragments f then Inr 0
       else bindR (computeFrameDuration LENGTH_ACK (basicBitrate s)) (\<lambda>a. Inr (duration f - getSIFS - a)))
      (\<lambda>d. Inr (newACKFrame\<lparr>receiverAddress := transmitterAddress f, duration := d\<rparr>))"

definition buildRTSFrame :: "'p Ieee80211Frame \<Rightarrow> 'p WMac \<Rightarrow> 'p Ieee80211Frame res" where
  "buildRTSFrame f s =
     bindR (computeFrameDuration LENGTH_CTS (basicBitrate s)) (\<lambda>c. bindR (frameDuration f (bitrate s)) (\<lambda>d.
     bindR (computeFrameDuration LENGTH_ACK (basicBitrate s)) (\<lambda>a.
       Inr (newRTSFrame\<lparr>transmitterAddress := myAddress s, receiverAddress := receiverAddress f,
          duration := 3 * getSIFS + c + d + a\<rparr>))))"

definition buildCTSFrame :: "'p Ieee80211Frame \<Rightarrow> 'p WMac \<Rightarrow> 'p Ieee80211Frame res" where
  "buildCTSFrame f s =
     bindR (computeFrameDuration LENGTH_CTS (basicBitrate s)) (\<lambda>c.
       Inr (newCTSFrame\<lparr>receiverAddress := transmitterAddress f, duration := duration f - getSIFS - c\<rparr>))"

definition buildBroadcastFrame :: "'p Ieee80211Frame \<Rightarrow> 'p Ieee80211Frame" where
  "buildBroadcastFrame f = f\<lparr>duration := 0, frameControl := None\<rparr>"

definition sendDataFrame :: "'p Ieee80211Frame option \<Rightarrow> 'p wstmt" where
  "sendDataFrame frameToSend s = bindR (derefFrame frameToSend) (\<lambda>f. bindR (buildDataFrame f s) (\<lambda>g. outW (SendDown g) s))"

definition sendBroadcastFrame :: "'p Ieee80211Frame option \<Rightarrow> 'p wstmt" where
  "sendBroadcastFrame frameToSend s = bindR (derefFrame frameToSend) (\<lambda>f. outW (SendDown (buildBroadcastFrame f)) s)"

definition sendRTSFrame :: "'p Ieee80211Frame option \<Rightarrow> 'p wstmt" where
  "sendRTSFrame frameToSend s =
     bindR (derefFrame frameToSend) (\<lambda>f. bindR (buildRTSFrame f s) (\<lambda>g. bindR (setBasicBitrate g s) (\<lambda>g. outW (SendDown g) s)))"

definition castFrame :: "('p Ieee80211Frame \<Rightarrow> bool) \<Rightarrow> 'p Ieee80211Frame option \<Rightarrow> 'p Ieee80211Frame res" where
  "castFrame P frame = (case frame of Some f \<Rightarrow> if P f then Inr f else Inl (KernelError ''check_and_cast'')
     | None \<Rightarrow> Inl (KernelError ''check_and_cast''))"

definition sendACKFrameOnEndSIFS :: "'p wstmt" where
  "sendACKFrameOnEndSIFS s =
     bindR (castFrame isDataOrMgmtFrame (sifsFrame s)) (\<lambda>f. doR
       [updR (\<lambda>s. s\<lparr>sifsFrame := None, wstats := (wstats s)\<lparr>numAckSend := numAckSend (wstats s) + 1\<rparr>\<rparr>),
        letR (buildACKFrame f) (\<lambda>g. letR (setBasicBitrate g) (\<lambda>g. outW (SendDown g)))] s)"

definition sendCTSFrameOnEndSIFS :: "'p wstmt" where
  "sendCTSFrameOnEndSIFS s =
     bindR (castFrame (\<lambda>f. frameClass f = RTSFrame) (sifsFrame s)) (\<lambda>f. doR
       [updR (\<lambda>s. s\<lparr>sifsFrame := None\<rparr>),
        letR (buildCTSFrame f) (\<lambda>g. letR (setBasicBitrate g) (\<lambda>g. outW (SendDown g)))] s)"

definition sendDataFrameOnEndSIFS :: "'p Ieee80211Frame option \<Rightarrow> 'p wstmt" where
  "sendDataFrameOnEndSIFS frameToSend = doR [updR (\<lambda>s. s\<lparr>sifsFrame := None\<rparr>), sendDataFrame frameToSend]"

section \<open>The state machine\<close>

text \<open>
  A transition has a condition, a target and an action; the first one whose condition holds fires. An event transition fires
  on the event itself, the others in the states it has led to.
\<close>

datatype 'p transition =
    Event_Transition bool FState "'p wstmt"
  | No_Event_Transition bool FState "'p wstmt"

fun fire :: "bool \<Rightarrow> 'p transition list \<Rightarrow> 'p WMac \<Rightarrow> (bool \<times> 'p WMac) res" where
  "fire is_event [] s = Inr (False, s)"
| "fire is_event (Event_Transition c target action # ts) s =
     (if c \<and> is_event then bindR (action s) (\<lambda>s. Inr (True, s\<lparr>fsm := target\<rparr>)) else fire is_event ts s)"
| "fire is_event (No_Event_Transition c target action # ts) s =
     (if c \<and> \<not> is_event then bindR (action s) (\<lambda>s. Inr (True, s\<lparr>fsm := target\<rparr>)) else fire is_event ts s)"

definition countW :: "(WStats \<Rightarrow> WStats) \<Rightarrow> 'p wstmt" where
  "countW f s = Inr (s\<lparr>wstats := f (wstats s)\<rparr>)"

definition receptionOver :: "'p wstmt" where
  "receptionOver = ifR fixFSM finishReception resetStateVariables"

definition state_IDLE :: "'p wmsg \<Rightarrow> 'p WMac \<Rightarrow> 'p transition list" where
  "state_IDLE msg s =
     (if fixFSM s then
        [Event_Transition (isUpperMsg msg \<and> backoffPeriod s > 0) DEFER (checkR (\<lambda>_. False) AssertFailed),
         No_Event_Transition (transmissionQueue s \<noteq> [] \<and> backoffPeriod s > 0) DEFER (checkR backoff AssertFailed)]
      else []) @
     [Event_Transition (isUpperMsg msg) DEFER
        (doR [checkR (\<lambda>s. isInvalidBackoffPeriod s \<or> backoffPeriod s = 0) AssertFailed, updR invalidateBackoffPeriod]),
      No_Event_Transition (transmissionQueue s \<noteq> []) DEFER (updR invalidateBackoffPeriod),
      Event_Transition (isLowerMsg msg) RECEIVE (doR [])]"

definition state_DEFER :: "'p wmsg \<Rightarrow> 'p WMac \<Rightarrow> 'p transition list" where
  "state_DEFER msg s =
     [Event_Transition (isMediumStateChange msg s \<and> isMediumFree s) WAITDIFS (doR []),
      No_Event_Transition (isMediumFree s \<or> \<not> backoff s) WAITDIFS (doR []),
      Event_Transition (isLowerMsg msg) RECEIVE (doR [])]"

definition needsRTS :: "'p WMac \<Rightarrow> bool" where
  "needsRTS s \<longleftrightarrow> (case getCurrentTransmission s of None \<Rightarrow> False | Some f \<Rightarrow> byteLength f \<ge> rtsThreshold s)"

definition state_WAITDIFS :: "'p wmsg \<Rightarrow> 'p WMac \<Rightarrow> 'p transition list" where
  "state_WAITDIFS msg s =
     (if transmissionQueue s \<noteq> [] then
        [Event_Transition (msg = SelfMsg endDIFS \<and> \<not> isBroadcastFrame (getCurrentTransmission s) \<and> needsRTS s \<and> \<not> backoff s) WAITCTS
           (doR [sendRTSFrame (getCurrentTransmission s), cancelW endDIFS]),
         Event_Transition (msg = SelfMsg endDIFS \<and> isBroadcastFrame (getCurrentTransmission s) \<and> \<not> backoff s) WAITBROADCAST
           (doR [sendBroadcastFrame (getCurrentTransmission s), cancelW endDIFS]),
         Event_Transition (msg = SelfMsg endDIFS \<and> \<not> isBroadcastFrame (getCurrentTransmission s) \<and> \<not> backoff s) WAITACK
           (doR [sendDataFrame (getCurrentTransmission s), cancelW endDIFS])]
      else []) @
     [Event_Transition (msg = SelfMsg endDIFS) BACKOFF
        (doR [checkR backoff AssertFailed, whenR isInvalidBackoffPeriod generateBackoffPeriod]),
      Event_Transition (isMediumStateChange msg s \<and> \<not> isMediumFree s) DEFER
        (doR [updR (\<lambda>s. s\<lparr>backoff := True\<rparr>), cancelW endDIFS]),
      No_Event_Transition (\<not> isMediumFree s) DEFER
        (doR [updR (\<lambda>s. s\<lparr>backoff := True\<rparr>), cancelW endDIFS]),
      Event_Transition (isLowerMsg msg) RECEIVE (cancelW endDIFS)]"

definition state_BACKOFF :: "WEnv \<Rightarrow> 'p wmsg \<Rightarrow> 'p WMac \<Rightarrow> 'p transition list" where
  "state_BACKOFF w msg s =
     (if transmissionQueue s \<noteq> [] then
        [Event_Transition (msg = SelfMsg endBackoff \<and> \<not> isBroadcastFrame (getCurrentTransmission s) \<and> needsRTS s) WAITCTS
           (sendRTSFrame (getCurrentTransmission s)),
         Event_Transition (msg = SelfMsg endBackoff \<and> isBroadcastFrame (getCurrentTransmission s)) WAITBROADCAST
           (sendBroadcastFrame (getCurrentTransmission s)),
         Event_Transition (msg = SelfMsg endBackoff \<and> \<not> isBroadcastFrame (getCurrentTransmission s)) WAITACK
           (sendDataFrame (getCurrentTransmission s))]
      else []) @
     [Event_Transition (msg = SelfMsg endBackoff \<and> transmissionQueue s = []) MAC_IDLE resetStateVariables,
      Event_Transition (isMediumStateChange msg s \<and> \<not> isMediumFree s) DEFER
        (doR [cancelW endBackoff, decreaseBackoffPeriod w])]"

definition frameTypeIs :: "Ieee80211FrameType \<Rightarrow> 'p Ieee80211Frame option \<Rightarrow> bool" where
  "frameTypeIs t frame \<longleftrightarrow> (case frame of None \<Rightarrow> False | Some f \<Rightarrow> frameType f = t)"

definition state_WAITACK :: "'p wmsg \<Rightarrow> 'p WMac \<Rightarrow> 'p transition list" where
  "state_WAITACK msg s =
     [Event_Transition (isLowerMsg msg \<and> isForUs (msgFrame msg) s \<and> frameTypeIs ST_ACK (msgFrame msg)) MAC_IDLE
        (doR [whenR (\<lambda>s. retryCounter s = 0) (countW (\<lambda>c. c\<lparr>numSentWithoutRetry := numSentWithoutRetry c + 1\<rparr>)),
              countW (\<lambda>c. c\<lparr>numSent := numSent c + 1\<rparr>), cancelW endTimeout, finishCurrentTransmission]),
      Event_Transition (msg = SelfMsg endTimeout \<and> retryCounter s = transmissionLimit s - 1) MAC_IDLE giveUpCurrentTransmission,
      Event_Transition (msg = SelfMsg endTimeout) DEFER retryCurrentTransmission]"

definition state_WAITBROADCAST :: "'p wmsg \<Rightarrow> 'p WMac \<Rightarrow> 'p transition list" where
  "state_WAITBROADCAST msg s =
     [Event_Transition (msg = SelfMsg endTimeout) DEFER
        (doR [finishCurrentTransmission, countW (\<lambda>c. c\<lparr>numSentBroadcast := numSentBroadcast c + 1\<rparr>),
              updR (\<lambda>s. invalidateBackoffPeriod (s\<lparr>backoff := True\<rparr>))])]"

definition state_WAITCTS :: "'p wmsg \<Rightarrow> 'p WMac \<Rightarrow> 'p transition list" where
  "state_WAITCTS msg s =
     [Event_Transition (isLowerMsg msg \<and> isForUs (msgFrame msg) s \<and> frameTypeIs ST_CTS (msgFrame msg)) WAITSIFS (cancelW endTimeout),
      Event_Transition (msg = SelfMsg endTimeout \<and> retryCounter s = transmissionLimit s - 1) MAC_IDLE giveUpCurrentTransmission,
      Event_Transition (msg = SelfMsg endTimeout) DEFER retryCurrentTransmission]"

definition state_WAITSIFS :: "'p wmsg \<Rightarrow> 'p WMac \<Rightarrow> 'p transition list" where
  "state_WAITSIFS msg s =
     [Event_Transition (msg = SelfMsg endSIFS \<and> sifsFrame s = None) WAITSIFS (\<lambda>_. Inl NullDeref),
      Event_Transition (msg = SelfMsg endSIFS \<and> frameTypeIs ST_RTS (sifsFrame s)) MAC_IDLE
        (doR [sendCTSFrameOnEndSIFS, receptionOver]),
      Event_Transition (msg = SelfMsg endSIFS \<and> frameTypeIs ST_CTS (sifsFrame s)) WAITACK
        (sendDataFrameOnEndSIFS (getCurrentTransmission s)),
      Event_Transition (msg = SelfMsg endSIFS \<and> (case sifsFrame s of None \<Rightarrow> False | Some f \<Rightarrow> isDataOrMgmtFrame f)) MAC_IDLE
        (doR [sendACKFrameOnEndSIFS, receptionOver])]"

definition sendUpMsg :: "'p wmsg \<Rightarrow> 'p wstmt" where
  "sendUpMsg msg = letR (\<lambda>_. derefFrame (msgFrame msg)) (\<lambda>f. outW (SendUp f))"

definition state_RECEIVE :: "'p wmsg \<Rightarrow> 'p WMac \<Rightarrow> 'p transition list" where
  "state_RECEIVE msg s =
     (let data = (case msgFrame msg of None \<Rightarrow> False | Some f \<Rightarrow> isDataOrMgmtFrame f);
          failed = (case msgFrame msg of None \<Rightarrow> False | Some f \<Rightarrow> msgKind f = COLLISION \<or> msgKind f = BITERROR) in
     [No_Event_Transition (isLowerMsg msg \<and> failed) MAC_IDLE
        (doR [countW (\<lambda>c. c\<lparr>numCollision := numCollision c + 1\<rparr>), receptionOver]),
      No_Event_Transition (isLowerMsg msg \<and> isBroadcastFrame (msgFrame msg) \<and> data) MAC_IDLE
        (doR [sendUpMsg msg, countW (\<lambda>c. c\<lparr>numReceivedBroadcast := numReceivedBroadcast c + 1\<rparr>), receptionOver]),
      No_Event_Transition (isLowerMsg msg \<and> isForUs (msgFrame msg) s \<and> data) WAITSIFS
        (doR [sendUpMsg msg, countW (\<lambda>c. c\<lparr>numReceived := numReceived c + 1\<rparr>)]),
      No_Event_Transition (isLowerMsg msg \<and> isForUs (msgFrame msg) s \<and> frameTypeIs ST_RTS (msgFrame msg)) WAITSIFS (doR []),
      No_Event_Transition (isLowerMsg msg \<and> \<not> isForUs (msgFrame msg) s \<and> data) MAC_IDLE
        (doR [letR (\<lambda>_. derefFrame (msgFrame msg)) (\<lambda>f. outW (Promiscuous f)), receptionOver,
              countW (\<lambda>c. c\<lparr>numReceivedOther := numReceivedOther c + 1\<rparr>)]),
      No_Event_Transition (isLowerMsg msg) MAC_IDLE
        (doR [receptionOver, countW (\<lambda>c. c\<lparr>numReceivedOther := numReceivedOther c + 1\<rparr>)])])"

definition enter :: "WEnv \<Rightarrow> 'p wmsg \<Rightarrow> 'p wstmt" where
  "enter w msg s =
     (case fsm s of
        MAC_IDLE \<Rightarrow> sendDownPendingRadioConfigMsg s
      | DEFER \<Rightarrow> sendDownPendingRadioConfigMsg s
      | WAITDIFS \<Rightarrow> scheduleDIFSPeriod w s
      | BACKOFF \<Rightarrow> scheduleBackoffPeriod w s
      | WAITACK \<Rightarrow> scheduleDataTimeoutPeriod w (getCurrentTransmission s) s
      | WAITBROADCAST \<Rightarrow> scheduleBroadcastTimeoutPeriod w (getCurrentTransmission s) s
      | WAITCTS \<Rightarrow> scheduleCTSTimeoutPeriod w s
      | WAITSIFS \<Rightarrow> scheduleSIFSPeriod w (msgFrame msg) s
      | RECEIVE \<Rightarrow> Inr s)"

definition transitions :: "WEnv \<Rightarrow> 'p wmsg \<Rightarrow> 'p WMac \<Rightarrow> 'p transition list" where
  "transitions w msg s =
     (case fsm s of
        MAC_IDLE \<Rightarrow> state_IDLE msg s
      | DEFER \<Rightarrow> state_DEFER msg s
      | WAITDIFS \<Rightarrow> state_WAITDIFS msg s
      | BACKOFF \<Rightarrow> state_BACKOFF w msg s
      | WAITACK \<Rightarrow> state_WAITACK msg s
      | WAITBROADCAST \<Rightarrow> state_WAITBROADCAST msg s
      | WAITCTS \<Rightarrow> state_WAITCTS msg s
      | WAITSIFS \<Rightarrow> state_WAITSIFS msg s
      | RECEIVE \<Rightarrow> state_RECEIVE msg s)"

text \<open>
  The loop of \<open>FSMA_Switch\<close>, with the number of rounds that are left.
\<close>

fun FSMA_Switch :: "nat \<Rightarrow> WEnv \<Rightarrow> 'p wmsg \<Rightarrow> bool \<Rightarrow> 'p wstmt" where
  "FSMA_Switch 0 w msg is_event s = Inl (KernelError ''infinite loop in the state machine'')"
| "FSMA_Switch (Suc n) w msg is_event s =
     bindR (if is_event then Inr s else enter w msg s) (\<lambda>s.
     bindR (fire is_event (transitions w msg s) s) (\<lambda>(fired, s).
       if fired then FSMA_Switch n w msg False s else Inr s))"

definition handleWithFSM :: "WEnv \<Rightarrow> 'p wmsg \<Rightarrow> 'p wstmt" where
  "handleWithFSM w msg = doR
     [updR (\<lambda>s. if noFrame s \<and> isUpperMsg msg then s\<lparr>noFrame := False\<rparr> else s),
      whenR (\<lambda>s. \<not> (isUpperMsg msg \<and> fsm s \<noteq> MAC_IDLE)) (doR
       [(case msg of
           LowerMsg f \<Rightarrow> doR
             [updR (\<lambda>s. s\<lparr>lastReceiveFailed := (msgKind f = COLLISION \<or> msgKind f = BITERROR)\<rparr>), scheduleReservePeriod w f]
         | _ \<Rightarrow> doR []),
        FSMA_Switch (FSM_MAXT w) w msg True])]"

section \<open>Messages\<close>

definition wlan_handleSelfMsg :: "WEnv \<Rightarrow> wtimer \<Rightarrow> 'p wstmt" where
  "wlan_handleSelfMsg w t = doR
     [updR (\<lambda>s. if t = endReserve then s\<lparr>nav := False\<rparr> else s),
      handleWithFSM w (SelfMsg t)]"

definition wlan_handleUpperMsg :: "WEnv \<Rightarrow> 'p Ieee80211Frame \<Rightarrow> 'p wstmt" where
  "wlan_handleUpperMsg w frame =
     whenR (\<lambda>s. \<not> (maxQueueSize s \<noteq> 0 \<and> int (length (transmissionQueue s)) = maxQueueSize s)) (doR
       [checkR (\<lambda>_. isDataOrMgmtFrame frame) (KernelError ''check_and_cast''),
        checkR (\<lambda>_. byteLength frame \<le> fragmentationThreshold) (RuntimeError ''message from higher layer is too long for 802.11b''),
        checkR (\<lambda>_. \<not> isUnspecified (receiverAddress frame)) AssertFailed,
        (\<lambda>s. let f = frame\<lparr>transmitterAddress := myAddress s, frameSequence := sequenceNumber s\<rparr> in
          handleWithFSM w (UpperMsg f)
            (s\<lparr>sequenceNumber := (sequenceNumber s + 1) mod 4096, transmissionQueue := transmissionQueue s @ [f]\<rparr>))])"

definition wlan_handleLowerMsg :: "WEnv \<Rightarrow> 'p Ieee80211Frame \<Rightarrow> 'p wstmt" where
  "wlan_handleLowerMsg w frame = doR
     [outW (FullPromiscuous frame),
      checkR (\<lambda>s. \<not> isTwoAddressFrame frame \<or> transmitterAddress frame \<noteq> myAddress s) AssertFailed,
      handleWithFSM w (LowerMsg (frame\<lparr>frameControl := None\<rparr>))]"

text \<open>A command from above, with its message kind and the control info it carries.\<close>

definition PHY_C_CONFIGURERADIO :: int where "PHY_C_CONFIGURERADIO = 1"

definition mergeConfig :: "PhyControlInfo \<Rightarrow> PhyControlInfo \<Rightarrow> PhyControlInfo" where
  "mergeConfig pOld pNew =
     \<lparr>channelNumber = (if channelNumber pNew = -1 \<and> channelNumber pOld \<noteq> -1 then channelNumber pOld else channelNumber pNew),
      ctrl_bitrate = (if ctrl_bitrate pNew = -1 \<and> ctrl_bitrate pOld \<noteq> -1 then ctrl_bitrate pOld else ctrl_bitrate pNew)\<rparr>"

definition wlan_handleCommand :: "int \<Rightarrow> PhyControlInfo \<Rightarrow> 'p wstmt" where
  "wlan_handleCommand kind ctrl s =
     (if kind \<noteq> PHY_C_CONFIGURERADIO then Inl (RuntimeError ''Unrecognized command from mgmt layer'')
      else
        let c = (case pendingRadioConfigMsg s of None \<Rightarrow> ctrl | Some pOld \<Rightarrow> mergeConfig pOld ctrl) in
        doR [updR (\<lambda>s. s\<lparr>pendingRadioConfigMsg := None\<rparr>),
             ifR (\<lambda>s. fsm s = MAC_IDLE \<or> fsm s = DEFER \<or> fsm s = BACKOFF)
               (outW (ConfigureRadio c))
               (updR (\<lambda>s. s\<lparr>pendingRadioConfigMsg := Some c\<rparr>))] s)"

definition wlan_receiveChangeNotification :: "WEnv \<Rightarrow> State \<Rightarrow> 'p wstmt" where
  "wlan_receiveChangeNotification w newRadioState = doR
     [updR (\<lambda>s. s\<lparr>radioState := newRadioState\<rparr>),
      handleWithFSM w (SelfMsg mediumStateChange)]"

text \<open>
  The events of the module: an own timer, which is no longer scheduled when the handler starts, a
  frame from above or from the radio, some other packet from the radio, a command, and a change of the radio's state.
\<close>

datatype 'p wevent =
    TimerFired wtimer
  | FromUpper "'p Ieee80211Frame"
  | FromLower "'p Ieee80211Frame"
  | FromLowerOther
  | Command int PhyControlInfo
  | RadioStateChanged State

fun wlan_handleMessage :: "WEnv \<Rightarrow> 'p wevent \<Rightarrow> 'p wstmt" where
  "wlan_handleMessage w (TimerFired t) s = wlan_handleSelfMsg w t (s\<lparr>wtimers := (wtimers s)(t := None)\<rparr>)"
| "wlan_handleMessage w (FromUpper f) s = wlan_handleUpperMsg w f s"
| "wlan_handleMessage w (FromLower f) s = wlan_handleLowerMsg w f s"
| "wlan_handleMessage w FromLowerOther s = Inr s"
| "wlan_handleMessage w (Command k c) s = wlan_handleCommand k c s"
| "wlan_handleMessage w (RadioStateChanged r) s = wlan_receiveChangeNotification w r s"

section \<open>Initialisation\<close>

record WPar =
  par_fixFSM :: bool
  par_maxQueueSize :: int
  par_bitrate :: rat
  par_rtsThresholdBytes :: int
  par_retryLimit :: int
  par_cwMinData :: int
  par_cwMinBroadcast :: int
  par_address :: string
  par_hasQueueModule :: bool
  par_interface :: "string option"

definition isalnum :: "char \<Rightarrow> bool" where
  "isalnum c \<longleftrightarrow> (let n = char_code c in 48 \<le> n \<and> n \<le> 57 \<or> 65 \<le> n \<and> n \<le> 90 \<or> 97 \<le> n \<and> n \<le> 122)"

text \<open>
  The members are set before the interface is added, which happens if the host has an interface table; its name is that of the card without special
  characters. The pointer to the queue is set only if one is named; else it keeps what the memory held.
\<close>

definition registerInterface :: "string option \<Rightarrow> 'p wstmt" where
  "registerInterface nic s =
     (case nic of None \<Rightarrow> Inr s | Some name \<Rightarrow> outW (AddInterface (filter isalnum name) (myAddress s)) s)"

definition wlan_initializeQueueModule :: "bool \<Rightarrow> 'p wstmt" where
  "wlan_initializeQueueModule present =
     (if present then doR [updR (\<lambda>s. s\<lparr>queueModule := True\<rparr>), outW RequestPacket, outW RequestPacket] else doR [])"

definition default_to :: "int \<Rightarrow> int \<Rightarrow> int" where
  "default_to d x = (if x = -1 then d else x)"

definition newWMac :: "WPar \<Rightarrow> mac \<Rightarrow> 'p WMac \<Rightarrow> 'p WMac" where
  "newWMac par addr junk =
     junk\<lparr>fixFSM := par_fixFSM par, maxQueueSize := par_maxQueueSize par, bitrate := par_bitrate par, basicBitrate := 2 * 10 ^ 6,
       rtsThreshold := par_rtsThresholdBytes par, transmissionLimit := default_to 7 (par_retryLimit par),
       cwMinData := default_to CW_MIN (par_cwMinData par), cwMinBroadcast := default_to 31 (par_cwMinBroadcast par),
       myAddress := addr, transmissionQueue := [], pendingRadioConfigMsg := None, wtimers := (\<lambda>_. None), sifsFrame := None,
       backoffSent := 0, wout := [], fsm := MAC_IDLE, sequenceNumber := 0, radioState := IDLE, retryCounter := 0, backoffPeriod := -1,
       backoff := False, lastReceiveFailed := False, nav := False, noFrame := True,
       wstats := \<lparr>numRetry = 0, numSentWithoutRetry = 0, numGivenUp = 0, numCollision = 0, numSent = 0, numReceived = 0,
         numSentBroadcast = 0, numReceivedBroadcast = 0, numReceivedOther = 0, numAckSend = 0\<rparr>\<rparr>"

definition wlan_initialize :: "WPar \<Rightarrow> u32 \<Rightarrow> 'p WMac \<Rightarrow> ('p WMac \<times> u32) res" where
  "wlan_initialize par ctr junk =
     assertR (default_to 7 (par_retryLimit par) > 0 \<and> default_to CW_MIN (par_cwMinData par) \<ge> 0 \<and> default_to 31 (par_cwMinBroadcast par) \<ge> 0)
      (bindR (if par_address par = ''auto'' then Inr (generateAutoAddress ctr)
              else bindR (setAddress UNSPECIFIED_ADDRESS (par_address par)) (\<lambda>a. Inr (a, ctr))) (\<lambda>(addr, ctr).
       bindR (doR [registerInterface (par_interface par), wlan_initializeQueueModule (par_hasQueueModule par)] (newWMac par addr junk))
        (\<lambda>s. Inr (s, ctr))))"

end
