(* ===== verification/Wlan_Invariant.thy ===== *)
theory Wlan_Invariant
  imports Wlan_Mac
begin

text \<open>
  The invariant of the 802.11 medium access control: between two events the timers, the backoff
  variables and the queue agree with the state of the machine. The lemmas follow the rounds of the
  machine backwards, from the states in which it comes to rest to those that lead there.
\<close>

section \<open>Contracts\<close>

text \<open>
  What a frame on the air promises to the station that receives it, and what the layer above promises of the frames it hands down. A
  station relies on the first for the frames it receives and, as the invariant says, keeps it for those it sends.
\<close>

definition typed :: "'p Ieee80211Frame \<Rightarrow> bool" where
  "typed f \<longleftrightarrow> (frameType f = ST_RTS \<longleftrightarrow> frameClass f = RTSFrame) \<and> (frameType f = ST_CTS \<longleftrightarrow> frameClass f = CTSFrame) \<and>
     (frameType f = ST_ACK \<longleftrightarrow> frameClass f = ACKFrame)"

definition control_time :: rat where
  "control_time = 112 / (2 * 10 ^ 6) + 192 / 10 ^ 6"

definition on_air :: "'p Ieee80211Frame \<Rightarrow> bool" where
  "on_air f \<longleftrightarrow> typed f \<and> 0 \<le> duration f \<and> 0 \<le> byteLength f \<and>
     (frameClass f = RTSFrame \<or> isDataOrMgmtFrame f \<and> moreFragments f \<and> \<not> isBroadcast (receiverAddress f) \<longrightarrow> getSIFS + control_time \<le> duration f)"

definition from_above :: "'p Ieee80211Frame \<Rightarrow> bool" where
  "from_above f \<longleftrightarrow> typed f \<and> isDataOrMgmtFrame f \<and> 0 \<le> byteLength f"

section \<open>The invariant\<close>

definition limits_wf :: "'p WMac \<Rightarrow> bool" where
  "limits_wf s \<longleftrightarrow> 0 < transmissionLimit s \<and> transmissionLimit s \<le> 31 \<and> 0 \<le> cwMinData s \<and>
     (cwMinData s + 1) * 2 ^ nat (transmissionLimit s - 1) \<le> INT_MAX \<and> 0 \<le> cwMinBroadcast s \<and> cwMinBroadcast s < INT_MAX \<and>
     0 < bitrate s \<and> basicBitrate s = 2 * 10 ^ 6"

definition core_wf :: "'p WMac \<Rightarrow> bool" where
  "core_wf s \<longleftrightarrow> limits_wf s \<and> 0 \<le> retryCounter s \<and> retryCounter s < transmissionLimit s \<and>
     (backoffPeriod s = -1 \<or> 0 \<le> backoffPeriod s) \<and> (nav s \<longleftrightarrow> wtimers s endReserve \<noteq> None) \<and>
     (\<forall>t. wtimers s mediumStateChange = Some t \<longrightarrow> (\<exists>r. wtimers s endReserve = Some r \<and> t < r)) \<and>
     (\<forall>f \<in> set (transmissionQueue s). from_above f) \<and> (\<forall>f. SendDown f \<in> set (wout s) \<longrightarrow> on_air f)"

definition only :: "wtimer option \<Rightarrow> 'p WMac \<Rightarrow> bool" where
  "only x s \<longleftrightarrow> (wtimers s endSIFS \<noteq> None \<longleftrightarrow> x = Some endSIFS) \<and> (wtimers s endDIFS \<noteq> None \<longleftrightarrow> x = Some endDIFS) \<and>
     (wtimers s endBackoff \<noteq> None \<longleftrightarrow> x = Some endBackoff) \<and> (wtimers s endTimeout \<noteq> None \<longleftrightarrow> x = Some endTimeout) \<and>
     (sifsFrame s \<noteq> None \<longleftrightarrow> x = Some endSIFS)"

definition unicast :: "'p WMac \<Rightarrow> bool" where
  "unicast s \<longleftrightarrow> transmissionQueue s \<noteq> [] \<and> \<not> isBroadcastFrame (getCurrentTransmission s)"

definition answered :: "'p Ieee80211Frame option \<Rightarrow> 'p WMac \<Rightarrow> bool" where
  "answered frame s \<longleftrightarrow> (case frame of None \<Rightarrow> False
     | Some f \<Rightarrow> on_air f \<and> (frameType f = ST_RTS \<or> frameType f = ST_CTS \<and> unicast s \<or> isDataOrMgmtFrame f \<and> \<not> isBroadcast (receiverAddress f)))"

definition phase_base :: "'p WMac \<Rightarrow> bool" where
  "phase_base s \<longleftrightarrow>
     (case fsm s of
        MAC_IDLE \<Rightarrow> only None s \<and> transmissionQueue s = [] \<and> \<not> backoff s \<and> backoffPeriod s \<le> 0
      | DEFER \<Rightarrow> only None s \<and> backoff s
      | WAITDIFS \<Rightarrow> only (Some endDIFS) s \<and> (transmissionQueue s \<noteq> [] \<or> backoff s)
      | BACKOFF \<Rightarrow> only (Some endBackoff) s \<and> backoff s \<and> 0 \<le> backoffPeriod s \<and> wtimers s endBackoff = Some (backoffSent s + backoffPeriod s)
      | WAITACK \<Rightarrow> only (Some endTimeout) s \<and> unicast s
      | WAITBROADCAST \<Rightarrow> only (Some endTimeout) s \<and> isBroadcastFrame (getCurrentTransmission s)
      | WAITCTS \<Rightarrow> only (Some endTimeout) s \<and> unicast s
      | WAITSIFS \<Rightarrow> only (Some endSIFS) s \<and> answered (sifsFrame s) s
      | RECEIVE \<Rightarrow> False)"

definition medium_wf :: "'p WMac \<Rightarrow> bool" where
  "medium_wf s \<longleftrightarrow>
     (case fsm s of
        DEFER \<Rightarrow> \<not> isMediumFree s
      | WAITDIFS \<Rightarrow> isMediumFree s
      | BACKOFF \<Rightarrow> radioState s = IDLE \<and> (wtimers s endReserve = None \<or> wtimers s mediumStateChange \<noteq> None)
      | _ \<Rightarrow> True)"

definition wlan_wf :: "'p WMac \<Rightarrow> bool" where
  "wlan_wf s \<longleftrightarrow> core_wf s \<and> phase_base s \<and> medium_wf s"

text \<open>What a round finds that enters a state.\<close>

definition entering :: "'p wmsg \<Rightarrow> 'p WMac \<Rightarrow> bool" where
  "entering msg s \<longleftrightarrow> core_wf s \<and> only None s \<and>
     (case fsm s of
        MAC_IDLE \<Rightarrow> (if transmissionQueue s = [] then \<not> backoff s \<and> backoffPeriod s \<le> 0 else backoff s)
      | DEFER \<Rightarrow> transmissionQueue s \<noteq> [] \<or> backoff s
      | WAITDIFS \<Rightarrow> transmissionQueue s \<noteq> [] \<or> backoff s
      | BACKOFF \<Rightarrow> backoff s \<and> 0 \<le> backoffPeriod s \<and> radioState s = IDLE \<and> (wtimers s endReserve = None \<or> wtimers s mediumStateChange \<noteq> None)
      | WAITACK \<Rightarrow> unicast s
      | WAITBROADCAST \<Rightarrow> isBroadcastFrame (getCurrentTransmission s)
      | WAITCTS \<Rightarrow> unicast s
      | WAITSIFS \<Rightarrow> answered (msgFrame msg) s
      | RECEIVE \<Rightarrow> (\<exists>f. msg = LowerMsg f \<and> on_air f))"

lemma core_wf_upd [simp]:
  "core_wf (s\<lparr>fsm := x\<rparr>) = core_wf s" "core_wf (s\<lparr>backoff := b\<rparr>) = core_wf s" "core_wf (s\<lparr>noFrame := b\<rparr>) = core_wf s"
  "core_wf (s\<lparr>sifsFrame := c\<rparr>) = core_wf s" "core_wf (s\<lparr>backoffSent := r\<rparr>) = core_wf s" "core_wf (s\<lparr>wstats := st\<rparr>) = core_wf s"
  "core_wf (s\<lparr>wdraws := d\<rparr>) = core_wf s" "core_wf (s\<lparr>pendingRadioConfigMsg := pc\<rparr>) = core_wf s"
  "core_wf (s\<lparr>radioState := rs\<rparr>) = core_wf s" "core_wf (s\<lparr>lastReceiveFailed := b\<rparr>) = core_wf s" "core_wf (s\<lparr>sequenceNumber := q\<rparr>) = core_wf s"
  by (simp_all add: core_wf_def limits_wf_def)

lemma core_wf_timer [simp]:
  "g endReserve = wtimers s endReserve \<Longrightarrow> g mediumStateChange = wtimers s mediumStateChange \<Longrightarrow> core_wf (s\<lparr>wtimers := g\<rparr>) = core_wf s"
  by (simp add: core_wf_def limits_wf_def)

lemma core_wf_out: "core_wf s \<Longrightarrow> (\<And>f. x = SendDown f \<Longrightarrow> on_air f) \<Longrightarrow> core_wf (s\<lparr>wout := wout s @ [x]\<rparr>)"
  by (auto simp: core_wf_def limits_wf_def)

lemma core_wf_backoff: "core_wf s \<Longrightarrow> b = -1 \<or> 0 \<le> b \<Longrightarrow> core_wf (s\<lparr>backoffPeriod := b\<rparr>)"
  by (simp add: core_wf_def limits_wf_def)

lemma only_upd [simp]:
  "only x (s\<lparr>fsm := y\<rparr>) = only x s" "only x (s\<lparr>backoff := b\<rparr>) = only x s" "only x (s\<lparr>noFrame := b\<rparr>) = only x s"
  "only x (s\<lparr>backoffSent := r\<rparr>) = only x s" "only x (s\<lparr>wstats := st\<rparr>) = only x s"
  "only x (s\<lparr>wdraws := d\<rparr>) = only x s" "only x (s\<lparr>pendingRadioConfigMsg := pc\<rparr>) = only x s" "only x (s\<lparr>backoffPeriod := r\<rparr>) = only x s"
  "only x (s\<lparr>radioState := rs\<rparr>) = only x s" "only x (s\<lparr>lastReceiveFailed := b\<rparr>) = only x s" "only x (s\<lparr>sequenceNumber := q\<rparr>) = only x s"
  "only x (s\<lparr>wout := os\<rparr>) = only x s" "only x (s\<lparr>transmissionQueue := fs\<rparr>) = only x s" "only x (s\<lparr>retryCounter := n\<rparr>) = only x s" "only x (s\<lparr>nav := b\<rparr>) = only x s"
  by (simp_all add: only_def)

lemma only_timer:
  "only None s \<Longrightarrow> t \<in> {endDIFS, endBackoff, endTimeout} \<Longrightarrow> only (Some t) (s\<lparr>wtimers := (wtimers s)(t \<mapsto> a)\<rparr>)"
  "only None s \<Longrightarrow> only (Some endSIFS) (s\<lparr>sifsFrame := Some f, wtimers := (wtimers s)(endSIFS \<mapsto> a)\<rparr>)"
  "only (Some t) s \<Longrightarrow> t \<noteq> endSIFS \<Longrightarrow> only None (s\<lparr>wtimers := (wtimers s)(t := None)\<rparr>)"
  by (auto simp: only_def)

lemma only_D:
  "only None s \<Longrightarrow> wtimers s endSIFS = None" "only None s \<Longrightarrow> wtimers s endDIFS = None" "only None s \<Longrightarrow> wtimers s endBackoff = None"
  "only None s \<Longrightarrow> wtimers s endTimeout = None" "only None s \<Longrightarrow> sifsFrame s = None"
  by (simp_all add: only_def)

section \<open>Entering a state\<close>

declare FSMA_Switch.simps(2) [simp del]

lemma succR_Inr_I: "m = Inr x \<Longrightarrow> Q x \<Longrightarrow> succR Q m"
  by simp

lemma settle_unfold:
  assumes "bindR (enter w msg s) (\<lambda>s. fire False (transitions w msg s) s) = Inr (b, u)" and "if b then succR Q (FSMA_Switch n w msg False u) else Q u"
  shows "succR Q (FSMA_Switch (Suc n) w msg False s)"
proof -
  obtain v where "enter w msg s = Inr v" "fire False (transitions w msg v) v = Inr (b, u)"
    using assms(1) by (auto simp: bindR_Inr_iff)
  with assms(2) show ?thesis by (cases b) (simp_all add: FSMA_Switch.simps)
qed

lemma pending_sent:
  obtains v where "sendDownPendingRadioConfigMsg s = Inr v" and "core_wf s \<Longrightarrow> core_wf v" and "only x v = only x s" and "fsm v = fsm s"
    and "backoff v = backoff s" and "backoffPeriod v = backoffPeriod s" and "transmissionQueue v = transmissionQueue s" and
    "isMediumFree v = isMediumFree s" and "fixFSM v = fixFSM s" and "retryCounter v = retryCounter s"
  by (cases "pendingRadioConfigMsg s")
    (auto simp: sendDownPendingRadioConfigMsg_def outW_def updR_def isMediumFree_def intro: core_wf_out)

lemma settle_busy:
  assumes e: "entering msg s" and "fsm s = DEFER" and "backoff s" and "\<not> isMediumFree s"
  shows "succR wlan_wf (FSMA_Switch (Suc n) w msg False s)"
proof -
  obtain v where v: "sendDownPendingRadioConfigMsg s = Inr v" "core_wf s \<Longrightarrow> core_wf v" "only None v = only None s" "fsm v = fsm s"
    "backoff v = backoff s" "isMediumFree v = isMediumFree s" by (rule pending_sent [of s None]) blast
  then show ?thesis using assms
    by (intro settle_unfold [where b = False and u = v]) (simp_all add: enter_def transitions_def state_DEFER_def wlan_wf_def phase_base_def medium_wf_def entering_def)
qed

lemma settle_WAITDIFS:
  assumes e: "entering msg s" and f: "fsm s = WAITDIFS"
  shows "succR wlan_wf (FSMA_Switch (Suc (Suc n)) w msg False s)"
proof -
  define a where "a = now w + (if lastReceiveFailed s then getEIFS else getDIFS)"
  define u where "u = s\<lparr>wtimers := (wtimers s)(endDIFS \<mapsto> a)\<rparr>"
  have en: "enter w msg s = Inr u"
    using assms by (auto simp: enter_def scheduleDIFSPeriod_def ifR_def scheduleW_def u_def a_def only_D entering_def wlan_times)
  have "core_wf u" "only (Some endDIFS) u" "fsm u = WAITDIFS" "transmissionQueue u \<noteq> [] \<or> backoff u"
    using assms by (simp_all add: u_def entering_def only_timer)
  show ?thesis
  proof (cases "isMediumFree u")
    case True
    with \<open>core_wf u\<close> \<open>only _ u\<close> \<open>fsm u = _\<close> \<open>_ \<or> _\<close> en show ?thesis
      by (intro settle_unfold [where b = False and u = u]) (auto simp: transitions_def state_WAITDIFS_def wlan_wf_def phase_base_def medium_wf_def)
  next
    case False
    let ?v = "u\<lparr>backoff := True, wtimers := (wtimers u)(endDIFS := None), fsm := DEFER\<rparr>"
    have "only None ?v" using \<open>only _ u\<close> only_timer(3) [of endDIFS u] by (simp add: only_def)
    moreover have "\<not> isMediumFree ?v" using False by (simp add: isMediumFree_def)
    ultimately have "succR wlan_wf (FSMA_Switch (Suc n) w msg False ?v)"
      using \<open>core_wf u\<close> by (intro settle_busy) (simp_all add: entering_def)
    with False \<open>fsm u = _\<close> en show ?thesis
      by (intro settle_unfold [where b = True and u = ?v]) (auto simp: transitions_def state_WAITDIFS_def updR_def cancelW_def)
  qed
qed

lemma settle_DEFER:
  assumes e: "entering msg s" and f: "fsm s = DEFER"
  shows "succR wlan_wf (FSMA_Switch (Suc (Suc (Suc n))) w msg False s)"
proof (cases "isMediumFree s \<or> \<not> backoff s")
  case False
  with assms show ?thesis by (intro settle_busy) simp_all
next
  case True
  obtain v where v: "sendDownPendingRadioConfigMsg s = Inr v" "core_wf s \<Longrightarrow> core_wf v" "only None v = only None s" "fsm v = fsm s"
    "backoff v = backoff s" "isMediumFree v = isMediumFree s" "transmissionQueue v = transmissionQueue s" by (rule pending_sent [of s None]) blast
  have "entering msg (v\<lparr>fsm := WAITDIFS\<rparr>)" using v e f by (simp add: entering_def)
  then have "succR wlan_wf (FSMA_Switch (Suc (Suc n)) w msg False (v\<lparr>fsm := WAITDIFS\<rparr>))" by (intro settle_WAITDIFS) simp_all
  then show ?thesis using v f True
    by (intro settle_unfold [where b = True and u = "v\<lparr>fsm := WAITDIFS\<rparr>"]) (auto simp: enter_def transitions_def state_DEFER_def)
qed

lemma settle_IDLE:
  assumes e: "entering msg s" and f: "fsm s = MAC_IDLE"
  shows "succR wlan_wf (FSMA_Switch (Suc (Suc (Suc (Suc n)))) w msg False s)"
proof -
  obtain v where v: "sendDownPendingRadioConfigMsg s = Inr v" "core_wf s \<Longrightarrow> core_wf v" "only None v = only None s" "fsm v = fsm s"
    "backoff v = backoff s" "backoffPeriod v = backoffPeriod s" "transmissionQueue v = transmissionQueue s" "fixFSM v = fixFSM s" by (rule pending_sent [of s None]) blast
  have core: "core_wf v" "only None v" using v e by (simp_all add: entering_def)
  show ?thesis
  proof (cases "transmissionQueue s = []")
    case True
    with v core e f show ?thesis
      by (intro settle_unfold [where b = False and u = v])
        (auto simp: enter_def transitions_def state_IDLE_def wlan_wf_def phase_base_def medium_wf_def entering_def)
  next
    case False
    define u where "u = (if fixFSM s \<and> backoffPeriod s > 0 then v else invalidateBackoffPeriod v)\<lparr>fsm := DEFER\<rparr>"
    have b: "backoff v" using v e f False by (simp add: entering_def)
    have "entering msg u" using core b core_wf_backoff [of v "-1"] by (simp add: u_def entering_def invalidateBackoffPeriod_def)
    then have "succR wlan_wf (FSMA_Switch (Suc (Suc (Suc n))) w msg False u)" by (intro settle_DEFER) (simp_all add: u_def)
    then show ?thesis using v f False b
      by (intro settle_unfold [where b = True and u = u]) (auto simp: enter_def transitions_def state_IDLE_def checkR_def updR_def u_def)
  qed
qed

definition idle_ready :: "'p WMac \<Rightarrow> bool" where
  "idle_ready s \<longleftrightarrow> core_wf s \<and> (if transmissionQueue s = [] then \<not> backoff s \<and> backoffPeriod s \<le> 0 else backoff s)"

lemma idle_ready_upd [simp]:
  "idle_ready (s\<lparr>fsm := x\<rparr>) = idle_ready s" "idle_ready (s\<lparr>wstats := st\<rparr>) = idle_ready s"
  by (simp_all add: idle_ready_def)

lemma typed_retry [simp]: "typed (f\<lparr>retry := r\<rparr>) = typed f" "isDataOrMgmtFrame (f\<lparr>retry := r\<rparr>) = isDataOrMgmtFrame f"
  by (simp_all add: typed_def isDataOrMgmtFrame_def)

lemma core_wf_reset: "core_wf s \<Longrightarrow> core_wf (s\<lparr>backoffPeriod := 0, retryCounter := 0\<rparr>)"
  by (simp add: core_wf_def limits_wf_def)

lemma core_wf_queue:
  "core_wf s \<Longrightarrow> \<forall>f \<in> set fs. from_above f \<Longrightarrow> core_wf (s\<lparr>transmissionQueue := fs\<rparr>)"
  by (simp add: core_wf_def limits_wf_def)

lemma core_wf_head: "core_wf s \<Longrightarrow> f \<in> set (transmissionQueue s) \<Longrightarrow> from_above f"
  by (simp add: core_wf_def)

lemma reset_ok:
  assumes "core_wf s"
  obtains v where "resetStateVariables s = Inr v" and "idle_ready v" and "\<And>x. only x v = only x s" and "fsm v = fsm s"
    and "wtimers v = wtimers s" and "radioState v = radioState s" and "length (transmissionQueue v) = length (transmissionQueue s)"
    and "wout v = wout s" and "retryCounter v = 0"
proof (cases "transmissionQueue s")
  case Nil
  then show ?thesis using assms core_wf_reset [OF assms]
    by (intro that [of "s\<lparr>backoffPeriod := 0, retryCounter := 0, backoff := False, noFrame := False\<rparr>"])
      (simp_all add: resetStateVariables_def updR_def ifR_def idle_ready_def)
next
  case (Cons f fs)
  have "core_wf (s\<lparr>backoffPeriod := 0, retryCounter := 0, backoff := True, transmissionQueue := f\<lparr>retry := False\<rparr> # fs\<rparr>)"
    using core_wf_reset [OF assms] core_wf_head [OF assms] Cons by (intro core_wf_queue) (auto simp: from_above_def)
  then show ?thesis using assms Cons
    by (intro that [of "s\<lparr>backoffPeriod := 0, retryCounter := 0, backoff := True, transmissionQueue := f\<lparr>retry := False\<rparr> # fs\<rparr>"])
      (simp_all add: resetStateVariables_def updR_def ifR_def idle_ready_def setCurrentRetry_def)
qed

lemma finishReception_ok:
  assumes "core_wf s"
  obtains v where "finishReception s = Inr v" and "idle_ready v" and "\<And>x. only x v = only x s" and "fsm v = fsm s"
    and "wtimers v = wtimers s" and "radioState v = radioState s" and "wout v = wout s"
    and "transmissionQueue v = transmissionQueue s" and "transmissionQueue s \<noteq> [] \<longrightarrow> retryCounter v = retryCounter s"
proof (cases "transmissionQueue s = []")
  case True
  have "s\<lparr>backoffPeriod := 0, retryCounter := 0, backoff := False, noFrame := False\<rparr> =
    (s\<lparr>backoffPeriod := 0, retryCounter := 0\<rparr>)\<lparr>backoff := False, noFrame := False\<rparr>" by simp
  with True show ?thesis using assms core_wf_reset [OF assms]
    by (intro that [of "s\<lparr>backoffPeriod := 0, retryCounter := 0, backoff := False, noFrame := False\<rparr>"])
      (simp_all add: finishReception_def updR_def ifR_def idle_ready_def)
next
  case False
  then show ?thesis using assms
    by (intro that [of "s\<lparr>backoff := True\<rparr>"]) (simp_all add: finishReception_def updR_def ifR_def idle_ready_def)
qed

lemma receptionOver_ok:
  assumes "core_wf s"
  obtains v where "receptionOver s = Inr v" and "idle_ready v" and "\<And>x. only x v = only x s" and "fsm v = fsm s"
    and "wtimers v = wtimers s" and "radioState v = radioState s" and "wout v = wout s"
    and "length (transmissionQueue v) = length (transmissionQueue s)"
proof (cases "fixFSM s")
  case True
  show ?thesis by (rule finishReception_ok [OF assms]) (use True that in \<open>auto simp: receptionOver_def ifR_def\<close>)
next
  case False
  show ?thesis by (rule reset_ok [OF assms]) (use False that in \<open>auto simp: receptionOver_def ifR_def\<close>)
qed

lemma settle_idle_ready:
  assumes "idle_ready v" and "only None v" and "fsm u = MAC_IDLE" and "u = v\<lparr>fsm := MAC_IDLE\<rparr>"
  shows "succR wlan_wf (FSMA_Switch (Suc (Suc (Suc (Suc n)))) w msg False u)"
  using assms by (intro settle_IDLE) (simp_all add: entering_def idle_ready_def)

lemma settle_WAITSIFS:
  assumes e: "entering msg s" and f: "fsm s = WAITSIFS"
  shows "succR wlan_wf (FSMA_Switch (Suc n) w msg False s)"
proof -
  obtain g where g: "msgFrame msg = Some g" "answered (Some g) s" using assms by (auto simp: entering_def answered_def split: option.splits)
  let ?u = "s\<lparr>sifsFrame := Some g, wtimers := (wtimers s)(endSIFS \<mapsto> now w + getSIFS)\<rparr>"
  have "enter w msg s = Inr ?u"
    using assms g by (simp add: enter_def scheduleSIFSPeriod_def derefFrame_def letR_def updR_def scheduleW_def entering_def only_D wlan_times)
  moreover have "fire False (transitions w msg ?u) ?u = Inr (False, ?u)" using f by (simp add: transitions_def state_WAITSIFS_def)
  moreover have "answered (Some g) ?u" using g(2) by (simp add: answered_def unicast_def getCurrentTransmission_def)
  ultimately show ?thesis using assms only_timer(2) [of s "now w + getSIFS" g]
    by (intro settle_unfold [where b = False and u = ?u]) (simp_all add: wlan_wf_def phase_base_def medium_wf_def entering_def)
qed

lemma frame_time_pos: "core_wf s \<Longrightarrow> from_above f \<Longrightarrow> \<exists>d. frameDuration f (bitrate s) = Inr d \<and> 0 < d"
  by (auto simp: frameDuration_def computeFrameDuration_def core_wf_def limits_wf_def from_above_def PHY_HEADER_LENGTH_def BITRATE_HEADER_def
      intro!: add_nonneg_pos divide_nonneg_pos)

lemma control_times:
  "core_wf s \<Longrightarrow> computeFrameDuration LENGTH_ACK (basicBitrate s) = Inr control_time"
  "core_wf s \<Longrightarrow> computeFrameDuration LENGTH_CTS (basicBitrate s) = Inr control_time"
  "core_wf s \<Longrightarrow> computeFrameDuration LENGTH_RTS (basicBitrate s) = Inr (160 / (2 * 10 ^ 6) + 192 / 10 ^ 6)"
  by (simp_all add: computeFrameDuration_def core_wf_def limits_wf_def control_time_def wlan_times)

lemma enter_timer:
  assumes "entering msg s" and "fsm s \<in> {WAITACK, WAITBROADCAST, WAITCTS}"
  obtains a where "enter w msg s = Inr (s\<lparr>wtimers := (wtimers s)(endTimeout \<mapsto> a)\<rparr>)" and "now w < a"
    and "fsm s = WAITACK \<Longrightarrow> transmissionQueue s \<noteq> [] \<Longrightarrow> (\<exists>d. frameDuration (hd (transmissionQueue s)) (bitrate s) = Inr d \<and>
      a = now w + d + getSIFS + control_time + 2 * MAX_PROPAGATION_DELAY)"
proof -
  have core: "core_wf s" "wtimers s endTimeout = None" using assms by (simp_all add: entering_def only_D)
  consider "fsm s = WAITCTS" | f where "fsm s \<in> {WAITACK, WAITBROADCAST}" "getCurrentTransmission s = Some f" "from_above f" "f = hd (transmissionQueue s)"
    using assms by (auto simp: entering_def unicast_def isBroadcastFrame_def getCurrentTransmission_def core_wf_def split: list.splits)
  then show ?thesis
  proof cases
    case 1
    with core show ?thesis
      by (intro that [of "now w + (160 / (2 * 10 ^ 6) + 192 / 10 ^ 6) + getSIFS + control_time + MAX_PROPAGATION_DELAY * 2"])
        (simp_all add: enter_def scheduleCTSTimeoutPeriod_def control_times scheduleW_def, simp_all add: control_time_def wlan_times)
  next
    case (2 f)
    obtain d where d: "frameDuration f (bitrate s) = Inr d" "0 < d" using frame_time_pos [OF core(1) 2(3)] by auto
    have p: "0 < getSIFS + control_time + MAX_PROPAGATION_DELAY * 2" by (simp add: control_time_def wlan_times)
    show ?thesis
    proof (cases "fsm s = WAITACK")
      case True
      with core 2 d p show ?thesis
        by (intro that [of "now w + d + getSIFS + control_time + MAX_PROPAGATION_DELAY * 2"])
          (simp_all add: enter_def scheduleDataTimeoutPeriod_def derefFrame_def control_times scheduleW_def)
    next
      case False
      with core 2 d show ?thesis
        by (intro that [of "now w + d"]) (simp_all add: enter_def scheduleBroadcastTimeoutPeriod_def derefFrame_def scheduleW_def)
    qed
  qed
qed

lemma settle_timeout:
  assumes e: "entering msg s" and f: "fsm s \<in> {WAITACK, WAITBROADCAST, WAITCTS}"
  shows "succR wlan_wf (FSMA_Switch (Suc n) w msg False s)"
proof -
  obtain a where en: "enter w msg s = Inr (s\<lparr>wtimers := (wtimers s)(endTimeout \<mapsto> a)\<rparr>)" using enter_timer [OF assms, of w] by blast
  let ?u = "s\<lparr>wtimers := (wtimers s)(endTimeout \<mapsto> a)\<rparr>"
  have "only (Some endTimeout) ?u" using e only_timer(1) [of s endTimeout a] by (simp add: entering_def)
  moreover have "unicast ?u = unicast s" "getCurrentTransmission ?u = getCurrentTransmission s" by (simp_all add: unicast_def getCurrentTransmission_def)
  moreover have "fire False (transitions w msg ?u) ?u = Inr (False, ?u)"
    using f by (auto simp: transitions_def state_WAITACK_def state_WAITBROADCAST_def state_WAITCTS_def)
  ultimately show ?thesis using assms en
    by (intro settle_unfold [where b = False and u = ?u]) (auto simp: wlan_wf_def phase_base_def medium_wf_def entering_def)
qed

lemma settle_BACKOFF:
  assumes e: "entering msg s" and f: "fsm s = BACKOFF"
  shows "succR wlan_wf (FSMA_Switch (Suc n) w msg False s)"
proof -
  let ?u = "s\<lparr>wtimers := (wtimers s)(endBackoff \<mapsto> now w + backoffPeriod s), backoffSent := now w\<rparr>"
  have "enter w msg s = Inr ?u"
    using assms by (simp add: enter_def scheduleBackoffPeriod_def updR_def scheduleW_def entering_def only_D)
  moreover have "fire False (transitions w msg ?u) ?u = Inr (False, ?u)" using f by (simp add: transitions_def state_BACKOFF_def)
  ultimately show ?thesis using assms only_timer(1) [of s endBackoff "now w + backoffPeriod s"]
    by (intro settle_unfold [where b = False and u = ?u]) (simp_all add: wlan_wf_def phase_base_def medium_wf_def entering_def)
qed

lemma settle_RECEIVE:
  assumes e: "entering msg s" and f: "fsm s = RECEIVE"
  shows "succR wlan_wf (FSMA_Switch (Suc (Suc (Suc (Suc (Suc n))))) w msg False s)"
proof -
  obtain g where g: "msg = LowerMsg g" "on_air g" using assms by (auto simp: entering_def)
  have s: "core_wf s" "only None s" using e by (simp_all add: entering_def)
  have en: "enter w msg s = Inr s" using f by (simp add: enter_def)
  have idle: ?thesis if "fire False (state_RECEIVE msg s) s = Inr (True, v\<lparr>fsm := MAC_IDLE\<rparr>)" "idle_ready v" "only None v" for v
    using that en f settle_idle_ready [OF that(2,3), of "v\<lparr>fsm := MAC_IDLE\<rparr>" n w msg]
    by (intro settle_unfold [where b = True and u = "v\<lparr>fsm := MAC_IDLE\<rparr>"]) (simp_all add: transitions_def)
  have sifs: ?thesis if "fire False (state_RECEIVE msg s) s = Inr (True, v\<lparr>fsm := WAITSIFS\<rparr>)" "core_wf v" "only None v" "answered (Some g) (v\<lparr>fsm := WAITSIFS\<rparr>)" for v
  proof (rule settle_unfold [where b = True and u = "v\<lparr>fsm := WAITSIFS\<rparr>"])
    have "entering msg (v\<lparr>fsm := WAITSIFS\<rparr>)" using that g by (simp add: entering_def)
    then show "if True then succR wlan_wf (FSMA_Switch (Suc (Suc (Suc (Suc n)))) w msg False (v\<lparr>fsm := WAITSIFS\<rparr>)) else wlan_wf (v\<lparr>fsm := WAITSIFS\<rparr>)"
      by (simp add: settle_WAITSIFS)
  qed (use that en f in \<open>simp add: transitions_def\<close>)
  note run = g(1) state_RECEIVE_def Let_def sendUpMsg_def derefFrame_def letR_def outW_def countW_def
  have out: "core_wf (s\<lparr>wout := wout s @ [SendUp g]\<rparr>)" "core_wf (s\<lparr>wout := wout s @ [Promiscuous g]\<rparr>)"
    using s core_wf_out by auto
  show ?thesis
  proof (cases "msgKind g = COLLISION \<or> msgKind g = BITERROR")
    case True
    obtain v where v: "receptionOver (s\<lparr>wstats := (wstats s)\<lparr>numCollision := numCollision (wstats s) + 1\<rparr>\<rparr>) = Inr v" "idle_ready v" "only None v"
      by (rule receptionOver_ok [of "s\<lparr>wstats := (wstats s)\<lparr>numCollision := numCollision (wstats s) + 1\<rparr>\<rparr>"]) (use s in auto)
    show ?thesis by (rule idle [OF _ v(2,3)]) (use True v(1) in \<open>simp add: run\<close>)
  next
    case ok: False
    show ?thesis
    proof (cases "isDataOrMgmtFrame g")
      case data: True
      consider "isBroadcast (receiverAddress g)" | "\<not> isBroadcast (receiverAddress g)" "receiverAddress g = myAddress s"
        | "\<not> isBroadcast (receiverAddress g)" "receiverAddress g \<noteq> myAddress s" by blast
      then show ?thesis
      proof cases
        case 1
        let ?u = "s\<lparr>wout := wout s @ [SendUp g], wstats := (wstats s)\<lparr>numReceivedBroadcast := numReceivedBroadcast (wstats s) + 1\<rparr>\<rparr>"
        obtain v where v: "receptionOver ?u = Inr v" "idle_ready v" "only None v"
          by (rule receptionOver_ok [of ?u]) (use s out in auto)
        show ?thesis by (rule idle [OF _ v(2,3)]) (use 1 ok data v(1) in \<open>simp add: run isBroadcastFrame_def\<close>)
      next
        case 2
        show ?thesis
          by (rule sifs [of "s\<lparr>wout := wout s @ [SendUp g], wstats := (wstats s)\<lparr>numReceived := numReceived (wstats s) + 1\<rparr>\<rparr>"])
            (use 2 ok data s out g(2) in \<open>auto simp: run isBroadcastFrame_def isForUs_def answered_def\<close>)
      next
        case 3
        obtain v where v: "receptionOver (s\<lparr>wout := wout s @ [Promiscuous g]\<rparr>) = Inr v" "idle_ready v" "only None v"
          by (rule receptionOver_ok [OF out(2)]) (use s in auto)
        show ?thesis by (rule idle [of "v\<lparr>wstats := (wstats v)\<lparr>numReceivedOther := numReceivedOther (wstats v) + 1\<rparr>\<rparr>"])
          (use 3 ok data v in \<open>auto simp: run isBroadcastFrame_def isForUs_def\<close>)
      qed
    next
      case ctl: False
      show ?thesis
      proof (cases "receiverAddress g = myAddress s \<and> frameType g = ST_RTS")
        case True
        show ?thesis by (rule sifs [of s]) (use True ok ctl s g(2) in \<open>auto simp: run isBroadcastFrame_def isForUs_def answered_def frameTypeIs_def\<close>)
      next
        case False
        obtain v where v: "receptionOver s = Inr v" "idle_ready v" "only None v"
          by (rule receptionOver_ok [OF s(1)]) (use s in auto)
        show ?thesis by (rule idle [of "v\<lparr>wstats := (wstats v)\<lparr>numReceivedOther := numReceivedOther (wstats v) + 1\<rparr>\<rparr>"])
          (use False ok ctl v in \<open>auto simp: run isBroadcastFrame_def isForUs_def frameTypeIs_def\<close>)
      qed
    qed
  qed
qed

lemma settle:
  assumes e: "entering msg s" and n: "5 \<le> n"
  shows "succR wlan_wf (FSMA_Switch n w msg False s)"
proof -
  obtain m where m: "n = Suc (Suc (Suc (Suc (Suc m))))" using n le_Suc_ex [of 5 n] by (auto simp: numeral_eq_Suc)
  show ?thesis unfolding m using e
    by (cases "fsm s") (simp_all add: settle_IDLE settle_DEFER settle_WAITDIFS settle_BACKOFF settle_timeout settle_WAITSIFS settle_RECEIVE)
qed

section \<open>Actions\<close>

lemma current_unicast:
  assumes "core_wf s" and "unicast s"
  obtains f where "getCurrentTransmission s = Some f" and "from_above f" and "\<not> isBroadcast (receiverAddress f)" and "f = hd (transmissionQueue s)"
  using assms by (auto simp: unicast_def getCurrentTransmission_def isBroadcastFrame_def core_wf_def split: list.splits)

lemma sendRTS_ok:
  assumes "core_wf s" and "unicast s"
  obtains g where "sendRTSFrame (getCurrentTransmission s) s = Inr (s\<lparr>wout := wout s @ [SendDown g]\<rparr>)" and "on_air g"
proof -
  obtain f where f: "getCurrentTransmission s = Some f" "from_above f" by (rule current_unicast [OF assms]) blast
  obtain d where d: "frameDuration f (bitrate s) = Inr d" "0 < d" using frame_time_pos [OF assms(1) f(2)] by auto
  show ?thesis
    by (rule that, simp add: sendRTSFrame_def f derefFrame_def buildRTSFrame_def control_times [OF assms(1)] d(1) setBasicBitrate_def outW_def
        newRTSFrame_def newFrame_def)
      (use d(2) in \<open>simp add: on_air_def typed_def control_time_def wlan_times\<close>)
qed

lemma sendData_ok:
  assumes "core_wf s" and "unicast s" and "core_wf u" and "basicBitrate u = basicBitrate s" and "bitrate u = bitrate s"
  obtains g where "sendDataFrame (getCurrentTransmission s) u = Inr (u\<lparr>wout := wout u @ [SendDown g]\<rparr>)" and "on_air g"
    and "payload g = payload (hd (transmissionQueue s))"
proof -
  obtain f where f: "getCurrentTransmission s = Some f" "from_above f" "\<not> isBroadcast (receiverAddress f)" "f = hd (transmissionQueue s)"
    by (rule current_unicast [OF assms(1,2)]) blast
  obtain d where d: "frameDuration f (bitrate u) = Inr d" "0 < d" using frame_time_pos [OF assms(3) f(2)] by auto
  have "on_air (f\<lparr>duration := if \<not> moreFragments f then getSIFS + control_time else 3 * getSIFS + 2 * control_time + d, frameControl := None\<rparr>)"
    using f d(2) by (auto simp: on_air_def from_above_def typed_def isDataOrMgmtFrame_def control_time_def wlan_times)
  with f(1,3) d(1) show ?thesis
    by (intro that [OF _ \<open>on_air _\<close>]) (simp_all add: sendDataFrame_def derefFrame_def buildDataFrame_def isBroadcastFrame_def control_times [OF assms(3)] outW_def f(4) [symmetric])
qed

lemma sendBroadcast_ok:
  assumes "core_wf s" and "isBroadcastFrame (getCurrentTransmission s)"
  obtains g where "sendBroadcastFrame (getCurrentTransmission s) s = Inr (s\<lparr>wout := wout s @ [SendDown g]\<rparr>)" and "on_air g"
    and "payload g = payload (hd (transmissionQueue s))"
proof -
  obtain f where f: "getCurrentTransmission s = Some f" "from_above f" "isBroadcast (receiverAddress f)" "f = hd (transmissionQueue s)"
    using assms by (auto simp: isBroadcastFrame_def getCurrentTransmission_def core_wf_def split: list.splits)
  have "on_air (buildBroadcastFrame f)"
    using f by (auto simp: buildBroadcastFrame_def on_air_def from_above_def typed_def isDataOrMgmtFrame_def split: frameclass.splits)
  then show ?thesis using f(1) by (intro that [OF _ \<open>on_air _\<close>]) (simp_all add: sendBroadcastFrame_def derefFrame_def outW_def buildBroadcastFrame_def f(4) [symmetric])
qed

lemma sendCTS_ok:
  assumes core: "core_wf s" and f: "sifsFrame s = Some f" "on_air f" "frameType f = ST_RTS"
  obtains g where "sendCTSFrameOnEndSIFS s = Inr (s\<lparr>sifsFrame := None, wout := wout s @ [SendDown g]\<rparr>)" and "on_air g"
proof -
  let ?u = "s\<lparr>sifsFrame := None\<rparr>"
  define g :: "'a Ieee80211Frame" where "g = newCTSFrame\<lparr>receiverAddress := transmitterAddress f, duration := duration f - getSIFS - control_time\<rparr>"
  have c: "frameClass f = RTSFrame" and d: "getSIFS + control_time \<le> duration f" using f by (auto simp: on_air_def typed_def)
  have u: "core_wf ?u" using core by simp
  have b: "buildCTSFrame f ?u = Inr g" by (simp only: buildCTSFrame_def control_times(2) [OF u] bindR_simps g_def)
  have n: "frameControl g = None" by (simp add: g_def newCTSFrame_def newFrame_def)
  let ?g = "g\<lparr>frameControl := Some \<lparr>channelNumber = -1, ctrl_bitrate = basicBitrate s\<rparr>\<rparr>"
  have "sendCTSFrameOnEndSIFS s = Inr (s\<lparr>sifsFrame := None, wout := wout s @ [SendDown ?g]\<rparr>)"
    using f(1) c b n by (simp add: sendCTSFrameOnEndSIFS_def castFrame_def updR_def letR_def setBasicBitrate_def outW_def)
  moreover have "on_air ?g" using d by (simp add: on_air_def typed_def g_def newCTSFrame_def newFrame_def isDataOrMgmtFrame_def)
  ultimately show ?thesis by (rule that)
qed

lemma sendACK_ok:
  assumes core: "core_wf s" and f: "sifsFrame s = Some f" "on_air f" "isDataOrMgmtFrame f" "\<not> isBroadcast (receiverAddress f)"
  obtains g st where "sendACKFrameOnEndSIFS s = Inr (s\<lparr>sifsFrame := None, wstats := st, wout := wout s @ [SendDown g]\<rparr>)" and "on_air g"
    and "frameType g = ST_ACK" and "receiverAddress g = transmitterAddress f"
proof -
  define st where "st = (wstats s)\<lparr>numAckSend := numAckSend (wstats s) + 1\<rparr>"
  let ?u = "s\<lparr>sifsFrame := None, wstats := st\<rparr>"
  define g :: "'a Ieee80211Frame" where
    "g = newACKFrame\<lparr>receiverAddress := transmitterAddress f, duration := if \<not> moreFragments f then 0 else duration f - getSIFS - control_time\<rparr>"
  have d: "moreFragments f \<Longrightarrow> getSIFS + control_time \<le> duration f" using f by (simp add: on_air_def)
  have u: "core_wf ?u" using core by simp
  have b: "buildACKFrame f ?u = Inr g"
    by (cases "moreFragments f") (simp_all only: buildACKFrame_def control_times(1) [OF u] bindR_simps g_def if_True if_False not_True_eq_False not_False_eq_True)
  have n: "frameControl g = None" by (simp add: g_def newACKFrame_def newFrame_def)
  let ?g = "g\<lparr>frameControl := Some \<lparr>channelNumber = -1, ctrl_bitrate = basicBitrate s\<rparr>\<rparr>"
  have "sendACKFrameOnEndSIFS s = Inr (s\<lparr>sifsFrame := None, wstats := st, wout := wout s @ [SendDown ?g]\<rparr>)"
    using f(1,3) b n by (simp add: sendACKFrameOnEndSIFS_def castFrame_def updR_def letR_def setBasicBitrate_def outW_def st_def)
  moreover have "on_air ?g"
    using d by (cases "moreFragments f") (simp_all add: on_air_def typed_def g_def newACKFrame_def newFrame_def isDataOrMgmtFrame_def le_diff_eq add.commute)
  moreover have "frameType ?g = ST_ACK" "receiverAddress ?g = transmitterAddress f" by (simp_all add: g_def newACKFrame_def newFrame_def)
  ultimately show ?thesis by (rule that)
qed

lemma backoff_window:
  assumes core: "core_wf s"
  obtains c where "contentionWindow (getCurrentTransmission s) (retryCounter s) s = Inr c" and "0 \<le> c" and "c < INT_MAX"
    and "c \<le> max CW_MAX (cwMinBroadcast s)"
proof (cases "isBroadcastFrame (getCurrentTransmission s)")
  case True
  then show ?thesis using core by (intro that [of "cwMinBroadcast s"]) (simp_all add: contentionWindow_def core_wf_def limits_wf_def)
next
  case False
  have r: "0 \<le> retryCounter s" "retryCounter s < transmissionLimit s" "retryCounter s < 31" and
    d: "0 \<le> cwMinData s" and l: "(cwMinData s + 1) * 2 ^ nat (transmissionLimit s - 1) \<le> INT_MAX"
    using core by (simp_all add: core_wf_def limits_wf_def)
  have "(2::int) ^ nat (retryCounter s) \<le> 2 ^ nat (transmissionLimit s - 1)" using r by (intro power_increasing) auto
  then have "(cwMinData s + 1) * 2 ^ nat (retryCounter s) \<le> (cwMinData s + 1) * 2 ^ nat (transmissionLimit s - 1)" using d by (intro mult_left_mono) auto
  moreover have "1 \<le> (cwMinData s + 1) * 2 ^ nat (retryCounter s)"
    using d by (metis int_one_le_iff_zero_less less_add_one order.strict_trans1 zero_less_mult_iff zero_less_numeral zero_less_power)
  ultimately show ?thesis using False r l
    by (intro that [of "min ((cwMinData s + 1) * 2 ^ nat (retryCounter s) - 1) CW_MAX"]) (auto simp: contentionWindow_def CW_MAX_def INT_MAX_def)
qed

lemma generate_ok:
  assumes core: "core_wf s"
  obtains b where "generateBackoffPeriod s = Inr (s\<lparr>wdraws := rand_next (wdraws s), backoffPeriod := b\<rparr>)" and "0 \<le> b"
    and "\<exists>k. b = of_int k * getSlotTime \<and> 0 \<le> k \<and> k \<le> max CW_MAX (cwMinBroadcast s)"
proof -
  obtain c where c: "contentionWindow (getCurrentTransmission s) (retryCounter s) s = Inr c" "0 \<le> c" "c < INT_MAX" "c \<le> max CW_MAX (cwMinBroadcast s)"
    by (rule backoff_window [OF core])
  define k where "k = int (rand_value (wdraws s)) mod (c + 1)"
  have k: "0 \<le> k" "k \<le> c" using c(2) pos_mod_bound [of "c + 1" "int (rand_value (wdraws s))"] by (simp_all add: k_def)
  then have b: "0 \<le> of_int k * getSlotTime" by (simp add: wlan_times)
  have "computeBackoffPeriod (getCurrentTransmission s) (retryCounter s) s = Inr (of_int k * getSlotTime, s\<lparr>wdraws := rand_next (wdraws s)\<rparr>)"
    using c(1,3) by (simp add: computeBackoffPeriod_def k_def)
  then have "generateBackoffPeriod s = Inr (s\<lparr>wdraws := rand_next (wdraws s), backoffPeriod := of_int k * getSlotTime\<rparr>)"
    using b by (simp add: generateBackoffPeriod_def checkR_def)
  moreover have "\<exists>j. of_int k * getSlotTime = of_int j * getSlotTime \<and> 0 \<le> j \<and> j \<le> max CW_MAX (cwMinBroadcast s)"
    by (rule exI [of _ k]) (use k c(4) in linarith)
  ultimately show ?thesis using b that by blast
qed

end
