(* ===== verification/Wlan_Reachable.thy ===== *)
theory Wlan_Reachable
  imports Wlan_Invariant
begin

text \<open>
  The handlers of the 802.11 medium access control return and keep its invariant, event by event.
\<close>

section \<open>Events\<close>

lemma switch_event:
  assumes "fire True (transitions w msg s) s = Inr (b, u)" and "if b then entering msg u else wlan_wf u" and "6 \<le> n"
  shows "succR wlan_wf (FSMA_Switch n w msg True s)"
proof -
  obtain m where m: "n = Suc m" "5 \<le> m" using assms(3) by (cases n) auto
  show ?thesis using assms(1,2) settle [OF _ m(2), of msg u w] by (cases b) (simp_all add: m(1) FSMA_Switch.simps)
qed

lemma pop_ok:
  assumes "core_wf s" and "transmissionQueue s \<noteq> []"
  obtains v where "popTransmissionQueue s = Inr v" and "core_wf v" and "\<And>x. only x v = only x s" and "transmissionQueue v = tl (transmissionQueue s)"
    and "fsm v = fsm s" and "wout v = wout s @ (if queueModule s then [RequestPacket] else [])"
proof -
  have c: "core_wf (s\<lparr>transmissionQueue := tl (transmissionQueue s)\<rparr>)"
    using assms by (intro core_wf_queue) (auto simp: core_wf_def dest: list.set_sel(2))
  from assms c show ?thesis using core_wf_out [OF c, of RequestPacket]
    by (cases "queueModule s") (auto simp: popTransmissionQueue_def checkR_def updR_def whenR_def outW_def intro!: that)
qed

lemma finish_ok:
  assumes "core_wf s" and "transmissionQueue s \<noteq> []"
  obtains v where "finishCurrentTransmission s = Inr v" and "idle_ready v" and "\<And>x. only x v = only x s"
    and "length (transmissionQueue v) = length (transmissionQueue s) - 1" and "wout v = wout s @ (if queueModule s then [RequestPacket] else [])"
    and "retryCounter v = 0"
proof -
  obtain u where u: "popTransmissionQueue s = Inr u" "core_wf u" "\<And>x. only x u = only x s" "transmissionQueue u = tl (transmissionQueue s)"
    "wout u = wout s @ (if queueModule s then [RequestPacket] else [])" using pop_ok [OF assms] by blast
  obtain v where "resetStateVariables u = Inr v" "idle_ready v" "\<And>x. only x v = only x u" "length (transmissionQueue v) = length (transmissionQueue u)" "wout v = wout u"
    "retryCounter v = 0" by (rule reset_ok [OF u(2)]) blast
  with u show ?thesis by (intro that [of v]) (simp_all add: finishCurrentTransmission_def)
qed

lemma giveUp_ok:
  assumes "core_wf s" and "transmissionQueue s \<noteq> []"
  obtains v where "giveUpCurrentTransmission s = Inr v" and "idle_ready v" and "\<And>x. only x v = only x s"
    and "length (transmissionQueue v) = length (transmissionQueue s) - 1" and "retryCounter v = 0"
    and "wout v = wout s @ LinkBreak (hd (transmissionQueue s)) # (if queueModule s then [RequestPacket] else [])"
proof -
  let ?u = "s\<lparr>wout := wout s @ [LinkBreak (hd (transmissionQueue s))]\<rparr>"
  have u: "core_wf ?u" "transmissionQueue ?u \<noteq> []" using assms core_wf_out by auto
  obtain v where v: "finishCurrentTransmission ?u = Inr v" "idle_ready v" "\<And>x. only x v = only x ?u" "length (transmissionQueue v) = length (transmissionQueue ?u) - 1"
    "wout v = wout ?u @ (if queueModule ?u then [RequestPacket] else [])" "retryCounter v = 0" by (rule finish_ok [OF u]) blast
  obtain x where x: "popTransmissionQueue ?u = Inr x" "resetStateVariables x = Inr v" using v(1) by (auto simp: finishCurrentTransmission_def bindR_Inr_iff)
  let ?v = "v\<lparr>wstats := (wstats v)\<lparr>numGivenUp := numGivenUp (wstats v) + 1\<rparr>\<rparr>"
  have "giveUpCurrentTransmission s = Inr ?v"
    using assms(2) x by (cases "transmissionQueue s") (simp_all add: giveUpCurrentTransmission_def outW_def updR_def)
  then show ?thesis using v by (intro that [of ?v]) simp_all
qed

lemma retry_ok:
  assumes core: "core_wf s" and q: "transmissionQueue s \<noteq> []" and r: "retryCounter s \<noteq> transmissionLimit s - 1"
  obtains v where "retryCurrentTransmission s = Inr v" and "core_wf v" and "\<And>x. only x v = only x s" and "backoff v" and "transmissionQueue v \<noteq> []"
    and "retryCounter v = retryCounter s + 1" and "wout v = wout s" and "length (transmissionQueue v) = length (transmissionQueue s)"
proof -
  obtain f fs where f: "transmissionQueue s = f # fs" using q by (cases "transmissionQueue s") auto
  have r': "retryCounter s < transmissionLimit s - 1" using core r by (simp add: core_wf_def)
  define u where "u = s\<lparr>transmissionQueue := f\<lparr>retry := True\<rparr> # fs, retryCounter := retryCounter s + 1,
     wstats := (wstats s)\<lparr>numRetry := numRetry (wstats s) + 1\<rparr>, backoff := True\<rparr>"
  have "core_wf (s\<lparr>transmissionQueue := f\<lparr>retry := True\<rparr> # fs\<rparr>)"
    using core core_wf_head [OF core] f by (intro core_wf_queue) (auto simp: from_above_def)
  then have u: "core_wf u" using r' by (auto simp: u_def core_wf_def limits_wf_def)
  obtain b where b: "generateBackoffPeriod u = Inr (u\<lparr>wdraws := rand_next (wdraws u), backoffPeriod := b\<rparr>)" "0 \<le> b" by (rule generate_ok [OF u]) blast
  have "retryCurrentTransmission s = Inr (u\<lparr>wdraws := rand_next (wdraws u), backoffPeriod := b\<rparr>)"
    using b(1) r' f by (simp add: retryCurrentTransmission_def checkR_def setCurrentRetry_def updR_def u_def)
  moreover have "core_wf (u\<lparr>wdraws := rand_next (wdraws u), backoffPeriod := b\<rparr>)" using u b(2) core_wf_backoff [of "u\<lparr>wdraws := rand_next (wdraws u)\<rparr>" b] by simp
  ultimately show ?thesis by (rule that) (simp_all add: u_def f)
qed

subsection \<open>Timers of the state machine\<close>

lemma entering_sent:
  assumes "core_wf v" "only None v" "unicast s" "transmissionQueue v = transmissionQueue s"
  shows "entering msg (v\<lparr>fsm := WAITACK\<rparr>)" "entering msg (v\<lparr>fsm := WAITCTS\<rparr>)"
  using assms by (simp_all add: entering_def unicast_def getCurrentTransmission_def)

lemma entering_broadcast:
  assumes "core_wf v" "only None v" "isBroadcastFrame (getCurrentTransmission s)" "transmissionQueue v = transmissionQueue s"
  shows "entering msg (v\<lparr>fsm := WAITBROADCAST\<rparr>)"
  using assms by (simp add: entering_def getCurrentTransmission_def)

lemma fired_endDIFS:
  assumes core: "core_wf s" and t: "only None s" and f: "fsm s = WAITDIFS" and q: "transmissionQueue s \<noteq> [] \<or> backoff s"
    and m: "radioState s = IDLE" "wtimers s endReserve = None \<or> wtimers s mediumStateChange \<noteq> None"
  obtains u where "fire True (transitions w (SelfMsg endDIFS) s) s = Inr (True, u)" and "entering (SelfMsg endDIFS) u"
proof (cases "transmissionQueue s \<noteq> [] \<and> \<not> backoff s")
  case True
  note run = transitions_def f state_WAITDIFS_def cancelW_def
  have n: "only None (s\<lparr>wout := wout s @ [x], wtimers := (wtimers s)(endDIFS := None)\<rparr>)" for x using t by (simp add: only_def)
  have c: "core_wf (s\<lparr>wout := wout s @ [SendDown g], wtimers := (wtimers s)(endDIFS := None)\<rparr>)" if "on_air g" for g using that core core_wf_out by auto
  show ?thesis
  proof (cases "isBroadcastFrame (getCurrentTransmission s)")
    case b: True
    obtain g where g: "sendBroadcastFrame (getCurrentTransmission s) s = Inr (s\<lparr>wout := wout s @ [SendDown g]\<rparr>)" "on_air g"
      by (rule sendBroadcast_ok [OF core b]) blast
    show ?thesis by (rule that) (use True b g(1) in \<open>simp add: run\<close>, use entering_broadcast [OF c [OF g(2)] n b] in simp)
  next
    case b: False
    then have u: "unicast s" using True by (simp add: unicast_def)
    obtain g where g: "sendRTSFrame (getCurrentTransmission s) s = Inr (s\<lparr>wout := wout s @ [SendDown g]\<rparr>)" "on_air g" by (rule sendRTS_ok [OF core u]) blast
    obtain h where h: "sendDataFrame (getCurrentTransmission s) s = Inr (s\<lparr>wout := wout s @ [SendDown h]\<rparr>)" "on_air h"
      by (rule sendData_ok [OF core u core refl refl]) blast
    show ?thesis
    proof (cases "needsRTS s")
      case r: True
      show ?thesis by (rule that) (use True b r g(1) in \<open>simp add: run\<close>, use entering_sent(2) [OF c [OF g(2)] n u] in simp)
    next
      case r: False
      show ?thesis by (rule that) (use True b r h(1) in \<open>simp add: run\<close>, use entering_sent(1) [OF c [OF h(2)] n u] in simp)
    qed
  qed
next
  case False
  then have b: "backoff s" using q by blast
  obtain p where p: "generateBackoffPeriod s = Inr (s\<lparr>wdraws := rand_next (wdraws s), backoffPeriod := p\<rparr>)" "0 \<le> p" by (rule generate_ok [OF core]) blast
  have c: "core_wf (s\<lparr>wdraws := rand_next (wdraws s), backoffPeriod := p\<rparr>)"
    using core p(2) core_wf_backoff [of "s\<lparr>wdraws := rand_next (wdraws s)\<rparr>" p] by simp
  define u where "u = (if isInvalidBackoffPeriod s then s\<lparr>wdraws := rand_next (wdraws s), backoffPeriod := p\<rparr> else s)"
  have "fire True (transitions w (SelfMsg endDIFS) s) s = Inr (True, u\<lparr>fsm := BACKOFF\<rparr>)"
    using False b p(1) by (simp add: transitions_def f state_WAITDIFS_def checkR_def whenR_def u_def)
  moreover have "entering (SelfMsg endDIFS) (u\<lparr>fsm := BACKOFF\<rparr>)"
  proof (cases "isInvalidBackoffPeriod s")
    case True
    then show ?thesis using t b c p(2) m by (simp add: u_def entering_def)
  next
    case False
    then have "0 \<le> backoffPeriod s" using core by (auto simp: isInvalidBackoffPeriod_def core_wf_def)
    then show ?thesis using False core t b m by (simp add: u_def entering_def)
  qed
  ultimately show ?thesis by (rule that)
qed

lemma fired_endBackoff:
  assumes core: "core_wf s" and t: "only None s" and f: "fsm s = BACKOFF"
  obtains u where "fire True (transitions w (SelfMsg endBackoff) s) s = Inr (True, u)" and "entering (SelfMsg endBackoff) u"
proof (cases "transmissionQueue s = []")
  case True
  obtain v where v: "resetStateVariables s = Inr v" "idle_ready v" "only None v = only None s" by (rule reset_ok [OF core]) blast
  show ?thesis by (rule that [of "v\<lparr>fsm := MAC_IDLE\<rparr>"])
    (use True f v t in \<open>simp_all add: transitions_def state_BACKOFF_def entering_def idle_ready_def\<close>)
next
  case q: False
  note run = transitions_def f state_BACKOFF_def
  have n: "only None (s\<lparr>wout := wout s @ [x]\<rparr>)" for x using t by simp
  have c: "core_wf (s\<lparr>wout := wout s @ [SendDown g]\<rparr>)" if "on_air g" for g using that core core_wf_out by auto
  show ?thesis
  proof (cases "isBroadcastFrame (getCurrentTransmission s)")
    case b: True
    obtain g where g: "sendBroadcastFrame (getCurrentTransmission s) s = Inr (s\<lparr>wout := wout s @ [SendDown g]\<rparr>)" "on_air g"
      by (rule sendBroadcast_ok [OF core b]) blast
    show ?thesis by (rule that) (use q b g(1) in \<open>simp add: run\<close>, use entering_broadcast [OF c [OF g(2)] n b] in simp)
  next
    case b: False
    then have u: "unicast s" using q by (simp add: unicast_def)
    obtain g where g: "sendRTSFrame (getCurrentTransmission s) s = Inr (s\<lparr>wout := wout s @ [SendDown g]\<rparr>)" "on_air g" by (rule sendRTS_ok [OF core u]) blast
    obtain h where h: "sendDataFrame (getCurrentTransmission s) s = Inr (s\<lparr>wout := wout s @ [SendDown h]\<rparr>)" "on_air h"
      by (rule sendData_ok [OF core u core refl refl]) blast
    show ?thesis
    proof (cases "needsRTS s")
      case r: True
      show ?thesis by (rule that) (use q b r g(1) in \<open>simp add: run\<close>, use entering_sent(2) [OF c [OF g(2)] n u] in simp)
    next
      case r: False
      show ?thesis by (rule that) (use q b r h(1) in \<open>simp add: run\<close>, use entering_sent(1) [OF c [OF h(2)] n u] in simp)
    qed
  qed
qed

lemma fired_endTimeout:
  assumes core: "core_wf s" and t: "only None s" and f: "fsm s \<in> {WAITACK, WAITBROADCAST, WAITCTS}" and q: "transmissionQueue s \<noteq> []"
  obtains u where "fire True (transitions w (SelfMsg endTimeout) s) s = Inr (True, u)" and "entering (SelfMsg endTimeout) u"
proof (cases "fsm s = WAITBROADCAST")
  case True
  obtain v where v: "finishCurrentTransmission s = Inr v" "idle_ready v" "only None v = only None s" by (rule finish_ok [OF core q]) blast
  let ?v = "v\<lparr>wstats := (wstats v)\<lparr>numSentBroadcast := numSentBroadcast (wstats v) + 1\<rparr>, backoff := True, backoffPeriod := -1\<rparr>"
  have "fire True (transitions w (SelfMsg endTimeout) s) s = Inr (True, ?v\<lparr>fsm := DEFER\<rparr>)"
    using True v(1) by (simp add: transitions_def state_WAITBROADCAST_def countW_def updR_def invalidateBackoffPeriod_def)
  moreover have "core_wf ?v" using v(2) core_wf_backoff [of "v\<lparr>wstats := (wstats v)\<lparr>numSentBroadcast := numSentBroadcast (wstats v) + 1\<rparr>, backoff := True\<rparr>" "-1"]
    by (simp add: idle_ready_def)
  then have "entering (SelfMsg endTimeout) (?v\<lparr>fsm := DEFER\<rparr>)" using v t by (simp add: entering_def)
  ultimately show ?thesis by (rule that)
next
  case False
  then have f': "fsm s = WAITACK \<or> fsm s = WAITCTS" using f by auto
  show ?thesis
  proof (cases "retryCounter s = transmissionLimit s - 1")
    case True
    obtain v where v: "giveUpCurrentTransmission s = Inr v" "idle_ready v" "only None v = only None s" by (rule giveUp_ok [OF core q]) blast
    show ?thesis by (rule that [of "v\<lparr>fsm := MAC_IDLE\<rparr>"])
      (use True f' v t in \<open>auto simp: transitions_def state_WAITACK_def state_WAITCTS_def entering_def idle_ready_def\<close>)
  next
    case False
    obtain v where v: "retryCurrentTransmission s = Inr v" "core_wf v" "only None v = only None s" "backoff v" by (rule retry_ok [OF core q False]) blast
    show ?thesis by (rule that [of "v\<lparr>fsm := DEFER\<rparr>"])
      (use False f' v t in \<open>auto simp: transitions_def state_WAITACK_def state_WAITCTS_def entering_def\<close>)
  qed
qed

lemma fired_endSIFS:
  assumes core: "core_wf s" and t: "only None (s\<lparr>sifsFrame := None\<rparr>)" and f: "fsm s = WAITSIFS" and a: "answered (sifsFrame s) s"
  obtains u where "fire True (transitions w (SelfMsg endSIFS) s) s = Inr (True, u)" and "entering (SelfMsg endSIFS) u"
proof -
  obtain g where g: "sifsFrame s = Some g" "on_air g" using a by (auto simp: answered_def split: option.splits)
  note run = transitions_def f state_WAITSIFS_def g(1) frameTypeIs_def and result = that
  have over: ?thesis if c: "core_wf u" and n: "only None u" and "fire True (transitions w (SelfMsg endSIFS) s) s = bindR (receptionOver u) (\<lambda>s. Inr (True, s\<lparr>fsm := MAC_IDLE\<rparr>))" for u
  proof -
    obtain v where v: "receptionOver u = Inr v" "idle_ready v" "only None v = only None u" by (rule receptionOver_ok [OF c]) blast
    show ?thesis by (rule result [of "v\<lparr>fsm := MAC_IDLE\<rparr>"]) (use \<open>fire _ _ _ = _\<close> v n in \<open>simp_all add: entering_def idle_ready_def\<close>)
  qed
  consider "frameType g = ST_RTS" | "frameType g = ST_CTS" "unicast s" | "isDataOrMgmtFrame g" "\<not> isBroadcast (receiverAddress g)" "frameType g \<noteq> ST_RTS" "frameType g \<noteq> ST_CTS"
    using a g by (auto simp: answered_def on_air_def typed_def isDataOrMgmtFrame_def)
  then show ?thesis
  proof cases
    case 1
    obtain h where h: "sendCTSFrameOnEndSIFS s = Inr (s\<lparr>sifsFrame := None, wout := wout s @ [SendDown h]\<rparr>)" "on_air h" by (rule sendCTS_ok [OF core g 1])
    show ?thesis by (rule over [of "s\<lparr>sifsFrame := None, wout := wout s @ [SendDown h]\<rparr>"])
      (use core core_wf_out [of "s\<lparr>sifsFrame := None\<rparr>" "SendDown h"] h t 1 in \<open>simp_all add: run\<close>)
  next
    case 2
    let ?u = "s\<lparr>sifsFrame := None\<rparr>"
    obtain h where h: "sendDataFrame (getCurrentTransmission s) ?u = Inr (?u\<lparr>wout := wout ?u @ [SendDown h]\<rparr>)" "on_air h"
      by (rule sendData_ok [OF core 2(2), where u = ?u]) (use core in auto)
    have "fire True (transitions w (SelfMsg endSIFS) s) s = Inr (True, s\<lparr>sifsFrame := None, wout := wout s @ [SendDown h], fsm := WAITACK\<rparr>)"
      using 2 h(1) by (simp add: run sendDataFrameOnEndSIFS_def updR_def)
    moreover have "core_wf (s\<lparr>sifsFrame := None, wout := wout s @ [SendDown h]\<rparr>)" using core core_wf_out [of ?u "SendDown h"] h(2) by simp
    ultimately show ?thesis using t entering_sent(1) [where v = "s\<lparr>sifsFrame := None, wout := wout s @ [SendDown h]\<rparr>", OF _ _ 2(2)] by (intro that) simp_all
  next
    case 3
    obtain h st where h: "sendACKFrameOnEndSIFS s = Inr (s\<lparr>sifsFrame := None, wstats := st, wout := wout s @ [SendDown h]\<rparr>)" "on_air h"
      by (rule sendACK_ok [OF core g 3(1,2)]) blast
    show ?thesis by (rule over [of "s\<lparr>sifsFrame := None, wstats := st, wout := wout s @ [SendDown h]\<rparr>"])
      (use core core_wf_out [of "s\<lparr>sifsFrame := None, wstats := st\<rparr>" "SendDown h"] h t 3 in \<open>simp_all add: run\<close>)
  qed
qed

subsection \<open>The medium\<close>

lemma decrease_ok:
  assumes core: "core_wf s" and b: "wtimers s endBackoff = Some (backoffSent s + backoffPeriod s)" and t: "backoffSent s \<le> now w" "now w \<le> backoffSent s + backoffPeriod s"
  obtains p where "doR [cancelW endBackoff, decreaseBackoffPeriod w] s = Inr (s\<lparr>wtimers := (wtimers s)(endBackoff := None), backoffPeriod := p\<rparr>)" and "0 \<le> p"
    and "backoffPeriod s - (now w - backoffSent s) \<le> p" and "p \<le> backoffPeriod s"
proof -
  define e where "e = now w - backoffSent s"
  have e: "0 \<le> e" "e \<le> backoffPeriod s" and st: "0 < getSlotTime" using t by (simp_all add: e_def wlan_times)
  define p where "p = backoffPeriod s - of_int (trunc (e / getSlotTime)) * getSlotTime"
  have q: "0 \<le> e / getSlotTime" using e(1) st by simp
  have "of_int (trunc (e / getSlotTime)) \<le> e / getSlotTime" using trunc_bounds [OF q] by simp
  then have "of_int (trunc (e / getSlotTime)) * getSlotTime \<le> e" using st by (simp add: pos_le_divide_eq)
  moreover have "0 \<le> of_int (trunc (e / getSlotTime)) * getSlotTime" using trunc_nonneg [OF q] st by simp
  ultimately have p: "0 \<le> p" "backoffPeriod s - e \<le> p" "p \<le> backoffPeriod s" using e by (simp_all add: p_def)
  show ?thesis by (rule that [of p]) (use p in \<open>simp_all add: cancelW_def decreaseBackoffPeriod_def updR_def checkR_def p_def e_def\<close>)
qed

lemma medium_event:
  assumes core: "core_wf s" and ph: "phase_base s" and c: "isMediumStateChange (SelfMsg t) s" and n: "6 \<le> n" and t: "t = mediumStateChange \<or> t = endReserve"
    and b: "fsm s = BACKOFF \<Longrightarrow> backoffSent s \<le> now w \<and> now w \<le> backoffSent s + backoffPeriod s"
  shows "succR wlan_wf (FSMA_Switch n w (SelfMsg t) True s)"
proof -
  have stay: ?thesis if "fire True (transitions w (SelfMsg t) s) s = Inr (False, s)" "medium_wf s"
    by (rule switch_event [OF that(1) _ n]) (use core ph that(2) in \<open>simp add: wlan_wf_def\<close>)
  have quiet: ?thesis if "fsm s \<in> {MAC_IDLE, WAITACK, WAITBROADCAST, WAITCTS, WAITSIFS}"
    by (rule stay) (use that t in \<open>auto simp: transitions_def state_IDLE_def state_WAITACK_def state_WAITBROADCAST_def state_WAITCTS_def state_WAITSIFS_def medium_wf_def\<close>)
  show ?thesis
  proof (cases "fsm s")
    case DEFER
    show ?thesis
    proof (cases "isMediumFree s")
      case True
      show ?thesis by (rule switch_event [OF _ _ n, of _ _ s True "s\<lparr>fsm := WAITDIFS\<rparr>"])
        (use True DEFER c core ph in \<open>simp_all add: transitions_def state_DEFER_def entering_def phase_base_def\<close>)
    next
      case False
      show ?thesis by (rule stay) (use False DEFER in \<open>simp_all add: transitions_def state_DEFER_def medium_wf_def\<close>)
    qed
  next
    case WAITDIFS
    show ?thesis
    proof (cases "isMediumFree s")
      case True
      show ?thesis by (rule stay) (use True WAITDIFS t in \<open>auto simp: transitions_def state_WAITDIFS_def medium_wf_def\<close>)
    next
      case False
      let ?u = "s\<lparr>backoff := True, wtimers := (wtimers s)(endDIFS := None), fsm := DEFER\<rparr>"
      show ?thesis by (rule switch_event [OF _ _ n, of _ _ s True ?u])
        (use False WAITDIFS t c core ph in \<open>auto simp: transitions_def state_WAITDIFS_def updR_def cancelW_def entering_def phase_base_def only_def\<close>)
    qed
  next
    case BACKOFF
    show ?thesis
    proof (cases "isMediumFree s")
      case True
      show ?thesis by (rule stay) (use True BACKOFF t in \<open>auto simp: transitions_def state_BACKOFF_def medium_wf_def isMediumFree_def\<close>)
    next
      case False
      obtain p where p: "doR [cancelW endBackoff, decreaseBackoffPeriod w] s = Inr (s\<lparr>wtimers := (wtimers s)(endBackoff := None), backoffPeriod := p\<rparr>)" "0 \<le> p"
        by (rule decrease_ok [OF core]) (use ph b BACKOFF in \<open>auto simp: phase_base_def\<close>)
      let ?u = "s\<lparr>wtimers := (wtimers s)(endBackoff := None), backoffPeriod := p\<rparr>"
      have "core_wf ?u" using core core_wf_backoff [of "s\<lparr>wtimers := (wtimers s)(endBackoff := None)\<rparr>" p] p(2) by simp
      moreover have "fire True (transitions w (SelfMsg t) s) s = Inr (True, ?u\<lparr>fsm := DEFER\<rparr>)"
        using False BACKOFF t c p(1) by (auto simp: transitions_def state_BACKOFF_def)
      ultimately show ?thesis using ph BACKOFF
        by (intro switch_event [OF _ _ n, of _ _ s True "?u\<lparr>fsm := DEFER\<rparr>"]) (auto simp: entering_def phase_base_def only_def)
    qed
  next
    case RECEIVE
    then show ?thesis using ph by (simp add: phase_base_def)
  qed (use quiet in auto)
qed

subsection \<open>Frames\<close>

text \<open>What the simulation guarantees when a message is delivered.\<close>

definition wlan_env_ok :: "WEnv \<Rightarrow> 'p wevent \<Rightarrow> 'p WMac \<Rightarrow> bool" where
  "wlan_env_ok w e s \<longleftrightarrow> 6 \<le> FSM_MAXT w \<and> (\<forall>t a. wtimers s t = Some a \<longrightarrow> now w \<le> a) \<and> backoffSent s \<le> now w \<and>
     (case e of
        TimerFired t \<Rightarrow> wtimers s t = Some (now w)
      | FromUpper f \<Rightarrow> from_above f \<and> byteLength f \<le> fragmentationThreshold \<and> \<not> isUnspecified (receiverAddress f)
      | FromLower f \<Rightarrow> on_air f \<and> (isTwoAddressFrame f \<longrightarrow> transmitterAddress f \<noteq> myAddress s)
      | Command k c \<Rightarrow> k = PHY_C_CONFIGURERADIO
      | _ \<Rightarrow> True)"

lemma reserve_ok:
  assumes core: "core_wf s" and f: "on_air f" and t: "\<And>t a. wtimers s t = Some a \<Longrightarrow> now w \<le> a"
  obtains g v where "scheduleReservePeriod w f s = Inr (s\<lparr>wtimers := g, nav := v\<rparr>)" and "core_wf (s\<lparr>wtimers := g, nav := v\<rparr>)"
    and "\<And>t. t \<noteq> endReserve \<Longrightarrow> t \<noteq> mediumStateChange \<Longrightarrow> g t = wtimers s t"
    and "radioState s = IDLE \<Longrightarrow> wtimers s endReserve = None \<or> wtimers s mediumStateChange \<noteq> None \<Longrightarrow> g endReserve = None \<or> g mediumStateChange \<noteq> None"
proof (cases "\<not> isForUs (Some f) s \<and> duration f \<noteq> 0 \<and> duration f < 32768")
  case False
  show ?thesis by (rule that [where g = "wtimers s" and v = "nav s"]) (use False core in \<open>auto simp: scheduleReservePeriod_def Let_def\<close>)
next
  case True
  then have d: "0 < duration f" using f by (simp add: on_air_def)
  have m: "\<And>t r. wtimers s mediumStateChange = Some t \<Longrightarrow> wtimers s endReserve = Some r \<Longrightarrow> t < r" using core by (force simp: core_wf_def)
  show ?thesis
  proof (cases "wtimers s endReserve")
    case None
    then have n: "wtimers s mediumStateChange = None" using core by (auto simp: core_wf_def)
    define g where "g = (if radioState s = IDLE then (wtimers s)(mediumStateChange \<mapsto> now w) else wtimers s)(endReserve \<mapsto> now w + duration f)"
    have "scheduleReservePeriod w f s = Inr (s\<lparr>wtimers := g, nav := True\<rparr>)"
      using True None n d by (simp add: scheduleReservePeriod_def Let_def whenR_def scheduleW_def reserve_medium_def checkR_def updR_def g_def)
    moreover have "core_wf (s\<lparr>wtimers := g, nav := True\<rparr>)" using core d n by (auto simp: core_wf_def limits_wf_def g_def)
    ultimately show ?thesis by (rule that) (auto simp: g_def)
  next
    case (Some a)
    show ?thesis
    proof (cases "a - now w > duration f")
      case late: True
      show ?thesis by (rule that [where g = "wtimers s" and v = "nav s"]) (use True late core Some in \<open>simp_all add: scheduleReservePeriod_def Let_def\<close>)
    next
      case False
      let ?g = "(wtimers s)(endReserve \<mapsto> now w + duration f)"
      have "scheduleReservePeriod w f s = Inr (s\<lparr>wtimers := ?g, nav := True\<rparr>)"
        using True Some False d by (simp add: scheduleReservePeriod_def Let_def cancelW_def scheduleW_def reserve_medium_def checkR_def updR_def max_def)
      moreover have "core_wf (s\<lparr>wtimers := ?g, nav := True\<rparr>)"
        using core False m Some by (fastforce simp: core_wf_def limits_wf_def)
      ultimately show ?thesis by (rule that) (use Some in auto)
    qed
  qed
qed

lemma phase_base_cong:
  assumes "fsm u = fsm s" and "\<And>x. only x u = only x s" and "transmissionQueue u = transmissionQueue s" and "backoff u = backoff s"
    and "backoffPeriod u = backoffPeriod s" and "sifsFrame u = sifsFrame s" and "backoffSent u = backoffSent s" and "wtimers u endBackoff = wtimers s endBackoff"
  shows "phase_base u = phase_base s"
  unfolding phase_base_def answered_def unicast_def getCurrentTransmission_def assms ..

text \<open>The state in which the machine handles a frame from the radio.\<close>

lemma lower_start:
  assumes wf: "wlan_wf s" and f: "on_air f" and t: "\<And>t a. wtimers s t = Some a \<Longrightarrow> now w \<le> a"
  obtains u where "handleWithFSM w (LowerMsg f) s = FSMA_Switch (FSM_MAXT w) w (LowerMsg f) True u" and "core_wf u" and "phase_base u"
    and "fsm u = BACKOFF \<longrightarrow> medium_wf u" and "fsm u = fsm s" and "transmissionQueue u = transmissionQueue s" and "retryCounter u = retryCounter s"
    and "queueModule u = queueModule s" and "wout u = wout s" and "myAddress u = myAddress s" and "fixFSM u = fixFSM s"
proof -
  define s0 where "s0 = s\<lparr>lastReceiveFailed := (msgKind f = COLLISION \<or> msgKind f = BITERROR)\<rparr>"
  have core: "core_wf s0" using wf by (simp add: wlan_wf_def s0_def)
  obtain g v where r: "scheduleReservePeriod w f s0 = Inr (s0\<lparr>wtimers := g, nav := v\<rparr>)" "core_wf (s0\<lparr>wtimers := g, nav := v\<rparr>)"
    and g: "\<And>t. t \<noteq> endReserve \<Longrightarrow> t \<noteq> mediumStateChange \<Longrightarrow> g t = wtimers s0 t"
    and gm: "radioState s0 = IDLE \<Longrightarrow> wtimers s0 endReserve = None \<or> wtimers s0 mediumStateChange \<noteq> None \<Longrightarrow> g endReserve = None \<or> g mediumStateChange \<noteq> None"
    by (rule reserve_ok [OF core f]) (use t in \<open>auto simp: s0_def\<close>)
  define u where "u = s0\<lparr>wtimers := g, nav := v\<rparr>"
  have o: "only x u = only x s" for x by (simp add: only_def u_def g s0_def)
  have "phase_base u = phase_base s" by (rule phase_base_cong) (simp_all add: o, simp_all add: u_def s0_def g)
  then have "phase_base u" using wf by (simp add: wlan_wf_def)
  moreover have "medium_wf u" if "fsm u = BACKOFF" using that wf gm by (auto simp: wlan_wf_def medium_wf_def u_def s0_def)
  moreover have "handleWithFSM w (LowerMsg f) s = FSMA_Switch (FSM_MAXT w) w (LowerMsg f) True u"
    using r(1) by (simp add: handleWithFSM_def updR_def whenR_def s0_def u_def)
  ultimately show ?thesis using r(2) by (intro that [of u]) (simp_all add: u_def s0_def)
qed

lemma lower_receive:
  assumes core: "core_wf u" and ph: "phase_base u" and f: "on_air f" and st: "fsm u \<in> {MAC_IDLE, DEFER, WAITDIFS}"
  obtains v where "fire True (transitions w (LowerMsg f) u) u = Inr (True, v)" and "entering (LowerMsg f) v" and "fsm v = RECEIVE"
    and "transmissionQueue v = transmissionQueue u" and "retryCounter v = retryCounter u" and "wout v = wout u" and "fixFSM v = fixFSM u" and "myAddress v = myAddress u"
proof (cases "fsm u = WAITDIFS")
  case True
  let ?v = "u\<lparr>wtimers := (wtimers u)(endDIFS := None), fsm := RECEIVE\<rparr>"
  have "fire True (transitions w (LowerMsg f) u) u = Inr (True, ?v)"
    using True by (simp add: transitions_def state_WAITDIFS_def isMediumStateChange_def cancelW_def)
  moreover have "entering (LowerMsg f) ?v" using True ph core f by (simp add: entering_def phase_base_def only_def)
  ultimately show ?thesis by (rule that) simp_all
next
  case False
  then have "fire True (transitions w (LowerMsg f) u) u = Inr (True, u\<lparr>fsm := RECEIVE\<rparr>)"
    using st by (auto simp: transitions_def state_IDLE_def state_DEFER_def isMediumStateChange_def)
  moreover have "entering (LowerMsg f) (u\<lparr>fsm := RECEIVE\<rparr>)" using False st ph core f by (auto simp: entering_def phase_base_def)
  ultimately show ?thesis by (rule that) simp_all
qed

lemma lower_ack:
  assumes core: "core_wf u" and ph: "phase_base u" and st: "fsm u = WAITACK" and f: "isForUs (Some f) u" "frameType f = ST_ACK"
  obtains v where "fire True (transitions w (LowerMsg f) u) u = Inr (True, v\<lparr>fsm := MAC_IDLE\<rparr>)" and "idle_ready v" and "only None v"
    and "length (transmissionQueue v) = length (transmissionQueue u) - 1" and "wout v = wout u @ (if queueModule u then [RequestPacket] else [])"
proof -
  have q: "transmissionQueue u \<noteq> []" and tu: "only (Some endTimeout) u" using ph st by (simp_all add: phase_base_def unicast_def)
  define c0 where "c0 = (if retryCounter u = 0 then u\<lparr>wstats := (wstats u)\<lparr>numSentWithoutRetry := numSentWithoutRetry (wstats u) + 1\<rparr>\<rparr> else u)"
  define c where "c = c0\<lparr>wstats := (wstats c0)\<lparr>numSent := numSent (wstats c0) + 1\<rparr>, wtimers := (wtimers c0)(endTimeout := None)\<rparr>"
  have c: "core_wf c" "transmissionQueue c = transmissionQueue u" "wout c = wout u" "queueModule c = queueModule u" "only None c"
    using core tu by (simp_all add: c_def c0_def only_def)
  obtain x where x: "finishCurrentTransmission c = Inr x" "idle_ready x" "only None x = only None c"
    "length (transmissionQueue x) = length (transmissionQueue c) - 1" "wout x = wout c @ (if queueModule c then [RequestPacket] else [])"
    by (rule finish_ok [OF c(1)]) (use c q in auto)
  have "doR [whenR (\<lambda>s. retryCounter s = 0) (countW (\<lambda>c. c\<lparr>numSentWithoutRetry := numSentWithoutRetry c + 1\<rparr>)),
      countW (\<lambda>c. c\<lparr>numSent := numSent c + 1\<rparr>), cancelW endTimeout, finishCurrentTransmission] u = Inr x"
    using x(1) by (cases "retryCounter u = 0") (simp_all add: whenR_def countW_def cancelW_def c_def c0_def)
  then have "fire True (transitions w (LowerMsg f) u) u = Inr (True, x\<lparr>fsm := MAC_IDLE\<rparr>)"
    using f st by (simp add: transitions_def state_WAITACK_def frameTypeIs_def)
  then show ?thesis using x c by (intro that [of x]) simp_all
qed

lemma lower_ok:
  assumes wf: "wlan_wf s" and f: "on_air f" and n: "6 \<le> FSM_MAXT w" and t: "\<And>t a. wtimers s t = Some a \<Longrightarrow> now w \<le> a"
  shows "succR wlan_wf (handleWithFSM w (LowerMsg f) s)"
proof -
  obtain u where start: "handleWithFSM w (LowerMsg f) s = FSMA_Switch (FSM_MAXT w) w (LowerMsg f) True u"
    and u: "core_wf u" "phase_base u" "fsm u = BACKOFF \<longrightarrow> medium_wf u" by (rule lower_start [OF wf f t]) blast
  have moved: ?thesis if "fire True (transitions w (LowerMsg f) u) u = Inr (True, v)" "entering (LowerMsg f) v" for v
    unfolding start by (rule switch_event [OF that(1) _ n]) (use that(2) in simp)
  have stay: ?thesis if "fire True (transitions w (LowerMsg f) u) u = Inr (False, u)" "medium_wf u"
    unfolding start by (rule switch_event [OF that(1) _ n]) (use u that(2) in \<open>simp add: wlan_wf_def\<close>)
  note run = transitions_def isMediumStateChange_def medium_wf_def frameTypeIs_def
  show ?thesis
  proof (cases "fsm u")
    case BACKOFF
    then have "fire True (transitions w (LowerMsg f) u) u = Inr (False, u)" by (simp add: run state_BACKOFF_def)
    then show ?thesis using stay u(3) BACKOFF by simp
  next
    case WAITACK
    show ?thesis
    proof (cases "isForUs (Some f) u \<and> frameType f = ST_ACK")
      case True
      then obtain v where "fire True (transitions w (LowerMsg f) u) u = Inr (True, v\<lparr>fsm := MAC_IDLE\<rparr>)" "idle_ready v" "only None v"
        using lower_ack [OF u(1,2) WAITACK] by blast
      then show ?thesis by (intro moved [of "v\<lparr>fsm := MAC_IDLE\<rparr>"]) (simp_all add: entering_def idle_ready_def)
    next
      case False
      then have "fire True (transitions w (LowerMsg f) u) u = Inr (False, u)" using WAITACK by (auto simp: run state_WAITACK_def)
      then show ?thesis using stay WAITACK by (simp add: medium_wf_def)
    qed
  next
    case WAITCTS
    show ?thesis
    proof (cases "isForUs (Some f) u \<and> frameType f = ST_CTS")
      case True
      let ?v = "u\<lparr>wtimers := (wtimers u)(endTimeout := None), fsm := WAITSIFS\<rparr>"
      have "unicast u" "only (Some endTimeout) u" using u(2) WAITCTS by (simp_all add: phase_base_def)
      then have "entering (LowerMsg f) ?v" using True u(1) f by (simp add: entering_def answered_def only_def unicast_def getCurrentTransmission_def)
      moreover have "fire True (transitions w (LowerMsg f) u) u = Inr (True, ?v)" using True WAITCTS by (simp add: run state_WAITCTS_def cancelW_def)
      ultimately show ?thesis by (rule moved [rotated])
    next
      case False
      then have "fire True (transitions w (LowerMsg f) u) u = Inr (False, u)" using WAITCTS by (auto simp: run state_WAITCTS_def)
      then show ?thesis using stay WAITCTS by (simp add: medium_wf_def)
    qed
  next
    case WAITBROADCAST
    then have "fire True (transitions w (LowerMsg f) u) u = Inr (False, u)" by (simp add: run state_WAITBROADCAST_def)
    then show ?thesis using stay WAITBROADCAST by (simp add: medium_wf_def)
  next
    case WAITSIFS
    then have "fire True (transitions w (LowerMsg f) u) u = Inr (False, u)" by (simp add: run state_WAITSIFS_def)
    then show ?thesis using stay WAITSIFS by (simp add: medium_wf_def)
  next
    case RECEIVE
    then show ?thesis using u(2) by (simp add: phase_base_def)
  qed (use lower_receive [OF u(1,2) f] moved in \<open>metis insertCI\<close>)+
qed

lemma handle_upper:
  "handleWithFSM w (UpperMsg g) q = whenR (\<lambda>s. fsm s = MAC_IDLE) (FSMA_Switch (FSM_MAXT w) w (UpperMsg g) True) (q\<lparr>noFrame := False\<rparr>)"
proof (cases "noFrame q")
  case False
  then have e: "q\<lparr>noFrame := False\<rparr> = q" by simp
  show ?thesis unfolding e using False by (simp add: handleWithFSM_def updR_def whenR_def)
qed (simp add: handleWithFSM_def updR_def whenR_def)

lemma upper_ok:
  assumes wf: "wlan_wf s" and f: "from_above f" "byteLength f \<le> fragmentationThreshold" "\<not> isUnspecified (receiverAddress f)" and n: "6 \<le> FSM_MAXT w"
  shows "succR wlan_wf (wlan_handleUpperMsg w f s)"
proof (cases "maxQueueSize s \<noteq> 0 \<and> int (length (transmissionQueue s)) = maxQueueSize s")
  case True
  then show ?thesis using wf by (simp add: wlan_handleUpperMsg_def whenR_def)
next
  case False
  define g where "g = f\<lparr>transmitterAddress := myAddress s, frameSequence := sequenceNumber s\<rparr>"
  define u where "u = s\<lparr>sequenceNumber := (sequenceNumber s + 1) mod 4096, transmissionQueue := transmissionQueue s @ [g], noFrame := False\<rparr>"
  have g: "from_above g" using f(1) by (simp add: g_def from_above_def typed_def isDataOrMgmtFrame_def)
  have core: "core_wf u"
    using wf g core_wf_queue [of "s\<lparr>sequenceNumber := (sequenceNumber s + 1) mod 4096\<rparr>" "transmissionQueue s @ [g]"]
    by (auto simp: u_def wlan_wf_def core_wf_head)
  have d: "isDataOrMgmtFrame f" using f(1) by (simp add: from_above_def)
  have run: "wlan_handleUpperMsg w f s = whenR (\<lambda>s. fsm s = MAC_IDLE) (FSMA_Switch (FSM_MAXT w) w (UpperMsg g) True) u"
    using False f d by (simp add: wlan_handleUpperMsg_def whenR_def checkR_def handle_upper Let_def u_def g_def)
  show ?thesis
  proof (cases "fsm s = MAC_IDLE")
    case True
    let ?v = "u\<lparr>backoffPeriod := -1, fsm := DEFER\<rparr>"
    have i: "backoffPeriod s = -1 \<or> backoffPeriod s = 0" "only None s" using wf True by (auto simp: wlan_wf_def core_wf_def phase_base_def)
    have "fire True (transitions w (UpperMsg g) u) u = Inr (True, ?v)"
      using True i(1) by (auto simp: transitions_def u_def state_IDLE_def checkR_def updR_def isInvalidBackoffPeriod_def invalidateBackoffPeriod_def)
    moreover have "entering (UpperMsg g) ?v" using core_wf_backoff [OF core, of "-1"] i(2) by (simp add: entering_def u_def)
    ultimately have "succR wlan_wf (FSMA_Switch (FSM_MAXT w) w (UpperMsg g) True u)" by (intro switch_event [OF _ _ n, of _ _ u True ?v]) simp_all
    then show ?thesis using True by (simp add: run whenR_def u_def)
  next
    case busy: False
    have c: "unicast s \<Longrightarrow> unicast u" "isBroadcastFrame (getCurrentTransmission s) \<Longrightarrow> isBroadcastFrame (getCurrentTransmission u)"
      "\<And>y. answered y s \<Longrightarrow> answered y u"
      by (auto simp: u_def unicast_def getCurrentTransmission_def isBroadcastFrame_def answered_def split: list.splits option.splits)
    have "phase_base s" "medium_wf s" using wf by (simp_all add: wlan_wf_def)
    then have "phase_base u" using busy c by (cases "fsm s") (simp_all add: phase_base_def, simp_all add: u_def)
    moreover have "medium_wf u" using \<open>medium_wf s\<close> by (cases "fsm s") (simp_all add: medium_wf_def u_def isMediumFree_def)
    ultimately show ?thesis using core busy by (simp add: run whenR_def u_def wlan_wf_def)
  qed
qed

subsection \<open>All events\<close>

lemma handle_self: "handleWithFSM w (SelfMsg t) q = FSMA_Switch (FSM_MAXT w) w (SelfMsg t) True q"
  by (simp add: handleWithFSM_def updR_def whenR_def)

lemma armed_phase:
  assumes "phase_base s"
  shows "wtimers s endSIFS \<noteq> None \<Longrightarrow> fsm s = WAITSIFS" "wtimers s endDIFS \<noteq> None \<Longrightarrow> fsm s = WAITDIFS"
    "wtimers s endBackoff \<noteq> None \<Longrightarrow> fsm s = BACKOFF" "wtimers s endTimeout \<noteq> None \<Longrightarrow> fsm s \<in> {WAITACK, WAITBROADCAST, WAITCTS}"
  using assms by (cases "fsm s"; simp add: phase_base_def only_def)+

lemma protocol_timer_ok:
  assumes wf: "wlan_wf s" and n: "6 \<le> FSM_MAXT w" and t: "t \<in> {endSIFS, endDIFS, endBackoff, endTimeout}" "wtimers s t \<noteq> None"
  shows "succR wlan_wf (FSMA_Switch (FSM_MAXT w) w (SelfMsg t) True (s\<lparr>wtimers := (wtimers s)(t := None)\<rparr>))"
proof -
  let ?u = "s\<lparr>wtimers := (wtimers s)(t := None)\<rparr>"
  have s: "core_wf s" "phase_base s" "medium_wf s" using wf by (simp_all add: wlan_wf_def)
  have core: "core_wf ?u" using s(1) t(1) by auto
  have c: "unicast ?u = unicast s" "getCurrentTransmission ?u = getCurrentTransmission s" "answered y ?u = answered y s" for y
    by (simp_all add: unicast_def getCurrentTransmission_def answered_def split: option.splits)
  note ph = s(2) [unfolded phase_base_def] and ap = armed_phase [OF s(2)]
  have "\<exists>v. fire True (transitions w (SelfMsg t) ?u) ?u = Inr (True, v) \<and> entering (SelfMsg t) v"
  proof -
    consider "t = endSIFS" | "t = endDIFS" | "t = endBackoff" | "t = endTimeout" using t(1) by blast
    then show ?thesis
    proof cases
      case 1
      then have f: "fsm ?u = WAITSIFS" using ap(1) t(2) by simp
      have "only None (?u\<lparr>sifsFrame := None\<rparr>)" using 1 f ph by (simp add: only_def)
      moreover have "answered (sifsFrame ?u) ?u" using f ph by (simp add: c)
      ultimately show ?thesis using fired_endSIFS [OF core _ f, of w] 1 by metis
    next
      case 2
      then have f: "fsm ?u = WAITDIFS" using ap(2) t(2) by simp
      then have m: "radioState ?u = IDLE" "wtimers ?u endReserve = None \<or> wtimers ?u mediumStateChange \<noteq> None"
        using s(3) 2 by (simp_all add: medium_wf_def isMediumFree_def)
      have "only None ?u" "transmissionQueue ?u \<noteq> [] \<or> backoff ?u" using 2 f ph by (simp_all add: only_def)
      then show ?thesis using fired_endDIFS [OF core _ f _ m, of w] 2 by metis
    next
      case 3
      then have f: "fsm ?u = BACKOFF" using ap(3) t(2) by simp
      then have "only None ?u" using 3 ph by (simp add: only_def)
      then show ?thesis using fired_endBackoff [OF core _ f, of w] 3 by metis
    next
      case 4
      then have f: "fsm ?u \<in> {WAITACK, WAITBROADCAST, WAITCTS}" using ap(4) t(2) by simp
      then have "transmissionQueue ?u \<noteq> []" "only None ?u" using 4 ph by (auto simp: unicast_def isBroadcastFrame_def getCurrentTransmission_def only_def)
      then show ?thesis using fired_endTimeout [OF core _ f, of w] 4 by metis
    qed
  qed
  then obtain v where "fire True (transitions w (SelfMsg t) ?u) ?u = Inr (True, v)" "entering (SelfMsg t) v" by blast
  then show ?thesis by (intro switch_event [OF _ _ n, of _ _ ?u True v]) simp_all
qed

lemma reservation_last:
  assumes "core_wf s" and "wlan_env_ok w (TimerFired endReserve) s"
  shows "wtimers s mediumStateChange = None"
proof (rule ccontr)
  have e: "wtimers s endReserve = Some (now w)" "\<And>x a. wtimers s x = Some a \<Longrightarrow> now w \<le> a" using assms(2) by (simp_all add: wlan_env_ok_def)
  assume "wtimers s mediumStateChange \<noteq> None"
  then obtain a where "wtimers s mediumStateChange = Some a" "a < now w" using assms(1) e(1) by (auto simp: core_wf_def)
  then show False using e(2) by force
qed

lemma medium_timer_ok:
  assumes wf: "wlan_wf s" and env: "wlan_env_ok w (TimerFired t) s" and t: "t \<in> {endReserve, mediumStateChange}"
  shows "succR wlan_wf (wlan_handleMessage w (TimerFired t) s)"
proof -
  have s: "core_wf s" "phase_base s" "medium_wf s" using wf by (simp_all add: wlan_wf_def)
  have e: "6 \<le> FSM_MAXT w" "wtimers s t = Some (now w)" "\<And>x a. wtimers s x = Some a \<Longrightarrow> now w \<le> a" "backoffSent s \<le> now w"
    using env by (simp_all add: wlan_env_ok_def)
  define u where "u = s\<lparr>wtimers := (wtimers s)(t := None), nav := (if t = endReserve then False else nav s)\<rparr>"
  have m: "t = endReserve \<Longrightarrow> wtimers s mediumStateChange = None" using reservation_last [OF s(1)] env by simp
  have core: "core_wf u" using s(1) m t e(2) by (auto simp: core_wf_def limits_wf_def u_def)
  have "phase_base u = phase_base s" by (rule phase_base_cong) (use t in \<open>auto simp: u_def only_def\<close>)
  then have ph: "phase_base u" using s(2) by simp
  have run: "wlan_handleMessage w (TimerFired t) s = FSMA_Switch (FSM_MAXT w) w (SelfMsg t) True u"
    by (simp add: wlan_handleSelfMsg_def updR_def handle_self u_def)
  have b: "fsm u = BACKOFF \<Longrightarrow> backoffSent u \<le> now w \<and> now w \<le> backoffSent u + backoffPeriod u"
    using s(2) e(3) [of endBackoff] e(4) by (auto simp: u_def phase_base_def)
  show ?thesis
  proof (cases "isMediumStateChange (SelfMsg t) u")
    case True
    then show ?thesis unfolding run using t by (intro medium_event [OF core ph _ e(1)] b) auto
  next
    case False
    then have r: "t = endReserve" "radioState u \<noteq> IDLE" using t by (auto simp: isMediumStateChange_def)
    have "fire True (transitions w (SelfMsg t) u) u = Inr (False, u)"
      using False r(1) by (cases "fsm u") (simp_all add: transitions_def state_IDLE_def state_DEFER_def state_WAITDIFS_def state_BACKOFF_def state_WAITACK_def
          state_WAITBROADCAST_def state_WAITCTS_def state_WAITSIFS_def state_RECEIVE_def)
    moreover have "medium_wf u" using s(3) r by (cases "fsm s") (simp_all add: medium_wf_def u_def isMediumFree_def)
    ultimately show ?thesis unfolding run using core ph by (intro switch_event [OF _ _ e(1), of _ _ u False u]) (simp_all add: wlan_wf_def)
  qed
qed

lemma radio_ok:
  assumes wf: "wlan_wf s" and env: "wlan_env_ok w (RadioStateChanged r) s"
  shows "succR wlan_wf (wlan_handleMessage w (RadioStateChanged r) s)"
proof -
  let ?u = "s\<lparr>radioState := r\<rparr>"
  have s: "core_wf ?u" "phase_base s" using wf by (simp_all add: wlan_wf_def)
  have "phase_base ?u = phase_base s" by (rule phase_base_cong) simp_all
  moreover have "fsm ?u = BACKOFF \<Longrightarrow> backoffSent ?u \<le> now w \<and> now w \<le> backoffSent ?u + backoffPeriod ?u"
    using s(2) env by (auto simp: phase_base_def wlan_env_ok_def)
  ultimately have "succR wlan_wf (FSMA_Switch (FSM_MAXT w) w (SelfMsg mediumStateChange) True ?u)"
    using env s by (intro medium_event) (auto simp: isMediumStateChange_def wlan_env_ok_def)
  then show ?thesis by (simp add: wlan_receiveChangeNotification_def updR_def handle_self)
qed

lemma wlan_wf_out:
  assumes "wlan_wf s" and "\<And>f. x \<noteq> SendDown f"
  shows "wlan_wf (s\<lparr>wout := wout s @ [x]\<rparr>)"
proof -
  have "phase_base (s\<lparr>wout := wout s @ [x]\<rparr>) = phase_base s" by (rule phase_base_cong) simp_all
  moreover have "medium_wf (s\<lparr>wout := wout s @ [x]\<rparr>) = medium_wf s" by (cases "fsm s") (simp_all add: medium_wf_def isMediumFree_def)
  ultimately show ?thesis using assms core_wf_out [of s x] by (auto simp: wlan_wf_def)
qed

lemma wlan_wf_pending:
  assumes "wlan_wf s"
  shows "wlan_wf (s\<lparr>pendingRadioConfigMsg := x\<rparr>)"
proof -
  have "phase_base (s\<lparr>pendingRadioConfigMsg := x\<rparr>) = phase_base s" by (rule phase_base_cong) simp_all
  moreover have "medium_wf (s\<lparr>pendingRadioConfigMsg := x\<rparr>) = medium_wf s" by (cases "fsm s") (simp_all add: medium_wf_def isMediumFree_def)
  ultimately show ?thesis using assms by (simp add: wlan_wf_def)
qed

lemma command_ok:
  assumes "wlan_wf s" and "k = PHY_C_CONFIGURERADIO"
  shows "succR wlan_wf (wlan_handleMessage w (Command k c) s)"
  using assms wlan_wf_pending [OF assms(1)] wlan_wf_out [OF wlan_wf_pending [OF assms(1)], of "ConfigureRadio _"]
  by (simp add: wlan_handleCommand_def Let_def updR_def ifR_def outW_def)

lemma wlan_handleMessage_ok:
  assumes wf: "wlan_wf s" and env: "wlan_env_ok w e s"
  shows "succR wlan_wf (wlan_handleMessage w e s)"
proof (cases e)
  case (TimerFired t)
  show ?thesis
  proof (cases "t \<in> {endReserve, mediumStateChange}")
    case True
    then show ?thesis using medium_timer_ok wf env TimerFired by blast
  next
    case False
    then have t: "t \<in> {endSIFS, endDIFS, endBackoff, endTimeout}" "t \<noteq> endReserve" by (cases t; simp)+
    show ?thesis using protocol_timer_ok [OF wf _ t(1)] env TimerFired t(2) by (simp add: wlan_env_ok_def wlan_handleSelfMsg_def updR_def handle_self)
  qed
next
  case (FromUpper f)
  then show ?thesis using upper_ok [OF wf, of f w] env by (simp add: wlan_env_ok_def)
next
  case (FromLower f)
  let ?u = "s\<lparr>wout := wout s @ [FullPromiscuous f]\<rparr>" and ?f = "f\<lparr>frameControl := None\<rparr>"
  have u: "wlan_wf ?u" by (rule wlan_wf_out [OF wf]) simp
  have "on_air ?f" using env FromLower by (simp add: wlan_env_ok_def on_air_def typed_def isDataOrMgmtFrame_def)
  then have "succR wlan_wf (handleWithFSM w (LowerMsg ?f) ?u)" using env by (intro lower_ok [OF u]) (auto simp: wlan_env_ok_def)
  then show ?thesis using env FromLower by (simp add: wlan_handleLowerMsg_def outW_def checkR_def wlan_env_ok_def)
next
  case (Command k c)
  then show ?thesis using command_ok [OF wf] env by (simp add: wlan_env_ok_def)
next
  case (RadioStateChanged r)
  then show ?thesis using radio_ok [OF wf] env by simp
qed (use wf in simp)

end
