(* ===== verification/Wlan_Exchange.thy ===== *)
theory Wlan_Exchange
  imports Wlan_Reachable
begin

text \<open>
  The reachable states of the 802.11 card, the invariant they satisfy, and what one event does to a frame exchange: what the
  rounds of the state machine after an event leave alone, how a deferring station wakes up, how a reception ends, and how a
  data frame is received, acknowledged and taken off the sender's queue.
\<close>

section \<open>Reachable states\<close>

definition wlan_par_ok :: "WPar \<Rightarrow> bool" where
  "wlan_par_ok par \<longleftrightarrow> 0 < par_bitrate par \<and> default_to 7 (par_retryLimit par) \<le> 31 \<and>
     (default_to CW_MIN (par_cwMinData par) + 1) * 2 ^ nat (default_to 7 (par_retryLimit par) - 1) \<le> INT_MAX \<and>
     default_to 31 (par_cwMinBroadcast par) < INT_MAX"

definition wlan_init :: "'p WMac \<Rightarrow> bool" where
  "wlan_init s \<longleftrightarrow> (\<exists>par ctr ctr' junk. wlan_par_ok par \<and> wlan_initialize par ctr junk = Inr (s, ctr'))"

inductive wlan_step :: "'p WMac \<Rightarrow> 'p WMac \<Rightarrow> bool" where
  event: "wlan_env_ok w e s \<Longrightarrow> wlan_handleMessage w e s = Inr s' \<Longrightarrow> wlan_step s s'"

inductive_cases wlan_stepE: "wlan_step s s'"

lemma newWMac_wf:
  assumes "wlan_par_ok par" and "default_to 7 (par_retryLimit par) > 0" and "default_to CW_MIN (par_cwMinData par) \<ge> 0" and "default_to 31 (par_cwMinBroadcast par) \<ge> 0"
  shows "wlan_wf (newWMac par addr junk)"
  using assms by (simp add: wlan_par_ok_def wlan_wf_def core_wf_def limits_wf_def phase_base_def medium_wf_def only_def newWMac_def)

lemma wlan_wf_queueModule:
  assumes "wlan_wf s"
  shows "wlan_wf (s\<lparr>queueModule := b\<rparr>)"
proof -
  have "phase_base (s\<lparr>queueModule := b\<rparr>) = phase_base s" by (rule phase_base_cong) (simp_all add: only_def)
  moreover have "medium_wf (s\<lparr>queueModule := b\<rparr>) = medium_wf s" by (cases "fsm s") (simp_all add: medium_wf_def isMediumFree_def)
  moreover have "core_wf (s\<lparr>queueModule := b\<rparr>) = core_wf s" by (simp add: core_wf_def limits_wf_def)
  ultimately show ?thesis using assms by (simp add: wlan_wf_def)
qed

lemma wlan_init_wf: "wlan_init s \<Longrightarrow> wlan_wf s"
proof -
  assume "wlan_init s"
  then obtain par ctr ctr' junk where p: "wlan_par_ok par" "wlan_initialize par ctr junk = Inr (s, ctr')" by (auto simp: wlan_init_def)
  then obtain addr where r: "doR [registerInterface (par_interface par), wlan_initializeQueueModule (par_hasQueueModule par)] (newWMac par addr junk) = Inr s"
    and a: "default_to 7 (par_retryLimit par) > 0" "default_to CW_MIN (par_cwMinData par) \<ge> 0" "default_to 31 (par_cwMinBroadcast par) \<ge> 0"
    by (auto simp: wlan_initialize_def assertR_Inr_iff bindR_Inr_iff split: if_splits)
  have n: "wlan_wf (newWMac par addr junk)" by (rule newWMac_wf [OF p(1) a])
  obtain v where v: "registerInterface (par_interface par) (newWMac par addr junk) = Inr v" "wlan_initializeQueueModule (par_hasQueueModule par) v = Inr s"
    using r by (auto simp: bindR_Inr_iff)
  have "wlan_wf v" using v(1) n wlan_wf_out [OF n] by (auto simp: registerInterface_def outW_def split: option.splits)
  moreover have "wlan_wf (v\<lparr>queueModule := True, wout := wout v @ [RequestPacket]\<rparr>)"
    using wlan_wf_out [OF wlan_wf_queueModule [OF calculation], of RequestPacket] by simp
  ultimately show ?thesis using v(2) wlan_wf_out [of "v\<lparr>queueModule := True, wout := wout v @ [RequestPacket]\<rparr>" RequestPacket]
    by (auto simp: wlan_initializeQueueModule_def outW_def updR_def split: if_splits)
qed

interpretation wlan: invariant_system wlan_init wlan_step wlan_wf
proof
  show "wlan_wf s" if "wlan_init s" for s using that by (rule wlan_init_wf)
next
  show "wlan_wf s'" if "wlan_wf s" "wlan_step s s'" for s s' :: "'a WMac"
    using that(2) by (rule wlan_stepE) (use wlan_handleMessage_ok [OF that(1)] in fastforce)
qed

section \<open>What rounds without an event leave alone\<close>

definition quiet :: "'p WMac \<Rightarrow> 'p WMac \<Rightarrow> bool" where
  "quiet s s' \<longleftrightarrow> retryCounter s' = retryCounter s \<and> transmissionQueue s' = transmissionQueue s \<and> radioState s' = radioState s \<and>
     wtimers s' endReserve = wtimers s endReserve \<and> myAddress s' = myAddress s \<and> (\<exists>cs. wout s' = wout s @ map ConfigureRadio cs)"

lemma quiet_refl [simp]: "quiet s s"
  by (auto simp: quiet_def intro: exI [of _ "[]"])

lemma quiet_trans: "quiet s t \<Longrightarrow> quiet t u \<Longrightarrow> quiet s u"
  by (auto simp: quiet_def) (metis map_append append_assoc)

lemma quiet_upd [simp]:
  "quiet s (s\<lparr>fsm := x\<rparr>)" "quiet s (s\<lparr>backoff := b\<rparr>)" "quiet s (s\<lparr>sifsFrame := c, wtimers := g\<rparr>) = (g endReserve = wtimers s endReserve)"
  "quiet s (s\<lparr>wtimers := g\<rparr>) = (g endReserve = wtimers s endReserve)" "quiet s (s\<lparr>wtimers := g, backoffSent := r\<rparr>) = (g endReserve = wtimers s endReserve)"
  "quiet s (s\<lparr>backoffPeriod := r\<rparr>)"
  by (auto simp: quiet_def intro: exI [of _ "[]"])

lemma scheduleW_quiet: "scheduleW t x a s = Inr v \<Longrightarrow> x \<noteq> endReserve \<Longrightarrow> quiet s v \<and> fsm v = fsm s"
  by (auto simp: scheduleW_def split: if_splits)

lemma enter_quiet:
  assumes "enter w msg s = Inr v"
  shows "quiet s v \<and> fsm v = fsm s"
proof -
  have config: "quiet s v \<and> fsm v = fsm s" if "sendDownPendingRadioConfigMsg s = Inr v"
    using that by (auto simp: sendDownPendingRadioConfigMsg_def outW_def updR_def quiet_def split: option.splits intro: exI [of _ "[]"] exI [of _ "[c]" for c])
  show ?thesis
  proof (cases "fsm s")
    case WAITDIFS
    then show ?thesis using assms by (auto simp: enter_def scheduleDIFSPeriod_def ifR_def split: if_splits dest: scheduleW_quiet)
  next
    case BACKOFF
    then show ?thesis using assms by (auto simp: enter_def scheduleBackoffPeriod_def updR_def scheduleW_def split: if_splits)
  next
    case WAITSIFS
    then show ?thesis using assms by (auto simp: enter_def scheduleSIFSPeriod_def letR_def updR_def bindR_Inr_iff scheduleW_def split: if_splits)
  next
    case WAITACK
    then show ?thesis using assms by (auto simp: enter_def scheduleDataTimeoutPeriod_def bindR_Inr_iff dest: scheduleW_quiet)
  next
    case WAITBROADCAST
    then show ?thesis using assms by (auto simp: enter_def scheduleBroadcastTimeoutPeriod_def bindR_Inr_iff dest: scheduleW_quiet)
  next
    case WAITCTS
    then show ?thesis using assms by (auto simp: enter_def scheduleCTSTimeoutPeriod_def bindR_Inr_iff dest: scheduleW_quiet)
  qed (use assms config in \<open>simp_all add: enter_def\<close>)
qed

lemma fire_quiet:
  assumes "fire False (transitions w msg s) s = Inr (b, u)" and "fsm s \<noteq> RECEIVE"
  shows "quiet s u \<and> fsm u \<noteq> RECEIVE"
proof (cases "fsm s")
  case MAC_IDLE
  then show ?thesis using assms
    by (auto simp: transitions_def state_IDLE_def checkR_def updR_def invalidateBackoffPeriod_def quiet_def split: if_splits)
next
  case DEFER
  then show ?thesis using assms by (auto simp: transitions_def state_DEFER_def split: if_splits)
next
  case WAITDIFS
  then show ?thesis using assms by (auto simp: transitions_def state_WAITDIFS_def updR_def cancelW_def quiet_def split: if_splits)
qed (use assms in \<open>auto simp: transitions_def state_BACKOFF_def state_WAITACK_def state_WAITBROADCAST_def state_WAITCTS_def state_WAITSIFS_def split: if_splits\<close>)

lemma switch_quiet:
  "FSMA_Switch n w msg False s = Inr s' \<Longrightarrow> fsm s \<noteq> RECEIVE \<Longrightarrow> quiet s s' \<and> fsm s' \<noteq> RECEIVE"
proof (induction n arbitrary: s)
  case (Suc n)
  obtain v b u where v: "enter w msg s = Inr v" "fire False (transitions w msg v) v = Inr (b, u)" "if b then FSMA_Switch n w msg False u = Inr s' else u = s'"
    using Suc.prems(1) by (auto simp: FSMA_Switch.simps bindR_Inr_iff split: if_splits)
  have q: "quiet s v" "fsm v = fsm s" using enter_quiet [OF v(1)] by simp_all
  have u: "quiet v u" "fsm u \<noteq> RECEIVE" using fire_quiet [OF v(2)] q(2) Suc.prems(2) by simp_all
  show ?case
  proof (cases b)
    case True
    then have "quiet u s'" "fsm s' \<noteq> RECEIVE" using Suc.IH [of u] v(3) u by simp_all
    then show ?thesis using quiet_trans [OF quiet_trans [OF q(1) u(1)]] by simp
  next
    case False
    then show ?thesis using v(3) u quiet_trans [OF q(1) u(1)] by simp
  qed
qed simp

lemma switch_quiet_event:
  assumes "fire True (transitions w msg s) s = Inr (True, u)" and "fsm u \<noteq> RECEIVE" and "FSMA_Switch n w msg True s = Inr s'"
  shows "quiet u s'"
  using assms switch_quiet [of _ w msg u s'] by (cases n) (auto simp: FSMA_Switch.simps)

lemma waitdifs_free:
  assumes e: "entering msg s" and f: "fsm s = WAITDIFS" and m: "isMediumFree s"
  shows "\<exists>a. FSMA_Switch (Suc n) w msg False s = Inr (s\<lparr>wtimers := (wtimers s)(endDIFS \<mapsto> a)\<rparr>)"
proof -
  define a where "a = now w + (if lastReceiveFailed s then getEIFS else getDIFS)"
  let ?u = "s\<lparr>wtimers := (wtimers s)(endDIFS \<mapsto> a)\<rparr>"
  have "enter w msg s = Inr ?u"
    using assms by (auto simp: enter_def scheduleDIFSPeriod_def ifR_def scheduleW_def a_def only_D entering_def wlan_times)
  moreover have "fire False (transitions w msg ?u) ?u = Inr (False, ?u)"
    using f m by (auto simp: transitions_def state_WAITDIFS_def isMediumFree_def)
  ultimately show ?thesis by (auto simp: FSMA_Switch.simps)
qed

lemma defer_wakes:
  assumes core: "core_wf u" and ph: "phase_base u" and f: "fsm u = DEFER" and m: "isMediumStateChange msg u" "isMediumFree u" and n: "6 \<le> n"
  shows "\<exists>s'. FSMA_Switch n w msg True u = Inr s' \<and> fsm s' = WAITDIFS \<and> wtimers s' endDIFS \<noteq> None"
proof -
  obtain k where k: "n = Suc (Suc k)" using n by (auto simp: numeral_eq_Suc dest!: le_Suc_ex)
  have "fire True (transitions w msg u) u = Inr (True, u\<lparr>fsm := WAITDIFS\<rparr>)" using f m by (simp add: transitions_def state_DEFER_def)
  moreover have "entering msg (u\<lparr>fsm := WAITDIFS\<rparr>)" using core ph f by (simp add: entering_def phase_base_def)
  then obtain a where "FSMA_Switch (Suc k) w msg False (u\<lparr>fsm := WAITDIFS\<rparr>) = Inr (u\<lparr>fsm := WAITDIFS, wtimers := (wtimers u)(endDIFS \<mapsto> a)\<rparr>)"
    using waitdifs_free [of msg "u\<lparr>fsm := WAITDIFS\<rparr>" k w] m(2) by (auto simp: isMediumFree_def)
  ultimately show ?thesis unfolding k by (subst FSMA_Switch.simps) simp
qed

lemma waitsifs_enter:
  assumes "entering msg s" and "fsm s = WAITSIFS" and "msgFrame msg = Some g"
  shows "FSMA_Switch (Suc n) w msg False s = Inr (s\<lparr>sifsFrame := Some g, wtimers := (wtimers s)(endSIFS \<mapsto> now w + getSIFS)\<rparr>)"
proof -
  let ?u = "s\<lparr>sifsFrame := Some g, wtimers := (wtimers s)(endSIFS \<mapsto> now w + getSIFS)\<rparr>"
  have "enter w msg s = Inr ?u"
    using assms by (simp add: enter_def scheduleSIFSPeriod_def derefFrame_def letR_def updR_def scheduleW_def entering_def only_D wlan_times)
  moreover have "fire False (transitions w msg ?u) ?u = Inr (False, ?u)" using assms(2) by (simp add: transitions_def state_WAITSIFS_def)
  ultimately show ?thesis by (simp add: FSMA_Switch.simps)
qed

section \<open>Reception\<close>

lemma receptionOver_retry:
  assumes "core_wf s" and "transmissionQueue s \<noteq> []" and "receptionOver s = Inr v"
  shows "retryCounter v = (if fixFSM s then retryCounter s else 0)"
proof (cases "fixFSM s")
  case True
  then show ?thesis using assms by (auto simp: receptionOver_def ifR_def finishReception_def updR_def)
next
  case False
  obtain u where "resetStateVariables s = Inr u" "retryCounter u = 0" by (rule reset_ok [OF assms(1)]) blast
  then show ?thesis using False assms(3) by (simp add: receptionOver_def ifR_def)
qed

text \<open>A frame for another station ends in the idle state, from which the queue leads on.\<close>

lemma receive_other:
  assumes core: "core_wf s" and q: "transmissionQueue s \<noteq> []" and f: "fsm s = RECEIVE" and g: "receiverAddress g \<noteq> myAddress s"
  obtains v where "fire False (transitions w (LowerMsg g) s) s = Inr (True, v)" and "fsm v = MAC_IDLE"
    and "retryCounter v = (if fixFSM s then retryCounter s else 0)" and "length (transmissionQueue v) = length (transmissionQueue s)"
proof -
  have over: "\<exists>v. receptionOver u = Inr v \<and> retryCounter v = (if fixFSM s then retryCounter s else 0) \<and> length (transmissionQueue v) = length (transmissionQueue s)"
    if u: "core_wf u" "transmissionQueue u = transmissionQueue s" "fixFSM u = fixFSM s" "retryCounter u = retryCounter s" for u
  proof -
    obtain v where v: "receptionOver u = Inr v" "length (transmissionQueue v) = length (transmissionQueue u)" by (rule receptionOver_ok [OF u(1)]) blast
    then show ?thesis using receptionOver_retry [OF u(1) _ v(1)] q u by simp
  qed
  note run = transitions_def f state_RECEIVE_def Let_def sendUpMsg_def derefFrame_def letR_def outW_def countW_def isForUs_def g
  have out: "core_wf (s\<lparr>wout := wout s @ [SendUp g]\<rparr>)" "core_wf (s\<lparr>wout := wout s @ [Promiscuous g]\<rparr>)" using core core_wf_out by auto
  consider "msgKind g = COLLISION \<or> msgKind g = BITERROR" | "\<not> (msgKind g = COLLISION \<or> msgKind g = BITERROR)" "isDataOrMgmtFrame g" "isBroadcast (receiverAddress g)"
    | "\<not> (msgKind g = COLLISION \<or> msgKind g = BITERROR)" "isDataOrMgmtFrame g" "\<not> isBroadcast (receiverAddress g)"
    | "\<not> (msgKind g = COLLISION \<or> msgKind g = BITERROR)" "\<not> isDataOrMgmtFrame g" by blast
  then show ?thesis
  proof cases
    case 1
    then show ?thesis using over [of "s\<lparr>wstats := (wstats s)\<lparr>numCollision := numCollision (wstats s) + 1\<rparr>\<rparr>"] core by (auto simp: run intro!: that)
  next
    case 2
    then show ?thesis
      using over [of "s\<lparr>wout := wout s @ [SendUp g], wstats := (wstats s)\<lparr>numReceivedBroadcast := numReceivedBroadcast (wstats s) + 1\<rparr>\<rparr>"] out(1)
      by (auto simp: run isBroadcastFrame_def intro!: that)
  next
    case 3
    then show ?thesis using over [of "s\<lparr>wout := wout s @ [Promiscuous g]\<rparr>"] out(2) by (auto simp: run isBroadcastFrame_def intro!: that)
  next
    case 4
    then show ?thesis using over [of s] core by (auto simp: run isBroadcastFrame_def frameTypeIs_def intro!: that)
  qed
qed

text \<open>A frame from the radio that finds the card in a state in which it listens is handled from the state \<open>RECEIVE\<close> on.\<close>

lemma lower_listening:
  assumes wf: "wlan_wf s" and env: "wlan_env_ok w (FromLower f) s" and st: "fsm s \<in> {MAC_IDLE, DEFER, WAITDIFS}"
  obtains v k where "wlan_handleMessage w (FromLower f) s = FSMA_Switch (Suc k) w (LowerMsg (f\<lparr>frameControl := None\<rparr>)) False v"
    and "4 \<le> k" and "entering (LowerMsg (f\<lparr>frameControl := None\<rparr>)) v" and "fsm v = RECEIVE"
    and "transmissionQueue v = transmissionQueue s" and "retryCounter v = retryCounter s" and "wout v = wout s @ [FullPromiscuous f]"
    and "fixFSM v = fixFSM s" and "myAddress v = myAddress s"
proof -
  let ?s = "s\<lparr>wout := wout s @ [FullPromiscuous f]\<rparr>" and ?f = "f\<lparr>frameControl := None\<rparr>"
  have s: "wlan_wf ?s" by (rule wlan_wf_out [OF wf]) simp
  have f: "on_air ?f" using env by (simp add: wlan_env_ok_def on_air_def typed_def isDataOrMgmtFrame_def)
  obtain u where u: "handleWithFSM w (LowerMsg ?f) ?s = FSMA_Switch (FSM_MAXT w) w (LowerMsg ?f) True u" "core_wf u" "phase_base u" "fsm u = fsm ?s"
    "transmissionQueue u = transmissionQueue ?s" "retryCounter u = retryCounter ?s" "wout u = wout ?s" "myAddress u = myAddress ?s" "fixFSM u = fixFSM ?s"
    by (rule lower_start [OF s f, of w]) (use env in \<open>auto simp: wlan_env_ok_def\<close>)
  obtain v where v: "fire True (transitions w (LowerMsg ?f) u) u = Inr (True, v)" "entering (LowerMsg ?f) v" "fsm v = RECEIVE"
    "transmissionQueue v = transmissionQueue u" "retryCounter v = retryCounter u" "wout v = wout u" "fixFSM v = fixFSM u" "myAddress v = myAddress u"
    by (rule lower_receive [OF u(2,3) f, of w]) (use u st in auto)
  obtain k where k: "FSM_MAXT w = Suc (Suc k)" "4 \<le> k" using env by (auto simp: wlan_env_ok_def numeral_eq_Suc dest!: le_Suc_ex)
  have "wlan_handleMessage w (FromLower f) s = handleWithFSM w (LowerMsg ?f) ?s"
    using env by (simp add: wlan_handleLowerMsg_def outW_def checkR_def wlan_env_ok_def)
  also have "\<dots> = FSMA_Switch (Suc k) w (LowerMsg ?f) False v" unfolding u(1) k(1) using v(1) by (subst FSMA_Switch.simps(2)) simp
  finally show ?thesis by (rule that) (use k v u in simp_all)
qed

lemma switch_fired:
  assumes "entering msg v" and "fsm v = RECEIVE" and "fire False (transitions w msg v) v = Inr (True, x)" and "4 \<le> k"
  obtains s' where "FSMA_Switch (Suc k) w msg False v = Inr s'" and "FSMA_Switch k w msg False x = Inr s'" and "wlan_wf s'"
proof -
  obtain s' where s': "FSMA_Switch (Suc k) w msg False v = Inr s'" "wlan_wf s'" using settle [OF assms(1), of "Suc k" w] assms(4) by (auto simp: succR_iff)
  moreover have "FSMA_Switch (Suc k) w msg False v = FSMA_Switch k w msg False x" using assms(2,3) by (simp add: FSMA_Switch.simps enter_def)
  ultimately show ?thesis by (intro that) simp_all
qed

section \<open>Acknowledgements\<close>

lemma data_received:
  assumes wf: "wlan_wf s" and env: "wlan_env_ok w (FromLower f) s" and st: "fsm s \<in> {MAC_IDLE, DEFER, WAITDIFS}"
    and f: "receiverAddress f = myAddress s" "isDataOrMgmtFrame f" "\<not> isBroadcast (receiverAddress f)" "msgKind f \<noteq> COLLISION" "msgKind f \<noteq> BITERROR"
  obtains s' where "wlan_handleMessage w (FromLower f) s = Inr s'" and "wlan_wf s'" and "fsm s' = WAITSIFS" and "sifsFrame s' = Some (f\<lparr>frameControl := None\<rparr>)"
    and "wtimers s' endSIFS = Some (now w + getSIFS)" and "wout s' = wout s @ [FullPromiscuous f, SendUp (f\<lparr>frameControl := None\<rparr>)]"
proof -
  let ?f = "f\<lparr>frameControl := None\<rparr>"
  obtain v k where v: "wlan_handleMessage w (FromLower f) s = FSMA_Switch (Suc k) w (LowerMsg ?f) False v" "4 \<le> k" "entering (LowerMsg ?f) v" "fsm v = RECEIVE"
    "wout v = wout s @ [FullPromiscuous f]" "myAddress v = myAddress s" by (rule lower_listening [OF wf env st]) blast
  let ?x = "v\<lparr>wout := wout v @ [SendUp ?f], wstats := (wstats v)\<lparr>numReceived := numReceived (wstats v) + 1\<rparr>, fsm := WAITSIFS\<rparr>"
  have d: "isDataOrMgmtFrame ?f" using f(2) by (simp add: isDataOrMgmtFrame_def)
  have fire: "fire False (transitions w (LowerMsg ?f) v) v = Inr (True, ?x)"
    using v(4,6) f d by (simp add: transitions_def state_RECEIVE_def Let_def isBroadcastFrame_def isForUs_def sendUpMsg_def letR_def derefFrame_def outW_def countW_def)
  obtain s' where s': "FSMA_Switch (Suc k) w (LowerMsg ?f) False v = Inr s'" "FSMA_Switch k w (LowerMsg ?f) False ?x = Inr s'" "wlan_wf s'"
    by (rule switch_fired [OF v(3,4) fire v(2)])
  have "core_wf (v\<lparr>wout := wout v @ [SendUp ?f]\<rparr>)" using v(3) by (intro core_wf_out) (simp_all add: entering_def)
  then have "entering (LowerMsg ?f) ?x" using v(3,4) d f(3) by (simp add: entering_def answered_def)
  moreover obtain m where "k = Suc m" using v(2) by (cases k) auto
  ultimately have "s' = ?x\<lparr>sifsFrame := Some ?f, wtimers := (wtimers ?x)(endSIFS \<mapsto> now w + getSIFS)\<rparr>"
    using s'(2) waitsifs_enter [of "LowerMsg ?f" ?x ?f m w] by simp
  then show ?thesis using v(1,5) s'(1,3) by (intro that [of s']) simp_all
qed

lemma ack_sent:
  assumes wf: "wlan_wf s" and env: "wlan_env_ok w (TimerFired endSIFS) s" and f: "sifsFrame s = Some f" "isDataOrMgmtFrame f" "\<not> isBroadcast (receiverAddress f)"
  obtains s' a cs where "wlan_handleMessage w (TimerFired endSIFS) s = Inr s'" and "wlan_wf s'" and "wout s' = wout s @ SendDown a # map ConfigureRadio cs"
    and "frameType a = ST_ACK" and "receiverAddress a = transmitterAddress f" and "on_air a"
proof -
  let ?u = "s\<lparr>wtimers := (wtimers s)(endSIFS := None)\<rparr>"
  have st: "fsm s = WAITSIFS" and ph: "only (Some endSIFS) s" "answered (Some f) s"
    using wf env f(1) armed_phase(1) [of s] by (auto simp: wlan_wf_def wlan_env_ok_def phase_base_def)
  have core: "core_wf ?u" using wf by (simp add: wlan_wf_def)
  have air: "on_air f" using ph(2) by (simp add: answered_def)
  then have ty: "frameType f \<noteq> ST_RTS" "frameType f \<noteq> ST_CTS" using f(2) by (auto simp: on_air_def typed_def isDataOrMgmtFrame_def)
  obtain a c where a: "sendACKFrameOnEndSIFS ?u = Inr (?u\<lparr>sifsFrame := None, wstats := c, wout := wout ?u @ [SendDown a]\<rparr>)" "on_air a"
    "frameType a = ST_ACK" "receiverAddress a = transmitterAddress f" by (rule sendACK_ok [OF core _ air f(2,3)]) (use f(1) in auto)
  let ?v = "?u\<lparr>sifsFrame := None, wstats := c, wout := wout ?u @ [SendDown a]\<rparr>"
  have "core_wf (?u\<lparr>wout := wout ?u @ [SendDown a]\<rparr>)" using core a(2) by (intro core_wf_out) auto
  moreover have "?v = ?u\<lparr>wout := wout ?u @ [SendDown a]\<rparr>\<lparr>sifsFrame := None, wstats := c\<rparr>" by simp
  ultimately have v: "core_wf ?v" by (metis core_wf_upd(4,6))
  obtain x where x: "receptionOver ?v = Inr x" "idle_ready x" "only None x = only None ?v" "wout x = wout ?v" by (rule receptionOver_ok [OF v]) blast
  have fire: "fire True (transitions w (SelfMsg endSIFS) ?u) ?u = Inr (True, x\<lparr>fsm := MAC_IDLE\<rparr>)"
    using st f ty a(1) x(1) by (simp add: transitions_def state_WAITSIFS_def frameTypeIs_def)
  have run: "wlan_handleMessage w (TimerFired endSIFS) s = FSMA_Switch (FSM_MAXT w) w (SelfMsg endSIFS) True ?u"
    by (simp add: wlan_handleSelfMsg_def updR_def handle_self)
  obtain s' where s': "wlan_handleMessage w (TimerFired endSIFS) s = Inr s'" "wlan_wf s'" using wlan_handleMessage_ok [OF wf env] by (auto simp: succR_iff)
  have "quiet (x\<lparr>fsm := MAC_IDLE\<rparr>) s'" by (rule switch_quiet_event [OF fire]) (use s' run in simp_all)
  then obtain cs where "wout s' = wout x @ map ConfigureRadio cs" by (auto simp: quiet_def)
  then show ?thesis using s' x(4) a by (intro that [of s' a cs]) simp_all
qed

lemma ack_taken:
  assumes wf: "wlan_wf s" and env: "wlan_env_ok w (FromLower a) s" and st: "fsm s = WAITACK" and a: "frameType a = ST_ACK" "receiverAddress a = myAddress s"
  obtains s' cs where "wlan_handleMessage w (FromLower a) s = Inr s'" and "length (transmissionQueue s') = length (transmissionQueue s) - 1"
    and "wout s' = wout s @ FullPromiscuous a # (if queueModule s then [RequestPacket] else []) @ map ConfigureRadio cs"
proof -
  let ?s = "s\<lparr>wout := wout s @ [FullPromiscuous a]\<rparr>" and ?f = "a\<lparr>frameControl := None\<rparr>"
  have s: "wlan_wf ?s" by (rule wlan_wf_out [OF wf]) simp
  have f: "on_air ?f" using env by (simp add: wlan_env_ok_def on_air_def typed_def isDataOrMgmtFrame_def)
  obtain u where u: "handleWithFSM w (LowerMsg ?f) ?s = FSMA_Switch (FSM_MAXT w) w (LowerMsg ?f) True u" "core_wf u" "phase_base u" "fsm u = fsm ?s"
    "transmissionQueue u = transmissionQueue ?s" "queueModule u = queueModule ?s" "wout u = wout ?s" "myAddress u = myAddress ?s"
    by (rule lower_start [OF s f, of w]) (use env in \<open>auto simp: wlan_env_ok_def\<close>)
  obtain v where v: "fire True (transitions w (LowerMsg ?f) u) u = Inr (True, v\<lparr>fsm := MAC_IDLE\<rparr>)"
    "length (transmissionQueue v) = length (transmissionQueue u) - 1" "wout v = wout u @ (if queueModule u then [RequestPacket] else [])"
    by (rule lower_ack [OF u(2,3), of ?f w]) (use u st a in \<open>auto simp: isForUs_def\<close>)
  have run: "wlan_handleMessage w (FromLower a) s = FSMA_Switch (FSM_MAXT w) w (LowerMsg ?f) True u"
    using env u(1) by (simp add: wlan_handleLowerMsg_def outW_def checkR_def wlan_env_ok_def)
  obtain s' where s': "wlan_handleMessage w (FromLower a) s = Inr s'" using wlan_handleMessage_ok [OF wf env] by (auto simp: succR_iff)
  have q: "quiet (v\<lparr>fsm := MAC_IDLE\<rparr>) s'" by (rule switch_quiet_event [OF v(1)]) (use s' run in simp_all)
  then obtain cs where "wout s' = wout v @ map ConfigureRadio cs" by (auto simp: quiet_def)
  moreover have "transmissionQueue s' = transmissionQueue v" using q by (simp add: quiet_def)
  ultimately show ?thesis using s' v(2,3) u by (intro that [of s' cs]) simp_all
qed

end
