(* ===== verification/Wlan_Safety.thy ===== *)
theory Wlan_Safety
  imports Wlan_Exchange
begin

text \<open>
  The properties of the 802.11 card (\<open>Ieee80211Mac.cc\<close>): every event is handled to its end, the card never gets stuck,
  frames are acknowledged, and what happens to the retry counter. A run of two stations shows that the cases occur.
\<close>

section \<open>Safety and progress\<close>

text \<open>
  C7: Every event that can occur in a reachable state of the card is handled to its end: no assertion fails, no timer is
  scheduled twice or in the past, no cast fails, no null pointer is used, the backoff window does not overflow and the
  state machine settles within the kernel's bound. All frames handed to the radio satisfy the contract the card itself relies on for
  the frames it receives.
\<close>

theorem wlan_events_handled:
  assumes "wlan_init s0" and "wlan_step\<^sup>*\<^sup>* s0 s" and "wlan_env_ok w e s"
  shows "\<exists>s'. wlan_handleMessage w e s = Inr s' \<and> (\<forall>f. SendDown f \<in> set (wout s') \<longrightarrow> on_air f)"
  using wlan_handleMessage_ok [OF wlan.reachable_inv [OF assms(1,2)] assms(3)] by (auto simp: succR_iff wlan_wf_def core_wf_def)

text \<open>
  C8: The card never gets stuck with work to do. In every reachable state it is idle with an empty queue, or exactly one of the
  four protocol timers runs, or it defers to a busy medium; and it leaves that last state for the interframe space as soon as
  the medium becomes free, whether the radio becomes idle or the reservation ends.
\<close>

theorem wlan_never_stuck:
  assumes "wlan_init s0" and "wlan_step\<^sup>*\<^sup>* s0 s"
  shows "fsm s = MAC_IDLE \<and> transmissionQueue s = [] \<or>
    (\<exists>!t. t \<in> {endSIFS, endDIFS, endBackoff, endTimeout} \<and> wtimers s t \<noteq> None) \<or>
    fsm s = DEFER \<and> \<not> isMediumFree s \<and>
    (\<forall>w. (wtimers s endReserve = None \<and> wlan_env_ok w (RadioStateChanged IDLE) s \<longrightarrow>
        (\<exists>s'. wlan_handleMessage w (RadioStateChanged IDLE) s = Inr s' \<and> fsm s' = WAITDIFS \<and> wtimers s' endDIFS \<noteq> None)) \<and>
      (radioState s = IDLE \<and> wlan_env_ok w (TimerFired endReserve) s \<longrightarrow>
        (\<exists>s'. wlan_handleMessage w (TimerFired endReserve) s = Inr s' \<and> fsm s' = WAITDIFS \<and> wtimers s' endDIFS \<noteq> None)))"
proof -
  have wf: "core_wf s" "phase_base s" "medium_wf s" using wlan.reachable_inv [OF assms] by (simp_all add: wlan_wf_def)
  consider "fsm s = MAC_IDLE" | "fsm s = DEFER" | t where "t \<in> {endSIFS, endDIFS, endBackoff, endTimeout}" "only (Some t) s"
    using wf(2) by (cases "fsm s") (auto simp: phase_base_def)
  then show ?thesis
  proof cases
    case 2
    have radio: "\<exists>s'. wlan_handleMessage w (RadioStateChanged IDLE) s = Inr s' \<and> fsm s' = WAITDIFS \<and> wtimers s' endDIFS \<noteq> None"
      if "wtimers s endReserve = None" "wlan_env_ok w (RadioStateChanged IDLE) s" for w
    proof -
      let ?u = "s\<lparr>radioState := IDLE\<rparr>"
      have "phase_base ?u = phase_base s" by (rule phase_base_cong) simp_all
      then show ?thesis using that wf 2 defer_wakes [of ?u "SelfMsg mediumStateChange" "FSM_MAXT w" w]
        by (simp add: wlan_receiveChangeNotification_def updR_def handle_self isMediumStateChange_def isMediumFree_def wlan_env_ok_def)
    qed
    have reserve: "\<exists>s'. wlan_handleMessage w (TimerFired endReserve) s = Inr s' \<and> fsm s' = WAITDIFS \<and> wtimers s' endDIFS \<noteq> None"
      if "radioState s = IDLE" "wlan_env_ok w (TimerFired endReserve) s" for w
    proof -
      let ?u = "s\<lparr>wtimers := (wtimers s)(endReserve := None), nav := False\<rparr>"
      have "wtimers s mediumStateChange = None" by (rule reservation_last) (use that wf in simp_all)
      then have "core_wf ?u" using wf(1) by (simp add: core_wf_def limits_wf_def)
      moreover have "phase_base ?u = phase_base s" by (rule phase_base_cong) (simp_all add: only_def)
      ultimately show ?thesis using that wf 2 defer_wakes [of ?u "SelfMsg endReserve" "FSM_MAXT w" w]
        by (simp add: wlan_handleSelfMsg_def updR_def handle_self isMediumStateChange_def isMediumFree_def wlan_env_ok_def)
    qed
    show ?thesis using 2 wf(3) radio reserve by (simp add: medium_wf_def)
  next
    case (3 t)
    then have "\<exists>!t. t \<in> {endSIFS, endDIFS, endBackoff, endTimeout} \<and> wtimers s t \<noteq> None" by (auto simp: only_def)
    then show ?thesis by blast
  qed (use wf(2) in \<open>simp add: phase_base_def\<close>)
qed

section \<open>Transmissions and receptions\<close>

text \<open>
  C17: A unicast data or management frame that arrives undamaged at a listening station is handed to the layer above and
  acknowledged one short interframe space later, with an acknowledgement addressed to its sender; and that acknowledgement, when it
  arrives at the station that waits for it, ends the transmission: the frame leaves the queue and the next one is requested
  from the queue module, if there is one.
\<close>

theorem data_frame_acknowledged:
  assumes "wlan_init r0" and "wlan_step\<^sup>*\<^sup>* r0 r" and "fsm r \<in> {MAC_IDLE, DEFER, WAITDIFS}" and "wlan_env_ok w (FromLower f) r"
    and "receiverAddress f = myAddress r" and "isDataOrMgmtFrame f" and "\<not> isBroadcast (receiverAddress f)" and "msgKind f \<notin> {COLLISION, BITERROR}"
    and "wlan_init s0" and "wlan_step\<^sup>*\<^sup>* s0 s" and "fsm s = WAITACK" and "transmitterAddress f = myAddress s"
  shows "\<exists>r1. wlan_handleMessage w (FromLower f) r = Inr r1 \<and> wout r1 = wout r @ [FullPromiscuous f, SendUp (f\<lparr>frameControl := None\<rparr>)] \<and>
    wtimers r1 endSIFS = Some (now w + getSIFS) \<and>
    (\<forall>w'. wlan_env_ok w' (TimerFired endSIFS) r1 \<longrightarrow>
      (\<exists>r2 ack cs. wlan_handleMessage w' (TimerFired endSIFS) r1 = Inr r2 \<and> wout r2 = wout r1 @ SendDown ack # map ConfigureRadio cs \<and>
        (\<forall>w''. wlan_env_ok w'' (FromLower ack) s \<longrightarrow>
          (\<exists>s' cs. wlan_handleMessage w'' (FromLower ack) s = Inr s' \<and> length (transmissionQueue s') = length (transmissionQueue s) - 1 \<and>
            wout s' = wout s @ FullPromiscuous ack # (if queueModule s then [RequestPacket] else []) @ map ConfigureRadio cs))))"
proof -
  have wf: "wlan_wf r" "wlan_wf s" using wlan.reachable_inv assms by blast+
  let ?f = "f\<lparr>frameControl := None\<rparr>"
  obtain r1 where r1: "wlan_handleMessage w (FromLower f) r = Inr r1" "wlan_wf r1" "sifsFrame r1 = Some ?f"
    "wtimers r1 endSIFS = Some (now w + getSIFS)" "wout r1 = wout r @ [FullPromiscuous f, SendUp ?f]"
    by (rule data_received [OF wf(1) assms(4,3,5,6,7)]) (use assms(8) in auto)
  have f: "isDataOrMgmtFrame ?f" "\<not> isBroadcast (receiverAddress ?f)" using assms(6,7) by (simp_all add: isDataOrMgmtFrame_def)
  have "\<exists>r2 ack cs. wlan_handleMessage w' (TimerFired endSIFS) r1 = Inr r2 \<and> wout r2 = wout r1 @ SendDown ack # map ConfigureRadio cs \<and>
      (\<forall>w''. wlan_env_ok w'' (FromLower ack) s \<longrightarrow>
        (\<exists>s' cs. wlan_handleMessage w'' (FromLower ack) s = Inr s' \<and> length (transmissionQueue s') = length (transmissionQueue s) - 1 \<and>
          wout s' = wout s @ FullPromiscuous ack # (if queueModule s then [RequestPacket] else []) @ map ConfigureRadio cs))"
    if env: "wlan_env_ok w' (TimerFired endSIFS) r1" for w'
  proof -
    obtain r2 a cs where a: "wlan_handleMessage w' (TimerFired endSIFS) r1 = Inr r2" "wout r2 = wout r1 @ SendDown a # map ConfigureRadio cs"
      "frameType a = ST_ACK" "receiverAddress a = transmitterAddress ?f" by (rule ack_sent [OF r1(2) env r1(3) f]) blast
    have "\<exists>s' cs. wlan_handleMessage w'' (FromLower a) s = Inr s' \<and> length (transmissionQueue s') = length (transmissionQueue s) - 1 \<and>
        wout s' = wout s @ FullPromiscuous a # (if queueModule s then [RequestPacket] else []) @ map ConfigureRadio cs"
      if "wlan_env_ok w'' (FromLower a) s" for w''
      by (rule ack_taken [OF wf(2) that assms(11) a(3)]) (use a(4) assms(12) in auto)
    then show ?thesis using a(1,2) by blast
  qed
  then show ?thesis using r1(1,4,5) by blast
qed

text \<open>
  C19: A frame for another station that arrives while a frame waits for a retransmission makes the station forget how often
  it has tried, unless it is configured with \<open>fixFSM\<close>. So the number of transmissions of one frame is not bounded by
  the retry limit: without \<open>fixFSM\<close> every frame overheard between two attempts starts the count, and the contention window, anew.
\<close>

theorem overheard_frame_resets_retries:
  assumes "wlan_init s0" and "wlan_step\<^sup>*\<^sup>* s0 s" and "fsm s \<in> {DEFER, WAITDIFS}" and "transmissionQueue s \<noteq> []"
    and "wlan_env_ok w (FromLower f) s" and "receiverAddress f \<noteq> myAddress s"
  shows "\<exists>s'. wlan_handleMessage w (FromLower f) s = Inr s' \<and> length (transmissionQueue s') = length (transmissionQueue s) \<and>
    retryCounter s' = (if fixFSM s then retryCounter s else 0)"
proof -
  let ?m = "LowerMsg (f\<lparr>frameControl := None\<rparr>)"
  obtain v k where v: "wlan_handleMessage w (FromLower f) s = FSMA_Switch (Suc k) w ?m False v" "4 \<le> k" "entering ?m v" "fsm v = RECEIVE"
    "transmissionQueue v = transmissionQueue s" "retryCounter v = retryCounter s" "fixFSM v = fixFSM s" "myAddress v = myAddress s"
    by (rule lower_listening [OF wlan.reachable_inv [OF assms(1,2)] assms(5)]) (use assms(3) in auto)
  obtain x where x: "fire False (transitions w ?m v) v = Inr (True, x)" "fsm x = MAC_IDLE"
    "retryCounter x = (if fixFSM v then retryCounter v else 0)" "length (transmissionQueue x) = length (transmissionQueue v)"
    by (rule receive_other [of v "f\<lparr>frameControl := None\<rparr>" w]) (use v assms(4,6) in \<open>auto simp: entering_def\<close>)
  obtain s' where s': "FSMA_Switch (Suc k) w ?m False v = Inr s'" "FSMA_Switch k w ?m False x = Inr s'" by (rule switch_fired [OF v(3,4) x(1) v(2)])
  then have "quiet x s'" using switch_quiet [OF s'(2)] x(2) by simp
  then show ?thesis using s'(1) v x by (simp add: quiet_def)
qed

text \<open>
  C18: When the answer to a unicast frame does not arrive, the frame is tried again with the retry counter one higher, as long as
  the limit allows, and is otherwise dropped: the upper layers learn of the broken link, the counter is reset, and
  the next frame is requested from the queue module.
\<close>

theorem missing_answer_retried:
  assumes "wlan_init s0" and "wlan_step\<^sup>*\<^sup>* s0 s" and "fsm s \<in> {WAITACK, WAITCTS}" and "wlan_env_ok w (TimerFired endTimeout) s"
  shows "\<exists>s' cs. wlan_handleMessage w (TimerFired endTimeout) s = Inr s' \<and>
    (if retryCounter s < transmissionLimit s - 1
     then retryCounter s' = retryCounter s + 1 \<and> length (transmissionQueue s') = length (transmissionQueue s) \<and> wout s' = wout s @ map ConfigureRadio cs
     else retryCounter s' = 0 \<and> length (transmissionQueue s') = length (transmissionQueue s) - 1 \<and>
       wout s' = wout s @ LinkBreak (hd (transmissionQueue s)) # (if queueModule s then [RequestPacket] else []) @ map ConfigureRadio cs)"
proof -
  have wf: "wlan_wf s" by (rule wlan.reachable_inv [OF assms(1,2)])
  let ?u = "s\<lparr>wtimers := (wtimers s)(endTimeout := None)\<rparr>"
  have u: "core_wf ?u" "transmissionQueue ?u \<noteq> []" using wf assms(3) by (auto simp: wlan_wf_def phase_base_def unicast_def)
  have lim: "retryCounter s < transmissionLimit s" using wf by (simp add: wlan_wf_def core_wf_def)
  have run: "wlan_handleMessage w (TimerFired endTimeout) s = FSMA_Switch (FSM_MAXT w) w (SelfMsg endTimeout) True ?u"
    by (simp add: wlan_handleSelfMsg_def updR_def handle_self)
  obtain s' where s': "wlan_handleMessage w (TimerFired endTimeout) s = Inr s'" using wlan_handleMessage_ok [OF wf assms(4)] by (auto simp: succR_iff)
  have settle: "quiet (v\<lparr>fsm := x\<rparr>) s'" if "fire True (transitions w (SelfMsg endTimeout) ?u) ?u = Inr (True, v\<lparr>fsm := x\<rparr>)" "x \<noteq> RECEIVE" for v x
    by (rule switch_quiet_event [OF that(1)]) (use s' run that(2) in simp_all)
  note states = transitions_def state_WAITACK_def state_WAITCTS_def
  show ?thesis
  proof (cases "retryCounter s < transmissionLimit s - 1")
    case True
    obtain v where v: "retryCurrentTransmission ?u = Inr v" "length (transmissionQueue v) = length (transmissionQueue ?u)" "retryCounter v = retryCounter ?u + 1" "wout v = wout ?u"
      by (rule retry_ok [OF u]) (use True in auto)
    have "quiet (v\<lparr>fsm := DEFER\<rparr>) s'" by (rule settle) (use assms(3) True v(1) in \<open>auto simp: states\<close>)
    then show ?thesis using s' v True by (auto simp: quiet_def)
  next
    case False
    obtain v where v: "giveUpCurrentTransmission ?u = Inr v" "length (transmissionQueue v) = length (transmissionQueue ?u) - 1" "retryCounter v = 0"
      "wout v = wout ?u @ LinkBreak (hd (transmissionQueue ?u)) # (if queueModule ?u then [RequestPacket] else [])"
      by (rule giveUp_ok [OF u]) blast
    have "quiet (v\<lparr>fsm := MAC_IDLE\<rparr>) s'" by (rule settle) (use assms(3) False lim v(1) in \<open>auto simp: states\<close>)
    then show ?thesis using s' v False by (auto simp: quiet_def)
  qed
qed

section \<open>A run\<close>

text \<open>
  A station sends a frame, gets no acknowledgement and prepares to send it again. Times are in seconds.
\<close>

definition wpar0 :: WPar where
  "wpar0 = \<lparr>par_fixFSM = False, par_maxQueueSize = 14, par_bitrate = 2 * 10 ^ 6, par_rtsThresholdBytes = 3000, par_retryLimit = -1,
     par_cwMinData = -1, par_cwMinBroadcast = -1, par_address = ''auto'', par_hasQueueModule = False, par_interface = None\<rparr>"

definition wjunk0 :: "nat WMac" where
  "wjunk0 = \<lparr>myAddress = UNSPECIFIED_ADDRESS, bitrate = 0, basicBitrate = 0, maxQueueSize = 0, rtsThreshold = 0, transmissionLimit = 0,
     cwMinData = 0, cwMinBroadcast = 0, fixFSM = False, fsm = MAC_IDLE, sequenceNumber = 0, lastReceiveFailed = False, backoff = False,
     nav = False, backoffPeriod = 0, retryCounter = 0, radioState = IDLE, transmissionQueue = [], queueModule = False,
     pendingRadioConfigMsg = None, noFrame = False, wtimers = (\<lambda>_. None), sifsFrame = None, backoffSent = 0,
     wstats = \<lparr>numRetry = 0, numSentWithoutRetry = 0, numGivenUp = 0, numCollision = 0, numSent = 0, numReceived = 0,
       numSentBroadcast = 0, numReceivedBroadcast = 0, numReceivedOther = 0, numAckSend = 0\<rparr>,
     wdraws = (\<lambda>_. 3), wout = []\<rparr>"

definition station :: "u32 \<Rightarrow> nat WMac" where
  "station n = newWMac wpar0 (fst (generateAutoAddress n)) wjunk0"

definition wframe0 :: "nat Ieee80211Frame" where
  "wframe0 = newDataFrame\<lparr>receiverAddress := MACAddress 0x0A 0xAA 0 0 0 2, byteLength := 134\<rparr>"

definition wenv :: "rat \<Rightarrow> WEnv" where
  "wenv t = \<lparr>now = t / 10 ^ 6, FSM_MAXT = 64\<rparr>"

definition wmac1 :: "nat WMac" where
  "wmac1 = (station 0)\<lparr>sequenceNumber := 1, noFrame := False, fsm := WAITDIFS, wtimers := (\<lambda>_. None)(endDIFS \<mapsto> 50 / 10 ^ 6),
     transmissionQueue := [wframe0\<lparr>transmitterAddress := MACAddress 0x0A 0xAA 0 0 0 1, frameSequence := 0\<rparr>]\<rparr>"

definition wsent :: "nat Ieee80211Frame" where
  "wsent = (hd (transmissionQueue wmac1))\<lparr>duration := 258 / 10 ^ 6\<rparr>"

definition wmac2 :: "nat WMac" where
  "wmac2 = wmac1\<lparr>fsm := WAITACK, wtimers := (\<lambda>_. None)(endTimeout \<mapsto> 1040 / 10 ^ 6), wout := [SendDown wsent]\<rparr>"

definition wmac3 :: "nat WMac" where
  "wmac3 = wmac2\<lparr>fsm := WAITDIFS, wtimers := (\<lambda>_. None)(endDIFS \<mapsto> 1090 / 10 ^ 6), retryCounter := 1, backoff := True, backoffPeriod := 60 / 10 ^ 6,
     transmissionQueue := [(hd (transmissionQueue wmac1))\<lparr>retry := True\<rparr>], wstats := (wstats wmac2)\<lparr>numRetry := 1\<rparr>\<rparr>"

lemma station_address [simp]:
  "fst (generateAutoAddress 0) = MACAddress 0x0A 0xAA 0 0 0 1" "fst (generateAutoAddress 1) = MACAddress 0x0A 0xAA 0 0 0 2"
  by (simp_all add: generateAutoAddress_def Let_def)

lemma station_init: "wlan_init (station n)"
  unfolding wlan_init_def
  by (intro exI [of _ wpar0] exI [of _ n] exI [of _ wjunk0] exI [of _ "snd (generateAutoAddress n)"])
    (simp add: wlan_par_ok_def wlan_initialize_def wpar0_def default_to_def CW_MIN_def INT_MAX_def station_def case_prod_beta registerInterface_def
      wlan_initializeQueueModule_def)

lemmas wstates = station_def newWMac_def wjunk0_def wpar0_def default_to_def CW_MIN_def wmac1_def wmac2_def wmac3_def wframe0_def wenv_def
  newDataFrame_def newFrame_def wsent_def

lemma wframe0_ok: "from_above wframe0" "byteLength wframe0 \<le> fragmentationThreshold" "\<not> isUnspecified (receiverAddress wframe0)" "isDataOrMgmtFrame wframe0"
  by (simp_all add: wstates from_above_def typed_def isDataOrMgmtFrame_def fragmentationThreshold_def UNSPECIFIED_ADDRESS_def)

lemma FSMA_Switch_numeral:
  "FSMA_Switch (numeral k) w msg is_event s =
     bindR (if is_event then Inr s else enter w msg s) (\<lambda>s.
     bindR (fire is_event (transitions w msg s) s) (\<lambda>(fired, s).
       if fired then FSMA_Switch (pred_numeral k) w msg False s else Inr s))"
  by (simp add: numeral_eq_Suc FSMA_Switch.simps)

lemmas wlan_run = FSMA_Switch_numeral transitions_def enter_def state_IDLE_def state_DEFER_def state_WAITDIFS_def state_WAITACK_def checkR_def updR_def ifR_def
  whenR_def outW_def cancelW_def scheduleW_def invalidateBackoffPeriod_def isInvalidBackoffPeriod_def isMediumFree_def getCurrentTransmission_def derefFrame_def
  needsRTS_def isBroadcastFrame_def scheduleDIFSPeriod_def sendDataFrame_def buildDataFrame_def computeFrameDuration_def frameDuration_def
  scheduleDataTimeoutPeriod_def sendDownPendingRadioConfigMsg_def isMediumStateChange_def retryCurrentTransmission_def setCurrentRetry_def
  generateBackoffPeriod_def computeBackoffPeriod_def contentionWindow_def rand_value_def rand_next_def INT_MAX_def CW_MAX_def wlan_times

lemma not_broadcast [simp]: "MACAddress 10 170 0 0 0 2 \<noteq> BROADCAST_ADDRESS"
  by (simp add: BROADCAST_ADDRESS_def)

lemma wmac1_step: "wlan_step (station 0) wmac1"
proof (rule wlan_step.event)
  show "wlan_env_ok (wenv 0) (FromUpper wframe0) (station 0)" using wframe0_ok by (simp add: wlan_env_ok_def wstates)
  have "wlan_handleUpperMsg (wenv 0) wframe0 (station 0) = FSMA_Switch 64 (wenv 0) (UpperMsg (hd (transmissionQueue wmac1))) True
      (wmac1\<lparr>fsm := MAC_IDLE, wtimers := (\<lambda>_. None)\<rparr>)"
    using wframe0_ok by (simp add: wlan_handleUpperMsg_def whenR_def checkR_def handle_upper Let_def) (simp add: wstates)
  then show "wlan_handleMessage (wenv 0) (FromUpper wframe0) (station 0) = Inr wmac1" by (simp add: wstates wlan_run)
qed

lemma wmac2_step: "wlan_step wmac1 wmac2"
proof (rule wlan_step.event)
  show "wlan_env_ok (wenv 50) (TimerFired endDIFS) wmac1" by (simp add: wlan_env_ok_def wstates)
  show "wlan_handleMessage (wenv 50) (TimerFired endDIFS) wmac1 = Inr wmac2"
    by (simp add: wlan_handleSelfMsg_def wstates wlan_run handle_self)
qed

lemma wmac3_step: "wlan_step wmac2 wmac3"
proof (rule wlan_step.event)
  show "wlan_env_ok (wenv 1040) (TimerFired endTimeout) wmac2" by (simp add: wlan_env_ok_def wstates)
  show "wlan_handleMessage (wenv 1040) (TimerFired endTimeout) wmac2 = Inr wmac3"
    by (simp add: wlan_handleSelfMsg_def wstates wlan_run handle_self)
qed

lemma wlan_reached: "wlan_step\<^sup>*\<^sup>* (station 0) wmac2" "wlan_step\<^sup>*\<^sup>* (station 0) wmac3"
  using wmac1_step wmac2_step wmac3_step by (meson converse_rtranclp_into_rtranclp rtranclp.rtrancl_refl)+

theorem wlan_events_handled_witness:
  "wlan_init (station 0) \<and> wlan_step\<^sup>*\<^sup>* (station 0) wmac2 \<and> wlan_env_ok (wenv 1040) (TimerFired endTimeout) wmac2 \<and>
    (\<exists>s'. wlan_handleMessage (wenv 1040) (TimerFired endTimeout) wmac2 = Inr s' \<and> (\<forall>f. SendDown f \<in> set (wout s') \<longrightarrow> on_air f))"
proof -
  have env: "wlan_env_ok (wenv 1040) (TimerFired endTimeout) wmac2" by (simp add: wlan_env_ok_def wstates)
  show ?thesis using wlan_events_handled [OF station_init wlan_reached(1) env] env station_init wlan_reached(1) by blast
qed

text \<open>A station that finds the medium busy when it is given a frame defers.\<close>

definition wmac4 :: "nat WMac" where
  "wmac4 = (station 0)\<lparr>radioState := RECV\<rparr>"

definition wmac5 :: "nat WMac" where
  "wmac5 = wmac1\<lparr>radioState := RECV, fsm := DEFER, backoff := True, wtimers := (\<lambda>_. None)\<rparr>"

lemma wmac4_step: "wlan_step (station 0) wmac4"
proof (rule wlan_step.event)
  show "wlan_env_ok (wenv 0) (RadioStateChanged RECV) (station 0)" by (simp add: wlan_env_ok_def wstates)
  show "wlan_handleMessage (wenv 0) (RadioStateChanged RECV) (station 0) = Inr wmac4"
    by (simp add: wlan_receiveChangeNotification_def wmac4_def wstates wlan_run handle_self)
qed

lemma wmac5_step: "wlan_step wmac4 wmac5"
proof (rule wlan_step.event)
  show "wlan_env_ok (wenv 0) (FromUpper wframe0) wmac4" using wframe0_ok by (simp add: wlan_env_ok_def wmac4_def wstates)
  have "wlan_handleUpperMsg (wenv 0) wframe0 wmac4 = FSMA_Switch 64 (wenv 0) (UpperMsg (hd (transmissionQueue wmac1))) True
      (wmac5\<lparr>fsm := MAC_IDLE, backoff := False\<rparr>)"
    using wframe0_ok by (simp add: wlan_handleUpperMsg_def whenR_def checkR_def handle_upper Let_def) (simp add: wmac4_def wmac5_def wstates)
  then show "wlan_handleMessage (wenv 0) (FromUpper wframe0) wmac4 = Inr wmac5" by (simp add: wmac5_def wstates wlan_run)
qed

theorem wlan_never_stuck_witness:
  "wlan_init (station 0) \<and> wlan_step\<^sup>*\<^sup>* (station 0) wmac5 \<and>
    (\<exists>s'. wlan_handleMessage (wenv 9) (RadioStateChanged IDLE) wmac5 = Inr s' \<and> fsm s' = WAITDIFS \<and> wtimers s' endDIFS \<noteq> None)"
proof -
  have r: "wlan_step\<^sup>*\<^sup>* (station 0) wmac5" using wmac4_step wmac5_step by (meson converse_rtranclp_into_rtranclp rtranclp.rtrancl_refl)
  have "fsm wmac5 = DEFER" "wtimers wmac5 t = None" for t by (simp_all add: wmac5_def)
  moreover have "wlan_env_ok (wenv 9) (RadioStateChanged IDLE) wmac5" by (simp add: wlan_env_ok_def wmac5_def wstates)
  ultimately show ?thesis using wlan_never_stuck [OF station_init r] r station_init by auto
qed

lemma wsent_on_air: "on_air wsent" "isDataOrMgmtFrame wsent"
  by (simp_all add: on_air_def typed_def isDataOrMgmtFrame_def wstates)

theorem data_frame_acknowledged_witness:
  "wlan_init (station 1) \<and> wlan_step\<^sup>*\<^sup>* (station 0) wmac2 \<and> wlan_env_ok (wenv 780) (FromLower wsent) (station 1) \<and>
    (\<exists>r1. wlan_handleMessage (wenv 780) (FromLower wsent) (station 1) = Inr r1 \<and> SendUp wsent \<in> set (wout r1) \<and>
    wtimers r1 endSIFS = Some (now (wenv 780) + getSIFS))"
proof -
  have env: "wlan_env_ok (wenv 780) (FromLower wsent) (station 1)" using wsent_on_air by (simp add: wlan_env_ok_def) (simp add: wstates)
  have f: "receiverAddress wsent = myAddress (station 1)" "\<not> isBroadcast (receiverAddress wsent)" "msgKind wsent \<notin> {COLLISION, BITERROR}"
    "transmitterAddress wsent = myAddress wmac2" "wsent\<lparr>frameControl := None\<rparr> = wsent" "fsm (station 1) \<in> {MAC_IDLE, DEFER, WAITDIFS}" "fsm wmac2 = WAITACK"
    by (simp_all add: wstates COLLISION_def BITERROR_def)
  show ?thesis
    using data_frame_acknowledged [OF station_init rtranclp.rtrancl_refl f(6) env f(1) wsent_on_air(2) f(2,3) station_init wlan_reached(1) f(7,4)] env station_init
      wlan_reached(1) f(5) by fastforce
qed

theorem overheard_frame_resets_retries_witness:
  "wlan_init (station 0) \<and> wlan_step\<^sup>*\<^sup>* (station 0) wmac3 \<and> retryCounter wmac3 = 1 \<and>
    (\<exists>s'. wlan_handleMessage (wenv 1050) (FromLower (wsent\<lparr>transmitterAddress := MACAddress 0x0A 0xAA 0 0 0 3\<rparr>)) wmac3 = Inr s' \<and> retryCounter s' = 0 \<and>
      length (transmissionQueue s') = 1)"
proof -
  let ?f = "wsent\<lparr>transmitterAddress := MACAddress 0x0A 0xAA 0 0 0 3\<rparr>"
  have "on_air ?f" using wsent_on_air by (simp add: on_air_def typed_def isDataOrMgmtFrame_def)
  then have env: "wlan_env_ok (wenv 1050) (FromLower ?f) wmac3" by (simp add: wlan_env_ok_def) (simp add: wstates)
  have f: "fsm wmac3 \<in> {DEFER, WAITDIFS}" "transmissionQueue wmac3 \<noteq> []" "receiverAddress ?f \<noteq> myAddress wmac3" "retryCounter wmac3 = 1" "\<not> fixFSM wmac3"
    "length (transmissionQueue wmac3) = 1" by (simp_all add: wstates)
  show ?thesis
    using overheard_frame_resets_retries [OF station_init wlan_reached(2) f(1,2) env f(3)] f(4-6) wlan_reached(2) station_init by auto
qed

theorem missing_answer_retried_witness:
  "wlan_init (station 0) \<and> wlan_step\<^sup>*\<^sup>* (station 0) wmac2 \<and> wlan_env_ok (wenv 1040) (TimerFired endTimeout) wmac2 \<and>
    (\<exists>s'. wlan_handleMessage (wenv 1040) (TimerFired endTimeout) wmac2 = Inr s' \<and> retryCounter s' = 1)"
proof -
  have env: "wlan_env_ok (wenv 1040) (TimerFired endTimeout) wmac2" by (simp add: wlan_env_ok_def wstates)
  have f: "fsm wmac2 \<in> {WAITACK, WAITCTS}" "retryCounter wmac2 = 0" "transmissionLimit wmac2 = 7" by (simp_all add: wstates)
  show ?thesis using missing_answer_retried [OF station_init wlan_reached(1) f(1) env] f(2,3) env wlan_reached(1) station_init by auto
qed

end
