(* ===== verification/Spec2Isabelle.thy ===== *)
theory Spec2Isabelle
  imports SR_Routes Mac_Timing Phy_Safety Wlan_Safety
begin

text \<open>
  A verification library for the self-organising routing simulation under \<open>src/inet/src/srwsn\<close>.
\<close>

end
